(* ===== verification/Prelude.thy ===== *)
theory Prelude
  imports Complex_Main "HOL-Library.Char_ord" "HOL-Library.List_Lexorder"
begin

text \<open>
  What every component of the model shares: the values a Python program reads out of
  JSON, YAML and JSONB columns with the operations of the language on them
  (truth, \<open>or\<close>, \<open>dict.get\<close>, \<open>str\<close>, \<open>int\<close>), UUID texts, the list update by key that
  stands for an SQL \<open>UPDATE ... WHERE\<close>, the two interfaces that several components
  implement (a table of rows with a primary key, a status machine), and the theorem
  collections the component proofs use.

  Characters are code points below 256. Floats do not occur in configuration values here
  (the expression evaluator adds them for its own values).
\<close>

named_theorems py_simps "evaluation of Python values"

section \<open>Configuration values\<close>

datatype pv =
    PNone
  | PBool bool
  | PInt int
  | PStr string
  | PList "pv list"
  | PDict "(string \<times> pv) list"

type_synonym config = "(string \<times> pv) list"

fun truthy :: "pv \<Rightarrow> bool" where
  "truthy PNone = False"
| "truthy (PBool b) = b"
| "truthy (PInt i) = (i \<noteq> 0)"
| "truthy (PStr s) = (s \<noteq> [])"
| "truthy (PList xs) = (xs \<noteq> [])"
| "truthy (PDict d) = (d \<noteq> [])"

text \<open>\<open>d.get(k)\<close>; the keys of a dictionary are distinct, so the first match is the only one.\<close>

definition cfg_get :: "config \<Rightarrow> string \<Rightarrow> pv" where
  "cfg_get d k = (case map_of d k of None \<Rightarrow> PNone | Some v \<Rightarrow> v)"

definition has_key :: "config \<Rightarrow> string \<Rightarrow> bool" where
  "has_key d k = (map_of d k \<noteq> None)"

definition py_or :: "pv \<Rightarrow> pv \<Rightarrow> pv" where
  "py_or a b = (if truthy a then a else b)"

fun is_str :: "pv \<Rightarrow> bool" where
  "is_str (PStr s) = True"
| "is_str _ = False"

text \<open>\<open>{**a, **b}\<close>: the entries of \<open>b\<close> replace those of \<open>a\<close> in place and are appended otherwise.\<close>

fun dict_put :: "config \<Rightarrow> string \<times> pv \<Rightarrow> config" where
  "dict_put [] kv = [kv]"
| "dict_put (e # d) kv = (if fst e = fst kv then kv # d else e # dict_put d kv)"

definition dict_merge :: "config \<Rightarrow> config \<Rightarrow> config" where
  "dict_merge a b = foldl dict_put a b"

lemma map_of_dict_put: "map_of (dict_put d kv) = (map_of d)(fst kv \<mapsto> snd kv)"
  by (induction d) (auto simp: fun_eq_iff)

lemma map_of_dict_merge: "distinct (map fst b) \<Longrightarrow> map_of (dict_merge a b) = map_of a ++ map_of b"
  unfolding dict_merge_def
proof (induction b arbitrary: a)
  case Nil
  then show ?case by simp
next
  case (Cons e b)
  then have "fst e \<notin> fst ` set b" by simp
  with Cons show ?case
    by (cases e) (simp add: map_of_dict_put map_add_upd_left map_of_eq_None_iff
        dom_map_of_conv_image_fst del: fun_upd_apply)
qed

section \<open>Decimal text\<close>

definition digit_char :: "nat \<Rightarrow> char" where
  "digit_char n = char_of (48 + n)"

fun show_nat :: "nat \<Rightarrow> string" where
  "show_nat n = (if n < 10 then [digit_char n] else show_nat (n div 10) @ [digit_char (n mod 10)])"

declare show_nat.simps [simp del]

definition show_int :: "int \<Rightarrow> string" where
  "show_int i = (if i < 0 then ''-'' @ show_nat (nat (- i)) else show_nat (nat i))"

definition is_digit :: "char \<Rightarrow> bool" where
  "is_digit c = (48 \<le> (of_char c :: nat) \<and> (of_char c :: nat) \<le> 57)"

definition is_lower :: "char \<Rightarrow> bool" where
  "is_lower c = (97 \<le> (of_char c :: nat) \<and> (of_char c :: nat) \<le> 122)"

definition is_upper :: "char \<Rightarrow> bool" where
  "is_upper c = (65 \<le> (of_char c :: nat) \<and> (of_char c :: nat) \<le> 90)"

definition is_alnum :: "char \<Rightarrow> bool" where
  "is_alnum c = (is_digit c \<or> is_lower c \<or> is_upper c)"

definition to_lower :: "char \<Rightarrow> char" where
  "to_lower c = (if is_upper c then char_of ((of_char c :: nat) + 32) else c)"

definition to_upper :: "char \<Rightarrow> char" where
  "to_upper c = (if is_lower c then char_of ((of_char c :: nat) - 32) else c)"

lemma is_digit_digit_char: "n < 10 \<Longrightarrow> is_digit (digit_char n)"
  by (simp add: is_digit_def digit_char_def take_bit_eq_mod)

lemma show_nat_nonempty [simp]: "show_nat n \<noteq> []"
  by (subst show_nat.simps) simp

lemma show_nat_digits: "c \<in> set (show_nat n) \<Longrightarrow> is_digit c"
proof (induction n rule: show_nat.induct)
  case (1 n)
  show ?case
  proof (cases "n < 10")
    case True
    with "1.prems" show ?thesis
      by (subst (asm) show_nat.simps) (simp add: is_digit_digit_char)
  next
    case False
    with "1.prems" have "c \<in> set (show_nat (n div 10)) \<or> c = digit_char (n mod 10)"
      by (subst (asm) show_nat.simps) auto
    with False "1.IH" show ?thesis by (auto simp: is_digit_digit_char)
  qed
qed

text \<open>White space as \<open>str.strip\<close> removes it, and the text that \<open>int(text)\<close> accepts: an optional
  sign and decimal digits with single underscores between them, surrounded by white space.\<close>

definition is_space :: "char \<Rightarrow> bool" where
  "is_space c = ((of_char c :: nat) \<in> {9, 10, 11, 12, 13, 28, 29, 30, 31, 32, 133, 160})"

definition strip :: "string \<Rightarrow> string" where
  "strip s = rev (dropWhile is_space (rev (dropWhile is_space s)))"

fun parse_digits :: "nat \<Rightarrow> string \<Rightarrow> nat option" where
  "parse_digits acc [] = None"
| "parse_digits acc [c] = (if is_digit c then Some (10 * acc + (of_char c - 48)) else None)"
| "parse_digits acc (c # d # cs) =
    (if is_digit c then
       (if d = CHR ''_'' then parse_digits (10 * acc + (of_char c - 48)) cs
        else parse_digits (10 * acc + (of_char c - 48)) (d # cs))
     else None)"

definition int_of_text :: "string \<Rightarrow> int option" where
  "int_of_text s =
    (case strip s of
       [] \<Rightarrow> None
     | c # cs \<Rightarrow>
         if c = CHR ''-'' then map_option (\<lambda>n. - int n) (parse_digits 0 cs)
         else if c = CHR ''+'' then map_option int (parse_digits 0 cs)
         else map_option int (parse_digits 0 (c # cs)))"

section \<open>Text of values\<close>

text \<open>\<open>repr\<close> of a string: single quotes unless it holds a single quote and no double quote.\<close>

definition hex_digit :: "nat \<Rightarrow> char" where
  "hex_digit n = (if n < 10 then char_of (48 + n) else char_of (87 + n))"

definition repr_char :: "char \<Rightarrow> char \<Rightarrow> string" where
  "repr_char quote c =
    (let n = of_char c :: nat in
     if c = quote \<or> n = 92 then [char_of (92::nat), c]
     else if n = 9 then [char_of (92::nat), CHR ''t'']
     else if n = 10 then [char_of (92::nat), CHR ''n'']
     else if n = 13 then [char_of (92::nat), CHR ''r'']
     else if n < 32 \<or> (127 \<le> n \<and> n \<le> 160) \<or> n = 173
       then [char_of (92::nat), CHR ''x'', hex_digit (n div 16), hex_digit (n mod 16)]
     else [c])"

definition repr_str :: "string \<Rightarrow> string" where
  "repr_str s =
    (let sq = char_of (39::nat); dq = char_of (34::nat);
         quote = (if sq \<in> set s \<and> dq \<notin> set s then dq else sq)
     in [quote] @ concat (map (repr_char quote) s) @ [quote])"

fun join :: "string \<Rightarrow> string list \<Rightarrow> string" where
  "join sep [] = []"
| "join sep [x] = x"
| "join sep (x # y # xs) = x @ sep @ join sep (y # xs)"

fun pyrepr :: "pv \<Rightarrow> string" where
  "pyrepr PNone = ''None''"
| "pyrepr (PBool b) = (if b then ''True'' else ''False'')"
| "pyrepr (PInt i) = show_int i"
| "pyrepr (PStr s) = repr_str s"
| "pyrepr (PList xs) = ''['' @ join '', '' (map pyrepr xs) @ '']''"
| "pyrepr (PDict d) =
    ''{'' @ join '', '' (map (\<lambda>e. repr_str (fst e) @ '': '' @ pyrepr (snd e)) d) @ ''}''"

definition pystr :: "pv \<Rightarrow> string" where
  "pystr v = (case v of PStr s \<Rightarrow> s | _ \<Rightarrow> pyrepr v)"

lemma pystr_PStr [simp]: "pystr (PStr s) = s"
  by (simp add: pystr_def)

section \<open>Exceptions\<close>

text \<open>The exceptions the modelled code raises or lets pass. The text of a message is kept where
  the code stores it in a row, otherwise the constructor names the branch that raised.\<close>

datatype exn =
    WorkflowRunError string
  | ValueError string
  | TypeError string
  | KeyError string
  | PermissionError string
  | HTTPException nat string
  | DatabaseError string
  | AttributeError string

text \<open>\<open>int(v)\<close>.\<close>

definition py_int :: "pv \<Rightarrow> exn + int" where
  "py_int v = (case v of
      PInt i \<Rightarrow> Inr i
    | PBool b \<Rightarrow> Inr (if b then 1 else 0)
    | PStr s \<Rightarrow> (case int_of_text s of
          Some i \<Rightarrow> Inr i
        | None \<Rightarrow> Inl (ValueError (''invalid literal for int() with base 10: '' @ repr_str s)))
    | _ \<Rightarrow> Inl (TypeError ''int() argument must be a string, a bytes-like object or a real number''))"

definition sum_bind :: "'e + 'a \<Rightarrow> ('a \<Rightarrow> 'e + 'b) \<Rightarrow> 'e + 'b" where
  "sum_bind r f = (case r of Inl e \<Rightarrow> Inl e | Inr a \<Rightarrow> f a)"

lemma sum_bind_simps [simp]: "sum_bind (Inl e) f = Inl e" "sum_bind (Inr a) f = f a"
  by (simp_all add: sum_bind_def)

lemma sum_bind_Inr_iff: "sum_bind r f = Inr b \<longleftrightarrow> (\<exists>a. r = Inr a \<and> f a = Inr b)"
  by (cases r) auto

lemma sum_bind_Inl_iff: "sum_bind r f = Inl e \<longleftrightarrow> r = Inl e \<or> (\<exists>a. r = Inr a \<and> f a = Inl e)"
  by (cases r) auto

fun is_ok :: "'e + 'a \<Rightarrow> bool" where
  "is_ok (Inl e) = False"
| "is_ok (Inr a) = True"

section \<open>UUID texts\<close>

text \<open>A UUID is its canonical text. \<open>UUID(text)\<close> drops \<open>urn:\<close>, \<open>uuid:\<close>, surrounding braces and the
  dashes, wants 32 hexadecimal digits, and \<open>str\<close> writes them in lower case in groups of
  8, 4, 4, 4 and 12.\<close>

type_synonym uuid = string

fun remove_sub :: "string \<Rightarrow> string \<Rightarrow> string" where
  "remove_sub p [] = []"
| "remove_sub p (c # cs) =
    (if p \<noteq> [] \<and> take (length p) (c # cs) = p then remove_sub p (drop (length p - 1) cs)
     else c # remove_sub p cs)"

definition is_hex :: "char \<Rightarrow> bool" where
  "is_hex c = (is_digit c \<or> (97 \<le> (of_char c :: nat) \<and> (of_char c :: nat) \<le> 102)
               \<or> (65 \<le> (of_char c :: nat) \<and> (of_char c :: nat) \<le> 70))"

text \<open>The number of bytes of a text in UTF-8; characters are those up to 255.\<close>

definition utf8_length :: "string \<Rightarrow> nat" where
  "utf8_length s = sum_list (map (\<lambda>c. if (of_char c :: nat) < 128 then 1 else 2) s)"

definition strip_braces :: "string \<Rightarrow> string" where
  "strip_braces s =
    (let brace = (\<lambda>c. c = CHR ''{'' \<or> c = CHR ''}'') in rev (dropWhile brace (rev (dropWhile brace s))))"

definition uuid_parse :: "string \<Rightarrow> uuid option" where
  "uuid_parse s =
    (let h = filter (\<lambda>c. c \<noteq> CHR ''-'') (strip_braces (remove_sub ''uuid:'' (remove_sub ''urn:'' s)))
     in if length h = 32 \<and> list_all is_hex h
        then (let l = map to_lower h
              in Some (take 8 l @ ''-'' @ take 4 (drop 8 l) @ ''-'' @ take 4 (drop 12 l) @ ''-''
                       @ take 4 (drop 16 l) @ ''-'' @ drop 20 l))
        else None)"

text \<open>\<open>_safe_uuid(raw)\<close>: nothing for an absent, empty or malformed text.\<close>

definition safe_uuid :: "string option \<Rightarrow> uuid option" where
  "safe_uuid raw = (case raw of None \<Rightarrow> None | Some s \<Rightarrow> if s = [] then None else uuid_parse s)"

section \<open>Rows\<close>

text \<open>A table is the list of its rows in insertion order. \<open>sql_update\<close> is \<open>UPDATE ... WHERE\<close> (and the
  assignment to the loaded rows of a session), \<open>sql_first\<close> is the first row of a \<open>SELECT\<close> and
  \<open>db.get\<close> by primary key.\<close>

definition sql_update :: "('r \<Rightarrow> bool) \<Rightarrow> ('r \<Rightarrow> 'r) \<Rightarrow> 'r list \<Rightarrow> 'r list" where
  "sql_update p f rows = map (\<lambda>r. if p r then f r else r) rows"

definition sql_first :: "('r \<Rightarrow> bool) \<Rightarrow> 'r list \<Rightarrow> 'r option" where
  "sql_first p rows = List.find p rows"

definition sql_get :: "('r \<Rightarrow> 'k) \<Rightarrow> 'r list \<Rightarrow> 'k \<Rightarrow> 'r option" where
  "sql_get key rows k = sql_first (\<lambda>r. key r = k) rows"

definition sql_modify :: "('r \<Rightarrow> 'k) \<Rightarrow> 'k \<Rightarrow> ('r \<Rightarrow> 'r) \<Rightarrow> 'r list \<Rightarrow> 'r list" where
  "sql_modify key k f rows = sql_update (\<lambda>r. key r = k) f rows"

lemma length_sql_update [simp]: "length (sql_update p f rows) = length rows"
  by (simp add: sql_update_def)

lemma sql_update_Nil [simp]: "sql_update p f [] = []"
  by (simp add: sql_update_def)

lemma sql_update_Cons [simp]:
  "sql_update p f (r # rows) = (if p r then f r else r) # sql_update p f rows"
  by (simp add: sql_update_def)

lemma map_key_sql_update:
  "(\<And>r. p r \<Longrightarrow> key (f r) = key r) \<Longrightarrow> map key (sql_update p f rows) = map key rows"
  by (induction rows) auto

lemma in_set_sql_update:
  "r \<in> set (sql_update p f rows) \<longleftrightarrow> (\<exists>r0 \<in> set rows. r = (if p r0 then f r0 else r0))"
  by (auto simp: sql_update_def)

lemma sql_first_Nil [simp]: "sql_first p [] = None"
  by (simp add: sql_first_def)

lemma sql_first_Cons [simp]:
  "sql_first p (r # rows) = (if p r then Some r else sql_first p rows)"
  by (simp add: sql_first_def)

lemma sql_first_SomeD: "sql_first p rows = Some r \<Longrightarrow> r \<in> set rows \<and> p r"
  by (induction rows) (auto split: if_splits)

lemma sql_first_None_iff: "sql_first p rows = None \<longleftrightarrow> (\<forall>r \<in> set rows. \<not> p r)"
  by (induction rows) auto

lemma sql_get_SomeD: "sql_get key rows k = Some r \<Longrightarrow> r \<in> set rows \<and> key r = k"
  unfolding sql_get_def by (rule sql_first_SomeD)

lemma sql_get_None_iff: "sql_get key rows k = None \<longleftrightarrow> k \<notin> key ` set rows"
  by (auto simp: sql_get_def sql_first_None_iff)

lemma sql_get_append:
  "sql_get key (rows @ rows') k =
     (case sql_get key rows k of Some r \<Rightarrow> Some r | None \<Rightarrow> sql_get key rows' k)"
  unfolding sql_get_def by (induction rows) auto

lemma sql_get_update:
  assumes "\<And>r. p r \<Longrightarrow> key (f r) = key r"
  shows "sql_get key (sql_update p f rows) k =
    map_option (\<lambda>r. if p r then f r else r) (sql_get key rows k)"
  unfolding sql_get_def using assms by (induction rows) auto

lemma sql_get_distinct:
  "distinct (map key rows) \<Longrightarrow> r \<in> set rows \<Longrightarrow> sql_get key rows (key r) = Some r"
  unfolding sql_get_def by (induction rows) (auto simp: image_iff)

section \<open>Interfaces\<close>

text \<open>A table with a primary key, as the services use it: reading by key after changing the row of a
  key. \<open>keeps\<close> says which changes leave the key alone.\<close>

locale keyed_table =
  fixes get :: "'t \<Rightarrow> 'k \<Rightarrow> 'r option"
    and modify :: "'k \<Rightarrow> ('r \<Rightarrow> 'r) \<Rightarrow> 't \<Rightarrow> 't"
    and keeps :: "('r \<Rightarrow> 'r) \<Rightarrow> bool"
  assumes get_modify_same: "keeps f \<Longrightarrow> get (modify k f t) k = map_option f (get t k)"
    and get_modify_other: "keeps f \<Longrightarrow> k' \<noteq> k \<Longrightarrow> get (modify k f t) k' = get t k'"
begin

lemma get_modify:
  "keeps f \<Longrightarrow> get (modify k f t) k' = (if k' = k then map_option f (get t k) else get t k')"
  by (simp add: get_modify_same get_modify_other)

lemma get_modify_commute:
  "keeps f \<Longrightarrow> keeps g \<Longrightarrow> k \<noteq> k' \<Longrightarrow>
     get (modify k f (modify k' g t)) i = get (modify k' g (modify k f t)) i"
  by (simp add: get_modify)

lemma get_fold_modify_other:
  "keeps f \<Longrightarrow> k \<notin> set ks \<Longrightarrow> get (fold (\<lambda>i. modify i f) ks t) k = get t k"
  by (induction ks arbitrary: t) (auto simp: get_modify)

lemma get_fold_modify_in:
  "keeps f \<Longrightarrow> distinct ks \<Longrightarrow> k \<in> set ks \<Longrightarrow>
     get (fold (\<lambda>i. modify i f) ks t) k = map_option f (get t k)"
  by (induction ks arbitrary: t) (auto simp: get_modify get_fold_modify_other)

end

lemma keyed_table_sql:
  fixes key :: "'r \<Rightarrow> 'k"
  shows "keyed_table (sql_get key) (sql_modify key) (\<lambda>f. \<forall>r. key (f r) = key r)"
proof -
  have eq: "sql_get key (sql_modify key k f t) k' =
      map_option (\<lambda>r. if key r = k then f r else r) (sql_get key t k')"
    if "\<forall>r. key (f r) = key r" for f :: "'r \<Rightarrow> 'r" and k k' t
    unfolding sql_modify_def using that by (intro sql_get_update) simp
  have key: "key r = k" if "sql_get key t k = Some r" for t k r
    using sql_get_SomeD [OF that] by simp
  show ?thesis
    by unfold_locales
      (auto simp: eq map_option_case dest: key split: option.splits)
qed

text \<open>A status column: the changes that are legal and the statuses no change leaves.\<close>

locale status_machine =
  fixes legal :: "'s \<Rightarrow> 's \<Rightarrow> bool"
    and final :: "'s \<Rightarrow> bool"
  assumes final_stuck: "final s \<Longrightarrow> \<not> legal s t"
begin

lemma final_rtranclp: "legal\<^sup>*\<^sup>* s t \<Longrightarrow> final s \<Longrightarrow> t = s"
  by (induction rule: converse_rtranclp_induct) (auto dest: final_stuck)

lemma final_history:
  "successively (\<lambda>s t. t = s \<or> legal s t) (s # ss) \<Longrightarrow> final s \<Longrightarrow> t \<in> set ss \<Longrightarrow> t = s"
proof (induction ss arbitrary: s)
  case Nil
  then show ?case by simp
next
  case (Cons u ss)
  then have "u = s" by (auto dest: final_stuck)
  with Cons show ?case by auto
qed

end

text \<open>A status machine in which every change uses up rank: a row changes its status only so often.\<close>

locale graded_machine = status_machine +
  fixes rank :: "'s \<Rightarrow> nat"
  assumes rank_decreases: "legal s t \<Longrightarrow> rank t < rank s"
begin

lemma legal_not_refl: "\<not> legal s s"
  using rank_decreases by blast

lemma changes_bounded:
  "successively legal (s # ss) \<Longrightarrow> length ss \<le> rank s"
proof (induction ss arbitrary: s)
  case Nil
  then show ?case by simp
next
  case (Cons u ss)
  then have "length ss \<le> rank u" and "rank u < rank s"
    by (auto intro: rank_decreases)
  then show ?case by simp
qed

lemma rank_rtranclp: "legal\<^sup>*\<^sup>* s t \<Longrightarrow> rank t \<le> rank s"
  by (induction rule: rtranclp_induct) (auto dest: rank_decreases)

end

end
