(* ===== verification/Expr.thy ===== *)
theory Expr
  imports Prelude
begin

text \<open>
  \<open>utils/expr.py\<close>: the restricted expressions of \<open>condition\<close> steps. The syntax tree is the one
  \<open>ast.parse\<close> builds; a node class the evaluator does not know is \<open>Other\<close> with its class name
  and its sub-expressions. Parsing the text is a parameter (the interpreter's own parser), and so is
  what the interpreter decides outside the repository: object identity of values that are not
  singletons and the attributes of built-in values.
\<close>

section \<open>Syntax trees\<close>

datatype boolop = OpAnd | OpOr
datatype unop = OpNot | OpUSub | OpUAdd | OpInvert
datatype cmpop = OpEq | OpNotEq | OpLt | OpLtE | OpGt | OpGtE | OpIs | OpIsNot | OpIn | OpNotIn
datatype const = CNone | CBool bool | CInt int | CFloat rat | CStr string

datatype expr =
    BoolOp boolop "expr list"
  | UnaryOp unop expr
  | Compare expr "(cmpop \<times> expr) list"
  | Name string
  | Attribute expr string
  | Subscript expr expr
  | Constant const
  | Other string "expr list"

datatype expr_error =
    DisallowedConstruct string
  | AttributeNotAccessible string
  | NameNotAccessible string
  | UnknownName string
  | InvalidSyntax string
  | EvaluationFailed

text \<open>The nodes \<open>ast.walk\<close> yields below the root: expressions and operator or context objects.\<close>

datatype node = ExprNode expr | OpNode string

fun unop_class :: "unop \<Rightarrow> string" where
  "unop_class OpNot = ''Not''"
| "unop_class OpUSub = ''USub''"
| "unop_class OpUAdd = ''UAdd''"
| "unop_class OpInvert = ''Invert''"

fun boolop_class :: "boolop \<Rightarrow> string" where
  "boolop_class OpAnd = ''And''"
| "boolop_class OpOr = ''Or''"

fun cmpop_class :: "cmpop \<Rightarrow> string" where
  "cmpop_class OpEq = ''Eq''"
| "cmpop_class OpNotEq = ''NotEq''"
| "cmpop_class OpLt = ''Lt''"
| "cmpop_class OpLtE = ''LtE''"
| "cmpop_class OpGt = ''Gt''"
| "cmpop_class OpGtE = ''GtE''"
| "cmpop_class OpIs = ''Is''"
| "cmpop_class OpIsNot = ''IsNot''"
| "cmpop_class OpIn = ''In''"
| "cmpop_class OpNotIn = ''NotIn''"

fun node_class :: "node \<Rightarrow> string" where
  "node_class (OpNode n) = n"
| "node_class (ExprNode (BoolOp b es)) = ''BoolOp''"
| "node_class (ExprNode (UnaryOp u e)) = ''UnaryOp''"
| "node_class (ExprNode (Compare e cs)) = ''Compare''"
| "node_class (ExprNode (Name n)) = ''Name''"
| "node_class (ExprNode (Attribute e a)) = ''Attribute''"
| "node_class (ExprNode (Subscript e i)) = ''Subscript''"
| "node_class (ExprNode (Constant c)) = ''Constant''"
| "node_class (ExprNode (Other n es)) = n"

fun child_nodes :: "node \<Rightarrow> node list" where
  "child_nodes (OpNode n) = []"
| "child_nodes (ExprNode (BoolOp b es)) = OpNode (boolop_class b) # map ExprNode es"
| "child_nodes (ExprNode (UnaryOp u e)) = [OpNode (unop_class u), ExprNode e]"
| "child_nodes (ExprNode (Compare e cs)) =
     ExprNode e # map (\<lambda>c. OpNode (cmpop_class (fst c))) cs @ map (\<lambda>c. ExprNode (snd c)) cs"
| "child_nodes (ExprNode (Name n)) = [OpNode ''Load'']"
| "child_nodes (ExprNode (Attribute e a)) = [ExprNode e, OpNode ''Load'']"
| "child_nodes (ExprNode (Subscript e i)) = [ExprNode e, ExprNode i, OpNode ''Load'']"
| "child_nodes (ExprNode (Constant c)) = []"
| "child_nodes (ExprNode (Other n es)) = map ExprNode es"

definition allowed_nodes :: "string list" where
  "allowed_nodes =
    [''Expression'', ''BoolOp'', ''And'', ''Or'', ''UnaryOp'', ''Not'',
     ''USub'', ''UAdd'', ''Compare'', ''Eq'', ''NotEq'', ''Lt'', ''LtE'',
     ''Gt'', ''GtE'', ''In'', ''NotIn'', ''Is'', ''IsNot'',
     ''Name'', ''Load'', ''Attribute'', ''Constant'', ''Subscript'']"

definition is_private :: "string \<Rightarrow> bool" where
  "is_private n = (n \<noteq> [] \<and> hd n = CHR ''_'')"

text \<open>One iteration of the loop in \<open>_validate\<close>. An \<open>Other\<close> node is not of an allowed class, whatever
  text its class name is.\<close>

definition node_error :: "node \<Rightarrow> expr_error option" where
  "node_error n =
    (if node_class n \<notin> set allowed_nodes \<or> (case n of ExprNode (Other c es) \<Rightarrow> True | _ \<Rightarrow> False)
       then Some (DisallowedConstruct (node_class n))
     else (case n of
         ExprNode (Attribute e a) \<Rightarrow> if is_private a then Some (AttributeNotAccessible a) else None
       | ExprNode (Name x) \<Rightarrow> if is_private x then Some (NameNotAccessible x) else None
       | _ \<Rightarrow> None))"

fun expr_size :: "expr \<Rightarrow> nat" where
  "expr_size (BoolOp b es) = 2 + sum_list (map expr_size es)"
| "expr_size (UnaryOp u e) = 2 + expr_size e"
| "expr_size (Compare e cs) = 1 + expr_size e + sum_list (map (\<lambda>c. 1 + expr_size (snd c)) cs)"
| "expr_size (Name n) = 2"
| "expr_size (Attribute e a) = 2 + expr_size e"
| "expr_size (Subscript e i) = 2 + expr_size e + expr_size i"
| "expr_size (Constant c) = 1"
| "expr_size (Other n es) = 1 + sum_list (map expr_size es)"

lemma expr_size_pos [simp]: "0 < expr_size e"
  by (cases e) simp_all

fun node_size :: "node \<Rightarrow> nat" where
  "node_size (OpNode n) = 1"
| "node_size (ExprNode e) = expr_size e"

lemma sum_list_Suc_map: "sum_list (map (\<lambda>c. Suc (f c)) cs) = length cs + sum_list (map f cs)"
  by (induction cs) auto

lemma child_nodes_smaller: "sum_list (map node_size (child_nodes n)) < node_size n"
  by (induction n rule: child_nodes.induct) (auto simp: comp_def sum_list_Suc_map sum_list_triv)

text \<open>\<open>ast.walk\<close>: breadth first, with a queue.\<close>

function walk :: "node list \<Rightarrow> node list" where
  "walk [] = []"
| "walk (n # todo) = n # walk (todo @ child_nodes n)"
  by pat_completeness auto
termination
  by (relation "measure (\<lambda>ns. sum_list (map node_size ns))") (auto simp: child_nodes_smaller)

fun first_error :: "node list \<Rightarrow> expr_error option" where
  "first_error [] = None"
| "first_error (n # ns) = (case node_error n of Some e \<Rightarrow> Some e | None \<Rightarrow> first_error ns)"

definition validate :: "expr \<Rightarrow> expr_error option" where
  "validate tree = first_error (walk [ExprNode tree])"

definition validate_expression :: "(string \<Rightarrow> string + expr) \<Rightarrow> string \<Rightarrow> expr_error option" where
  "validate_expression parse expression =
    (case parse expression of
       Inl msg \<Rightarrow> Some (InvalidSyntax msg)
     | Inr tree \<Rightarrow> validate tree)"

section \<open>Values and evaluation\<close>

text \<open>\<open>VAttr\<close> is an \<open>_AttrDict\<close> around a dictionary, \<open>VBuiltin\<close> a value the interpreter makes for an
  attribute of a built-in value (a bound method).\<close>

datatype val =
    VNone
  | VBool bool
  | VInt int
  | VFloat rat
  | VStr string
  | VList "val list"
  | VDict "(string \<times> val) list"
  | VAttr "(string \<times> val) list"
  | VBuiltin val string

record interpreter =
  same_object :: "val \<Rightarrow> val \<Rightarrow> bool"
  builtin_attr :: "val \<Rightarrow> string \<Rightarrow> val option"

fun val_of_pv :: "pv \<Rightarrow> val" where
  "val_of_pv PNone = VNone"
| "val_of_pv (PBool b) = VBool b"
| "val_of_pv (PInt i) = VInt i"
| "val_of_pv (PStr s) = VStr s"
| "val_of_pv (PList xs) = VList (map val_of_pv xs)"
| "val_of_pv (PDict d) = VDict (map (\<lambda>e. (fst e, val_of_pv (snd e))) d)"

fun val_truth :: "val \<Rightarrow> bool" where
  "val_truth VNone = False"
| "val_truth (VBool b) = b"
| "val_truth (VInt i) = (i \<noteq> 0)"
| "val_truth (VFloat r) = (r \<noteq> 0)"
| "val_truth (VStr s) = (s \<noteq> [])"
| "val_truth (VList xs) = (xs \<noteq> [])"
| "val_truth (VDict d) = (d \<noteq> [])"
| "val_truth (VAttr d) = True"
| "val_truth (VBuiltin v a) = True"

fun num_of :: "val \<Rightarrow> rat option" where
  "num_of (VBool b) = Some (if b then 1 else 0)"
| "num_of (VInt i) = Some (of_int i)"
| "num_of (VFloat r) = Some r"
| "num_of _ = None"

fun is_object :: "val \<Rightarrow> bool" where
  "is_object (VAttr d) = True"
| "is_object (VBuiltin v a) = True"
| "is_object _ = False"

fun py_eq :: "interpreter \<Rightarrow> val \<Rightarrow> val \<Rightarrow> bool"
  and py_eq_list :: "interpreter \<Rightarrow> val list \<Rightarrow> val list \<Rightarrow> bool"
  and py_eq_dict :: "interpreter \<Rightarrow> (string \<times> val) list \<Rightarrow> (string \<times> val) list \<Rightarrow> bool" where
  "py_eq py (VStr s) w = (w = VStr s)"
| "py_eq py VNone w = (w = VNone)"
| "py_eq py (VList xs) w = (case w of VList ys \<Rightarrow> py_eq_list py xs ys | _ \<Rightarrow> False)"
| "py_eq py (VDict d) w = (case w of VDict e \<Rightarrow> length d = length e \<and> py_eq_dict py d e | _ \<Rightarrow> False)"
| "py_eq py v w =
    (if is_object v then is_object w \<and> same_object py v w
     else num_of v = num_of w)"
| "py_eq_list py [] ys = (ys = [])"
| "py_eq_list py (x # xs) ys = (case ys of [] \<Rightarrow> False | y # ys' \<Rightarrow> py_eq py x y \<and> py_eq_list py xs ys')"
| "py_eq_dict py [] e = True"
| "py_eq_dict py ((k, v) # d) e =
    (case map_of e k of None \<Rightarrow> False | Some w \<Rightarrow> py_eq py v w \<and> py_eq_dict py d e)"

definition order_rel :: "cmpop \<Rightarrow> 'a::linorder \<Rightarrow> 'a \<Rightarrow> bool" where
  "order_rel c a b =
    (case c of OpLt \<Rightarrow> a < b | OpLtE \<Rightarrow> a \<le> b | OpGt \<Rightarrow> a > b | OpGtE \<Rightarrow> a \<ge> b | _ \<Rightarrow> False)"

text \<open>\<open><\<close>, \<open><=\<close>, \<open>>\<close>, \<open>>=\<close>: numbers by value, strings and lists lexicographically, a \<open>TypeError\<close>
  (\<open>None\<close>) otherwise.\<close>

fun py_order :: "interpreter \<Rightarrow> cmpop \<Rightarrow> val \<Rightarrow> val \<Rightarrow> bool option"
  and py_order_list :: "interpreter \<Rightarrow> cmpop \<Rightarrow> val list \<Rightarrow> val list \<Rightarrow> bool option" where
  "py_order py c (VStr s) w = (case w of VStr t \<Rightarrow> Some (order_rel c s t) | _ \<Rightarrow> None)"
| "py_order py c (VList xs) w = (case w of VList ys \<Rightarrow> py_order_list py c xs ys | _ \<Rightarrow> None)"
| "py_order py c v w =
    (case (num_of v, num_of w) of (Some a, Some b) \<Rightarrow> Some (order_rel c a b) | _ \<Rightarrow> None)"
| "py_order_list py c [] ys = Some (order_rel c 0 (length ys))"
| "py_order_list py c (x # xs) ys =
    (case ys of
       [] \<Rightarrow> Some (order_rel c (Suc (length xs)) 0)
     | y # ys' \<Rightarrow> if py_eq py x y then py_order_list py c xs ys' else py_order py c x y)"

definition py_is :: "interpreter \<Rightarrow> val \<Rightarrow> val \<Rightarrow> bool" where
  "py_is py v w =
    (if v = VNone \<or> w = VNone \<or> (\<exists>b \<in> {True, False}. v = VBool b \<or> w = VBool b)
     then v = w else same_object py v w)"

fun is_substring :: "string \<Rightarrow> string \<Rightarrow> bool" where
  "is_substring s [] = (s = [])"
| "is_substring s (c # cs) = (take (length s) (c # cs) = s \<or> is_substring s cs)"

fun hashable :: "val \<Rightarrow> bool" where
  "hashable (VList xs) = False"
| "hashable (VDict d) = False"
| "hashable _ = True"

text \<open>\<open>v in w\<close>. An \<open>_AttrDict\<close> has no \<open>__contains__\<close> and no \<open>__iter__\<close>: the interpreter falls back to
  \<open>w[0]\<close>, whose key has no \<open>startswith\<close>.\<close>

definition py_in :: "interpreter \<Rightarrow> val \<Rightarrow> val \<Rightarrow> bool option" where
  "py_in py v w =
    (case w of
       VStr t \<Rightarrow> (case v of VStr s \<Rightarrow> Some (is_substring s t) | _ \<Rightarrow> None)
     | VList ys \<Rightarrow> Some (\<exists>y \<in> set ys. py_eq py v y)
     | VDict d \<Rightarrow> if hashable v then Some (\<exists>k \<in> fst ` set d. v = VStr k) else None
     | _ \<Rightarrow> None)"

definition compare_op :: "interpreter \<Rightarrow> cmpop \<Rightarrow> val \<Rightarrow> val \<Rightarrow> expr_error + bool" where
  "compare_op py c v w =
    (let lift = (\<lambda>r. case r of None \<Rightarrow> Inl EvaluationFailed | Some b \<Rightarrow> Inr b) in
     case c of
       OpEq \<Rightarrow> Inr (py_eq py v w)
     | OpNotEq \<Rightarrow> Inr (\<not> py_eq py v w)
     | OpIs \<Rightarrow> Inr (py_is py v w)
     | OpIsNot \<Rightarrow> Inr (\<not> py_is py v w)
     | OpIn \<Rightarrow> lift (py_in py v w)
     | OpNotIn \<Rightarrow> lift (map_option Not (py_in py v w))
     | _ \<Rightarrow> lift (py_order py c v w))"

definition wrap :: "val \<Rightarrow> val" where
  "wrap v = (case v of VDict d \<Rightarrow> VAttr d | _ \<Rightarrow> v)"

text \<open>\<open>_AttrDict._get\<close>.\<close>

definition attrdict_get :: "(string \<times> val) list \<Rightarrow> string \<Rightarrow> expr_error + val" where
  "attrdict_get d name =
    (if is_private name then Inl (AttributeNotAccessible name)
     else (case map_of d name of None \<Rightarrow> Inl (UnknownName name) | Some v \<Rightarrow> Inr (wrap v)))"

definition get_attribute :: "interpreter \<Rightarrow> val \<Rightarrow> string \<Rightarrow> expr_error + val" where
  "get_attribute py v a =
    (case v of
       VAttr d \<Rightarrow> attrdict_get d a
     | _ \<Rightarrow> (case builtin_attr py v a of None \<Rightarrow> Inl EvaluationFailed | Some w \<Rightarrow> Inr w))"

definition list_index :: "'a list \<Rightarrow> int \<Rightarrow> 'a option" where
  "list_index xs i =
    (let n = int (length xs); j = (if i < 0 then n + i else i)
     in if 0 \<le> j \<and> j < n then Some (xs ! nat j) else None)"

fun index_of :: "val \<Rightarrow> int option" where
  "index_of (VInt i) = Some i"
| "index_of (VBool b) = Some (if b then 1 else 0)"
| "index_of _ = None"

definition get_item :: "val \<Rightarrow> val \<Rightarrow> expr_error + val" where
  "get_item v k =
    (let lift = (\<lambda>r. case r of None \<Rightarrow> Inl EvaluationFailed | Some w \<Rightarrow> Inr w) in
     case v of
       VAttr d \<Rightarrow> (case k of VStr name \<Rightarrow> attrdict_get d name | _ \<Rightarrow> Inl EvaluationFailed)
     | VList xs \<Rightarrow> lift (Option.bind (index_of k) (list_index xs))
     | VStr s \<Rightarrow> lift (map_option (\<lambda>c. VStr [c]) (Option.bind (index_of k) (list_index s)))
     | VDict d \<Rightarrow> (case k of VStr name \<Rightarrow> lift (map_of d name) | _ \<Rightarrow> Inl EvaluationFailed)
     | _ \<Rightarrow> Inl EvaluationFailed)"

definition apply_unop :: "unop \<Rightarrow> val \<Rightarrow> expr_error + val" where
  "apply_unop u v =
    (case u of
       OpNot \<Rightarrow> Inr (VBool (\<not> val_truth v))
     | OpInvert \<Rightarrow> Inl (DisallowedConstruct ''Invert'')
     | _ \<Rightarrow> (let s = (if u = OpUSub then -1 else 1) in
            case v of
              VBool b \<Rightarrow> Inr (VInt (s * (if b then 1 else 0)))
            | VInt i \<Rightarrow> Inr (VInt (s * i))
            | VFloat r \<Rightarrow> Inr (VFloat (of_int s * r))
            | _ \<Rightarrow> Inl EvaluationFailed))"

fun const_val :: "const \<Rightarrow> val" where
  "const_val CNone = VNone"
| "const_val (CBool b) = VBool b"
| "const_val (CInt i) = VInt i"
| "const_val (CFloat r) = VFloat r"
| "const_val (CStr s) = VStr s"

text \<open>The evaluation of the compiled tree: \<open>and\<close>, \<open>or\<close> and chained comparisons stop early.\<close>

function ev :: "interpreter \<Rightarrow> (string \<times> val) list \<Rightarrow> expr \<Rightarrow> expr_error + val"
  and ev_bool :: "interpreter \<Rightarrow> (string \<times> val) list \<Rightarrow> boolop \<Rightarrow> expr list \<Rightarrow> expr_error + val"
  and ev_chain :: "interpreter \<Rightarrow> (string \<times> val) list \<Rightarrow> val \<Rightarrow> (cmpop \<times> expr) list \<Rightarrow> expr_error + val" where
  "ev py sc (BoolOp b es) = ev_bool py sc b es"
| "ev py sc (UnaryOp u e) = sum_bind (ev py sc e) (apply_unop u)"
| "ev py sc (Compare e cs) = (case ev py sc e of Inl x \<Rightarrow> Inl x | Inr v \<Rightarrow> ev_chain py sc v cs)"
| "ev py sc (Name n) = (case map_of sc n of None \<Rightarrow> Inl EvaluationFailed | Some v \<Rightarrow> Inr v)"
| "ev py sc (Attribute e a) = sum_bind (ev py sc e) (\<lambda>v. get_attribute py v a)"
| "ev py sc (Subscript e i) =
     (case ev py sc e of Inl x \<Rightarrow> Inl x | Inr v \<Rightarrow> sum_bind (ev py sc i) (get_item v))"
| "ev py sc (Constant c) = Inr (const_val c)"
| "ev py sc (Other n es) = Inl (DisallowedConstruct n)"
| "ev_bool py sc b [] = Inr (VBool (b = OpAnd))"
| "ev_bool py sc b (e # es) =
     (case ev py sc e of
        Inl x \<Rightarrow> Inl x
      | Inr v \<Rightarrow> if es = [] \<or> val_truth v = (b = OpOr) then Inr v else ev_bool py sc b es)"
| "ev_chain py sc v [] = Inr (VBool True)"
| "ev_chain py sc v (ce # cs) =
     (case ev py sc (snd ce) of
        Inl x \<Rightarrow> Inl x
      | Inr w \<Rightarrow>
         (case compare_op py (fst ce) v w of
            Inl x \<Rightarrow> Inl x
          | Inr r \<Rightarrow> if r \<and> cs \<noteq> [] then ev_chain py sc w cs else Inr (VBool r)))"
  by pat_completeness auto
termination
  by (relation "measure (case_sum (\<lambda>p. 2 * expr_size (snd (snd p)))
        (case_sum (\<lambda>p. 1 + 2 * sum_list (map expr_size (snd (snd (snd p)))))
          (\<lambda>p. 1 + 2 * sum_list (map (\<lambda>c. 1 + expr_size (snd c)) (snd (snd (snd p)))))))") auto

definition evaluate_condition ::
    "interpreter \<Rightarrow> (string \<Rightarrow> string + expr) \<Rightarrow> string \<Rightarrow> (string \<times> val) list \<Rightarrow> expr_error + bool" where
  "evaluate_condition py parse expression context =
    (case parse expression of
       Inl msg \<Rightarrow> Inl (InvalidSyntax msg)
     | Inr tree \<Rightarrow>
        (case validate tree of
           Some e \<Rightarrow> Inl e
         | None \<Rightarrow>
            (let scope = map (\<lambda>e. (fst e, wrap (snd e))) context
             in sum_bind (ev py scope tree) (\<lambda>v. Inr (val_truth v)))))"

section \<open>The whitelist walk accepts exactly the restricted grammar\<close>

text \<open>The restricted grammar, by structural recursion.\<close>

fun restricted :: "expr \<Rightarrow> bool" where
  "restricted (BoolOp b es) = list_all restricted es"
| "restricted (UnaryOp u e) = (u \<noteq> OpInvert \<and> restricted e)"
| "restricted (Compare e cs) = (restricted e \<and> list_all (\<lambda>c. restricted (snd c)) cs)"
| "restricted (Name n) = (\<not> is_private n)"
| "restricted (Attribute e a) = (\<not> is_private a \<and> restricted e)"
| "restricted (Subscript e i) = (restricted e \<and> restricted i)"
| "restricted (Constant c) = True"
| "restricted (Other n es) = False"

fun node_restricted :: "node \<Rightarrow> bool" where
  "node_restricted (OpNode n) = (n \<in> set allowed_nodes)"
| "node_restricted (ExprNode e) = restricted e"

lemma class_allowed [simp]:
  "''BoolOp'' \<in> set allowed_nodes" "''UnaryOp'' \<in> set allowed_nodes"
  "''Compare'' \<in> set allowed_nodes" "''Name'' \<in> set allowed_nodes"
  "''Load'' \<in> set allowed_nodes" "''Attribute'' \<in> set allowed_nodes"
  "''Constant'' \<in> set allowed_nodes" "''Subscript'' \<in> set allowed_nodes"
  by (simp_all add: allowed_nodes_def)

lemma boolop_class_allowed [simp]: "boolop_class b \<in> set allowed_nodes"
  by (cases b) (simp_all add: allowed_nodes_def)

lemma cmpop_class_allowed [simp]: "cmpop_class c \<in> set allowed_nodes"
  by (cases c) (simp_all add: allowed_nodes_def)

lemma unop_class_allowed [simp]: "unop_class u \<in> set allowed_nodes \<longleftrightarrow> u \<noteq> OpInvert"
  by (cases u) (simp_all add: allowed_nodes_def)

lemma node_restricted_step:
  "node_restricted n \<longleftrightarrow> node_error n = None \<and> (\<forall>m \<in> set (child_nodes n). node_restricted m)"
  by (induction n rule: child_nodes.induct)
    (auto simp: node_error_def list_all_iff ball_Un)

lemma walk_restricted:
  "(\<forall>m \<in> set (walk ns). node_error m = None) \<longleftrightarrow> (\<forall>n \<in> set ns. node_restricted n)"
proof (induction ns rule: walk.induct)
  case 1
  then show ?case by simp
next
  case (2 n todo)
  then show ?case using node_restricted_step [of n] by auto
qed

lemma first_error_None: "first_error ns = None \<longleftrightarrow> (\<forall>n \<in> set ns. node_error n = None)"
  by (induction ns) (auto split: option.splits)

lemma validate_restricted: "validate tree = None \<longleftrightarrow> restricted tree"
  unfolding validate_def first_error_None walk_restricted by simp

section \<open>No private attribute is ever asked for\<close>

definition same_public :: "interpreter \<Rightarrow> interpreter \<Rightarrow> bool" where
  "same_public py py' =
    (same_object py = same_object py' \<and>
     (\<forall>v a. \<not> is_private a \<longrightarrow> builtin_attr py v a = builtin_attr py' v a))"

lemma py_eq_cong:
  "same_object py = same_object py' \<Longrightarrow> py_eq py v w = py_eq py' v w"
  "same_object py = same_object py' \<Longrightarrow> py_eq_list py xs ys = py_eq_list py' xs ys"
  "same_object py = same_object py' \<Longrightarrow> py_eq_dict py d e = py_eq_dict py' d e"
  by (induction py v w and py xs ys and py d e rule: py_eq_py_eq_list_py_eq_dict.induct)
    (simp_all split: val.split list.split option.split)

lemma py_order_cong:
  "py_eq py = py_eq py' \<Longrightarrow> py_order py c v w = py_order py' c v w"
  "py_eq py = py_eq py' \<Longrightarrow> py_order_list py c xs ys = py_order_list py' c xs ys"
  by (induction py c v w and py c xs ys rule: py_order_py_order_list.induct)
    (simp_all split: val.split list.split)

lemma compare_op_cong:
  assumes same: "same_object py = same_object py'"
  shows "compare_op py c v w = compare_op py' c v w"
proof -
  have eq: "py_eq py = py_eq py'"
    using py_eq_cong(1) [OF same] by (simp add: fun_eq_iff)
  have order: "py_order py = py_order py'"
    using py_order_cong(1) [OF eq] by (simp add: fun_eq_iff)
  have is_eq: "py_is py = py_is py'" by (simp add: py_is_def same fun_eq_iff)
  have in_eq: "py_in py = py_in py'" by (simp only: py_in_def eq fun_eq_iff) simp
  show ?thesis by (simp only: compare_op_def eq order is_eq in_eq)
qed

lemma get_attribute_cong:
  "same_public py py' \<Longrightarrow> \<not> is_private a \<Longrightarrow> get_attribute py v a = get_attribute py' v a"
  by (cases v) (simp_all add: get_attribute_def same_public_def)

lemma sum_bind_cong:
  "r = r' \<Longrightarrow> (\<And>a. r' = Inr a \<Longrightarrow> f a = g a) \<Longrightarrow> sum_bind r f = sum_bind r' g"
  by (cases r') auto

text \<open>On a restricted tree the interpreter's attributes whose names begin with an underscore do not
  matter: changing them changes no result.\<close>

lemma ev_same_public:
  "same_public py py' \<Longrightarrow> restricted e \<Longrightarrow> ev py sc e = ev py' sc e"
  "same_public py py' \<Longrightarrow> list_all restricted es \<Longrightarrow> ev_bool py sc b es = ev_bool py' sc b es"
  "same_public py py' \<Longrightarrow> list_all (\<lambda>c. restricted (snd c)) cs \<Longrightarrow>
     ev_chain py sc v cs = ev_chain py' sc v cs"
proof (induction py sc e and py sc b es and py sc v cs rule: ev_ev_bool_ev_chain.induct)
  case (5 py sc e a)
  then show ?case by (simp add: get_attribute_cong [where py = py and py' = py'])
next
  case (12 py sc v ce cs)
  then have "same_object py = same_object py'" by (simp add: same_public_def)
  then have "compare_op py c v = compare_op py' c v" for c v
    by (simp add: fun_eq_iff compare_op_cong)
  with 12 show ?case by (simp split: sum.split)
qed (simp_all split: sum.split)

end
