(* ===== verification/WorkflowSchema.thy ===== *)
theory WorkflowSchema
  imports Prelude
begin

text \<open>
  \<open>schemas/workflow.py\<close>: the workflow document as the Pydantic models declare it. The models'
  fields are records; the free texts no operation reads (descriptions, labels, tags, canvas layout)
  are left out. The declared bounds and the validators are boolean checks, all of which
  hold for a document that \<open>model_validate\<close> returns. \<open>find_secret_literals\<close> gives the
  paths of the issues, in the code's order.
\<close>

section \<open>Step types\<close>

datatype node_type =
    T_START | T_END
  | T_COMMAND | T_ANSIBLE
  | T_PACKAGE | T_SERVICE | T_FILE | T_SYSTEM
  | T_CONDITION | T_APPROVAL | T_WAIT
  | T_CHECK
  | T_NOTIFICATION | T_WEBHOOK
  | T_VALIDATION | T_WAIT_FOR_AGENT

fun type_value :: "node_type \<Rightarrow> string" where
  "type_value T_START = ''start''"
| "type_value T_END = ''end''"
| "type_value T_COMMAND = ''command''"
| "type_value T_ANSIBLE = ''ansible''"
| "type_value T_PACKAGE = ''package''"
| "type_value T_SERVICE = ''service''"
| "type_value T_FILE = ''file''"
| "type_value T_SYSTEM = ''system''"
| "type_value T_CONDITION = ''condition''"
| "type_value T_APPROVAL = ''approval''"
| "type_value T_WAIT = ''wait''"
| "type_value T_CHECK = ''check''"
| "type_value T_NOTIFICATION = ''notification''"
| "type_value T_WEBHOOK = ''webhook''"
| "type_value T_VALIDATION = ''validation''"
| "type_value T_WAIT_FOR_AGENT = ''wait_for_agent''"

section \<open>Fields\<close>

record target_filters =
  f_os_family :: "string option"
  f_os_distro :: "string option"
  f_category_id :: "uuid option"
  f_project_id :: "uuid option"
  f_status :: "string option"

record targets =
  t_all :: "bool option"
  t_agent_ids :: "uuid list option"
  t_filters :: "target_filters option"

record strategy =
  mode :: string
  batch_size :: "int option"

record workflow_defaults =
  d_timeout :: "int option"
  d_on_failure :: "string option"

record step_retry =
  attempts :: int
  delay :: int

record workflow_step =
  step_id :: string
  step_type :: node_type
  step_name :: string
  step_config :: config
  step_disabled :: bool
  step_timeout :: "int option"
  step_retry_opt :: "step_retry option"
  step_on_failure :: "string option"

record workflow_edge =
  e_from :: string
  e_to :: string
  e_on :: string

record workflow_spec =
  s_targets :: targets
  s_strategy :: strategy
  s_defaults :: workflow_defaults
  s_vars :: config
  s_steps :: "workflow_step list"
  s_edges :: "workflow_edge list"

record workflow_metadata =
  m_name :: string
  m_severity :: "string option"

record workflow_document =
  apiVersion :: string
  kind :: string
  metadata :: workflow_metadata
  spec :: workflow_spec

record compiled_graph =
  g_targets :: targets
  g_strategy :: strategy
  g_defaults :: workflow_defaults
  g_vars :: config
  g_steps :: "workflow_step list"
  g_edges :: "workflow_edge list"
  g_entry_ids :: "string list"

section \<open>Validators\<close>

text \<open>The patterns are used with \<open>match\<close>, and \<open>$\<close> also matches before a final newline.\<close>

definition newline :: char where "newline = char_of (10::nat)"

definition before_dollar :: "string \<Rightarrow> string list" where
  "before_dollar s = (if s \<noteq> [] \<and> last s = newline then [s, butlast s] else [s])"

definition slug_char :: "char \<Rightarrow> bool" where
  "slug_char c = (is_lower c \<or> is_digit c \<or> c = CHR ''-'')"

definition match_step_id :: "string \<Rightarrow> bool" where
  "match_step_id s =
    list_ex (\<lambda>t. list_all (\<lambda>c. slug_char c \<or> c = CHR ''_'') t \<and> 1 \<le> length t \<and> length t \<le> 64)
      (before_dollar s)"

definition match_workflow_name :: "string \<Rightarrow> bool" where
  "match_workflow_name s =
    list_ex (\<lambda>t. list_all slug_char t \<and> 3 \<le> length t \<and> length t \<le> 64) (before_dollar s)"

fun contains_text :: "string \<Rightarrow> string \<Rightarrow> bool" where
  "contains_text p [] = (p = [])"
| "contains_text p (c # cs) = (take (length p) (c # cs) = p \<or> contains_text p cs)"

definition secret_key :: "string \<Rightarrow> bool" where
  "secret_key k =
    list_ex (\<lambda>p. contains_text p (map to_lower k))
      [''password'', ''passwd'', ''secret'', ''token'', ''api_key'', ''private_key'']"

definition index_path :: "string \<Rightarrow> nat \<Rightarrow> string" where
  "index_path path i = path @ ''['' @ show_nat i @ '']''"

fun find_secret_literals :: "pv \<Rightarrow> string \<Rightarrow> string list"
  and secrets_in_items :: "config \<Rightarrow> string \<Rightarrow> string list"
  and secrets_in_list :: "pv list \<Rightarrow> nat \<Rightarrow> string \<Rightarrow> string list" where
  "find_secret_literals (PDict d) path = secrets_in_items d path"
| "find_secret_literals (PList xs) path = secrets_in_list xs 0 path"
| "find_secret_literals _ path = []"
| "secrets_in_items [] path = []"
| "secrets_in_items ((k, sub) # d) path =
    (let sub_path = path @ ''.'' @ k in
     (if secret_key k \<and> is_str sub \<and> truthy sub then [sub_path]
      else find_secret_literals sub sub_path) @ secrets_in_items d path)"
| "secrets_in_list [] i path = []"
| "secrets_in_list (x # xs) i path =
     find_secret_literals x (index_path path i) @ secrets_in_list xs (Suc i) path"

definition opt_pos :: "int option \<Rightarrow> bool" where
  "opt_pos v = (case v of None \<Rightarrow> True | Some i \<Rightarrow> i > 0)"

definition opt_in :: "string list \<Rightarrow> string option \<Rightarrow> bool" where
  "opt_in xs v = (case v of None \<Rightarrow> True | Some s \<Rightarrow> s \<in> set xs)"

definition targets_valid :: "targets \<Rightarrow> bool" where
  "targets_valid t =
    (length (filter id [t_all t = Some True, t_agent_ids t \<noteq> None, t_filters t \<noteq> None]) = 1)"

definition strategy_valid :: "strategy \<Rightarrow> bool" where
  "strategy_valid s = (opt_pos (batch_size s) \<and> mode s = ''all_at_once'')"

definition defaults_valid :: "workflow_defaults \<Rightarrow> bool" where
  "defaults_valid d = (opt_pos (d_timeout d) \<and> opt_in [''stop'', ''continue''] (d_on_failure d))"

definition retry_valid :: "step_retry \<Rightarrow> bool" where
  "retry_valid r = (attempts r > 0 \<and> attempts r \<le> 10 \<and> delay r \<ge> 0)"

definition step_valid :: "workflow_step \<Rightarrow> bool" where
  "step_valid s =
    (match_step_id (step_id s) \<and> opt_pos (step_timeout s)
     \<and> (case step_retry_opt s of None \<Rightarrow> True | Some r \<Rightarrow> retry_valid r)
     \<and> opt_in [''stop'', ''continue'', ''branch''] (step_on_failure s)
     \<and> find_secret_literals (PDict (step_config s)) (''steps.'' @ step_id s @ ''.config'') = [])"

definition edge_valid :: "workflow_edge \<Rightarrow> bool" where
  "edge_valid e = (e_on e \<in> {''success'', ''failure'', ''always''})"

definition spec_valid :: "workflow_spec \<Rightarrow> bool" where
  "spec_valid s =
    (targets_valid (s_targets s) \<and> strategy_valid (s_strategy s) \<and> defaults_valid (s_defaults s)
     \<and> list_all step_valid (s_steps s) \<and> 1 \<le> length (s_steps s) \<and> length (s_steps s) \<le> 500
     \<and> list_all edge_valid (s_edges s))"

definition metadata_valid :: "workflow_metadata \<Rightarrow> bool" where
  "metadata_valid m =
    (match_workflow_name (m_name m)
     \<and> opt_in [''LOW'', ''MEDIUM'', ''HIGH'', ''CRITICAL''] (m_severity m))"

definition document_valid :: "workflow_document \<Rightarrow> bool" where
  "document_valid d =
    (apiVersion d = ''lokilinux/v1'' \<and> kind d = ''Workflow''
     \<and> metadata_valid (metadata d) \<and> spec_valid (spec d))"

section \<open>Literal secrets\<close>

text \<open>The rule the scan enforces: somewhere below, a dictionary holds a non-empty string under a key
  that names a secret.\<close>

inductive secret_below :: "pv \<Rightarrow> bool" where
  literal: "(k, PStr s) \<in> set d \<Longrightarrow> secret_key k \<Longrightarrow> s \<noteq> [] \<Longrightarrow> secret_below (PDict d)"
| in_dict: "(k, v) \<in> set d \<Longrightarrow> secret_below v \<Longrightarrow> secret_below (PDict d)"
| in_list: "v \<in> set xs \<Longrightarrow> secret_below v \<Longrightarrow> secret_below (PList xs)"

inductive_cases secret_below_dictE: "secret_below (PDict d)"
inductive_cases secret_below_listE: "secret_below (PList xs)"
inductive_simps secret_below_str: "secret_below (PStr s)"
inductive_simps secret_below_none: "secret_below PNone"
inductive_simps secret_below_bool: "secret_below (PBool b)"
inductive_simps secret_below_int: "secret_below (PInt i)"

lemmas secret_below_scalar = secret_below_str secret_below_none secret_below_bool secret_below_int

lemma literal_string: "is_str v \<and> truthy v \<longleftrightarrow> (\<exists>s. v = PStr s \<and> s \<noteq> [])"
  by (cases v) auto

lemma secret_below_dict:
  "secret_below (PDict d) \<longleftrightarrow>
     (\<exists>(k, v) \<in> set d. (secret_key k \<and> is_str v \<and> truthy v) \<or> secret_below v)"
  by (auto elim!: secret_below_dictE simp: literal_string
      intro: secret_below.literal secret_below.in_dict)

lemma secret_below_list: "secret_below (PList xs) \<longleftrightarrow> (\<exists>v \<in> set xs. secret_below v)"
  by (auto elim!: secret_below_listE intro: secret_below.in_list)

lemma find_secret_literals_Nil:
  "find_secret_literals v path = [] \<longleftrightarrow> \<not> secret_below v"
  "secrets_in_items d path = [] \<longleftrightarrow> \<not> secret_below (PDict d)"
  "secrets_in_list xs i path = [] \<longleftrightarrow> \<not> secret_below (PList xs)"
  by (induction v path and d path and xs i path
      rule: find_secret_literals_secrets_in_items_secrets_in_list.induct)
    (auto simp: secret_below_scalar secret_below_dict secret_below_list Let_def)

text \<open>Keys whose text has none of the six names never make an issue.\<close>

lemma step_valid_no_secret: "step_valid s \<Longrightarrow> \<not> secret_below (PDict (step_config s))"
  by (simp add: step_valid_def find_secret_literals_Nil)

section \<open>Identifiers\<close>

lemma match_step_id_plain:
  assumes "newline \<notin> set s"
  shows "match_step_id s \<longleftrightarrow>
     list_all (\<lambda>c. slug_char c \<or> c = CHR ''_'') s \<and> 1 \<le> length s \<and> length s \<le> 64"
proof -
  have "\<not> (s \<noteq> [] \<and> last s = newline)" using assms last_in_set [of s] by metis
  then have "before_dollar s = [s]" by (simp only: before_dollar_def if_False)
  then show ?thesis by (simp add: match_step_id_def)
qed

lemma match_step_id_newline:
  assumes "list_all (\<lambda>c. slug_char c \<or> c = CHR ''_'') s" and "s \<noteq> []" and "length s \<le> 64"
  shows "match_step_id (s @ [newline])"
  using assms by (simp add: match_step_id_def before_dollar_def Suc_le_eq)

end
