(* ===== verification/WorkflowCompiler.thy ===== *)
theory WorkflowCompiler
  imports WorkflowSchema Expr
begin

text \<open>
  \<open>services/workflow_compiler.py\<close>: from YAML text to a compiled graph. \<open>validate_graph\<close> checks
  what the schema cannot: step ids declared twice, edges without a step, cycles (a depth-first search
  with three colours), entry points, conditions, branches and the step configurations. An issue keeps
  its code, path and step id; the message texts are left out.

  \<open>valid_ids\<close> is a Python set: the order in which the search starts from its elements is a parameter
  (\<open>order\<close>), any arrangement of the ids. The search recurses once per white step, so the number of
  steps plus one is enough fuel (\<open>dfs_fuel_enough\<close>). YAML parsing and Pydantic's reading of a
  dictionary are parameters.
\<close>

section \<open>Issues\<close>

record issue =
  issue_code :: string
  issue_path :: string
  issue_step :: "string option"

record validation_result =
  vr_valid :: bool
  vr_errors :: "issue list"
  vr_warnings :: "issue list"

definition mk_issue :: "string \<Rightarrow> string \<Rightarrow> string option \<Rightarrow> issue" where
  "mk_issue code path sid = \<lparr>issue_code = code, issue_path = path, issue_step = sid\<rparr>"

section \<open>Graph checks\<close>

text \<open>The loop over the step ids with the set of the ids seen so far.\<close>

fun duplicate_issues :: "nat \<Rightarrow> string set \<Rightarrow> string list \<Rightarrow> issue list" where
  "duplicate_issues i seen [] = []"
| "duplicate_issues i seen (sid # ids) =
    (if sid \<in> seen
     then [mk_issue ''DUPLICATE_STEP_ID'' (index_path ''spec.steps'' i @ ''.id'') (Some sid)] else [])
    @ duplicate_issues (Suc i) (insert sid seen) ids"

fun dangling_issues :: "nat \<Rightarrow> string list \<Rightarrow> workflow_edge list \<Rightarrow> issue list" where
  "dangling_issues i ids [] = []"
| "dangling_issues i ids (e # es) =
    (if e_from e \<notin> set ids
     then [mk_issue ''DANGLING_EDGE'' (index_path ''spec.edges'' i @ ''.from'') None] else [])
    @ (if e_to e \<notin> set ids
     then [mk_issue ''DANGLING_EDGE'' (index_path ''spec.edges'' i @ ''.to'') None] else [])
    @ dangling_issues (Suc i) ids es"

text \<open>\<open>adjacency\<close> and \<open>incoming\<close> hold the edges whose two ends are steps.\<close>

definition proper_edges :: "string list \<Rightarrow> workflow_edge list \<Rightarrow> workflow_edge list" where
  "proper_edges ids es = filter (\<lambda>e. e_from e \<in> set ids \<and> e_to e \<in> set ids) es"

definition adjacency :: "string list \<Rightarrow> workflow_edge list \<Rightarrow> string \<Rightarrow> (string \<times> string) list" where
  "adjacency ids es sid =
    map (\<lambda>e. (e_to e, e_on e)) (filter (\<lambda>e. e_from e = sid) (proper_edges ids es))"

definition incoming :: "string list \<Rightarrow> workflow_edge list \<Rightarrow> string \<Rightarrow> nat" where
  "incoming ids es sid = length (filter (\<lambda>e. e_to e = sid) (proper_edges ids es))"

datatype color = WHITE | GRAY | BLACK

datatype dfs_result = OutOfFuel | Cycle string | Done "string \<Rightarrow> color"

fun dfs :: "nat \<Rightarrow> (string \<Rightarrow> (string \<times> string) list) \<Rightarrow> string \<Rightarrow> (string \<Rightarrow> color) \<Rightarrow> dfs_result"
  and dfs_targets :: "nat \<Rightarrow> (string \<Rightarrow> (string \<times> string) list) \<Rightarrow> (string \<times> string) list
        \<Rightarrow> (string \<Rightarrow> color) \<Rightarrow> dfs_result" where
  "dfs 0 adj node color = OutOfFuel"
| "dfs (Suc fuel) adj node color =
    (case dfs_targets fuel adj (adj node) (color(node := GRAY)) of
       Done color' \<Rightarrow> Done (color'(node := BLACK))
     | r \<Rightarrow> r)"
| "dfs_targets fuel adj [] color = Done color"
| "dfs_targets fuel adj ((target, on) # ts) color =
    (if color target = GRAY then Cycle target
     else if color target = WHITE then
       (case dfs fuel adj target color of
          Done color' \<Rightarrow> dfs_targets fuel adj ts color'
        | r \<Rightarrow> r)
     else dfs_targets fuel adj ts color)"

fun find_cycle :: "nat \<Rightarrow> (string \<Rightarrow> (string \<times> string) list) \<Rightarrow> string list \<Rightarrow> (string \<Rightarrow> color) \<Rightarrow> dfs_result" where
  "find_cycle fuel adj [] color = Done color"
| "find_cycle fuel adj (sid # ids) color =
    (if color sid = WHITE then
       (case dfs fuel adj sid color of
          Done color' \<Rightarrow> find_cycle fuel adj ids color'
        | r \<Rightarrow> r)
     else find_cycle fuel adj ids color)"

definition cycle_step :: "string list \<Rightarrow> string list \<Rightarrow> workflow_edge list \<Rightarrow> string option" where
  "cycle_step order ids es =
    (case find_cycle (Suc (length ids)) (adjacency ids es) order (\<lambda>_. WHITE) of
       Cycle t \<Rightarrow> Some t
     | _ \<Rightarrow> None)"

section \<open>Step configurations\<close>

definition legacy_alias :: "node_type \<Rightarrow> node_type" where
  "legacy_alias t = (case t of T_VALIDATION \<Rightarrow> T_CHECK | T_WAIT_FOR_AGENT \<Rightarrow> T_WAIT | _ \<Rightarrow> t)"

definition service_actions :: "string list" where
  "service_actions = [''start'', ''stop'', ''restart'', ''reload'', ''enable'', ''disable'']"

definition system_actions :: "string list" where
  "system_actions = [''reboot'', ''shutdown'', ''hostname'', ''timezone'', ''sysctl'']"

definition file_actions :: "string list" where
  "file_actions = [''create'', ''template'', ''delete'', ''copy'', ''chmod'', ''chown'']"

definition package_actions :: "string list" where
  "package_actions = [''install'', ''update'', ''remove'']"

definition check_types :: "string list" where
  "check_types = [''command'', ''service'', ''port'', ''package'', ''file'', ''process'', ''os'', ''disk'', ''network'']"

definition wait_modes :: "string list" where
  "wait_modes = [''agent'', ''duration'']"

text \<open>Python's \<open>value in TUPLE\<close> for a tuple of texts.\<close>

definition one_of :: "pv \<Rightarrow> string list \<Rightarrow> bool" where
  "one_of v names = (\<exists>s \<in> set names. v = PStr s)"

definition cfg_error :: "workflow_step \<Rightarrow> string \<Rightarrow> string \<Rightarrow> issue" where
  "cfg_error step key code =
    mk_issue code (''spec.steps.'' @ step_id step @ ''.config.'' @ key) (Some (step_id step))"

definition require_field :: "workflow_step \<Rightarrow> string \<Rightarrow> issue list" where
  "require_field step key =
    (if truthy (cfg_get (step_config step) key) then []
     else [cfg_error step key ''MISSING_REQUIRED_FIELD''])"

definition validate_service_config :: "workflow_step \<Rightarrow> issue list" where
  "validate_service_config step =
    (if one_of (cfg_get (step_config step) ''action'') service_actions then []
     else [cfg_error step ''action'' ''INVALID_ACTION''])
    @ require_field step ''name''"

definition validate_system_config :: "workflow_step \<Rightarrow> issue list" where
  "validate_system_config step =
    (let action = cfg_get (step_config step) ''action'' in
     if \<not> one_of action system_actions then [cfg_error step ''action'' ''INVALID_ACTION'']
     else if one_of action [''hostname'', ''timezone''] then require_field step ''value''
     else if action = PStr ''sysctl'' then require_field step ''key'' @ require_field step ''value''
     else [])"

definition validate_file_config :: "workflow_step \<Rightarrow> issue list" where
  "validate_file_config step =
    (let action = cfg_get (step_config step) ''action'' in
     (if one_of action file_actions then [] else [cfg_error step ''action'' ''INVALID_ACTION''])
     @ require_field step ''path''
     @ (if action = PStr ''copy'' then require_field step ''source'' else []))"

definition validate_package_config :: "workflow_step \<Rightarrow> issue list" where
  "validate_package_config step =
    (let action = py_or (cfg_get (step_config step) ''action'') (PStr ''install'') in
     if action = PStr ''downgrade'' then [cfg_error step ''action'' ''UNSUPPORTED_ACTION'']
     else if \<not> one_of action package_actions then [cfg_error step ''action'' ''INVALID_ACTION'']
     else if action = PStr ''remove'' \<and> \<not> truthy (cfg_get (step_config step) ''packages'')
       then [cfg_error step ''packages'' ''MISSING_REQUIRED_FIELD'']
     else [])"

definition validate_check_config :: "workflow_step \<Rightarrow> issue list" where
  "validate_check_config step =
    (let check_type = py_or (cfg_get (step_config step) ''type'') (PStr ''command'') in
     if \<not> one_of check_type check_types then [cfg_error step ''type'' ''INVALID_CHECK_TYPE'']
     else if check_type = PStr ''command'' then require_field step ''command''
     else if check_type = PStr ''process'' then require_field step ''name''
     else if check_type = PStr ''service'' then require_field step ''service''
     else if check_type = PStr ''port'' then require_field step ''port''
     else if check_type = PStr ''package'' then require_field step ''name''
     else if check_type = PStr ''file'' then require_field step ''path''
     else if check_type = PStr ''os'' then require_field step ''distro''
     else if check_type = PStr ''disk'' then require_field step ''min_free_gb''
     else require_field step ''host'')"

definition validate_wait_config :: "workflow_step \<Rightarrow> issue list" where
  "validate_wait_config step =
    (let mode = py_or (cfg_get (step_config step) ''mode'') (PStr ''agent'') in
     if mode = PStr ''condition'' then [cfg_error step ''mode'' ''UNSUPPORTED_MODE'']
     else if \<not> one_of mode wait_modes then [cfg_error step ''mode'' ''INVALID_MODE'']
     else [])"

definition validate_step_config :: "workflow_step \<Rightarrow> issue list" where
  "validate_step_config step =
    (case legacy_alias (step_type step) of
       T_SERVICE \<Rightarrow> validate_service_config step
     | T_SYSTEM \<Rightarrow> validate_system_config step
     | T_FILE \<Rightarrow> validate_file_config step
     | T_PACKAGE \<Rightarrow> validate_package_config step
     | T_CHECK \<Rightarrow> validate_check_config step
     | T_WAIT \<Rightarrow> validate_wait_config step
     | _ \<Rightarrow> [])"

definition validate_step_configs :: "workflow_step list \<Rightarrow> issue list" where
  "validate_step_configs steps = concat (map validate_step_config steps)"

definition condition_issues :: "(string \<Rightarrow> string + expr) \<Rightarrow> workflow_step \<Rightarrow> issue list" where
  "condition_issues parse step =
    (if step_type step \<noteq> T_CONDITION then []
     else (let expression = cfg_get (step_config step) ''expression'';
               path = ''spec.steps.'' @ step_id step @ ''.config.expression'' in
           if \<not> truthy expression
             then [mk_issue ''CONDITION_MISSING_EXPRESSION'' path (Some (step_id step))]
           else if validate_expression parse (pystr expression) \<noteq> None
             then [mk_issue ''CONDITION_INVALID_EXPRESSION'' path (Some (step_id step))]
           else []))"

definition branch_issues :: "(string \<Rightarrow> (string \<times> string) list) \<Rightarrow> workflow_step \<Rightarrow> issue list" where
  "branch_issues adj step =
    (if step_on_failure step = Some ''branch'' \<and> \<not> list_ex (\<lambda>t. snd t = ''failure'') (adj (step_id step))
     then [mk_issue ''BRANCH_WITHOUT_FAILURE_EDGE''
             (''spec.steps.'' @ step_id step @ ''.on_failure'') (Some (step_id step))]
     else [])"

section \<open>validate_graph, build_graph, compile_workflow\<close>

definition entry_ids_of :: "string list \<Rightarrow> workflow_edge list \<Rightarrow> string list" where
  "entry_ids_of ids es = filter (\<lambda>sid. incoming ids es sid = 0) ids"

definition orphan_warnings :: "string list \<Rightarrow> workflow_edge list \<Rightarrow> issue list" where
  "orphan_warnings ids es =
    (if length ids > 1
     then map (\<lambda>sid. mk_issue ''UNREACHABLE_STEP'' (''spec.steps.'' @ sid) (Some sid))
            (filter (\<lambda>sid. incoming ids es sid = 0 \<and> adjacency ids es sid = []) ids)
     else [])"

definition validate_graph ::
    "(string \<Rightarrow> string + expr) \<Rightarrow> string list \<Rightarrow> workflow_document \<Rightarrow> issue list \<times> issue list" where
  "validate_graph parse order doc =
    (let steps = s_steps (spec doc);
         edges = s_edges (spec doc);
         step_ids = map step_id steps;
         errors = duplicate_issues 0 {} step_ids @ dangling_issues 0 step_ids edges
     in if errors \<noteq> [] then (errors, [])
        else (case cycle_step order step_ids edges of
            Some t \<Rightarrow> ([mk_issue ''CYCLE_DETECTED'' ''spec.edges'' (Some t)], [])
          | None \<Rightarrow>
              if entry_ids_of step_ids edges = []
              then ([mk_issue ''NO_ENTRY_POINT'' ''spec.edges'' None], [])
              else (concat (map (condition_issues parse) steps)
                    @ concat (map (branch_issues (adjacency step_ids edges)) steps)
                    @ validate_step_configs steps,
                    orphan_warnings step_ids edges)))"

text \<open>\<open>build_graph\<close> counts every edge whose target is a step.\<close>

definition build_graph :: "workflow_document \<Rightarrow> compiled_graph" where
  "build_graph doc =
    (let steps = s_steps (spec doc);
         edges = s_edges (spec doc);
         step_ids = map step_id steps
     in \<lparr>g_targets = s_targets (spec doc),
         g_strategy = s_strategy (spec doc),
         g_defaults = s_defaults (spec doc),
         g_vars = s_vars (spec doc),
         g_steps = steps,
         g_edges = edges,
         g_entry_ids = filter (\<lambda>sid. filter (\<lambda>e. e_to e = sid) edges = []) step_ids\<rparr>)"

text \<open>\<open>parse_yaml_text\<close>: what PyYAML makes of the text, \<open>None\<close> for a YAML error.\<close>

definition parse_yaml_text :: "(string \<Rightarrow> pv option) \<Rightarrow> string \<Rightarrow> config option" where
  "parse_yaml_text yaml_load yaml_source =
    (case yaml_load yaml_source of
       Some (PDict d) \<Rightarrow> Some d
     | _ \<Rightarrow> None)"

text \<open>\<open>model_validate\<close> returns the locations of the schema errors or a document; the code of such an
  issue is \<open>SCHEMA_\<close> and the first location part in upper case, its path the parts joined by dots.\<close>

definition schema_issue :: "string list \<Rightarrow> issue" where
  "schema_issue loc =
    mk_issue (case loc of [] \<Rightarrow> ''SCHEMA'' | p # ps \<Rightarrow> ''SCHEMA_'' @ map to_upper p)
      (if join ''.'' loc = [] then ''$'' else join ''.'' loc) None"

definition compile_workflow ::
    "(string \<Rightarrow> pv option) \<Rightarrow> (config \<Rightarrow> string list list + workflow_document) \<Rightarrow>
     (string \<Rightarrow> string + expr) \<Rightarrow> string list \<Rightarrow> string \<Rightarrow>
     workflow_document option \<times> compiled_graph option \<times> validation_result" where
  "compile_workflow yaml_load model_validate parse order yaml_source =
    (case parse_yaml_text yaml_load yaml_source of
       None \<Rightarrow>
         (None, None, \<lparr>vr_valid = False, vr_errors = [mk_issue ''YAML_SYNTAX'' ''$'' None], vr_warnings = []\<rparr>)
     | Some data \<Rightarrow>
        (case model_validate data of
           Inl locs \<Rightarrow>
             (None, None, \<lparr>vr_valid = False, vr_errors = map schema_issue locs, vr_warnings = []\<rparr>)
         | Inr doc \<Rightarrow>
            (case validate_graph parse order doc of (errors, warnings) \<Rightarrow>
               if errors \<noteq> []
               then (Some doc, None, \<lparr>vr_valid = False, vr_errors = errors, vr_warnings = warnings\<rparr>)
               else (Some doc, Some (build_graph doc),
                     \<lparr>vr_valid = True, vr_errors = [], vr_warnings = warnings\<rparr>))))"

section \<open>Duplicates and dangling edges\<close>

lemma duplicate_issues_Nil:
  "duplicate_issues i seen ids = [] \<longleftrightarrow> distinct ids \<and> set ids \<inter> seen = {}"
  by (induction ids arbitrary: i seen) auto

lemma dangling_issues_Nil:
  "dangling_issues i ids es = [] \<longleftrightarrow> (\<forall>e \<in> set es. e_from e \<in> set ids \<and> e_to e \<in> set ids)"
  by (induction es arbitrary: i) auto

lemma proper_edges_all:
  "dangling_issues i ids es = [] \<Longrightarrow> proper_edges ids es = es"
  by (simp add: dangling_issues_Nil proper_edges_def)

section \<open>The search finds a cycle exactly when there is one\<close>

definition succ_rel :: "(string \<Rightarrow> (string \<times> string) list) \<Rightarrow> (string \<times> string) set" where
  "succ_rel adj = {(x, y). y \<in> fst ` set (adj x)}"

definition edge_rel :: "workflow_edge list \<Rightarrow> (string \<times> string) set" where
  "edge_rel es = (\<lambda>e. (e_from e, e_to e)) ` set es"

lemma succ_rel_adjacency:
  "succ_rel (adjacency ids es) = edge_rel (proper_edges ids es)"
  by (auto simp: succ_rel_def adjacency_def edge_rel_def image_iff)

text \<open>Soundness: every gray step reaches the step under work, so an edge back to a gray step closes a
  cycle. The gray steps are the same after a search that found nothing.\<close>

definition grays_reach :: "(string \<Rightarrow> (string \<times> string) list) \<Rightarrow> (string \<Rightarrow> color) \<Rightarrow> string \<Rightarrow> bool" where
  "grays_reach adj color node = (\<forall>g. color g = GRAY \<longrightarrow> (g, node) \<in> (succ_rel adj)\<^sup>*)"

definition same_grays :: "(string \<Rightarrow> color) \<Rightarrow> (string \<Rightarrow> color) \<Rightarrow> bool" where
  "same_grays c c' = (\<forall>x. c' x = GRAY \<longleftrightarrow> c x = GRAY)"

lemma dfs_grays:
  "dfs fuel adj node color = Done c \<Longrightarrow> color node = WHITE \<Longrightarrow> same_grays color c"
  "dfs_targets fuel adj ts color = Done c \<Longrightarrow> same_grays color c"
proof (induction fuel adj node color and fuel adj ts color arbitrary: c and c
    rule: dfs_dfs_targets.induct)
  case (2 fuel adj node color)
  then obtain c1 where "dfs_targets fuel adj (adj node) (color(node := GRAY)) = Done c1"
    and c: "c = c1(node := BLACK)"
    by (auto split: dfs_result.splits)
  with 2 have "same_grays (color(node := GRAY)) c1" by blast
  with c 2 show ?case by (auto simp: same_grays_def split: if_splits)
next
  case (4 fuel adj target on ts color)
  show ?case
  proof (cases "color target = WHITE")
    case True
    with 4 obtain c1 where c1: "dfs fuel adj target color = Done c1"
      and rest: "dfs_targets fuel adj ts c1 = Done c"
      by (auto split: dfs_result.splits)
    have "same_grays color c1" using 4(1) [of c1] True c1 by simp
    moreover have "same_grays c1 c" using 4(2) True c1 rest by simp
    ultimately show ?thesis by (simp add: same_grays_def)
  next
    case False
    with 4 show ?thesis by (auto split: if_splits)
  qed
qed (auto simp: same_grays_def)

lemma grays_reach_same: "same_grays c c' \<Longrightarrow> grays_reach adj c n \<Longrightarrow> grays_reach adj c' n"
  by (simp add: same_grays_def grays_reach_def)

lemma grays_reach_step:
  assumes "grays_reach adj color node" and "(node, t) \<in> succ_rel adj"
  shows "grays_reach adj color t"
  using assms unfolding grays_reach_def by (blast intro: rtrancl_into_rtrancl)

lemma grays_reach_enter:
  "grays_reach adj color node \<Longrightarrow> grays_reach adj (color(node := GRAY)) node"
  by (simp add: grays_reach_def)

lemma dfs_sound:
  "dfs fuel adj node color = Cycle t \<Longrightarrow> grays_reach adj color node \<Longrightarrow> (t, t) \<in> (succ_rel adj)\<^sup>+"
  "dfs_targets fuel adj ts color = Cycle t \<Longrightarrow> fst ` set ts \<subseteq> fst ` set (adj node) \<Longrightarrow>
     grays_reach adj color node \<Longrightarrow> (t, t) \<in> (succ_rel adj)\<^sup>+"
proof (induction fuel adj node color and fuel adj ts color arbitrary: and node
    rule: dfs_dfs_targets.induct)
  case (2 fuel adj node color)
  then have "dfs_targets fuel adj (adj node) (color(node := GRAY)) = Cycle t"
    by (auto split: dfs_result.splits)
  with 2 show ?case using grays_reach_enter by blast
next
  case (4 fuel adj target on ts color)
  then have edge: "(node, target) \<in> succ_rel adj" by (auto simp: succ_rel_def)
  show ?case
  proof (cases "color target")
    case GRAY
    with 4 have "t = target" and "(target, node) \<in> (succ_rel adj)\<^sup>*"
      by (auto simp: grays_reach_def)
    with edge show ?thesis by (simp add: rtrancl_into_trancl1)
  next
    case BLACK
    with 4 show ?thesis by simp blast
  next
    case WHITE
    show ?thesis
    proof (cases "dfs fuel adj target color")
      case OutOfFuel
      with 4 WHITE show ?thesis by simp
    next
      case (Cycle t')
      with 4 WHITE have "t' = t" by simp
      with 4(1) 4(6) WHITE Cycle edge show ?thesis by (simp add: grays_reach_step)
    next
      case (Done c1)
      with WHITE have "same_grays color c1" by (simp add: dfs_grays(1))
      with 4(6) have "grays_reach adj c1 node" by (rule grays_reach_same [rotated])
      moreover have "dfs_targets fuel adj ts c1 = Cycle t" and "fst ` set ts \<subseteq> fst ` set (adj node)"
        using 4(4,5) WHITE Done by simp_all
      ultimately show ?thesis using 4(2) [of c1 node] WHITE Done by simp
    qed
  qed
qed simp_all

text \<open>Completeness: the black steps are closed under successors and lie on no cycle.\<close>

definition blacks_done :: "(string \<Rightarrow> (string \<times> string) list) \<Rightarrow> (string \<Rightarrow> color) \<Rightarrow> bool" where
  "blacks_done adj c =
    (\<forall>x. c x = BLACK \<longrightarrow>
       (\<forall>y. (x, y) \<in> succ_rel adj \<longrightarrow> c y = BLACK) \<and> (x, x) \<notin> (succ_rel adj)\<^sup>+)"

definition blacks_grow :: "(string \<Rightarrow> color) \<Rightarrow> (string \<Rightarrow> color) \<Rightarrow> bool" where
  "blacks_grow c c' = (\<forall>x. c x = BLACK \<longrightarrow> c' x = BLACK)"

lemma blacks_closed_rtrancl:
  assumes "blacks_done adj c" and "c x = BLACK" and "(x, y) \<in> (succ_rel adj)\<^sup>*"
  shows "c y = BLACK"
  using assms(3,2) by induction (use assms(1) in \<open>auto simp: blacks_done_def\<close>)

text \<open>A step whose successors are all black can turn black.\<close>

lemma blacks_done_finish:
  assumes closed: "blacks_done adj c" and gray: "c node \<noteq> BLACK"
    and succs: "\<And>y. (node, y) \<in> succ_rel adj \<Longrightarrow> c y = BLACK"
  shows "blacks_done adj (c(node := BLACK))"
proof -
  have "(node, node) \<notin> (succ_rel adj)\<^sup>+"
  proof
    assume "(node, node) \<in> (succ_rel adj)\<^sup>+"
    then obtain y where "(node, y) \<in> succ_rel adj" and "(y, node) \<in> (succ_rel adj)\<^sup>*"
      by (metis tranclD)
    then have "c node = BLACK" using succs blacks_closed_rtrancl [OF closed] by blast
    with gray show False by simp
  qed
  with closed succs show ?thesis by (auto simp: blacks_done_def)
qed

lemma dfs_complete:
  "dfs fuel adj node color = Done c \<Longrightarrow> color node = WHITE \<Longrightarrow> blacks_done adj color \<Longrightarrow>
     blacks_done adj c \<and> blacks_grow color c \<and> c node = BLACK"
  "dfs_targets fuel adj ts color = Done c \<Longrightarrow> blacks_done adj color \<Longrightarrow>
     blacks_done adj c \<and> blacks_grow color c \<and> (\<forall>t \<in> fst ` set ts. c t = BLACK)"
proof (induction fuel adj node color and fuel adj ts color arbitrary: c and c
    rule: dfs_dfs_targets.induct)
  case (2 fuel adj node color)
  then obtain c1 where c1: "dfs_targets fuel adj (adj node) (color(node := GRAY)) = Done c1"
    and c: "c = c1(node := BLACK)"
    by (auto split: dfs_result.splits)
  have "blacks_done adj (color(node := GRAY))"
    using 2(3,4) by (auto simp: blacks_done_def)
  with 2(1) c1 have IH: "blacks_done adj c1" "blacks_grow (color(node := GRAY)) c1"
    "\<forall>t \<in> fst ` set (adj node). c1 t = BLACK"
    by blast+
  have "c1 node = GRAY"
    using dfs_grays(2) [OF c1] by (simp add: same_grays_def)
  with IH have "blacks_done adj c"
    unfolding c by (intro blacks_done_finish) (auto simp: succ_rel_def)
  moreover have "blacks_grow color c"
    using IH(2) 2(3) by (auto simp: blacks_grow_def c)
  ultimately show ?case unfolding c by (metis fun_upd_same)
next
  case (4 fuel adj target on ts color)
  show ?case
  proof (cases "color target")
    case GRAY
    with 4 show ?thesis by simp
  next
    case BLACK
    with 4 have "blacks_done adj c \<and> blacks_grow color c \<and> (\<forall>t \<in> fst ` set ts. c t = BLACK)"
      by simp
    with BLACK show ?thesis by (auto simp: blacks_grow_def)
  next
    case WHITE
    with 4 obtain c1 where c1: "dfs fuel adj target color = Done c1"
      and rest: "dfs_targets fuel adj ts c1 = Done c"
      by (auto split: dfs_result.splits)
    have one: "blacks_done adj c1 \<and> blacks_grow color c1 \<and> c1 target = BLACK"
      using 4(1) [of c1] 4(5) WHITE c1 by simp
    have "blacks_done adj c \<and> blacks_grow c1 c \<and> (\<forall>t \<in> fst ` set ts. c t = BLACK)"
      using 4(2) WHITE c1 rest one by simp
    with one show ?thesis by (auto simp: blacks_grow_def)
  qed
qed (auto simp: blacks_grow_def)

text \<open>Enough fuel: every call is on a white step and turns it gray.\<close>

definition whites :: "string set \<Rightarrow> (string \<Rightarrow> color) \<Rightarrow> nat" where
  "whites V c = card {x \<in> V. c x = WHITE}"

definition whites_shrink :: "(string \<Rightarrow> color) \<Rightarrow> (string \<Rightarrow> color) \<Rightarrow> bool" where
  "whites_shrink c c' = (\<forall>x. c' x = WHITE \<longrightarrow> c x = WHITE)"

lemma dfs_whites:
  "dfs fuel adj node color = Done c \<Longrightarrow> whites_shrink color c"
  "dfs_targets fuel adj ts color = Done c \<Longrightarrow> whites_shrink color c"
proof (induction fuel adj node color and fuel adj ts color arbitrary: c and c
    rule: dfs_dfs_targets.induct)
  case (2 fuel adj node color)
  then obtain c1 where c1: "dfs_targets fuel adj (adj node) (color(node := GRAY)) = Done c1"
    and c: "c = c1(node := BLACK)"
    by (auto split: dfs_result.splits)
  from 2(1) [OF c1] show ?case unfolding whites_shrink_def c by (metis color.distinct(1,3) fun_upd_apply)
next
  case (4 fuel adj target on ts color)
  show ?case
  proof (cases "color target")
    case WHITE
    with 4 obtain c1 where c1: "dfs fuel adj target color = Done c1"
      and rest: "dfs_targets fuel adj ts c1 = Done c"
      by (auto split: dfs_result.splits)
    have "whites_shrink color c1" using 4(1) WHITE c1 by simp
    moreover have "whites_shrink c1 c" using 4(2) [of c1] WHITE c1 rest by simp
    ultimately show ?thesis by (simp add: whites_shrink_def)
  qed (use 4 in simp_all)
qed (auto simp: whites_shrink_def)

lemma whites_mono: "finite V \<Longrightarrow> whites_shrink c c' \<Longrightarrow> whites V c' \<le> whites V c"
  unfolding whites_def whites_shrink_def by (intro card_mono) auto

lemma whites_gray:
  assumes "finite V" and "node \<in> V" and "c node = WHITE"
  shows "whites V (c(node := GRAY)) < whites V c"
  proof -
  have "{x \<in> V. (c(node := GRAY)) x = WHITE} \<subseteq> {x \<in> V. c x = WHITE} - {node}" by auto
  then have "whites V (c(node := GRAY)) \<le> card ({x \<in> V. c x = WHITE} - {node})"
    unfolding whites_def using assms(1) by (intro card_mono) auto
  also have "\<dots> < card {x \<in> V. c x = WHITE}"
    using assms by (intro card_Diff1_less) auto
  finally show ?thesis by (simp add: whites_def)
qed

lemma dfs_fuel:
  assumes V: "finite V" and adj: "\<And>x. x \<in> V \<Longrightarrow> fst ` set (adj x) \<subseteq> V"
  shows "node \<in> V \<Longrightarrow> color node = WHITE \<Longrightarrow> whites V color \<le> fuel \<Longrightarrow>
           dfs fuel adj node color \<noteq> OutOfFuel"
    and "fst ` set ts \<subseteq> V \<Longrightarrow> whites V color \<le> fuel \<Longrightarrow>
           dfs_targets fuel adj ts color \<noteq> OutOfFuel"
  using adj
proof (induction fuel adj node color and fuel adj ts color rule: dfs_dfs_targets.induct)
  case (1 adj node color)
  then have "{x \<in> V. color x = WHITE} = {}" using V by (simp add: whites_def)
  with 1 show ?case by blast
next
  case (2 fuel adj node color)
  have "whites V (color(node := GRAY)) \<le> fuel"
    using whites_gray [of V node color, OF V 2(2,3)] 2(4) by simp
  with 2(1) [OF 2(5) _ _] 2(2,5) have "dfs_targets fuel adj (adj node) (color(node := GRAY)) \<noteq> OutOfFuel"
    by blast
  then show ?case by (simp split: dfs_result.split)
next
  case (3 fuel adj color)
  then show ?case by simp
next
  case (4 fuel adj target on ts color)
  show ?case
  proof (cases "color target")
    case WHITE
    show ?thesis
    proof (cases "dfs fuel adj target color")
      case OutOfFuel
      with 4(1) 4(4-) WHITE show ?thesis by simp
    next
      case (Cycle t)
      with WHITE show ?thesis by simp
    next
      case (Done c1)
      then have "whites V c1 \<le> whites V color" by (simp add: dfs_whites(1) whites_mono V)
      with 4(2) 4(4-) WHITE Done show ?thesis by simp
    qed
  qed (use 4 in simp_all)
qed

subsection \<open>The loop over all steps\<close>

definition no_gray :: "(string \<Rightarrow> color) \<Rightarrow> bool" where
  "no_gray c = (\<forall>x. c x \<noteq> GRAY)"

lemma no_gray_same: "no_gray c \<Longrightarrow> same_grays c c' \<Longrightarrow> no_gray c'"
  by (simp add: no_gray_def same_grays_def)

lemma find_cycle_sound:
  "find_cycle fuel adj ids color = Cycle t \<Longrightarrow> no_gray color \<Longrightarrow> (t, t) \<in> (succ_rel adj)\<^sup>+"
proof (induction ids arbitrary: color)
  case Nil
  then show ?case by simp
next
  case (Cons sid ids)
  show ?case
  proof (cases "color sid = WHITE")
    case False
    with Cons show ?thesis by simp
  next
    case True
    show ?thesis
    proof (cases "dfs fuel adj sid color")
      case OutOfFuel
      with Cons True show ?thesis by simp
    next
      case (Cycle t')
      with Cons True have "dfs fuel adj sid color = Cycle t" by simp
      moreover have "grays_reach adj color sid"
        using Cons.prems(2) by (simp add: grays_reach_def no_gray_def)
      ultimately show ?thesis by (rule dfs_sound(1))
    next
      case (Done c1)
      with True have "no_gray c1" using Cons.prems(2) dfs_grays(1) no_gray_same by blast
      with Cons True Done show ?thesis by simp
    qed
  qed
qed

lemma find_cycle_complete:
  "find_cycle fuel adj ids color = Done c \<Longrightarrow> no_gray color \<Longrightarrow> blacks_done adj color \<Longrightarrow>
     blacks_done adj c \<and> blacks_grow color c \<and> (\<forall>x \<in> set ids. c x = BLACK)"
proof (induction ids arbitrary: color)
  case Nil
  then show ?case by (simp add: blacks_grow_def)
next
  case (Cons sid ids)
  show ?case
  proof (cases "color sid = WHITE")
    case False
    then have "color sid = BLACK" using Cons.prems(2) by (cases "color sid") (auto simp: no_gray_def)
    moreover have "blacks_done adj c \<and> blacks_grow color c \<and> (\<forall>x \<in> set ids. c x = BLACK)"
      using Cons.IH Cons.prems False by simp
    ultimately show ?thesis by (simp add: blacks_grow_def)
  next
    case True
    with Cons.prems obtain c1 where c1: "dfs fuel adj sid color = Done c1"
      and rest: "find_cycle fuel adj ids c1 = Done c"
      by (auto split: dfs_result.splits)
    have "no_gray c1" using Cons.prems(2) dfs_grays(1) [OF c1 True] no_gray_same by blast
    moreover have one: "blacks_done adj c1 \<and> blacks_grow color c1 \<and> c1 sid = BLACK"
      using dfs_complete(1) [OF c1 True Cons.prems(3)] .
    ultimately have "blacks_done adj c \<and> blacks_grow c1 c \<and> (\<forall>x \<in> set ids. c x = BLACK)"
      using Cons.IH rest by blast
    with one show ?thesis by (simp add: blacks_grow_def)
  qed
qed

lemma find_cycle_fuel:
  assumes V: "finite V" and adj: "\<And>x. x \<in> V \<Longrightarrow> fst ` set (adj x) \<subseteq> V"
  shows "set ids \<subseteq> V \<Longrightarrow> whites V color \<le> fuel \<Longrightarrow> find_cycle fuel adj ids color \<noteq> OutOfFuel"
proof (induction ids arbitrary: color)
  case Nil
  then show ?case by simp
next
  case (Cons sid ids)
  show ?case
  proof (cases "dfs fuel adj sid color")
    case OutOfFuel
    with Cons.prems have "color sid \<noteq> WHITE"
      using dfs_fuel(1) [of V adj sid color fuel] V adj by auto
    with Cons show ?thesis by simp
  next
    case (Done c1)
    then have "whites V c1 \<le> whites V color" by (simp add: dfs_whites(1) whites_mono V)
    with Cons Done show ?thesis by simp
  next
    case (Cycle t)
    with Cons show ?thesis by simp
  qed
qed

section \<open>The cycle check decides acyclicity\<close>

lemma finite_edge_rel [simp]: "finite (edge_rel es)"
  by (simp add: edge_rel_def)

lemma adjacency_targets: "fst ` set (adjacency ids es x) \<subseteq> set ids"
  by (auto simp: adjacency_def proper_edges_def)

lemma cycle_step_None_iff:
  assumes order: "set order = set ids"
  shows "cycle_step order ids es = None \<longleftrightarrow> acyclic (edge_rel (proper_edges ids es))"
proof -
  let ?adj = "adjacency ids es"
  let ?r = "find_cycle (Suc (length ids)) ?adj order (\<lambda>_. WHITE)"
  have "whites (set ids) (\<lambda>_. WHITE) \<le> Suc (length ids)"
    by (simp add: whites_def card_length le_SucI)
  then have fuel: "?r \<noteq> OutOfFuel"
    using find_cycle_fuel [of "set ids" ?adj order "\<lambda>_. WHITE" "Suc (length ids)"] order
      adjacency_targets by blast
  have start: "no_gray (\<lambda>_. WHITE)" "blacks_done ?adj (\<lambda>_. WHITE)"
    by (simp_all add: no_gray_def blacks_done_def)
  show ?thesis
  proof (cases ?r)
    case OutOfFuel
    with fuel show ?thesis by simp
  next
    case (Cycle t)
    with start have "(t, t) \<in> (edge_rel (proper_edges ids es))\<^sup>+"
      using find_cycle_sound succ_rel_adjacency by metis
    with Cycle show ?thesis by (auto simp: cycle_step_def acyclic_def)
  next
    case (Done c)
    with start order have black: "blacks_done ?adj c" "\<forall>x \<in> set ids. c x = BLACK"
      using find_cycle_complete by metis+
    have "acyclic (edge_rel (proper_edges ids es))"
      unfolding acyclic_def
    proof (intro allI notI)
      fix x assume x: "(x, x) \<in> (edge_rel (proper_edges ids es))\<^sup>+"
      then have "x \<in> set ids"
        by (induction rule: converse_trancl_induct) (auto simp: edge_rel_def proper_edges_def)
      with black x show False
        unfolding blacks_done_def succ_rel_adjacency by blast
    qed
    with Done show ?thesis by (simp add: cycle_step_def)
  qed
qed

lemma cycle_step_Some:
  assumes "cycle_step order ids es = Some t"
  shows "(t, t) \<in> (edge_rel (proper_edges ids es))\<^sup>+"
  using assms find_cycle_sound [of "Suc (length ids)" "adjacency ids es" order "\<lambda>_. WHITE" t]
  by (auto simp: cycle_step_def no_gray_def succ_rel_adjacency split: dfs_result.splits)

section \<open>Entry points and reachability\<close>

lemma incoming_0_iff: "incoming ids es sid = 0 \<longleftrightarrow> (\<forall>e \<in> set (proper_edges ids es). e_to e \<noteq> sid)"
  by (simp add: incoming_def filter_empty_conv)

lemma entry_reaches:
  assumes acyclic: "acyclic (edge_rel (proper_edges ids es))" and sid: "sid \<in> set ids"
  shows "\<exists>entry \<in> set (entry_ids_of ids es). (entry, sid) \<in> (edge_rel (proper_edges ids es))\<^sup>*"
proof -
  have "wf (edge_rel (proper_edges ids es))"
    using acyclic by (simp add: finite_acyclic_wf)
  then show ?thesis using sid
  proof (induction sid rule: wf_induct_rule)
    case (less sid)
    show ?case
    proof (cases "incoming ids es sid = 0")
      case True
      with less.prems show ?thesis by (auto simp: entry_ids_of_def)
    next
      case False
      then obtain e where e: "e \<in> set (proper_edges ids es)" "e_to e = sid"
        by (auto simp: incoming_0_iff)
      then have edge: "(e_from e, sid) \<in> edge_rel (proper_edges ids es)"
        by (auto simp: edge_rel_def)
      moreover have "e_from e \<in> set ids" using e by (simp add: proper_edges_def)
      ultimately obtain entry where "entry \<in> set (entry_ids_of ids es)"
        and "(entry, e_from e) \<in> (edge_rel (proper_edges ids es))\<^sup>*"
        using less.IH by blast
      with edge show ?thesis by (meson rtrancl_into_rtrancl)
    qed
  qed
qed

lemma acyclic_entry:
  assumes "acyclic (edge_rel (proper_edges ids es))" and "ids \<noteq> []"
  shows "entry_ids_of ids es \<noteq> []"
  using entry_reaches [OF assms(1), of "hd ids"] assms(2) by auto

section \<open>What a validated graph promises\<close>

definition sound_graph :: "string list \<Rightarrow> workflow_edge list \<Rightarrow> bool" where
  "sound_graph ids es =
    (distinct ids \<and> (\<forall>e \<in> set es. e_from e \<in> set ids \<and> e_to e \<in> set ids) \<and> acyclic (edge_rel es))"

definition doc_ids :: "workflow_document \<Rightarrow> string list" where
  "doc_ids doc = map step_id (s_steps (spec doc))"

definition structural_codes :: "string list" where
  "structural_codes = [''DUPLICATE_STEP_ID'', ''DANGLING_EDGE'', ''CYCLE_DETECTED'', ''NO_ENTRY_POINT'']"

definition structural :: "issue \<Rightarrow> bool" where
  "structural i = (issue_code i \<in> set structural_codes)"

lemma duplicate_issues_structural: "i \<in> set (duplicate_issues n seen ids) \<Longrightarrow> structural i"
  by (induction ids arbitrary: n seen)
    (auto simp: structural_def structural_codes_def mk_issue_def split: if_splits)

lemma dangling_issues_structural: "i \<in> set (dangling_issues n ids es) \<Longrightarrow> structural i"
  by (induction es arbitrary: n)
    (auto simp: structural_def structural_codes_def mk_issue_def split: if_splits)

lemma condition_issues_not_structural: "i \<in> set (condition_issues parse st) \<Longrightarrow> \<not> structural i"
  by (auto simp: condition_issues_def Let_def structural_def structural_codes_def mk_issue_def
      split: if_splits)

lemma branch_issues_not_structural: "i \<in> set (branch_issues adj st) \<Longrightarrow> \<not> structural i"
  by (auto simp: branch_issues_def structural_def structural_codes_def mk_issue_def split: if_splits)

lemma require_field_not_structural: "i \<in> set (require_field st k) \<Longrightarrow> \<not> structural i"
  by (auto simp: require_field_def cfg_error_def structural_def structural_codes_def mk_issue_def
      split: if_splits)

lemma cfg_error_not_structural [simp]:
  "structural (cfg_error st k code) \<longleftrightarrow> code \<in> set structural_codes"
  by (simp add: cfg_error_def structural_def mk_issue_def)

lemmas validate_kind_defs =
  validate_service_config_def validate_system_config_def validate_file_config_def
  validate_package_config_def validate_check_config_def validate_wait_config_def

lemma step_config_not_structural: "i \<in> set (validate_step_config st) \<Longrightarrow> \<not> structural i"
  by (auto simp: validate_step_config_def validate_kind_defs Let_def structural_codes_def
      dest: require_field_not_structural split: node_type.splits if_splits)

lemma structure_errors_Nil:
  "duplicate_issues 0 {} ids @ dangling_issues 0 ids es = [] \<longleftrightarrow>
     distinct ids \<and> (\<forall>e \<in> set es. e_from e \<in> set ids \<and> e_to e \<in> set ids)"
  by (simp add: duplicate_issues_Nil dangling_issues_Nil)

lemma validate_graph_cases:
  assumes order: "set order = set (doc_ids doc)" and steps: "s_steps (spec doc) \<noteq> []"
  shows "if sound_graph (doc_ids doc) (s_edges (spec doc))
    then (\<forall>i \<in> set (fst (validate_graph parse order doc)). \<not> structural i)
    else fst (validate_graph parse order doc) \<noteq> []
      \<and> (\<forall>i \<in> set (fst (validate_graph parse order doc)). structural i \<and> issue_code i \<noteq> ''NO_ENTRY_POINT'')"
proof -
  let ?ids = "doc_ids doc" and ?es = "s_edges (spec doc)"
  let ?errors = "duplicate_issues 0 {} ?ids @ dangling_issues 0 ?ids ?es"
  have code: "issue_code i \<noteq> ''NO_ENTRY_POINT''" if "i \<in> set ?errors" for i
  proof -
    have "issue_code i = ''DUPLICATE_STEP_ID''" if "i \<in> set (duplicate_issues n seen ids)" for n seen ids
      using that by (induction ids arbitrary: n seen) (auto simp: mk_issue_def split: if_splits)
    moreover have "issue_code i = ''DANGLING_EDGE''" if "i \<in> set (dangling_issues n ids es)" for n ids es
      using that by (induction es arbitrary: n) (auto simp: mk_issue_def split: if_splits)
    ultimately show ?thesis using that by fastforce
  qed
  show ?thesis
  proof (cases "?errors = []")
    case False
    then have "fst (validate_graph parse order doc) = ?errors"
      unfolding validate_graph_def Let_def doc_ids_def [symmetric] by (simp only: if_True fst_conv not_False_eq_True)
    moreover have "\<not> sound_graph ?ids ?es" using False unfolding structure_errors_Nil sound_graph_def by blast
    moreover have "\<forall>i \<in> set ?errors. structural i"
      using duplicate_issues_structural dangling_issues_structural by auto
    ultimately show ?thesis using False code by (simp only: if_False) blast
  next
    case True
    then have ok: "distinct ?ids" "\<forall>e \<in> set ?es. e_from e \<in> set ?ids \<and> e_to e \<in> set ?ids"
      unfolding structure_errors_Nil by blast+
    then have proper: "proper_edges ?ids ?es = ?es" by (simp add: proper_edges_def)
    show ?thesis
    proof (cases "cycle_step order ?ids ?es")
      case (Some t)
      then have "\<not> acyclic (edge_rel ?es)"
        using cycle_step_Some [OF Some] by (auto simp: proper acyclic_def)
      then have "\<not> sound_graph ?ids ?es" by (simp add: sound_graph_def)
      with True Some show ?thesis
        unfolding validate_graph_def Let_def doc_ids_def [symmetric]
        by (simp add: structural_def structural_codes_def mk_issue_def)
    next
      case None
      then have acyclic: "acyclic (edge_rel ?es)"
        using cycle_step_None_iff [OF order, of ?es] by (simp add: proper)
      moreover have "?ids \<noteq> []" using steps by (simp add: doc_ids_def)
      ultimately have entry: "entry_ids_of ?ids ?es \<noteq> []"
        using acyclic_entry [of ?ids ?es] by (simp add: proper)
      from ok acyclic have "sound_graph ?ids ?es" by (simp add: sound_graph_def)
      moreover from True None entry have "fst (validate_graph parse order doc) =
          concat (map (condition_issues parse) (s_steps (spec doc)))
          @ concat (map (branch_issues (adjacency ?ids ?es)) (s_steps (spec doc)))
          @ validate_step_configs (s_steps (spec doc))"
        unfolding validate_graph_def Let_def doc_ids_def [symmetric] by simp
      ultimately show ?thesis
        by (auto simp: validate_step_configs_def dest: condition_issues_not_structural
            branch_issues_not_structural step_config_not_structural)
    qed
  qed
qed

lemma build_graph_entries:
  assumes "sound_graph (doc_ids doc) (s_edges (spec doc))"
  shows "g_entry_ids (build_graph doc) = entry_ids_of (doc_ids doc) (s_edges (spec doc))"
proof -
  have "proper_edges (doc_ids doc) (s_edges (spec doc)) = s_edges (spec doc)"
    using assms by (simp add: sound_graph_def proper_edges_def)
  then show ?thesis by (simp add: build_graph_def Let_def entry_ids_of_def incoming_def doc_ids_def)
qed

lemma compile_workflow_SomeD:
  assumes "compile_workflow yaml_load model_validate parse order src = (Some doc, Some g, r)"
  shows "fst (validate_graph parse order doc) = [] \<and> g = build_graph doc \<and> vr_valid r \<and> vr_errors r = []
    \<and> (\<exists>data. yaml_load src = Some (PDict data) \<and> model_validate data = Inr doc)"
  using assms
  by (auto simp: compile_workflow_def parse_yaml_text_def
      split: option.splits sum.splits prod.splits if_splits pv.splits)

text \<open>A two-step document for the witnesses.\<close>

definition sample_step :: "string \<Rightarrow> node_type \<Rightarrow> config \<Rightarrow> workflow_step" where
  "sample_step sid t cfg =
    \<lparr>step_id = sid, step_type = t, step_name = sid, step_config = cfg, step_disabled = False,
     step_timeout = None, step_retry_opt = None, step_on_failure = None\<rparr>"

definition sample_edge :: "string \<Rightarrow> string \<Rightarrow> workflow_edge" where
  "sample_edge a b = \<lparr>e_from = a, e_to = b, e_on = ''success''\<rparr>"

definition sample_doc :: "workflow_step list \<Rightarrow> workflow_edge list \<Rightarrow> workflow_document" where
  "sample_doc steps edges =
    \<lparr>apiVersion = ''lokilinux/v1'', kind = ''Workflow'',
     metadata = \<lparr>m_name = ''sample'', m_severity = None\<rparr>,
     spec = \<lparr>s_targets = \<lparr>t_all = Some True, t_agent_ids = None, t_filters = None\<rparr>,
       s_strategy = \<lparr>mode = ''all_at_once'', batch_size = None\<rparr>,
       s_defaults = \<lparr>d_timeout = None, d_on_failure = None\<rparr>,
       s_vars = [], s_steps = steps, s_edges = edges\<rparr>\<rparr>"

definition chain_doc :: workflow_document where
  "chain_doc = sample_doc
     [sample_step ''a'' T_START [],
      sample_step ''b'' T_SERVICE [(''action'', PStr ''restart''), (''name'', PStr ''nginx'')]]
     [sample_edge ''a'' ''b'']"

definition no_parse :: "string \<Rightarrow> string + expr" where
  "no_parse src = Inl ''syntax''"

lemma chain_doc_simps:
  "doc_ids chain_doc = [''a'', ''b'']" "s_steps (spec chain_doc) \<noteq> []"
  by (simp_all add: chain_doc_def sample_doc_def sample_step_def doc_ids_def)

section \<open>Properties\<close>

text \<open>C13. Publish-time graph validation decides the shape of the graph: whatever the order in which
  the search visits the step ids, the errors of \<open>validate_graph\<close> name no structural fault (duplicate
  id, dangling edge, cycle, missing entry) exactly when the step ids are distinct, every edge joins two
  steps and the edges have no cycle; and the error \<open>NO_ENTRY_POINT\<close> is never reported, as every
  acyclic non-empty graph has an entry.\<close>

theorem validate_graph_decides_structure:
  assumes "set order = set (doc_ids doc)" and "s_steps (spec doc) \<noteq> []"
  shows "((\<forall>i \<in> set (fst (validate_graph parse order doc)). \<not> structural i)
      \<longleftrightarrow> sound_graph (doc_ids doc) (s_edges (spec doc)))
    \<and> ''NO_ENTRY_POINT'' \<notin> issue_code ` set (fst (validate_graph parse order doc))"
proof (cases "sound_graph (doc_ids doc) (s_edges (spec doc))")
  case True
  with validate_graph_cases [OF assms, of parse]
  have all: "\<forall>i \<in> set (fst (validate_graph parse order doc)). \<not> structural i"
    by (simp only: if_True)
  have "''NO_ENTRY_POINT'' \<notin> issue_code ` set (fst (validate_graph parse order doc))"
  proof
    assume "''NO_ENTRY_POINT'' \<in> issue_code ` set (fst (validate_graph parse order doc))"
    then obtain i where i: "i \<in> set (fst (validate_graph parse order doc))"
      and code: "''NO_ENTRY_POINT'' = issue_code i"
      by (rule imageE)
    have "structural i" unfolding structural_def structural_codes_def code [symmetric] by simp
    with all i show False by blast
  qed
  with all True show ?thesis by blast
next
  case False
  let ?errs = "fst (validate_graph parse order doc)"
  from False validate_graph_cases [OF assms, of parse]
  have all: "?errs \<noteq> [] \<and> (\<forall>i \<in> set ?errs. structural i \<and> issue_code i \<noteq> ''NO_ENTRY_POINT'')"
    by (simp only: if_False simp_thms) (elim conjE, assumption)
  then have "hd ?errs \<in> set ?errs" by simp
  with all False show ?thesis by auto
qed

theorem validate_graph_decides_structure_witness:
  "((\<forall>i \<in> set (fst (validate_graph no_parse [''b'', ''a''] chain_doc)). \<not> structural i)
      \<longleftrightarrow> sound_graph (doc_ids chain_doc) (s_edges (spec chain_doc)))
    \<and> ''NO_ENTRY_POINT'' \<notin> issue_code ` set (fst (validate_graph no_parse [''b'', ''a''] chain_doc))"
  by (rule validate_graph_decides_structure) (auto simp: chain_doc_simps)

text \<open>The verdict of graph validation does not depend on the iteration order of Python's set of
  step ids: for any two orders the same error codes in the same sequence and the same warnings are
  reported (only the step that a cycle is reported at may differ).\<close>

theorem validate_graph_order_irrelevant:
  assumes "set order = set (doc_ids doc)" and "set order' = set (doc_ids doc)"
  shows "map issue_code (fst (validate_graph parse order doc)) =
      map issue_code (fst (validate_graph parse order' doc))
    \<and> snd (validate_graph parse order doc) = snd (validate_graph parse order' doc)"
proof -
  have "cycle_step order (doc_ids doc) (s_edges (spec doc)) = None
      \<longleftrightarrow> cycle_step order' (doc_ids doc) (s_edges (spec doc)) = None"
    by (simp add: cycle_step_None_iff assms)
  then show ?thesis
    unfolding validate_graph_def Let_def doc_ids_def [symmetric]
    by (auto simp: mk_issue_def split: option.split)
qed

theorem validate_graph_order_irrelevant_witness:
  "map issue_code (fst (validate_graph no_parse [''b'', ''a''] chain_doc)) =
      map issue_code (fst (validate_graph no_parse [''a'', ''b''] chain_doc))
    \<and> snd (validate_graph no_parse [''b'', ''a''] chain_doc)
      = snd (validate_graph no_parse [''a'', ''b''] chain_doc)"
  by (rule validate_graph_order_irrelevant) (auto simp: chain_doc_simps)

text \<open>A workflow that compiles has a graph the engine can run through: the compiled graph carries
  the document's steps and edges, its ids are distinct, its edges join steps and form no cycle, and
  every step is reached along edges from one of the entry steps \<open>build_graph\<close> computed.\<close>

theorem compiled_graph_reachable:
  assumes "compile_workflow yaml_load model_validate parse order src = (Some doc, Some g, r)"
    and "set order = set (doc_ids doc)" and "s_steps (spec doc) \<noteq> []"
  shows "g_steps g = s_steps (spec doc) \<and> g_edges g = s_edges (spec doc)
    \<and> sound_graph (map step_id (g_steps g)) (g_edges g)
    \<and> (\<forall>st \<in> set (g_steps g). \<exists>entry \<in> set (g_entry_ids g). (entry, step_id st) \<in> (edge_rel (g_edges g))\<^sup>*)"
proof -
  from compile_workflow_SomeD [OF assms(1)]
  have ok: "fst (validate_graph parse order doc) = []" and g: "g = build_graph doc" by auto
  have sound: "sound_graph (doc_ids doc) (s_edges (spec doc))"
    using validate_graph_cases [OF assms(2,3), of parse] ok by (auto split: if_splits)
  then have proper: "proper_edges (doc_ids doc) (s_edges (spec doc)) = s_edges (spec doc)"
    by (simp add: sound_graph_def proper_edges_def)
  have fields: "g_steps g = s_steps (spec doc)" "g_edges g = s_edges (spec doc)"
    by (simp_all add: g build_graph_def Let_def)
  have acyclic: "acyclic (edge_rel (s_edges (spec doc)))" using sound by (simp add: sound_graph_def)
  have "\<exists>entry \<in> set (g_entry_ids g). (entry, sid) \<in> (edge_rel (g_edges g))\<^sup>*"
    if "sid \<in> set (doc_ids doc)" for sid
    using entry_reaches [of "doc_ids doc" "s_edges (spec doc)" sid] that acyclic
    unfolding fields unfolding g build_graph_entries [OF sound] by (simp add: proper)
  with sound fields show ?thesis by (auto simp: doc_ids_def)
qed

theorem compiled_graph_reachable_witness:
  "sound_graph (map step_id (g_steps (build_graph chain_doc))) (g_edges (build_graph chain_doc))"
proof -
  have "compile_workflow (\<lambda>_. Some (PDict [])) (\<lambda>_. Inr chain_doc) no_parse [''a'', ''b''] ''src''
      = (Some chain_doc, Some (build_graph chain_doc), \<lparr>vr_valid = True, vr_errors = [], vr_warnings = []\<rparr>)"
    by code_simp
  from compiled_graph_reachable [OF this] show ?thesis unfolding chain_doc_simps(1)
    using chain_doc_simps(2) by blast
qed

end
