(* ===== verification/Shell.thy ===== *)
theory Shell
  imports Prelude
begin

text \<open>
  The shell boundary: \<open>utils/shell.py\<close> (quoting one value, the package-name and host-name
  patterns) and \<open>utils/agent_capability.py\<close> (the version gate for native modules). The
  reader of a command line is a specification, not code of the repository: the POSIX rules for
  splitting a line into words, restricted to lines that hold no operator, expansion or comment.
  A quoted value is read back as exactly one word.
\<close>

section \<open>Quoting\<close>

text \<open>\<open>shlex.quote\<close>: the pattern \<open>[^\w@%+=:,./-]\<close> (ASCII) finds an unsafe character.\<close>

definition sq :: char where "sq = char_of (39::nat)"
definition dq :: char where "dq = char_of (34::nat)"

definition safe_char :: "char \<Rightarrow> bool" where
  "safe_char c = (is_alnum c \<or> c = CHR ''_'' \<or> c \<in> set ''@%+=:,./-'')"

definition escape_sq :: "string \<Rightarrow> string" where
  "escape_sq s = concat (map (\<lambda>c. if c = sq then [sq, dq, sq, dq, sq] else [c]) s)"

definition shlex_quote :: "string \<Rightarrow> string" where
  "shlex_quote s =
    (if s = [] then [sq, sq]
     else if list_all safe_char s then s
     else [sq] @ escape_sq s @ [sq])"

definition q :: "pv \<Rightarrow> string" where
  "q v = shlex_quote (pystr v)"

section \<open>Reading a command line\<close>

text \<open>The reader yields words and operator characters. Outside quotes a blank separates words, the
  characters of \<open>op_char\<close> stand for themselves as operators (redirection, lists, pipes, groups,
  expansions, tests) and the safe characters build words; every other character makes the reader give
  up. In single quotes all characters are plain, in double quotes all but those of expansions.\<close>

datatype sh_mode = Bare | InSq | InDq

datatype sh_token = Word string | Op char

definition op_char :: "char \<Rightarrow> bool" where
  "op_char c = (c \<in> set ''><&|;()$?[]'')"

definition dq_plain :: "char \<Rightarrow> bool" where
  "dq_plain c = (c \<noteq> CHR ''$'' \<and> c \<noteq> char_of (96::nat) \<and> c \<noteq> char_of (92::nat) \<and> c \<noteq> CHR ''!'')"

definition word_so_far :: "string option \<Rightarrow> string" where
  "word_so_far w = (case w of None \<Rightarrow> [] | Some s \<Rightarrow> s)"

definition flush_word :: "string option \<Rightarrow> sh_token list" where
  "flush_word w = (case w of None \<Rightarrow> [] | Some s \<Rightarrow> [Word s])"

fun sh_read :: "sh_mode \<Rightarrow> string option \<Rightarrow> string \<Rightarrow> sh_token list option" where
  "sh_read Bare w [] = Some (flush_word w)"
| "sh_read InSq w [] = None"
| "sh_read InDq w [] = None"
| "sh_read Bare w (c # cs) =
    (if c = CHR '' '' then map_option (\<lambda>ts. flush_word w @ ts) (sh_read Bare None cs)
     else if op_char c then map_option (\<lambda>ts. flush_word w @ Op c # ts) (sh_read Bare None cs)
     else if c = sq then sh_read InSq (Some (word_so_far w)) cs
     else if c = dq then sh_read InDq (Some (word_so_far w)) cs
     else if safe_char c then sh_read Bare (Some (word_so_far w @ [c])) cs
     else None)"
| "sh_read InSq w (c # cs) =
    (if c = sq then sh_read Bare w cs
     else sh_read InSq (Some (word_so_far w @ [c])) cs)"
| "sh_read InDq w (c # cs) =
    (if c = dq then sh_read Bare w cs
     else if dq_plain c then sh_read InDq (Some (word_so_far w @ [c])) cs
     else None)"

definition sh_tokens :: "string \<Rightarrow> sh_token list option" where
  "sh_tokens line = sh_read Bare None line"

lemma word_so_far_simps [simp]: "word_so_far None = []" "word_so_far (Some s) = s"
  by (simp_all add: word_so_far_def)

lemma flush_word_simps [simp]: "flush_word None = []" "flush_word (Some s) = [Word s]"
  by (simp_all add: flush_word_def)

lemma quote_chars [simp]:
  "sq \<noteq> dq" "dq \<noteq> sq" "sq \<noteq> CHR '' ''" "dq \<noteq> CHR '' ''" "\<not> safe_char sq" "\<not> safe_char dq"
  "\<not> safe_char (CHR '' '')" "dq_plain sq" "\<not> op_char sq" "\<not> op_char dq"
  by (simp_all add: sq_def dq_def safe_char_def is_alnum_def is_digit_def is_lower_def is_upper_def
      dq_plain_def op_char_def char_of_eq_iff)

lemma op_char_unsafe: "op_char c \<Longrightarrow> \<not> safe_char c"
  by (auto simp: op_char_def safe_char_def is_alnum_def is_digit_def is_lower_def is_upper_def)

lemma safe_char_plain: "safe_char c \<Longrightarrow> c \<noteq> CHR '' '' \<and> c \<noteq> sq \<and> c \<noteq> dq \<and> \<not> op_char c"
  using op_char_unsafe by auto

lemma sh_read_safe_Cons:
  "safe_char c \<Longrightarrow> sh_read Bare w (c # cs) = sh_read Bare (Some (word_so_far w @ [c])) cs"
  using safe_char_plain [of c] by simp

lemma sh_read_safe:
  "list_all safe_char s \<Longrightarrow> sh_read Bare (Some w) (s @ rest) = sh_read Bare (Some (w @ s)) rest"
  by (induction s arbitrary: w) (simp_all add: sh_read_safe_Cons del: sh_read.simps)

lemma sh_read_safe_start:
  "list_all safe_char s \<Longrightarrow> s \<noteq> [] \<Longrightarrow> sh_read Bare w (s @ rest) = sh_read Bare (Some (word_so_far w @ s)) rest"
  by (cases s) (simp_all add: sh_read_safe_Cons sh_read_safe del: sh_read.simps)

lemma sh_read_escaped:
  "sh_read InSq (Some w) (escape_sq s @ rest) = sh_read InSq (Some (w @ s)) rest"
  by (induction s arbitrary: w) (simp_all add: escape_sq_def)

text \<open>A quoted value continues the current word with exactly the value, whatever it holds.\<close>

lemma sh_read_quote:
  "sh_read Bare w (shlex_quote s @ rest) = sh_read Bare (Some (word_so_far w @ s)) rest"
proof -
  consider "s = []" | "s \<noteq> []" "list_all safe_char s" | "s \<noteq> []" "\<not> list_all safe_char s"
    by blast
  then show ?thesis
  proof cases
    case 1
    then show ?thesis by (simp add: shlex_quote_def)
  next
    case 2
    then show ?thesis by (simp add: shlex_quote_def sh_read_safe_start del: sh_read.simps)
  next
    case 3
    then have "shlex_quote s = sq # escape_sq s @ [sq]"
      by (simp add: shlex_quote_def)
    then show ?thesis
      by (simp add: sh_read_escaped [where rest = "sq # rest"])
  qed
qed

text \<open>What a caller of a quoting function relies on: a line made of quoted values separated by blanks
  is read back as the words of the values.\<close>

locale quoting =
  fixes quote :: "string \<Rightarrow> string"
    and read :: "sh_mode \<Rightarrow> string option \<Rightarrow> string \<Rightarrow> sh_token list option"
  assumes read_quote: "read Bare w (quote s @ rest) = read Bare (Some (word_so_far w @ s)) rest"
    and read_blank: "read Bare w (CHR '' '' # rest) = map_option (\<lambda>ts. flush_word w @ ts) (read Bare None rest)"
    and read_op: "op_char c \<Longrightarrow>
      read Bare w (c # rest) = map_option (\<lambda>ts. flush_word w @ Op c # ts) (read Bare None rest)"
    and read_end: "read Bare w [] = Some (flush_word w)"
begin

lemma read_quote_end: "read Bare w (quote s) = Some [Word (word_so_far w @ s)]"
  using read_quote [of w s "[]"] by (simp add: read_end)

lemma read_quote_blank:
  "read Bare None (quote s @ CHR '' '' # rest) = map_option (Cons (Word s)) (read Bare None rest)"
  by (simp add: read_quote read_blank)

lemma read_join_quotes:
  "ss \<noteq> [] \<Longrightarrow> read Bare None (join '' '' (map quote ss)) = Some (map Word ss)"
proof (induction ss rule: induct_list012)
  case (3 x y zs)
  have "join '' '' (map quote (x # y # zs)) = quote x @ CHR '' '' # join '' '' (map quote (y # zs))"
    by simp
  with 3 show ?case by (simp only: read_quote_blank) simp
qed (simp_all add: read_quote_end)

lemma read_join_quotes_op:
  "op_char c \<Longrightarrow> ss \<noteq> [] \<Longrightarrow> read Bare None (join '' '' (map quote ss) @ c # rest) =
     map_option (\<lambda>ts. map Word ss @ Op c # ts) (read Bare None rest)"
proof (induction ss rule: induct_list012)
  case (3 x y zs)
  have "join '' '' (map quote (x # y # zs)) @ c # rest =
      quote x @ CHR '' '' # (join '' '' (map quote (y # zs)) @ c # rest)"
    by simp
  with 3 show ?case by (simp only: read_quote_blank) (simp add: option.map_comp comp_def)
qed (simp_all add: read_quote read_op)

end

interpretation sh: quoting shlex_quote sh_read
  by unfold_locales (auto simp: sh_read_quote op_char_def)

text \<open>Numbers are written with safe characters.\<close>

lemma is_digit_safe: "is_digit c \<Longrightarrow> safe_char c"
  by (simp add: safe_char_def is_alnum_def)

lemma show_nat_safe: "list_all safe_char (show_nat n)"
  by (auto simp: list_all_iff intro: is_digit_safe show_nat_digits)

lemma show_int_safe: "list_all safe_char (show_int i)" "show_int i \<noteq> []"
  by (simp_all add: show_int_def show_nat_safe) (simp add: safe_char_def)

lemma sh_read_show_int:
  "sh_read Bare w (show_int i @ rest) = sh_read Bare (Some (word_so_far w @ show_int i)) rest"
  by (rule sh_read_safe_start) (rule show_int_safe)+

lemma sh_read_show_int_end: "sh_read Bare w (show_int i) = Some [Word (word_so_far w @ show_int i)]"
  using sh_read_show_int [of w i "[]"] by simp

text \<open>A line as the compile functions assemble it: fixed words, fixed quoted texts, quoted values,
  numbers, blanks and operators. Its tokens can be read off the parts.\<close>

datatype sh_part = Lit string | Raw string | Arg string | Num int | Gap | Opr char

fun render_part :: "sh_part \<Rightarrow> string" where
  "render_part (Lit s) = s"
| "render_part (Raw s) = [sq] @ s @ [sq]"
| "render_part (Arg s) = shlex_quote s"
| "render_part (Num i) = show_int i"
| "render_part Gap = '' ''"
| "render_part (Opr c) = [c]"

definition render :: "sh_part list \<Rightarrow> string" where
  "render ps = concat (map render_part ps)"

fun part_ok :: "sh_part \<Rightarrow> bool" where
  "part_ok (Lit s) = (s \<noteq> [] \<and> list_all safe_char s)"
| "part_ok (Raw s) = (sq \<notin> set s)"
| "part_ok (Opr c) = op_char c"
| "part_ok _ = True"

fun part_tokens :: "string option \<Rightarrow> sh_part list \<Rightarrow> sh_token list" where
  "part_tokens w [] = flush_word w"
| "part_tokens w (Lit s # ps) = part_tokens (Some (word_so_far w @ s)) ps"
| "part_tokens w (Raw s # ps) = part_tokens (Some (word_so_far w @ s)) ps"
| "part_tokens w (Arg s # ps) = part_tokens (Some (word_so_far w @ s)) ps"
| "part_tokens w (Num i # ps) = part_tokens (Some (word_so_far w @ show_int i)) ps"
| "part_tokens w (Gap # ps) = flush_word w @ part_tokens None ps"
| "part_tokens w (Opr c # ps) = flush_word w @ Op c # part_tokens None ps"

lemma render_Cons: "render (p # ps) = render_part p @ render ps"
  by (simp add: render_def)

lemma sh_read_raw:
  "sq \<notin> set s \<Longrightarrow> sh_read InSq (Some w) (s @ sq # rest) = sh_read Bare (Some (w @ s)) rest"
  by (induction s arbitrary: w) auto

lemma sh_read_render:
  "list_all part_ok ps \<Longrightarrow> sh_read Bare w (render ps) = Some (part_tokens w ps)"
proof (induction ps arbitrary: w)
  case Nil
  then show ?case by (simp add: render_def)
next
  case (Cons p ps)
  have rest: "sh_read Bare v (render ps) = Some (part_tokens v ps)" for v
    using Cons by simp
  show ?case
  proof (cases p)
    case (Raw s)
    then have "render (p # ps) = sq # s @ sq # render ps" using Raw by (simp add: render_Cons)
    then have "sh_read Bare w (render (p # ps)) = sh_read InSq (Some (word_so_far w)) (s @ sq # render ps)"
      by simp
    with Raw Cons.prems show ?thesis by (simp add: sh_read_raw rest)
  qed (use Cons.prems in \<open>simp_all add: render_Cons rest sh_read_safe_start sh_read_quote sh_read_show_int
      sh.read_blank sh.read_op del: sh_read.simps\<close>)
qed

lemma sh_tokens_render: "list_all part_ok ps \<Longrightarrow> sh_tokens (render ps) = Some (part_tokens None ps)"
  by (simp add: sh_tokens_def sh_read_render)

lemmas sh_char_defs = op_char_def safe_char_def is_alnum_def is_digit_def is_lower_def is_upper_def
  sq_def dq_def

section \<open>Names that reach a command\<close>

text \<open>\<open>PACKAGE_NAME_RE\<close>, matched in full.\<close>

definition pkg_first :: "char \<Rightarrow> bool" where
  "pkg_first c = (is_alnum c \<or> c \<in> set ''+._:'')"

definition pkg_rest :: "char \<Rightarrow> bool" where
  "pkg_rest c = (pkg_first c \<or> c = CHR ''-'')"

fun match_package :: "string \<Rightarrow> bool" where
  "match_package [] = False"
| "match_package (c # cs) = (pkg_first c \<and> list_all pkg_rest cs \<and> length cs \<le> 254)"

definition valid_package_name :: "pv \<Rightarrow> bool" where
  "valid_package_name v = (case v of PStr s \<Rightarrow> match_package s | _ \<Rightarrow> False)"

text \<open>\<open>_HOSTNAME_RE\<close>, matched in full: labels separated by dots, each at most 63 letters, digits and
  dashes, beginning and ending with a letter or digit.\<close>

definition host_char :: "char \<Rightarrow> bool" where
  "host_char c = (is_alnum c \<or> c = CHR ''-'')"

definition host_label :: "string \<Rightarrow> bool" where
  "host_label l = (l \<noteq> [] \<and> length l \<le> 63 \<and> list_all host_char l \<and> is_alnum (hd l) \<and> is_alnum (last l))"

fun split_dots :: "string \<Rightarrow> string list" where
  "split_dots [] = [[]]"
| "split_dots (c # cs) =
    (if c = CHR ''.'' then [] # split_dots cs
     else (case split_dots cs of [] \<Rightarrow> [[c]] | l # ls \<Rightarrow> (c # l) # ls))"

definition match_hostname :: "string \<Rightarrow> bool" where
  "match_hostname s = list_all host_label (split_dots s)"

text \<open>\<open>ipaddress.ip_address(host)\<close> either returns or raises: \<open>is_ip\<close> says which.\<close>

definition valid_host :: "(string \<Rightarrow> bool) \<Rightarrow> string \<Rightarrow> bool" where
  "valid_host is_ip host = (is_ip host \<or> (length host \<le> 253 \<and> match_hostname host))"

lemma pkg_rest_safe: "pkg_rest c \<Longrightarrow> safe_char c"
  by (auto simp: pkg_rest_def pkg_first_def safe_char_def)

lemma match_package_chars: "match_package s \<Longrightarrow> list_all safe_char s"
  by (cases s) (auto simp: pkg_rest_def list_all_iff intro: pkg_rest_safe)

lemma match_package_length: "match_package s \<Longrightarrow> 1 \<le> length s \<and> length s \<le> 255"
  by (cases s) auto

lemma match_package_no_dash: "match_package s \<Longrightarrow> hd s \<noteq> CHR ''-''"
  by (cases s) (auto simp: pkg_first_def is_alnum_def is_digit_def is_lower_def is_upper_def)

section \<open>The agent version gate\<close>

type_synonym version = "int \<times> int \<times> int"

definition MIN_AGENT_VERSION_NATIVE_MODULES :: version where
  "MIN_AGENT_VERSION_NATIVE_MODULES = (0, 36, 0)"

definition MIN_AGENT_VERSION_SIGNED_JOBS :: version where
  "MIN_AGENT_VERSION_SIGNED_JOBS = (0, 36, 0)"

definition MIN_AGENT_VERSION_FIM_SCOPES :: version where
  "MIN_AGENT_VERSION_FIM_SCOPES = (0, 41, 0)"

fun all_some :: "'a option list \<Rightarrow> 'a list option" where
  "all_some [] = Some []"
| "all_some (None # xs) = None"
| "all_some (Some x # xs) = map_option (Cons x) (all_some xs)"

text \<open>\<open>_parse_version\<close>: \<open>None\<close> for an absent or empty text, fewer than two parts, or a part among the
  first three that \<open>int\<close> refuses.\<close>

definition parse_version :: "string option \<Rightarrow> version option" where
  "parse_version v =
    (case v of None \<Rightarrow> None
     | Some s \<Rightarrow>
        if s = [] then None
        else (let parts = split_dots (dropWhile (\<lambda>c. c = CHR ''v'') (strip s))
              in if length parts < 2 then None
                 else (case all_some (map int_of_text (take 3 parts)) of
                         None \<Rightarrow> None
                       | Some nums \<Rightarrow>
                           (let n = nums @ replicate (3 - length nums) 0
                            in Some (n ! 0, n ! 1, n ! 2)))))"

definition version_le :: "version \<Rightarrow> version \<Rightarrow> bool" where
  "version_le a b =
    (case a of (a1, a2, a3) \<Rightarrow> case b of (b1, b2, b3) \<Rightarrow>
       a1 < b1 \<or> (a1 = b1 \<and> (a2 < b2 \<or> (a2 = b2 \<and> a3 \<le> b3))))"

definition agent_meets_minimum :: "string option \<Rightarrow> version \<Rightarrow> bool" where
  "agent_meets_minimum agent_version minimum =
    (case parse_version agent_version of None \<Rightarrow> False | Some p \<Rightarrow> version_le minimum p)"

lemma version_le_trans: "version_le a b \<Longrightarrow> version_le b c \<Longrightarrow> version_le a c"
  by (auto simp: version_le_def split: prod.splits)

lemma version_le_total: "version_le a b \<or> version_le b a"
  by (auto simp: version_le_def split: prod.splits)

lemma agent_meets_minimum_mono:
  "version_le m m' \<Longrightarrow> agent_meets_minimum v m' \<Longrightarrow> agent_meets_minimum v m"
  by (auto simp: agent_meets_minimum_def intro: version_le_trans split: option.splits)

lemma agent_unparseable: "parse_version v = None \<Longrightarrow> \<not> agent_meets_minimum v m"
  by (simp add: agent_meets_minimum_def)

end
