(* ===== verification/StepCompile.thy ===== *)
theory StepCompile
  imports WorkflowCompiler Shell
begin

text \<open>
  The compile-down part of \<open>services/workflow_engine.py\<close>: how a structured step becomes one shell
  line (\<open>_compile_check\<close>, \<open>_compile_service\<close>, \<open>_compile_system\<close>, \<open>_compile_file\<close>,
  \<open>_compile_package_remove\<close>), the guard \<open>_require\<close> and the input check \<open>validate_step_inputs\<close>.
  The lemmas say that every configured value reaches the shell as one word, and that what
  the compiler accepts at publish time compiles.
\<close>

section \<open>Helpers\<close>

definition normalize_type :: "node_type \<Rightarrow> node_type" where
  "normalize_type t = (case t of T_VALIDATION \<Rightarrow> T_CHECK | T_WAIT_FOR_AGENT \<Rightarrow> T_WAIT | _ \<Rightarrow> t)"

definition require :: "config \<Rightarrow> string \<Rightarrow> string \<Rightarrow> exn + string" where
  "require config key sid =
    (let v = cfg_get config key in
     if v = PNone \<or> v = PStr [] then
       Inl (WorkflowRunError (''step '' @ [sq] @ sid @ [sq] @ '': config.'' @ key @ '' is required''))
     else Inr (pystr v))"

text \<open>\<open>for x in v\<close>: a list, the characters of a text, the keys of a dictionary.\<close>

definition py_iter :: "pv \<Rightarrow> exn + pv list" where
  "py_iter v = (case v of
      PList xs \<Rightarrow> Inr xs
    | PStr s \<Rightarrow> Inr (map (\<lambda>c. PStr [c]) s)
    | PDict d \<Rightarrow> Inr (map (\<lambda>e. PStr (fst e)) d)
    | _ \<Rightarrow> Inl (TypeError ''object is not iterable''))"

text \<open>\<open>TABLE.get(v, default)\<close> hashes the value first.\<close>

definition hashable :: "pv \<Rightarrow> bool" where
  "hashable v = (case v of PList _ \<Rightarrow> False | PDict _ \<Rightarrow> False | _ \<Rightarrow> True)"

definition step_error :: "workflow_step \<Rightarrow> string \<Rightarrow> exn + 'a" where
  "step_error step msg = Inl (WorkflowRunError (''step '' @ [sq] @ step_id step @ [sq] @ msg))"

section \<open>One shell line per step\<close>

definition state_flag :: "pv \<Rightarrow> string" where
  "state_flag v =
    (if v = PStr ''file'' then ''-f'' else if v = PStr ''directory'' then ''-d'' else ''-e'')"

definition port_script :: string where
  "port_script = ''</dev/tcp/'' @ [dq] @ ''$1'' @ [dq] @ ''/'' @ [dq] @ ''$2'' @ [dq]"

definition check_base :: "(string \<Rightarrow> bool) \<Rightarrow> workflow_step \<Rightarrow> exn + string" where
  "check_base is_ip step =
    (let config = step_config step;
         sid = step_id step;
         check_type = py_or (cfg_get config ''type'') (PStr ''command'')
     in if check_type = PStr ''command'' then require config ''command'' sid
        else if check_type = PStr ''service'' then
          sum_bind (require config ''service'' sid) (\<lambda>v. Inr (''systemctl is-active '' @ shlex_quote v))
        else if check_type = PStr ''port'' then
          (let host = pystr (py_or (cfg_get config ''host'') (PStr ''localhost'')) in
           if \<not> valid_host is_ip host
           then step_error step ('' (type check, port): config.host '' @ repr_str host @ '' is not a hostname or IP'')
           else sum_bind (require config ''port'' sid) (\<lambda>p.
                sum_bind (py_int (PStr p)) (\<lambda>port.
                  Inr (''timeout 2 bash -c '' @ [sq] @ port_script @ [sq] @ '' bash ''
                       @ shlex_quote host @ '' '' @ q (PInt port)))))
        else if check_type = PStr ''package'' then
          sum_bind (require config ''name'' sid) (\<lambda>v.
            (let name = shlex_quote v in
             Inr (''(command -v rpm >/dev/null 2>&1 && rpm -q '' @ name @ '') || dpkg -s '' @ name)))
        else if check_type = PStr ''file'' then
          (let state = py_or (cfg_get config ''state'') (PStr ''exists'') in
           if \<not> hashable state then Inl (TypeError ''unhashable type'')
           else sum_bind (require config ''path'' sid) (\<lambda>v.
                Inr (''test '' @ state_flag state @ '' '' @ shlex_quote v)))
        else if check_type = PStr ''process'' then
          sum_bind (require config ''name'' sid) (\<lambda>v. Inr (''pgrep -x '' @ shlex_quote v))
        else if check_type = PStr ''os'' then
          sum_bind (require config ''distro'' sid) (\<lambda>d.
            (let pattern = strip (d @ '' '' @ pystr (py_or (cfg_get config ''version'') (PStr []))) in
             Inr (''grep -q '' @ shlex_quote pattern @ '' /etc/os-release'')))
        else if check_type = PStr ''disk'' then
          (let path = py_or (cfg_get config ''path'') (PStr ''/'') in
           sum_bind (require config ''min_free_gb'' sid) (\<lambda>m.
           sum_bind (py_int (PStr m)) (\<lambda>min_free.
             Inr (''[ $(df --output=avail -BG '' @ q path @ '' | tail -1 | tr -dc '' @ [sq] @ ''0-9'' @ [sq]
                  @ '') -ge '' @ show_int min_free @ '' ]''))))
        else if check_type = PStr ''network'' then
          sum_bind (require config ''host'' sid) (\<lambda>host.
            if \<not> valid_host is_ip host
            then step_error step ('' (type check, network): config.host '' @ repr_str host @ '' is not a hostname or IP'')
            else Inr (''ping -c1 -W2 '' @ shlex_quote host))
        else step_error step ('': check type '' @ [sq] @ pystr check_type @ [sq] @ '' is not supported''))"

definition compile_check :: "(string \<Rightarrow> bool) \<Rightarrow> workflow_step \<Rightarrow> exn + string" where
  "compile_check is_ip step =
    sum_bind (check_base is_ip step) (\<lambda>base.
      (let expect = cfg_get (step_config step) ''expect_exit_code'' in
       if expect = PNone then Inr base
       else sum_bind (py_int expect) (\<lambda>code. Inr (base @ ''; test $? -eq '' @ show_int code))))"

definition compile_service :: "workflow_step \<Rightarrow> exn + string" where
  "compile_service step =
    (let config = step_config step; action = cfg_get config ''action'' in
     if \<not> one_of action service_actions
     then step_error step ('' (type service): action '' @ [sq] @ pystr action @ [sq] @ '' is not one of ''
            @ ''('' @ join '', '' (map repr_str service_actions) @ '')'')
     else sum_bind (require config ''name'' (step_id step)) (\<lambda>v.
            Inr (''systemctl '' @ pystr action @ '' '' @ shlex_quote v)))"

definition compile_system :: "workflow_step \<Rightarrow> exn + string" where
  "compile_system step =
    (let config = step_config step; sid = step_id step; action = cfg_get config ''action'' in
     if action = PStr ''reboot'' then
       sum_bind (py_int (py_or (cfg_get config ''delay_seconds'') (PInt 5))) (\<lambda>n.
         Inr (''systemd-run --on-active='' @ show_int n @ ''s systemctl reboot''))
     else if action = PStr ''shutdown'' then
       sum_bind (py_int (py_or (cfg_get config ''delay_seconds'') (PInt 5))) (\<lambda>n.
         Inr (''systemd-run --on-active='' @ show_int n @ ''s systemctl poweroff''))
     else if action = PStr ''hostname'' then
       sum_bind (require config ''value'' sid) (\<lambda>v. Inr (''hostnamectl set-hostname '' @ shlex_quote v))
     else if action = PStr ''timezone'' then
       sum_bind (require config ''value'' sid) (\<lambda>v. Inr (''timedatectl set-timezone '' @ shlex_quote v))
     else if action = PStr ''sysctl'' then
       sum_bind (require config ''key'' sid) (\<lambda>k. sum_bind (require config ''value'' sid) (\<lambda>v.
         Inr (''sysctl -w '' @ shlex_quote k @ ''='' @ shlex_quote v)))
     else step_error step ('' (type system): action '' @ [sq] @ pystr action @ [sq] @ '' is not supported''))"

definition compile_file :: "workflow_step \<Rightarrow> exn + string" where
  "compile_file step =
    (let config = step_config step; sid = step_id step; action = cfg_get config ''action'' in
     sum_bind (require config ''path'' sid) (\<lambda>p.
       (let path = shlex_quote p in
        if one_of action [''create'', ''template''] then
          (let content = q (py_or (cfg_get config ''content'') (PStr []));
               mode = cfg_get config ''mode'';
               cmd = ''printf '' @ [sq] @ ''%s'' @ [sq] @ '' '' @ content @ '' > '' @ path
           in Inr (if truthy mode then cmd @ '' && chmod '' @ q mode @ '' '' @ path else cmd))
        else if action = PStr ''delete'' then Inr (''rm -f '' @ path)
        else if action = PStr ''copy'' then
          sum_bind (require config ''source'' sid) (\<lambda>s. Inr (''cp '' @ shlex_quote s @ '' '' @ path))
        else if action = PStr ''chmod'' then
          sum_bind (require config ''mode'' sid) (\<lambda>m. Inr (''chmod '' @ shlex_quote m @ '' '' @ path))
        else if action = PStr ''chown'' then
          (let owner = py_or (cfg_get config ''owner'') (PStr []);
               grp = py_or (cfg_get config ''group'') (PStr []);
               spec = (if truthy grp then PStr (pystr owner @ '':'' @ pystr grp) else owner)
           in if \<not> truthy spec
              then step_error step '' (type file, action chown) needs config.owner and/or config.group''
              else Inr (''chown '' @ q spec @ '' '' @ path))
        else step_error step ('' (type file): action '' @ [sq] @ pystr action @ [sq] @ '' is not supported''))))"

definition compile_package_remove :: "workflow_step \<Rightarrow> exn + string" where
  "compile_package_remove step =
    (let packages = py_or (cfg_get (step_config step) ''packages'') (PList []) in
     if \<not> truthy packages then step_error step '' (type package): config.packages is empty''
     else sum_bind (py_iter packages) (\<lambda>ps.
       (let names = join '' '' (map q ps) in
        Inr (''(command -v dnf >/dev/null 2>&1 && dnf remove -y '' @ names @ '') || ''
          @ ''(command -v apt-get >/dev/null 2>&1 && apt-get remove -y '' @ names @ '') || ''
          @ ''(command -v zypper >/dev/null 2>&1 && zypper remove -y '' @ names @ '')''))))"

text \<open>The choice of \<open>_dispatch_step\<close> among the compile functions, for the steps it does not send to a
  native module.\<close>

definition compile_step :: "(string \<Rightarrow> bool) \<Rightarrow> workflow_step \<Rightarrow> exn + string" where
  "compile_step is_ip step =
    (case normalize_type (step_type step) of
       T_PACKAGE \<Rightarrow>
         if py_or (cfg_get (step_config step) ''action'') (PStr ''install'') = PStr ''remove''
         then compile_package_remove step
         else step_error step ('' (type package): action '' @ [sq] @ ''downgrade'' @ [sq] @ '' is not supported yet'')
     | T_SERVICE \<Rightarrow> compile_service step
     | T_SYSTEM \<Rightarrow> compile_system step
     | T_FILE \<Rightarrow> compile_file step
     | T_CHECK \<Rightarrow> compile_check is_ip step
     | T_COMMAND \<Rightarrow> require (step_config step) ''command'' (step_id step)
     | _ \<Rightarrow> Inl (WorkflowRunError (''step type '' @ [sq] @ type_value (step_type step) @ [sq]
              @ '' is not executable yet'')))"

section \<open>The input check at publish and at the start of a run\<close>

definition package_names :: "workflow_step \<Rightarrow> exn + string list" where
  "package_names step =
    (let config = step_config step; normalized = normalize_type (step_type step) in
     if normalized = T_PACKAGE then
       sum_bind (py_iter (py_or (cfg_get config ''packages'') (PList []))) (\<lambda>ps. Inr (map pystr ps))
     else if normalized = T_CHECK \<and> cfg_get config ''type'' = PStr ''package''
             \<and> truthy (cfg_get config ''name'')
       then Inr [pystr (cfg_get config ''name'')]
     else Inr [])"

definition probe_host :: "workflow_step \<Rightarrow> string option" where
  "probe_host step =
    (let config = step_config step;
         check_type = py_or (cfg_get config ''type'') (PStr ''command'')
     in if normalize_type (step_type step) \<noteq> T_CHECK then None
        else if check_type = PStr ''port''
          then Some (pystr (py_or (cfg_get config ''host'') (PStr ''localhost'')))
        else if check_type = PStr ''network'' \<and> truthy (cfg_get config ''host'')
          then Some (pystr (cfg_get config ''host''))
        else None)"

definition step_input_error :: "(string \<Rightarrow> bool) \<Rightarrow> workflow_step \<Rightarrow> exn option" where
  "step_input_error is_ip step =
    (case package_names step of
       Inl e \<Rightarrow> Some e
     | Inr names \<Rightarrow>
        (case List.find (\<lambda>n. \<not> valid_package_name (PStr n)) names of
           Some n \<Rightarrow> Some (HTTPException 422
              (''step '' @ [sq] @ step_id step @ [sq] @ '': invalid package name '' @ repr_str n))
         | None \<Rightarrow>
            (case probe_host step of
               Some h \<Rightarrow>
                 if valid_host is_ip h then None
                 else Some (HTTPException 422
                    (''step '' @ [sq] @ step_id step @ [sq] @ '': invalid host '' @ repr_str h))
             | None \<Rightarrow> None)))"

fun validate_step_inputs :: "(string \<Rightarrow> bool) \<Rightarrow> workflow_step list \<Rightarrow> exn option" where
  "validate_step_inputs is_ip [] = None"
| "validate_step_inputs is_ip (step # steps) =
    (case step_input_error is_ip step of
       Some e \<Rightarrow> Some e
     | None \<Rightarrow> validate_step_inputs is_ip steps)"

section \<open>Every configured value is one word of the line\<close>

lemma require_Inr:
  "require config key sid = Inr v \<longleftrightarrow>
     cfg_get config key \<noteq> PNone \<and> cfg_get config key \<noteq> PStr [] \<and> v = pystr (cfg_get config key)"
  by (auto simp: require_def Let_def)

lemma step_error_Inr [simp]: "step_error step msg \<noteq> Inr v" "Inr v \<noteq> step_error step msg"
  by (simp_all add: step_error_def)

lemma service_action_ok: "s \<in> set service_actions \<Longrightarrow> part_ok (Lit s)"
proof -
  have "\<forall>s \<in> set service_actions. part_ok (Lit s)" by code_simp
  then show "s \<in> set service_actions \<Longrightarrow> part_ok (Lit s)" by blast
qed

lemma compile_service_render:
  assumes "compile_service step = Inr line"
  shows "line = render [Lit ''systemctl'', Gap, Lit (pystr (cfg_get (step_config step) ''action'')), Gap,
      Arg (pystr (cfg_get (step_config step) ''name''))]
    \<and> part_ok (Lit (pystr (cfg_get (step_config step) ''action'')))"
proof -
  from assms obtain s where "s \<in> set service_actions" and "cfg_get (step_config step) ''action'' = PStr s"
    by (auto simp: compile_service_def one_of_def Let_def split: if_splits)
  with assms service_action_ok show ?thesis
    by (auto simp: compile_service_def one_of_def Let_def sum_bind_Inr_iff require_Inr render_def split: if_splits)
qed

text \<open>The fixed parts of the generated lines.\<close>

lemma literal_parts_list:
  "list_all part_ok
   [Lit ''systemctl'', Lit ''is-active'', Lit ''systemd-run'', Lit ''--on-active='', Lit ''s'', Lit ''reboot'',
    Lit ''poweroff'', Lit ''hostnamectl'', Lit ''set-hostname'', Lit ''timedatectl'', Lit ''set-timezone'', Lit ''sysctl'',
    Lit ''-w'', Lit ''='', Lit ''printf'', Raw ''%s'', Lit ''chmod'', Lit ''chown'',
    Lit ''rm'', Lit ''-f'', Lit ''cp'', Lit ''timeout'', Lit ''2'', Lit ''bash'',
    Lit ''-c'', Raw port_script, Lit ''command'', Lit ''-v'', Lit ''rpm'', Lit ''/dev/null'',
    Lit ''1'', Lit ''-q'', Lit ''dpkg'', Lit ''-s'', Lit ''test'', Lit ''-d'',
    Lit ''-e'', Lit ''pgrep'', Lit ''-x'', Lit ''grep'', Lit ''/etc/os-release'', Lit ''df'',
    Lit ''--output=avail'', Lit ''-BG'', Lit ''tail'', Lit ''-1'', Lit ''tr'', Lit ''-dc'',
    Raw ''0-9'', Lit ''-ge'', Lit ''ping'', Lit ''-c1'', Lit ''-W2'', Lit ''-eq'',
    Lit ''dnf'', Lit ''remove'', Lit ''-y'', Lit ''apt-get'', Lit ''zypper'', Opr (CHR ''>''),
    Opr (CHR ''&''), Opr (CHR ''|''), Opr (CHR '';''), Opr (CHR ''(''), Opr (CHR '')''), Opr (CHR ''$''),
    Opr (CHR ''?''), Opr (CHR ''[''), Opr (CHR '']'')]"
  by code_simp

lemmas literal_parts = literal_parts_list [unfolded list.pred_inject simp_thms]

lemma compile_service_tokens:
  assumes "compile_service step = Inr line"
  shows "sh_tokens line = Some [Word ''systemctl'', Word (pystr (cfg_get (step_config step) ''action'')),
    Word (pystr (cfg_get (step_config step) ''name''))]"
  using compile_service_render [OF assms]
  by (simp add: sh_tokens_render literal_parts del: part_ok.simps(1,2,3))


lemmas part_eval = sh_tokens_render literal_parts
lemmas compile_split = sum_bind_Inr_iff require_Inr Let_def q_def render_Cons render_def

text \<open>A step's fields as the compile functions read them.\<close>

abbreviation field :: "workflow_step \<Rightarrow> string \<Rightarrow> string" where
  "field step k \<equiv> pystr (cfg_get (step_config step) k)"

definition delay_seconds :: "workflow_step \<Rightarrow> int" where
  "delay_seconds step =
    (case py_int (py_or (cfg_get (step_config step) ''delay_seconds'') (PInt 5)) of Inr n \<Rightarrow> n | Inl _ \<Rightarrow> 0)"

definition system_words :: "workflow_step \<Rightarrow> string list" where
  "system_words step =
    (let action = cfg_get (step_config step) ''action''; n = delay_seconds step in
     if action = PStr ''reboot'' then [''systemd-run'', ''--on-active='' @ show_int n @ ''s'', ''systemctl'', ''reboot'']
     else if action = PStr ''shutdown'' then [''systemd-run'', ''--on-active='' @ show_int n @ ''s'', ''systemctl'', ''poweroff'']
     else if action = PStr ''hostname'' then [''hostnamectl'', ''set-hostname'', field step ''value'']
     else if action = PStr ''timezone'' then [''timedatectl'', ''set-timezone'', field step ''value'']
     else [''sysctl'', ''-w'', field step ''key'' @ ''='' @ field step ''value''])"

lemma compile_system_tokens:
  assumes "compile_system step = Inr line"
  shows "sh_tokens line = Some (map Word (system_words step))"
proof -
  let ?a = "cfg_get (step_config step) ''action''"
  consider "?a = PStr ''reboot''" | "?a = PStr ''shutdown''" | "?a = PStr ''hostname''"
    | "?a = PStr ''timezone''" | "?a = PStr ''sysctl''"
    using assms by (auto simp: compile_system_def Let_def split: if_splits)
  then show ?thesis
  proof cases
    case 1
    with assms have "line = render [Lit ''systemd-run'', Gap, Lit ''--on-active='', Num (delay_seconds step), Lit ''s'', Gap,
        Lit ''systemctl'', Gap, Lit ''reboot'']"
      by (auto simp: compile_system_def delay_seconds_def compile_split)
    with 1 show ?thesis by (simp add: part_eval system_words_def del: part_ok.simps(1,2,3))
  next
    case 2
    with assms have "line = render [Lit ''systemd-run'', Gap, Lit ''--on-active='', Num (delay_seconds step), Lit ''s'', Gap,
        Lit ''systemctl'', Gap, Lit ''poweroff'']"
      by (auto simp: compile_system_def delay_seconds_def compile_split)
    with 2 show ?thesis by (simp add: part_eval system_words_def del: part_ok.simps(1,2,3))
  next
    case 3
    with assms have "line = render [Lit ''hostnamectl'', Gap, Lit ''set-hostname'', Gap, Arg (field step ''value'')]"
      by (auto simp: compile_system_def delay_seconds_def compile_split)
    with 3 show ?thesis by (simp add: part_eval system_words_def del: part_ok.simps(1,2,3))
  next
    case 4
    with assms have "line = render [Lit ''timedatectl'', Gap, Lit ''set-timezone'', Gap, Arg (field step ''value'')]"
      by (auto simp: compile_system_def delay_seconds_def compile_split)
    with 4 show ?thesis by (simp add: part_eval system_words_def del: part_ok.simps(1,2,3))
  next
    case 5
    with assms have "line = render [Lit ''sysctl'', Gap, Lit ''-w'', Gap, Arg (field step ''key''), Lit ''='',
        Arg (field step ''value'')]"
      by (auto simp: compile_system_def delay_seconds_def compile_split)
    with 5 show ?thesis by (simp add: part_eval system_words_def del: part_ok.simps(1,2,3))
  qed
qed

text \<open>The owner argument of \<open>chown\<close> and the content of a created file.\<close>

definition chown_spec :: "workflow_step \<Rightarrow> string" where
  "chown_spec step =
    (let owner = py_or (cfg_get (step_config step) ''owner'') (PStr []);
         grp = py_or (cfg_get (step_config step) ''group'') (PStr [])
     in if truthy grp then pystr owner @ '':'' @ pystr grp else pystr owner)"

definition file_tokens :: "workflow_step \<Rightarrow> sh_token list" where
  "file_tokens step =
    (let action = cfg_get (step_config step) ''action'';
         path = Word (field step ''path'')
     in if one_of action [''create'', ''template''] then
          [Word ''printf'', Word ''%s'',
           Word (pystr (py_or (cfg_get (step_config step) ''content'') (PStr []))), Op (CHR ''>''), path]
          @ (if truthy (cfg_get (step_config step) ''mode'')
             then [Op (CHR ''&''), Op (CHR ''&''), Word ''chmod'', Word (field step ''mode''), path] else [])
        else if action = PStr ''delete'' then [Word ''rm'', Word ''-f'', path]
        else if action = PStr ''copy'' then [Word ''cp'', Word (field step ''source''), path]
        else if action = PStr ''chmod'' then [Word ''chmod'', Word (field step ''mode''), path]
        else [Word ''chown'', Word (chown_spec step), path])"

lemma compile_file_tokens:
  assumes "compile_file step = Inr line"
  shows "sh_tokens line = Some (file_tokens step)"
proof -
  let ?a = "cfg_get (step_config step) ''action''"
  let ?path = "field step ''path''"
  let ?content = "pystr (py_or (cfg_get (step_config step) ''content'') (PStr []))"
  let ?create = "[Lit ''printf'', Gap, Raw ''%s'', Gap, Arg ?content, Gap, Opr (CHR ''>''), Gap, Arg ?path]"
  consider "one_of ?a [''create'', ''template'']" "truthy (cfg_get (step_config step) ''mode'')"
    | "one_of ?a [''create'', ''template'']" "\<not> truthy (cfg_get (step_config step) ''mode'')"
    | "?a = PStr ''delete''" | "?a = PStr ''copy''" | "?a = PStr ''chmod''" | "?a = PStr ''chown''"
    using assms by (auto simp: compile_file_def Let_def sum_bind_Inr_iff split: if_splits)
  then show ?thesis
  proof cases
    case 1
    with assms have "line = render (?create @ [Gap, Opr (CHR ''&''), Opr (CHR ''&''), Gap, Lit ''chmod'', Gap,
        Arg (field step ''mode''), Gap, Arg ?path])"
      by (auto simp: compile_file_def compile_split)
    with 1 show ?thesis by (simp add: part_eval file_tokens_def Let_def del: part_ok.simps(1,2,3))
  next
    case 2
    with assms have "line = render ?create" by (auto simp: compile_file_def compile_split)
    with 2 show ?thesis by (simp add: part_eval file_tokens_def Let_def del: part_ok.simps(1,2,3))
  next
    case 3
    with assms have "line = render [Lit ''rm'', Gap, Lit ''-f'', Gap, Arg ?path]"
      by (auto simp: compile_file_def compile_split one_of_def)
    with 3 show ?thesis by (simp add: part_eval file_tokens_def one_of_def Let_def del: part_ok.simps(1,2,3))
  next
    case 4
    with assms have "line = render [Lit ''cp'', Gap, Arg (field step ''source''), Gap, Arg ?path]"
      by (auto simp: compile_file_def compile_split one_of_def)
    with 4 show ?thesis by (simp add: part_eval file_tokens_def one_of_def Let_def del: part_ok.simps(1,2,3))
  next
    case 5
    with assms have "line = render [Lit ''chmod'', Gap, Arg (field step ''mode''), Gap, Arg ?path]"
      by (auto simp: compile_file_def compile_split one_of_def)
    with 5 show ?thesis by (simp add: part_eval file_tokens_def one_of_def Let_def del: part_ok.simps(1,2,3))
  next
    case 6
    with assms have "line = render [Lit ''chown'', Gap, Arg (chown_spec step), Gap, Arg ?path]"
      by (auto simp: compile_file_def compile_split one_of_def chown_spec_def split: if_splits)
    with 6 show ?thesis by (simp add: part_eval file_tokens_def one_of_def Let_def del: part_ok.simps(1,2,3))
  qed
qed

text \<open>The removal line: three guarded commands, each with the packages as words.\<close>

definition null_redirect :: "sh_part list" where
  "null_redirect = [Opr (CHR ''>''), Lit ''/dev/null'', Gap, Lit ''2'', Opr (CHR ''>''), Opr (CHR ''&''), Lit ''1'', Gap,
     Opr (CHR ''&''), Opr (CHR ''&''), Gap]"

fun arg_list :: "string list \<Rightarrow> sh_part list" where
  "arg_list [] = []"
| "arg_list [s] = [Arg s]"
| "arg_list (s # ss) = Arg s # Gap # arg_list ss"

definition remove_with :: "string \<Rightarrow> string list \<Rightarrow> sh_part list" where
  "remove_with manager names =
    [Opr (CHR ''(''), Lit ''command'', Gap, Lit ''-v'', Gap, Lit manager, Gap] @ null_redirect
     @ [Lit manager, Gap, Lit ''remove'', Gap, Lit ''-y'', Gap] @ arg_list names @ [Opr (CHR '')'')]"

definition or_else :: "sh_part list" where
  "or_else = [Gap, Opr (CHR ''|''), Opr (CHR ''|''), Gap]"

definition remove_tokens :: "string \<Rightarrow> string list \<Rightarrow> sh_token list" where
  "remove_tokens manager names =
    [Op (CHR ''(''), Word ''command'', Word ''-v'', Word manager, Op (CHR ''>''), Word ''/dev/null'',
     Word ''2'', Op (CHR ''>''), Op (CHR ''&''), Word ''1'', Op (CHR ''&''), Op (CHR ''&''),
     Word manager, Word ''remove'', Word ''-y''] @ map Word names @ [Op (CHR '')'')]"

lemma render_arg_list: "render (arg_list ss) = join '' '' (map shlex_quote ss)"
  by (induction ss rule: arg_list.induct) (simp_all add: render_def)

lemma arg_list_ok: "list_all part_ok (arg_list ss)"
  by (induction ss rule: arg_list.induct) simp_all

lemma part_tokens_arg_list:
  "ss \<noteq> [] \<Longrightarrow> part_tokens None (arg_list ss @ Opr c # ps) = map Word ss @ Op c # part_tokens None ps"
  by (induction ss rule: arg_list.induct) simp_all

lemma remove_with_ok:
  "part_ok (Lit manager) \<Longrightarrow> list_all part_ok (remove_with manager names)"
  by (simp add: remove_with_def null_redirect_def arg_list_ok literal_parts del: part_ok.simps(1,2,3))

lemma part_tokens_remove_with:
  "names \<noteq> [] \<Longrightarrow>
     part_tokens None (remove_with manager names @ ps) = remove_tokens manager names @ part_tokens None ps"
  by (simp add: remove_with_def null_redirect_def remove_tokens_def part_tokens_arg_list)

lemma compile_package_remove_tokens:
  assumes "compile_package_remove step = Inr line"
  obtains ps where "py_iter (cfg_get (step_config step) ''packages'') = Inr ps" and "ps \<noteq> []"
    and "sh_tokens line = Some (remove_tokens ''dnf'' (map pystr ps) @ [Op (CHR ''|''), Op (CHR ''|'')]
      @ remove_tokens ''apt-get'' (map pystr ps) @ [Op (CHR ''|''), Op (CHR ''|'')]
      @ remove_tokens ''zypper'' (map pystr ps))"
proof -
  let ?v = "cfg_get (step_config step) ''packages''"
  from assms obtain ps where truthy: "truthy ?v" and ps: "py_iter ?v = Inr ps"
    and line: "line = ''(command -v dnf >/dev/null 2>&1 && dnf remove -y '' @ join '' '' (map q ps) @ '') || ''
          @ ''(command -v apt-get >/dev/null 2>&1 && apt-get remove -y '' @ join '' '' (map q ps) @ '') || ''
          @ ''(command -v zypper >/dev/null 2>&1 && zypper remove -y '' @ join '' '' (map q ps) @ '')''"
    by (auto simp: compile_package_remove_def Let_def sum_bind_Inr_iff py_or_def split: if_splits)
  let ?names = "map pystr ps"
  let ?parts = "remove_with ''dnf'' ?names @ or_else @ remove_with ''apt-get'' ?names @ or_else
      @ remove_with ''zypper'' ?names"
  from truthy ps have ne: "ps \<noteq> []" by (auto simp: py_iter_def split: pv.splits)
  have join: "join '' '' (map q ps) = render (arg_list ?names)"
    by (simp add: render_arg_list comp_def q_def [abs_def])
  have "line = render ?parts"
    unfolding line join by (simp add: remove_with_def null_redirect_def or_else_def render_def)
  moreover have "list_all part_ok ?parts"
    by (simp add: remove_with_ok or_else_def literal_parts del: part_ok.simps(1,2,3))
  moreover have "part_tokens None ?parts = remove_tokens ''dnf'' ?names @ [Op (CHR ''|''), Op (CHR ''|'')]
      @ remove_tokens ''apt-get'' ?names @ [Op (CHR ''|''), Op (CHR ''|'')] @ remove_tokens ''zypper'' ?names"
    using ne part_tokens_remove_with [of ?names "''zypper''" "[]"]
    by (simp add: part_tokens_remove_with or_else_def)
  ultimately show ?thesis using that [OF ps ne] by (simp add: sh_tokens_render)
qed

text \<open>The probe lines. \<open>check_parts\<close> is the line of every check type but \<open>command\<close>, whose text is the
  user's own.\<close>

definition check_type_of :: "workflow_step \<Rightarrow> pv" where
  "check_type_of step = py_or (cfg_get (step_config step) ''type'') (PStr ''command'')"

definition int_field :: "workflow_step \<Rightarrow> string \<Rightarrow> int" where
  "int_field step k = (case py_int (PStr (field step k)) of Inr n \<Rightarrow> n | Inl _ \<Rightarrow> 0)"

definition os_pattern :: "workflow_step \<Rightarrow> string" where
  "os_pattern step =
    strip (field step ''distro'' @ '' '' @ pystr (py_or (cfg_get (step_config step) ''version'') (PStr [])))"

definition check_parts :: "workflow_step \<Rightarrow> sh_part list" where
  "check_parts step =
    (let t = check_type_of step in
     if t = PStr ''service'' then [Lit ''systemctl'', Gap, Lit ''is-active'', Gap, Arg (field step ''service'')]
     else if t = PStr ''port'' then
       [Lit ''timeout'', Gap, Lit ''2'', Gap, Lit ''bash'', Gap, Lit ''-c'', Gap, Raw port_script, Gap, Lit ''bash'', Gap,
        Arg (pystr (py_or (cfg_get (step_config step) ''host'') (PStr ''localhost''))), Gap,
        Arg (show_int (int_field step ''port''))]
     else if t = PStr ''package'' then
       [Opr (CHR ''(''), Lit ''command'', Gap, Lit ''-v'', Gap, Lit ''rpm'', Gap] @ null_redirect
       @ [Lit ''rpm'', Gap, Lit ''-q'', Gap, Arg (field step ''name''), Opr (CHR '')''), Gap, Opr (CHR ''|''),
          Opr (CHR ''|''), Gap, Lit ''dpkg'', Gap, Lit ''-s'', Gap, Arg (field step ''name'')]
     else if t = PStr ''file'' then
       [Lit ''test'', Gap, Lit (state_flag (py_or (cfg_get (step_config step) ''state'') (PStr ''exists''))), Gap,
        Arg (field step ''path'')]
     else if t = PStr ''process'' then [Lit ''pgrep'', Gap, Lit ''-x'', Gap, Arg (field step ''name'')]
     else if t = PStr ''os'' then
       [Lit ''grep'', Gap, Lit ''-q'', Gap, Arg (os_pattern step), Gap, Lit ''/etc/os-release'']
     else if t = PStr ''disk'' then
       [Opr (CHR ''[''), Gap, Opr (CHR ''$''), Opr (CHR ''(''), Lit ''df'', Gap, Lit ''--output=avail'', Gap, Lit ''-BG'', Gap,
        Arg (pystr (py_or (cfg_get (step_config step) ''path'') (PStr ''/''))), Gap, Opr (CHR ''|''), Gap,
        Lit ''tail'', Gap, Lit ''-1'', Gap, Opr (CHR ''|''), Gap, Lit ''tr'', Gap, Lit ''-dc'', Gap, Raw ''0-9'',
        Opr (CHR '')''), Gap, Lit ''-ge'', Gap, Num (int_field step ''min_free_gb''), Gap, Opr (CHR '']'')]
     else [Lit ''ping'', Gap, Lit ''-c1'', Gap, Lit ''-W2'', Gap, Arg (field step ''host'')])"

definition expect_parts :: "workflow_step \<Rightarrow> sh_part list" where
  "expect_parts step =
    (let expect = cfg_get (step_config step) ''expect_exit_code'' in
     if expect = PNone then []
     else [Opr (CHR '';''), Gap, Lit ''test'', Gap, Opr (CHR ''$''), Opr (CHR ''?''), Gap, Lit ''-eq'', Gap,
           Num (case py_int expect of Inr n \<Rightarrow> n | Inl _ \<Rightarrow> 0)])"

lemma state_flag_ok: "part_ok (Lit (state_flag v))"
  using literal_parts by (simp add: state_flag_def del: part_ok.simps)

lemma render_append: "render (ps @ qs) = render ps @ render qs"
  by (simp add: render_def)

lemma check_parts_ok: "list_all part_ok (check_parts step)"
  by (simp add: check_parts_def Let_def null_redirect_def literal_parts state_flag_ok
      del: part_ok.simps(1,2,3))

lemma expect_parts_ok: "list_all part_ok (expect_parts step)"
  by (simp add: expect_parts_def Let_def literal_parts del: part_ok.simps(1,2,3))

lemma pystr_PInt: "pystr (PInt i) = show_int i"
  by (simp add: pystr_def)

lemma check_base_render:
  assumes "check_base is_ip step = Inr base" and "check_type_of step \<noteq> PStr ''command''"
  shows "base = render (check_parts step)"
proof -
  let ?t = "check_type_of step"
  consider "?t = PStr ''service''" | "?t = PStr ''port''" | "?t = PStr ''package''" | "?t = PStr ''file''"
    | "?t = PStr ''process''" | "?t = PStr ''os''" | "?t = PStr ''disk''" | "?t = PStr ''network''"
    using assms unfolding check_base_def Let_def check_type_of_def [symmetric] by (auto split: if_splits)
  then show ?thesis
    using assms(1) unfolding check_base_def Let_def check_type_of_def [symmetric]
    by cases (auto simp: check_parts_def Let_def null_redirect_def sum_bind_Inr_iff require_Inr render_def
        q_def pystr_PInt int_field_def os_pattern_def split: if_splits)
qed

lemma compile_check_tokens:
  assumes "compile_check is_ip step = Inr line" and "check_type_of step \<noteq> PStr ''command''"
  shows "sh_tokens line = Some (part_tokens None (check_parts step @ expect_parts step))"
proof -
  from assms(1) obtain base where base: "check_base is_ip step = Inr base"
    and line: "line = base @ render (expect_parts step)"
    by (auto simp: compile_check_def expect_parts_def Let_def sum_bind_Inr_iff render_def split: if_splits)
  then have "line = render (check_parts step @ expect_parts step)"
    using check_base_render [OF base assms(2)] by (simp add: render_append)
  then show ?thesis by (simp add: sh_tokens_render check_parts_ok expect_parts_ok)
qed

section \<open>What publishing accepts, running compiles\<close>

text \<open>The fields that the compile functions read and publishing does not check: numbers given as
  other than an integer text, an unhashable file state, the arguments of \<open>chmod\<close> and \<open>chown\<close>.\<close>

definition unchecked_fields_ok :: "workflow_step \<Rightarrow> bool" where
  "unchecked_fields_ok step =
    (let config = step_config step; action = cfg_get config ''action'';
         t = normalize_type (step_type step); ct = check_type_of step
     in (t = T_SYSTEM \<longrightarrow> is_ok (py_int (py_or (cfg_get config ''delay_seconds'') (PInt 5))))
        \<and> (t = T_FILE \<and> action = PStr ''chmod'' \<longrightarrow> truthy (cfg_get config ''mode''))
        \<and> (t = T_FILE \<and> action = PStr ''chown'' \<longrightarrow>
             truthy (cfg_get config ''owner'') \<or> truthy (cfg_get config ''group''))
        \<and> (t = T_CHECK \<longrightarrow>
             (ct = PStr ''port'' \<longrightarrow> is_ok (py_int (PStr (field step ''port''))))
             \<and> (ct = PStr ''disk'' \<longrightarrow> is_ok (py_int (PStr (field step ''min_free_gb''))))
             \<and> (ct = PStr ''file'' \<longrightarrow> hashable (py_or (cfg_get config ''state'') (PStr ''exists'')))
             \<and> (cfg_get config ''expect_exit_code'' = PNone \<or> is_ok (py_int (cfg_get config ''expect_exit_code'')))))"

lemma is_ok_iff: "is_ok r \<longleftrightarrow> (\<exists>v. r = Inr v)"
  by (cases r) auto

lemma require_truthy: "truthy (cfg_get config key) \<Longrightarrow> require config key sid = Inr (pystr (cfg_get config key))"
  by (auto simp: require_Inr)

lemma require_field_Nil [simp]: "require_field step key = [] \<longleftrightarrow> truthy (cfg_get (step_config step) key)"
  by (simp add: require_field_def)

lemma legacy_alias_normalize: "legacy_alias t = normalize_type t"
  by (simp add: legacy_alias_def normalize_type_def)

lemma published_service: "validate_service_config step = [] \<Longrightarrow> is_ok (compile_service step)"
  by (auto simp: validate_service_config_def compile_service_def Let_def require_truthy split: if_splits)

lemma published_system:
  assumes "validate_system_config step = []"
    and "is_ok (py_int (py_or (cfg_get (step_config step) ''delay_seconds'') (PInt 5)))"
  shows "is_ok (compile_system step)"
  using assms
  by (auto simp: validate_system_config_def compile_system_def Let_def require_truthy is_ok_iff one_of_def
      system_actions_def split: if_splits)

lemma published_file:
  assumes "validate_file_config step = []"
    and "cfg_get (step_config step) ''action'' = PStr ''chmod'' \<Longrightarrow> truthy (cfg_get (step_config step) ''mode'')"
    and "cfg_get (step_config step) ''action'' = PStr ''chown'' \<Longrightarrow>
      truthy (cfg_get (step_config step) ''owner'') \<or> truthy (cfg_get (step_config step) ''group'')"
  shows "is_ok (compile_file step)"
  using assms
  by (auto simp: validate_file_config_def compile_file_def Let_def require_truthy one_of_def
      file_actions_def py_or_def split: if_splits)

lemma published_remove:
  assumes "validate_package_config step = []" and "package_names step = Inr names"
    and "normalize_type (step_type step) = T_PACKAGE"
    and "py_or (cfg_get (step_config step) ''action'') (PStr ''install'') = PStr ''remove''"
  shows "is_ok (compile_package_remove step)"
  using assms
  by (auto simp: validate_package_config_def compile_package_remove_def package_names_def Let_def
      one_of_def package_actions_def py_or_def sum_bind_Inr_iff is_ok_iff split: if_splits)

lemma published_check:
  assumes "validate_check_config step = []" and "step_input_error is_ip step = None"
    and "normalize_type (step_type step) = T_CHECK" and "unchecked_fields_ok step"
  shows "is_ok (compile_check is_ip step)"
proof -
  let ?t = "check_type_of step"
  from assms(2) have host: "probe_host step = Some h \<Longrightarrow> valid_host is_ip h" for h
    by (auto simp: step_input_error_def split: sum.splits option.splits if_splits)
  consider "?t = PStr ''command''" | "?t = PStr ''service''" | "?t = PStr ''port''" | "?t = PStr ''package''"
    | "?t = PStr ''file''" | "?t = PStr ''process''" | "?t = PStr ''os''" | "?t = PStr ''disk''"
    | "?t = PStr ''network''"
    using assms(1) unfolding validate_check_config_def Let_def check_type_of_def [symmetric]
    by (auto simp: one_of_def check_types_def split: if_splits)
  then have "is_ok (check_base is_ip step)"
    using assms(1,3,4) host
    unfolding check_base_def validate_check_config_def probe_host_def unchecked_fields_ok_def Let_def
      check_type_of_def [symmetric]
    by cases (auto simp: require_truthy is_ok_iff one_of_def check_types_def split: if_splits)
  moreover have "cfg_get (step_config step) ''expect_exit_code'' = PNone
      \<or> is_ok (py_int (cfg_get (step_config step) ''expect_exit_code''))"
    using assms(3,4) by (simp add: unchecked_fields_ok_def Let_def)
  ultimately show ?thesis by (auto simp: compile_check_def Let_def is_ok_iff)
qed

section \<open>Checked names\<close>

lemma split_dots_nonempty: "split_dots s \<noteq> []"
  by (induction s) (auto split: list.split)

lemma host_char_safe: "host_char c \<Longrightarrow> safe_char c"
  by (auto simp: host_char_def safe_char_def)

lemma match_hostname_chars: "match_hostname s \<Longrightarrow> list_all safe_char s"
proof -
  have "list_all safe_char s" if "list_all (list_all host_char) (split_dots s)"
    using that
  proof (induction s)
    case Nil
    then show ?case by simp
  next
    case (Cons c s)
    show ?case
    proof (cases "c = CHR ''.''")
      case True
      with Cons show ?thesis by (simp add: safe_char_def)
    next
      case False
      then obtain l ls where "split_dots s = l # ls"
        using split_dots_nonempty by (metis list.exhaust)
      with False Cons show ?thesis by (simp add: host_char_safe)
    qed
  qed
  moreover assume "match_hostname s"
  then have "list_all (list_all host_char) (split_dots s)"
    by (auto simp: match_hostname_def host_label_def list_all_iff)
  ultimately show ?thesis by simp
qed

lemma match_hostname_start: "match_hostname s \<Longrightarrow> s \<noteq> [] \<and> is_alnum (hd s)"
proof (cases s)
  case (Cons c t)
  assume "match_hostname s"
  then show ?thesis using Cons split_dots_nonempty [of t]
    by (auto simp: match_hostname_def host_label_def split: if_splits list.splits)
qed (simp add: match_hostname_def host_label_def)

lemma shlex_quote_safe: "list_all safe_char s \<Longrightarrow> s \<noteq> [] \<Longrightarrow> shlex_quote s = s"
  by (simp add: shlex_quote_def)

definition plain_argument :: "string \<Rightarrow> bool" where
  "plain_argument s = (s \<noteq> [] \<and> hd s \<noteq> CHR ''-'' \<and> shlex_quote s = s)"

lemma plain_package: "match_package s \<Longrightarrow> plain_argument s"
  unfolding plain_argument_def
  using match_package_chars [of s] match_package_no_dash [of s] match_package_length [of s]
    shlex_quote_safe [of s] by (cases "s = []") auto

lemma plain_host: "match_hostname s \<Longrightarrow> plain_argument s"
  unfolding plain_argument_def
  using match_hostname_chars [of s] match_hostname_start [of s] shlex_quote_safe [of s]
  by (auto simp: is_alnum_def is_digit_def is_lower_def is_upper_def)

lemma validate_step_inputs_None:
  "validate_step_inputs is_ip steps = None \<longleftrightarrow> (\<forall>step \<in> set steps. step_input_error is_ip step = None)"
  by (induction steps) (auto split: option.split)

lemma find_SomeD: "List.find p xs = Some x \<Longrightarrow> x \<in> set xs \<and> p x"
  by (induction xs) (auto split: if_splits)

lemma step_input_error_None:
  "step_input_error is_ip step = None \<longleftrightarrow>
     (\<exists>names. package_names step = Inr names \<and> (\<forall>n \<in> set names. match_package n))
     \<and> (\<forall>h. probe_host step = Some h \<longrightarrow> valid_host is_ip h)"
  by (auto simp: step_input_error_def valid_package_name_def find_None_iff dest: find_SomeD
      split: sum.splits option.splits)

section \<open>Properties\<close>

definition structured_tokens :: "workflow_step \<Rightarrow> sh_token list" where
  "structured_tokens step =
    (case normalize_type (step_type step) of
       T_SERVICE \<Rightarrow> [Word ''systemctl'', Word (field step ''action''), Word (field step ''name'')]
     | T_SYSTEM \<Rightarrow> map Word (system_words step)
     | T_FILE \<Rightarrow> file_tokens step
     | T_CHECK \<Rightarrow> part_tokens None (check_parts step @ expect_parts step)
     | _ \<Rightarrow> [])"


definition evil_service :: workflow_step where
  "evil_service = sample_step ''s'' T_SERVICE [(''action'', PStr ''restart''), (''name'', PStr ''nginx; rm -rf /'')]"


text \<open>Package removal cannot be hijacked: a compiled removal line splits into three guarded commands,
  each naming exactly the configured packages as separate words; and when the input check accepted the
  step, no such word is empty, starts with a dash (so none is read as an option) or needs quoting.\<close>

theorem package_removal_tokens:
  assumes "compile_package_remove step = Inr line"
    and "step_input_error is_ip step = None" and "normalize_type (step_type step) = T_PACKAGE"
  shows "\<exists>names. names \<noteq> [] \<and> package_names step = Inr names \<and> list_all plain_argument names
    \<and> sh_tokens line = Some (remove_tokens ''dnf'' names @ [Op (CHR ''|''), Op (CHR ''|'')]
        @ remove_tokens ''apt-get'' names @ [Op (CHR ''|''), Op (CHR ''|'')] @ remove_tokens ''zypper'' names)"
proof -
  from assms(1) have truthy: "truthy (cfg_get (step_config step) ''packages'')"
    by (auto simp: compile_package_remove_def Let_def py_or_def split: if_splits)
  obtain ps where ps: "py_iter (cfg_get (step_config step) ''packages'') = Inr ps" "ps \<noteq> []"
    and tokens: "sh_tokens line = Some (remove_tokens ''dnf'' (map pystr ps) @ [Op (CHR ''|''), Op (CHR ''|'')]
      @ remove_tokens ''apt-get'' (map pystr ps) @ [Op (CHR ''|''), Op (CHR ''|'')]
      @ remove_tokens ''zypper'' (map pystr ps))"
    by (rule compile_package_remove_tokens [OF assms(1)])
  have names: "package_names step = Inr (map pystr ps)"
    using truthy ps assms(3) by (simp add: package_names_def Let_def py_or_def)
  then have "list_all plain_argument (map pystr ps)"
    using assms(2) plain_package by (auto simp: step_input_error_None list_all_iff)
  with names tokens ps(2) show ?thesis by (intro exI [of _ "map pystr ps"]) simp
qed

theorem package_removal_tokens_witness:
  "\<exists>names line. package_names (sample_step ''p'' T_PACKAGE
        [(''action'', PStr ''remove''), (''packages'', PList [PStr ''vim''])]) = Inr names
     \<and> list_all plain_argument names
     \<and> compile_package_remove (sample_step ''p'' T_PACKAGE
        [(''action'', PStr ''remove''), (''packages'', PList [PStr ''vim''])]) = Inr line"
proof -
  let ?s = "sample_step ''p'' T_PACKAGE [(''action'', PStr ''remove''), (''packages'', PList [PStr ''vim''])]"
  have "is_ok (compile_package_remove ?s)" by code_simp
  then obtain line where line: "compile_package_remove ?s = Inr line" by (auto simp: is_ok_iff)
  have "step_input_error (\<lambda>_. False) ?s = None" by code_simp
  from package_removal_tokens [OF line this] line show ?thesis
    by (auto simp: sample_step_def normalize_type_def)
qed

text \<open>What publishing accepts, running compiles: a step that passed the compiler's configuration
  check and the input check compiles to a line at run time, for the six structured kinds, provided the
  fields neither check looks at (numeric texts, a file state, the arguments of chmod and chown) are
  usable.\<close>

theorem published_step_compiles:
  assumes "validate_step_config step = []" and "step_input_error is_ip step = None"
    and "unchecked_fields_ok step"
    and "normalize_type (step_type step) \<in> {T_SERVICE, T_SYSTEM, T_FILE, T_CHECK}
      \<or> (normalize_type (step_type step) = T_PACKAGE
          \<and> py_or (cfg_get (step_config step) ''action'') (PStr ''install'') = PStr ''remove'')"
  shows "is_ok (compile_step is_ip step)"
proof -
  have config: "validate_step_config step =
      (case normalize_type (step_type step) of
         T_SERVICE \<Rightarrow> validate_service_config step | T_SYSTEM \<Rightarrow> validate_system_config step
       | T_FILE \<Rightarrow> validate_file_config step | T_PACKAGE \<Rightarrow> validate_package_config step
       | T_CHECK \<Rightarrow> validate_check_config step | T_WAIT \<Rightarrow> validate_wait_config step | _ \<Rightarrow> [])"
    by (simp add: validate_step_config_def legacy_alias_normalize)
  let ?t = "normalize_type (step_type step)"
  note fields = assms(3) [unfolded unchecked_fields_ok_def Let_def]
  consider "?t = T_SERVICE" | "?t = T_SYSTEM" | "?t = T_FILE" | "?t = T_CHECK"
    | "?t = T_PACKAGE" "py_or (cfg_get (step_config step) ''action'') (PStr ''install'') = PStr ''remove''"
    using assms(4) by blast
  then show ?thesis
  proof cases
    case 1
    with config assms(1) have "validate_service_config step = []" by simp
    with 1 show ?thesis by (simp add: compile_step_def published_service)
  next
    case 2
    with config assms(1) have "validate_system_config step = []" by simp
    with 2 fields show ?thesis by (simp add: compile_step_def published_system)
  next
    case 3
    with config assms(1) have "validate_file_config step = []" by simp
    with 3 fields show ?thesis by (simp add: compile_step_def published_file)
  next
    case 4
    with config assms(1) have "validate_check_config step = []" by simp
    from published_check [OF this assms(2) 4 assms(3)] 4 show ?thesis by (simp add: compile_step_def)
  next
    case 5
    with config assms(1) have "validate_package_config step = []" by simp
    moreover from assms(2) obtain names where "package_names step = Inr names"
      by (auto simp: step_input_error_None)
    ultimately have "is_ok (compile_package_remove step)" using 5 by (rule published_remove)
    with 5 show ?thesis by (simp add: compile_step_def)
  qed
qed

theorem published_step_compiles_witness: "is_ok (compile_step (\<lambda>_. False) evil_service)"
proof (rule published_step_compiles)
  show "validate_step_config evil_service = []" by code_simp
  show "step_input_error (\<lambda>_. False) evil_service = None" by code_simp
  show "unchecked_fields_ok evil_service" by code_simp
qed (simp add: evil_service_def sample_step_def normalize_type_def)

text \<open>The two checks disagree on chmod: publishing accepts every chmod step with a path, but one
  without a mode always fails when it runs, with the error that config.mode is required.\<close>

theorem chmod_without_mode_published:
  assumes "step_type step = T_FILE" and "cfg_get (step_config step) ''action'' = PStr ''chmod''"
    and "truthy (cfg_get (step_config step) ''path'')" and "cfg_get (step_config step) ''mode'' = PNone"
  shows "validate_step_config step = []
    \<and> compile_step is_ip step =
        Inl (WorkflowRunError (''step '' @ [sq] @ step_id step @ [sq] @ '': config.mode is required''))"
  using assms
  by (auto simp: validate_step_config_def legacy_alias_def validate_file_config_def compile_step_def
      normalize_type_def compile_file_def require_truthy Let_def one_of_def file_actions_def require_def)

theorem chmod_without_mode_published_witness:
  "validate_step_config (sample_step ''f'' T_FILE [(''action'', PStr ''chmod''), (''path'', PStr ''/x'')]) = []"
  using chmod_without_mode_published
    [of "sample_step ''f'' T_FILE [(''action'', PStr ''chmod''), (''path'', PStr ''/x'')]" "\<lambda>_. False"]
  by (simp add: sample_step_def cfg_get_def)

text \<open>The input check at publish and at the start of a run admits only arguments that are safe on
  any command line: when \<open>validate_step_inputs\<close> accepts a graph, every package name and every probe
  host that is not an IP literal is non-empty, does not start with a dash and is its own shell quotation.\<close>

theorem accepted_inputs_plain:
  assumes "validate_step_inputs is_ip steps = None" and "step \<in> set steps"
  shows "(\<exists>names. package_names step = Inr names \<and> list_all plain_argument names)
    \<and> (\<forall>h. probe_host step = Some h \<longrightarrow> is_ip h \<or> plain_argument h)"
proof -
  have "step_input_error is_ip step = None"
    using assms by (simp add: validate_step_inputs_None)
  then show ?thesis
    using plain_package plain_host by (auto simp: step_input_error_None list_all_iff valid_host_def)
qed

theorem accepted_inputs_plain_witness:
  "\<exists>names. package_names (sample_step ''p'' T_PACKAGE [(''packages'', PList [PStr ''vim''])]) = Inr names
     \<and> list_all plain_argument names"
proof -
  let ?s = "sample_step ''p'' T_PACKAGE [(''packages'', PList [PStr ''vim''])]"
  have "validate_step_inputs (\<lambda>_. False) [?s] = None" by code_simp
  from accepted_inputs_plain [OF this, of ?s] show ?thesis by simp
qed

end
