(* ===== verification/Capability.thy ===== *)
theory Capability
  imports Shell
begin

text \<open>
  Who may create a job and how a job is signed: \<open>utils/capability_rbac.py\<close> (capabilities, roles, the
  check for a smuggled command), \<open>services/job_envelope.py\<close> (the signed envelope of a dispatched job),
  \<open>services/job_signing.py\<close> (\<open>sign\<close>) and \<open>services/approval_claims.py\<close> (making and verifying an approval
  claim). A Python set of texts is a list without repetitions. The signature scheme, SHA-256, the clock
  and the random identifiers are parameters; \<open>json.dumps\<close> with sorted keys is \<open>canonical_json\<close>.
\<close>

section \<open>Roles and capabilities\<close>

definition ALL_ROLES :: "string list" where
  "ALL_ROLES = [''VIEWER'', ''MANAGER'', ''OPERATOR'', ''ADMIN'', ''AUDITOR'']"

definition CAPABILITY_MIN_ROLES :: "(string \<times> string list) list" where
  "CAPABILITY_MIN_ROLES =
    [(''READ_SYSTEM'', ALL_ROLES),
     (''READ_LOGS'', ALL_ROLES),
     (''SERVICE_CONTROL'', [''OPERATOR'', ''MANAGER'', ''ADMIN'']),
     (''PACKAGE_MANAGEMENT'', [''OPERATOR'', ''MANAGER'', ''ADMIN'']),
     (''FILE_WRITE'', [''OPERATOR'', ''MANAGER'', ''ADMIN'']),
     (''SECURITY_REMEDIATION'', [''MANAGER'', ''ADMIN'']),
     (''REBOOT_HOST'', [''MANAGER'', ''ADMIN'']),
     (''FIREWALL_CONFIGURATION'', [''MANAGER'', ''ADMIN'']),
     (''EXEC_BASH'', [''ADMIN'']),
     (''EXEC_PYTHON'', [''ADMIN'']),
     (''EXEC_ANSIBLE'', [''ADMIN'']),
     (''PLUGIN_INSTALL'', [''ADMIN''])]"

definition JOB_TYPE_CAPABILITY :: "(string \<times> string) list" where
  "JOB_TYPE_CAPABILITY =
    [(''HEARTBEAT'', ''READ_SYSTEM''),
     (''FILE_READ'', ''READ_SYSTEM''),
     (''LOG_READ'', ''READ_LOGS''),
     (''INVENTORY_SCAN'', ''READ_SYSTEM''),
     (''CVE_SCAN'', ''READ_SYSTEM''),
     (''SERVICE'', ''SERVICE_CONTROL''),
     (''FILE'', ''FILE_WRITE''),
     (''PACKAGE_UPDATE'', ''PACKAGE_MANAGEMENT''),
     (''SECURITY_PATCH'', ''PACKAGE_MANAGEMENT''),
     (''COMPLIANCE_REMEDIATE'', ''SECURITY_REMEDIATION''),
     (''REMEDIATION'', ''SECURITY_REMEDIATION''),
     (''REBOOT'', ''REBOOT_HOST''),
     (''FIREWALL_CHANGE'', ''FIREWALL_CONFIGURATION''),
     (''CUSTOM_COMMAND'', ''EXEC_BASH''),
     (''WORKFLOW_STEPS'', ''EXEC_BASH''),
     (''ANSIBLE_PLAYBOOK'', ''EXEC_ANSIBLE''),
     (''PLUGIN_INSTALL'', ''PLUGIN_INSTALL'')]"

definition STEP_TYPE_TO_CAPABILITY :: "(string \<times> string) list" where
  "STEP_TYPE_TO_CAPABILITY =
    [(''command'', ''EXEC_BASH''),
     (''package'', ''PACKAGE_MANAGEMENT''),
     (''service'', ''SERVICE_CONTROL''),
     (''system'', ''REBOOT_HOST''),
     (''file'', ''FILE_WRITE''),
     (''ansible'', ''EXEC_ANSIBLE'')]"

definition unhashable :: exn where
  "unhashable = TypeError ''unhashable type''"

text \<open>\<open>for x in v\<close> and the key test of a dictionary lookup.\<close>

definition iterate :: "pv \<Rightarrow> exn + pv list" where
  "iterate v = (case v of
      PList xs \<Rightarrow> Inr xs
    | PStr s \<Rightarrow> Inr (map (\<lambda>c. PStr [c]) s)
    | PDict d \<Rightarrow> Inr (map (\<lambda>e. PStr (fst e)) d)
    | _ \<Rightarrow> Inl (TypeError ''object is not iterable''))"

definition is_hashable :: "pv \<Rightarrow> bool" where
  "is_hashable v = (case v of PList _ \<Rightarrow> False | PDict _ \<Rightarrow> False | _ \<Rightarrow> True)"

text \<open>The capability of one entry of \<open>steps\<close>: \<open>TABLE.get(st or "")\<close>.\<close>

definition step_capability :: "pv \<Rightarrow> exn + string option" where
  "step_capability step =
    (let st = py_or (case step of PDict d \<Rightarrow> cfg_get d ''type'' | _ \<Rightarrow> PNone) (PStr []) in
     if \<not> is_hashable st then Inl unhashable
     else Inr (case st of PStr s \<Rightarrow> map_of STEP_TYPE_TO_CAPABILITY s | _ \<Rightarrow> None))"

definition add_new :: "'a list \<Rightarrow> 'a \<Rightarrow> 'a list" where
  "add_new xs x = (if x \<in> set xs then xs else xs @ [x])"

fun collect_capabilities :: "string list \<Rightarrow> pv list \<Rightarrow> exn + string list" where
  "collect_capabilities caps [] = Inr caps"
| "collect_capabilities caps (step # steps) =
    (case step_capability step of
       Inl e \<Rightarrow> Inl e
     | Inr None \<Rightarrow> collect_capabilities caps steps
     | Inr (Some c) \<Rightarrow> collect_capabilities (add_new caps c) steps)"

definition rbac_required_capabilities :: "string \<Rightarrow> config \<Rightarrow> exn + string list" where
  "rbac_required_capabilities job_type params =
    (if job_type = ''WORKFLOW_STEPS'' then
       sum_bind (iterate (py_or (cfg_get params ''steps'') (PList []))) (collect_capabilities [''EXEC_BASH''])
     else (case map_of JOB_TYPE_CAPABILITY job_type of
             Some cap \<Rightarrow> Inr [cap]
           | None \<Rightarrow> Inr [''EXEC_BASH'']))"

definition role_has :: "string \<Rightarrow> string \<Rightarrow> bool" where
  "role_has role cap = (case map_of CAPABILITY_MIN_ROLES cap of None \<Rightarrow> False | Some roles \<Rightarrow> role \<in> set roles)"

definition unauthorized_capabilities :: "string \<Rightarrow> string list \<Rightarrow> string list" where
  "unauthorized_capabilities role capabilities = sort (filter (\<lambda>cap. \<not> role_has role cap) capabilities)"

definition SYSTEM_ROLE :: string where "SYSTEM_ROLE = ''SYSTEM''"

text \<open>The checks raise; \<open>None\<close> is a return.\<close>

definition assert_can_create :: "string option \<Rightarrow> string \<Rightarrow> config \<Rightarrow> exn option" where
  "assert_can_create role job_type params =
    (if role = Some SYSTEM_ROLE then None
     else (case rbac_required_capabilities job_type params of
        Inl e \<Rightarrow> Some e
      | Inr caps \<Rightarrow>
         (let denied = unauthorized_capabilities (case role of None \<Rightarrow> [] | Some r \<Rightarrow> r) caps in
          if denied \<noteq> []
          then Some (PermissionError (''role '' @ (case role of None \<Rightarrow> ''None'' | Some r \<Rightarrow> repr_str r)
                 @ '' lacks capabilities required to create this job: '' @ join '', '' denied))
          else None)))"

definition agent_can_run_job_type :: "string list option \<Rightarrow> string \<Rightarrow> bool" where
  "agent_can_run_job_type capabilities job_type =
    (let reported = (case capabilities of None \<Rightarrow> [] | Some cs \<Rightarrow> cs) in
     if reported = [] then True else job_type \<in> set reported)"

definition assert_no_smuggled_command :: "string \<Rightarrow> config \<Rightarrow> exn option" where
  "assert_no_smuggled_command job_type params =
    (if has_key params ''command'' \<and> job_type \<notin> {''CUSTOM_COMMAND''}
     then Some (PermissionError (''job_type '' @ repr_str job_type @ '' may not carry a ''
            @ [sq] @ ''command'' @ [sq] @ '' parameter''))
     else None)"

section \<open>JSON text\<close>

text \<open>\<open>json.dumps(v, sort_keys=True)\<close> with its escapes; \<open>canonical_json\<close> has the compact separators.\<close>

definition json_char :: "char \<Rightarrow> string" where
  "json_char c =
    (let n = of_char c :: nat; esc = char_of (92::nat) in
     if n = 34 then [esc, dq] else if n = 92 then [esc, esc]
     else if n = 8 then [esc, CHR ''b''] else if n = 12 then [esc, CHR ''f'']
     else if n = 10 then [esc, CHR ''n''] else if n = 13 then [esc, CHR ''r'']
     else if n = 9 then [esc, CHR ''t'']
     else if n < 32 \<or> 127 < n
       then [esc, CHR ''u'', CHR ''0'', CHR ''0'', hex_digit (n div 16), hex_digit (n mod 16)]
     else [c])"

definition json_string :: "string \<Rightarrow> string" where
  "json_string s = [dq] @ concat (map json_char s) @ [dq]"

fun json_sorted :: "string \<Rightarrow> string \<Rightarrow> pv \<Rightarrow> string" where
  "json_sorted item_sep key_sep PNone = ''null''"
| "json_sorted item_sep key_sep (PBool b) = (if b then ''true'' else ''false'')"
| "json_sorted item_sep key_sep (PInt i) = show_int i"
| "json_sorted item_sep key_sep (PStr s) = json_string s"
| "json_sorted item_sep key_sep (PList xs) = ''['' @ join item_sep (map (json_sorted item_sep key_sep) xs) @ '']''"
| "json_sorted item_sep key_sep (PDict d) =
    ''{'' @ join item_sep (map (\<lambda>e. json_string (fst e) @ key_sep @ snd e)
       (sort_key fst (map (\<lambda>e. (fst e, json_sorted item_sep key_sep (snd e))) d))) @ ''}''"

definition canonical_json :: "pv \<Rightarrow> string" where
  "canonical_json v = json_sorted '','' '':'' v"

section \<open>Signed envelopes\<close>

definition CAPABILITY_REGISTRY :: "(string \<times> string \<times> string) list" where
  "CAPABILITY_REGISTRY =
    [(''HEARTBEAT'', ''READ_SYSTEM'', ''LOW''),
     (''FILE_READ'', ''READ_SYSTEM'', ''LOW''),
     (''LOG_READ'', ''READ_LOGS'', ''LOW''),
     (''SERVICE'', ''SERVICE_CONTROL'', ''MEDIUM''),
     (''FILE'', ''FILE_WRITE'', ''MEDIUM''),
     (''PACKAGE_UPDATE'', ''PACKAGE_MANAGEMENT'', ''HIGH''),
     (''COMPLIANCE_REMEDIATE'', ''SECURITY_REMEDIATION'', ''HIGH''),
     (''FIREWALL_CHANGE'', ''FIREWALL_CONFIGURATION'', ''HIGH''),
     (''REBOOT'', ''REBOOT_HOST'', ''HIGH''),
     (''WORKFLOW_STEPS'', ''EXEC_BASH'', ''CRITICAL''),
     (''CUSTOM_COMMAND'', ''EXEC_BASH'', ''CRITICAL''),
     (''ANSIBLE_PLAYBOOK'', ''EXEC_ANSIBLE'', ''CRITICAL''),
     (''PLUGIN_INSTALL'', ''PLUGIN_INSTALL'', ''CRITICAL'')]"

definition env_required_capabilities :: "string \<Rightarrow> config \<Rightarrow> exn + string list" where
  "env_required_capabilities job_type params =
    (if job_type = ''WORKFLOW_STEPS'' then
       sum_bind (iterate (py_or (cfg_get params ''steps'') (PList []))) (\<lambda>steps.
       sum_bind (collect_capabilities [] steps) (\<lambda>caps. Inr (if caps = [] then [''EXEC_BASH''] else caps)))
     else (case map_of CAPABILITY_REGISTRY job_type of
             Some (cap, risk) \<Rightarrow> Inr [cap]
           | None \<Rightarrow> Inr []))"

definition risk_level :: "string \<Rightarrow> string" where
  "risk_level job_type =
    (case map_of CAPABILITY_REGISTRY job_type of Some (cap, risk) \<Rightarrow> risk | None \<Rightarrow> ''HIGH'')"

text \<open>\<open>JobSigner.sign\<close>: the envelope of one job for one agent. \<open>provider_sign\<close> returns the base64 text of
  the signature or fails; \<open>version\<close> is the active key version.\<close>

record envelope_request =
  er_job_id :: string
  er_agent_id :: string
  er_tenant_id :: string
  er_job_type :: string
  er_payload :: config
  er_policy_id :: string
  er_risk_level :: string
  er_capabilities :: "string list"

definition unsigned_form :: "config \<Rightarrow> config" where
  "unsigned_form env = filter (\<lambda>e. fst e \<noteq> ''signature'') env @ [(''signature'', PStr [])]"

definition sign_envelope ::
    "(string \<Rightarrow> string option) \<Rightarrow> int \<Rightarrow> int \<Rightarrow> int \<Rightarrow> string \<Rightarrow> envelope_request \<Rightarrow> config option" where
  "sign_envelope provider_sign version ttl_seconds ts nonce r =
    (let env0 =
       [(''job_id'', PStr (er_job_id r)), (''agent_id'', PStr (er_agent_id r)),
        (''tenant_id'', PStr (er_tenant_id r)), (''job_type'', PStr (er_job_type r)),
        (''payload'', PDict (er_payload r)), (''policy_id'', PStr (er_policy_id r)),
        (''issued_at'', PInt ts), (''expires_at'', PInt (ts + ttl_seconds)), (''nonce'', PStr nonce),
        (''risk_level'', PStr (er_risk_level r)),
        (''requested_capabilities'', PList (map PStr (er_capabilities r))), (''signature'', PStr [])];
         env = (if version \<noteq> 1 then env0 @ [(''key_version'', PInt version)] else env0)
     in map_option (\<lambda>sig. dict_put env (''signature'', PStr sig))
          (provider_sign (canonical_json (PDict (unsigned_form env)))))"

text \<open>What \<open>_get_signer\<close> returned: it raised, there is none, or a signer.\<close>

datatype signer = SignerError | NoSigner | Signer "envelope_request \<Rightarrow> config option"

text \<open>\<open>maybe_attach_envelope\<close>: \<open>None\<close> is \<open>EnvelopeSigningError\<close>, the job is held.\<close>

definition maybe_attach_envelope ::
    "bool \<Rightarrow> signer \<Rightarrow> string \<Rightarrow> string \<Rightarrow> string \<Rightarrow> config \<Rightarrow> string option \<Rightarrow> string \<Rightarrow> config option" where
  "maybe_attach_envelope signing_required get_signer job_id job_type policy_id params agent_version agent_id =
    (if map_of CAPABILITY_REGISTRY job_type = None then Some params
     else (case get_signer of
        SignerError \<Rightarrow> None
      | NoSigner \<Rightarrow> if signing_required then None else Some params
      | Signer sign \<Rightarrow>
          if \<not> agent_meets_minimum agent_version MIN_AGENT_VERSION_SIGNED_JOBS then Some params
          else (let payload = filter (\<lambda>e. fst e \<noteq> ''_envelope'') params in
                case env_required_capabilities job_type payload of
                  Inl e \<Rightarrow> None
                | Inr caps \<Rightarrow>
                    map_option (\<lambda>env. payload @ [(''_envelope'', PDict env)])
                      (sign \<lparr>er_job_id = job_id, er_agent_id = agent_id, er_tenant_id = [],
                             er_job_type = job_type, er_payload = payload, er_policy_id = policy_id,
                             er_risk_level = risk_level job_type, er_capabilities = caps\<rparr>))))"

section \<open>Approval claims\<close>

definition compute_job_hash :: "(string \<Rightarrow> string) \<Rightarrow> config \<Rightarrow> string" where
  "compute_job_hash sha256 payload = sha256 (canonical_json (PDict payload))"

definition create_claim ::
    "(string \<Rightarrow> string) \<Rightarrow> (string \<Rightarrow> string) \<Rightarrow> string \<Rightarrow> string \<Rightarrow> int \<Rightarrow>
     string \<Rightarrow> string \<Rightarrow> config \<Rightarrow> string list \<Rightarrow> string \<Rightarrow> int \<Rightarrow> int \<Rightarrow> config" where
  "create_claim sha256 sign_message approval_id nonce ts
      job_id target_agent_id payload capabilities approver_id key_version ttl_seconds =
    (let claim =
       [(''approval_id'', PStr approval_id), (''job_id'', PStr job_id),
        (''job_hash'', PStr (compute_job_hash sha256 payload)),
        (''target_agent_id'', PStr target_agent_id),
        (''capabilities'', PList (map PStr capabilities)),
        (''approver_id'', PStr approver_id), (''issued_at'', PInt ts),
        (''expires_at'', PInt (ts + ttl_seconds)), (''nonce'', PStr nonce),
        (''key_version'', PInt key_version), (''signature'', PStr [])]
     in dict_put claim (''signature'', PStr (sign_message (canonical_json (PDict (unsigned_form claim))))))"

text \<open>\<open>ClaimRejected(reason)\<close>, or another exception that escapes.\<close>

datatype claim_outcome = Accepted | ClaimRejected string | ClaimError exn

definition claim_fields :: "string list" where
  "claim_fields = [''approval_id'', ''job_id'', ''job_hash'', ''target_agent_id'', ''capabilities'', ''nonce'', ''signature'']"

text \<open>\<open>public_key.verify\<close> on the decoded signature: whether it returns.\<close>

definition verify_claim ::
    "(string \<Rightarrow> string) \<Rightarrow> (pv \<Rightarrow> string \<Rightarrow> bool) \<Rightarrow> int \<Rightarrow>
     config \<Rightarrow> string \<Rightarrow> config \<Rightarrow> string \<Rightarrow> string list \<Rightarrow> claim_outcome" where
  "verify_claim sha256 sig_ok now_ts claim expected_job_id expected_payload expected_target_agent_id required =
    (if list_ex (\<lambda>f. \<not> truthy (cfg_get claim f)) claim_fields then ClaimRejected ''malformed''
     else (case map_of claim ''expires_at'' of
        None \<Rightarrow> ClaimError (KeyError ''expires_at'')
      | Some x \<Rightarrow>
       (case py_int x of
          Inl e \<Rightarrow> ClaimError e
        | Inr expires_at \<Rightarrow>
          if now_ts > expires_at then ClaimRejected ''expired''
          else if cfg_get claim ''job_id'' \<noteq> PStr expected_job_id then ClaimRejected ''wrong_job''
          else if cfg_get claim ''job_hash'' \<noteq> PStr (compute_job_hash sha256 expected_payload)
            then ClaimRejected ''modified''
          else if expected_target_agent_id \<noteq> [] \<and> cfg_get claim ''target_agent_id'' \<noteq> PStr expected_target_agent_id
            then ClaimRejected ''wrong_target''
          else (case iterate (cfg_get claim ''capabilities'') of
             Inl e \<Rightarrow> ClaimError e
           | Inr caps \<Rightarrow>
             if \<not> list_all is_hashable caps then ClaimError unhashable
             else (let missing = filter (\<lambda>c. PStr c \<notin> set caps) (remdups required) in
                   if missing \<noteq> [] then ClaimRejected (''missing_capabilities:'' @ join '','' (sort missing))
                   else if sig_ok (cfg_get claim ''signature'') (canonical_json (PDict (unsigned_form claim)))
                     then Accepted else ClaimRejected ''bad_signature'')))))"

section \<open>Capabilities of a job\<close>

lemma set_add_new [simp]: "set (add_new xs x) = insert x (set xs)"
  by (auto simp: add_new_def)

lemma collect_capabilities_more:
  "collect_capabilities a steps = Inr x \<Longrightarrow> set b = insert c (set a) \<Longrightarrow>
     \<exists>y. collect_capabilities b steps = Inr y \<and> set y = insert c (set x)"
proof (induction steps arbitrary: a b)
  case Nil
  then show ?case by simp
next
  case (Cons step steps)
  show ?case
  proof (cases "step_capability step")
    case (Inl e)
    with Cons show ?thesis by simp
  next
    case (Inr r)
    show ?thesis
    proof (cases r)
      case None
      with Inr Cons show ?thesis by simp
    next
      case (Some d)
      have "set (add_new b d) = insert c (set (add_new a d))" using Cons.prems(2) by auto
      with Inr Some Cons.IH [of "add_new a d" "add_new b d"] Cons.prems(1) show ?thesis by simp
    qed
  qed
qed

lemma rbac_required_nonempty:
  "rbac_required_capabilities jt params = Inr caps \<Longrightarrow> jt = ''WORKFLOW_STEPS'' \<Longrightarrow> ''EXEC_BASH'' \<in> set caps"
proof -
  assume "rbac_required_capabilities jt params = Inr caps" and "jt = ''WORKFLOW_STEPS''"
  then obtain steps where "collect_capabilities [''EXEC_BASH''] steps = Inr caps"
    by (auto simp: rbac_required_capabilities_def sum_bind_Inr_iff)
  moreover have "collect_capabilities a steps = Inr x \<Longrightarrow> set a \<subseteq> set x" for a x steps
  proof (induction steps arbitrary: a)
    case (Cons s steps)
    then show ?case by (fastforce split: sum.splits option.splits)
  qed simp
  ultimately show ?thesis by force
qed

lemma assert_can_create_None:
  "assert_can_create role jt params = None \<longleftrightarrow>
     role = Some SYSTEM_ROLE
     \<or> (\<exists>caps. rbac_required_capabilities jt params = Inr caps
          \<and> (\<forall>cap \<in> set caps. role_has (case role of None \<Rightarrow> [] | Some r \<Rightarrow> r) cap))"
proof -
  have "sort (filter P xs) = [] \<longleftrightarrow> (\<forall>x \<in> set xs. \<not> P x)" for P and xs :: "string list"
    by (metis (mono_tags) filter_False length_0_conv length_sort filter_empty_conv)
  then show ?thesis
    by (simp add: assert_can_create_def Let_def unauthorized_capabilities_def split: sum.split)
qed

text \<open>The capabilities only administrators have.\<close>

definition admin_only :: "string \<Rightarrow> bool" where
  "admin_only cap = (cap \<in> {''EXEC_BASH'', ''EXEC_PYTHON'', ''EXEC_ANSIBLE'', ''PLUGIN_INSTALL''})"

lemma role_has_admin_only: "admin_only cap \<Longrightarrow> role_has role cap \<longleftrightarrow> role = ''ADMIN''"
  by (auto simp: admin_only_def role_has_def CAPABILITY_MIN_ROLES_def)

lemma admin_only_cases:
  "rbac_required_capabilities jt params = Inr caps \<Longrightarrow>
     jt \<notin> fst ` set JOB_TYPE_CAPABILITY \<or> jt \<in> {''CUSTOM_COMMAND'', ''WORKFLOW_STEPS'', ''ANSIBLE_PLAYBOOK'', ''PLUGIN_INSTALL''} \<Longrightarrow>
     \<exists>cap \<in> set caps. admin_only cap"
proof -
  assume caps: "rbac_required_capabilities jt params = Inr caps"
    and jt: "jt \<notin> fst ` set JOB_TYPE_CAPABILITY \<or> jt \<in> {''CUSTOM_COMMAND'', ''WORKFLOW_STEPS'', ''ANSIBLE_PLAYBOOK'', ''PLUGIN_INSTALL''}"
  consider "jt = ''WORKFLOW_STEPS''" | "map_of JOB_TYPE_CAPABILITY jt = None" "jt \<noteq> ''WORKFLOW_STEPS''"
    | "jt \<in> {''CUSTOM_COMMAND'', ''ANSIBLE_PLAYBOOK'', ''PLUGIN_INSTALL''}"
    using jt by (auto simp: map_of_eq_None_iff)
  then show ?thesis
  proof cases
    case 1
    with caps rbac_required_nonempty show ?thesis by (auto simp: admin_only_def)
  next
    case 2
    with caps have "caps = [''EXEC_BASH'']" by (simp add: rbac_required_capabilities_def)
    then show ?thesis by (simp add: admin_only_def)
  next
    case 3
    have "\<forall>j \<in> {''CUSTOM_COMMAND'', ''ANSIBLE_PLAYBOOK'', ''PLUGIN_INSTALL''}. j \<noteq> ''WORKFLOW_STEPS''
        \<and> (case map_of JOB_TYPE_CAPABILITY j of None \<Rightarrow> False | Some c \<Rightarrow> admin_only c)"
      by code_simp
    with 3 have "jt \<noteq> ''WORKFLOW_STEPS''"
      and "case map_of JOB_TYPE_CAPABILITY jt of None \<Rightarrow> False | Some c \<Rightarrow> admin_only c"
      by blast+
    with caps show ?thesis by (auto simp: rbac_required_capabilities_def split: option.splits)
  qed
qed

section \<open>Properties\<close>

text \<open>C14. Only an administrator (or the platform itself) can put code of its own on a host: a role that
  may create a job of a type the table does not know, a shell job, a list of workflow steps, an Ansible
  run or a plugin installation is ADMIN or SYSTEM; a missing role never may.\<close>

theorem code_execution_needs_admin:
  assumes "assert_can_create role job_type params = None"
    and "job_type \<notin> fst ` set JOB_TYPE_CAPABILITY
      \<or> job_type \<in> {''CUSTOM_COMMAND'', ''WORKFLOW_STEPS'', ''ANSIBLE_PLAYBOOK'', ''PLUGIN_INSTALL''}"
  shows "role = Some ''ADMIN'' \<or> role = Some SYSTEM_ROLE"
proof (rule disjCI)
  assume "role \<noteq> Some SYSTEM_ROLE"
  with assms(1) obtain caps where caps: "rbac_required_capabilities job_type params = Inr caps"
    and has: "\<forall>cap \<in> set caps. role_has (case role of None \<Rightarrow> [] | Some r \<Rightarrow> r) cap"
    by (auto simp: assert_can_create_None)
  from admin_only_cases [OF caps assms(2)] obtain cap where "cap \<in> set caps" "admin_only cap" ..
  with has have "(case role of None \<Rightarrow> [] | Some r \<Rightarrow> r) = ''ADMIN''"
    using role_has_admin_only by blast
  then show "role = Some ''ADMIN''" by (cases role) simp_all
qed

theorem code_execution_needs_admin_witness:
  "assert_can_create (Some ''ADMIN'') ''CUSTOM_COMMAND'' [] = None
   \<and> (Some ''ADMIN'' = Some ''ADMIN'' \<or> Some ''ADMIN'' = Some SYSTEM_ROLE)"
proof -
  have "assert_can_create (Some ''ADMIN'') ''CUSTOM_COMMAND'' [] = None" by code_simp
  with code_execution_needs_admin [OF this] show ?thesis by simp
qed

text \<open>A shell line cannot be smuggled past the administrator check: if both creation checks pass and
  the parameters carry a command, the creator is ADMIN or SYSTEM and the job is a shell job.\<close>

theorem command_parameter_needs_admin:
  assumes "assert_no_smuggled_command job_type params = None"
    and "assert_can_create role job_type params = None" and "has_key params ''command''"
  shows "job_type = ''CUSTOM_COMMAND'' \<and> (role = Some ''ADMIN'' \<or> role = Some SYSTEM_ROLE)"
proof -
  from assms(1,3) have jt: "job_type = ''CUSTOM_COMMAND''"
    by (auto simp: assert_no_smuggled_command_def split: if_splits)
  with assms(2) obtain caps where "role = Some SYSTEM_ROLE
      \<or> (rbac_required_capabilities job_type params = Inr caps
         \<and> (\<forall>cap \<in> set caps. role_has (case role of None \<Rightarrow> [] | Some r \<Rightarrow> r) cap))"
    by (auto simp: assert_can_create_None)
  with jt admin_only_cases [of job_type params caps] role_has_admin_only show ?thesis
    by (cases role) auto
qed

theorem command_parameter_needs_admin_witness:
  "(Some ''ADMIN'' = Some ''ADMIN'' \<or> Some ''ADMIN'' = Some SYSTEM_ROLE)
   \<and> assert_can_create (Some ''ADMIN'') ''CUSTOM_COMMAND'' [(''command'', PStr ''id'')] = None"
proof -
  have "assert_no_smuggled_command ''CUSTOM_COMMAND'' [(''command'', PStr ''id'')] = None"
    and can: "assert_can_create (Some ''ADMIN'') ''CUSTOM_COMMAND'' [(''command'', PStr ''id'')] = None"
    and "has_key [(''command'', PStr ''id'')] ''command''"
    by code_simp+
  from command_parameter_needs_admin [OF this] can show ?thesis by simp
qed

text \<open>The two capability tables agree: every capability the signed envelope asks the agent to grant
  for a job is one the role check demanded when the job was created, and the envelope's computation
  succeeds whenever the role check's does.\<close>

theorem envelope_asks_only_checked_capabilities:
  assumes "rbac_required_capabilities job_type params = Inr checked"
  shows "\<exists>asked. env_required_capabilities job_type params = Inr asked \<and> set asked \<subseteq> set checked"
proof (cases "job_type = ''WORKFLOW_STEPS''")
  case True
  with assms obtain steps where steps: "iterate (py_or (cfg_get params ''steps'') (PList [])) = Inr steps"
    and checked: "collect_capabilities [''EXEC_BASH''] steps = Inr checked"
    by (auto simp: rbac_required_capabilities_def sum_bind_Inr_iff)
  have "\<exists>asked. collect_capabilities [] steps = Inr asked"
  proof -
    have "is_ok (collect_capabilities b steps)" if "is_ok (collect_capabilities a steps)" for a b steps
      using that by (induction steps arbitrary: a b) (auto split: sum.splits option.splits)
    then show ?thesis using checked by (metis is_ok.elims(2) is_ok.simps(2))
  qed
  then obtain asked where asked: "collect_capabilities [] steps = Inr asked" ..
  from collect_capabilities_more [OF this, of "[''EXEC_BASH'']" "''EXEC_BASH''"] checked
  have "set checked = insert ''EXEC_BASH'' (set asked)" by auto
  with True steps asked show ?thesis by (auto simp: env_required_capabilities_def)
next
  case False
  show ?thesis
  proof (cases "map_of CAPABILITY_REGISTRY job_type")
    case None
    with False show ?thesis by (simp add: env_required_capabilities_def)
  next
    case (Some entry)
    have "\<forall>(jt, cap, risk) \<in> set CAPABILITY_REGISTRY. map_of JOB_TYPE_CAPABILITY jt = Some cap"
      by code_simp
    with Some have "map_of JOB_TYPE_CAPABILITY job_type = Some (fst entry)"
      using map_of_SomeD [OF Some] by (cases entry) auto
    with False Some assms show ?thesis
      by (auto simp: env_required_capabilities_def rbac_required_capabilities_def split: prod.splits)
  qed
qed

theorem envelope_asks_only_checked_capabilities_witness:
  "\<exists>asked. env_required_capabilities ''REBOOT'' [] = Inr asked \<and> set asked \<subseteq> set [''REBOOT_HOST'']"
proof -
  have "rbac_required_capabilities ''REBOOT'' [] = Inr [''REBOOT_HOST'']" by code_simp
  then show ?thesis by (rule envelope_asks_only_checked_capabilities)
qed

text \<open>C15. A verified approval claim is bound to one job, one payload, one agent and its capabilities: if
  \<open>verify_claim\<close> accepts, the claim names the expected job and the hash of the expected parameters, it has
  not expired, it names the expected agent when one is expected, it lists every required capability, and
  its signature is valid for exactly its own fields.\<close>

theorem accepted_claim_binds:
  assumes "verify_claim sha256 sig_ok now_ts claim job payload target required = Accepted"
  shows "cfg_get claim ''job_id'' = PStr job
    \<and> cfg_get claim ''job_hash'' = PStr (compute_job_hash sha256 payload)
    \<and> (target \<noteq> [] \<longrightarrow> cfg_get claim ''target_agent_id'' = PStr target)
    \<and> (\<exists>x e. map_of claim ''expires_at'' = Some x \<and> py_int x = Inr e \<and> now_ts \<le> e)
    \<and> (\<exists>caps. iterate (cfg_get claim ''capabilities'') = Inr caps \<and> PStr ` set required \<subseteq> set caps)
    \<and> sig_ok (cfg_get claim ''signature'') (canonical_json (PDict (unsigned_form claim)))"
proof -
  have sub: "PStr ` set required \<subseteq> set caps"
    if "filter (\<lambda>c. PStr c \<notin> set caps) (remdups required) = []" for caps
    using that by (auto simp: filter_empty_conv)
  show ?thesis
    using assms sub
    by (auto simp: verify_claim_def Let_def not_less split: if_splits option.splits sum.splits)
qed

definition toy_claim :: config where
  "toy_claim = create_claim (\<lambda>_. ''h'') (\<lambda>_. ''s'') ''a1'' ''n1'' 100 ''job'' ''agent'' [] [''EXEC_BASH''] ''boss'' 1 300"

theorem accepted_claim_binds_witness:
  "cfg_get toy_claim ''job_id'' = PStr ''job''"
proof -
  have "verify_claim (\<lambda>_. ''h'') (\<lambda>v m. v = PStr ''s'') 200 toy_claim ''job'' [] ''agent'' [''EXEC_BASH''] = Accepted"
    by code_simp
  from accepted_claim_binds [OF this] show ?thesis by blast
qed

lemma cfg_get_Cons: "cfg_get ((k, v) # d) k' = (if k' = k then v else cfg_get d k')"
  by (simp add: cfg_get_def)

text \<open>Issued claims verify: a claim made for a job, agent, payload and capability list is accepted for
  the same job, agent and payload and any subset of the capabilities, up to the end of its lifetime and
  not after, when the signature scheme verifies what it signed and no identifying field is empty.\<close>

theorem issued_claim_verifies:
  assumes sign: "\<And>m. sig_ok (PStr (sign m)) m" and "\<And>m. sign m \<noteq> []" and "\<And>m. sha256 m \<noteq> []"
    and "approval_id \<noteq> []" "nonce \<noteq> []" "job \<noteq> []" "agent \<noteq> []" "capabilities \<noteq> []"
    and "set required \<subseteq> set capabilities"
  shows "verify_claim sha256 sig_ok now_ts
      (create_claim sha256 sign approval_id nonce ts job agent payload capabilities approver version ttl)
      job payload agent required =
    (if now_ts > ts + ttl then ClaimRejected ''expired'' else Accepted)"
proof -
  let ?claim = "create_claim sha256 sign approval_id nonce ts job agent payload capabilities approver version ttl"
  have "filter (\<lambda>c. PStr c \<notin> PStr ` set capabilities) (remdups required) = []"
    using assms(9) by (auto simp: filter_empty_conv)
  moreover have "list_all is_hashable (map PStr capabilities)"
    by (simp add: list_all_iff is_hashable_def)
  moreover have "compute_job_hash sha256 payload \<noteq> []"
    by (simp add: compute_job_hash_def assms(3))
  ultimately show ?thesis
    using assms(2-8) sign
    by (simp add: verify_claim_def create_claim_def claim_fields_def cfg_get_Cons py_int_def iterate_def
        Let_def unsigned_form_def)
qed

theorem issued_claim_verifies_witness:
  "verify_claim (\<lambda>_. ''h'') (\<lambda>v m. v = PStr (''s'' @ m)) 400
      (create_claim (\<lambda>_. ''h'') (\<lambda>m. ''s'' @ m) ''a1'' ''n1'' 100 ''job'' ''agent'' [] [''EXEC_BASH''] ''boss'' 1 300)
      ''job'' [] ''agent'' [''EXEC_BASH''] = Accepted"
  by (subst issued_claim_verifies) simp_all

text \<open>No silent downgrade: when signing is required, a privileged job for an agent new enough to verify
  envelopes is either held or sent with an envelope, and the envelope covers exactly the other parameters
  that are sent, for that job, that agent and the capabilities of the job type.\<close>

theorem required_signing_never_downgrades:
  assumes "maybe_attach_envelope True get_signer job_id job_type policy_id params agent_version agent_id = Some sent"
    and "map_of CAPABILITY_REGISTRY job_type \<noteq> None"
    and "agent_meets_minimum agent_version MIN_AGENT_VERSION_SIGNED_JOBS"
  shows "\<exists>sign env caps. get_signer = Signer sign
    \<and> env_required_capabilities job_type (filter (\<lambda>e. fst e \<noteq> ''_envelope'') params) = Inr caps
    \<and> sign \<lparr>er_job_id = job_id, er_agent_id = agent_id, er_tenant_id = [], er_job_type = job_type,
           er_payload = filter (\<lambda>e. fst e \<noteq> ''_envelope'') params, er_policy_id = policy_id,
           er_risk_level = risk_level job_type, er_capabilities = caps\<rparr> = Some env
    \<and> sent = filter (\<lambda>e. fst e \<noteq> ''_envelope'') params @ [(''_envelope'', PDict env)]"
  using assms
  by (auto simp: maybe_attach_envelope_def Let_def split: signer.splits sum.splits if_splits)

theorem required_signing_never_downgrades_witness:
  "\<exists>sign. Signer (\<lambda>r. Some [(''signature'', PStr ''s'')]) = Signer sign
     \<and> (\<exists>env. [(''x'', PInt 1), (''_envelope'', PDict [(''signature'', PStr ''s'')])]
          = filter (\<lambda>e. fst e \<noteq> ''_envelope'') [(''x'', PInt 1)] @ [(''_envelope'', PDict env)])"
proof -
  have "maybe_attach_envelope True (Signer (\<lambda>r. Some [(''signature'', PStr ''s'')])) ''j'' ''REBOOT'' []
      [(''x'', PInt 1)] (Some ''0.36.0'') ''a''
      = Some [(''x'', PInt 1), (''_envelope'', PDict [(''signature'', PStr ''s'')])]"
    by code_simp
  moreover have "map_of CAPABILITY_REGISTRY ''REBOOT'' \<noteq> None" by code_simp
  moreover have "agent_meets_minimum (Some ''0.36.0'') MIN_AGENT_VERSION_SIGNED_JOBS" by code_simp
  ultimately show ?thesis using required_signing_never_downgrades by blast
qed

end
