(* ===== verification/Store.thy ===== *)
theory Store
  imports WorkflowSchema
begin

text \<open>
  The tables the services read and write (\<open>models/*.py\<close>) and the database as one record. A row keeps
  the columns the modelled operations use; enumerations are datatypes whose constructors are the
  values with a letter for their column; JSONB columns are \<open>pv\<close> values, except a workflow version's
  \<open>graph\<close>, which holds the compiled graph it is always validated into, and a run's \<open>targets\<close>,
  which holds its list of agent ids. Times are microseconds since the epoch. Every operation takes the
  current time as an argument: the several clock readings of one call are one reading.
\<close>

section \<open>Enumerations\<close>

datatype job_status =
    J_QUEUED | J_SCHEDULED | J_PENDING | J_RUNNING | J_COMPLETED | J_FAILED | J_TIMEOUT | J_CANCELLED

datatype result_status =
    R_PENDING | R_RUNNING | R_COMPLETED | R_FAILED | R_TIMEOUT | R_CANCELLED | R_SKIPPED

datatype plan_status =
    P_DRAFT | P_PENDING_APPROVAL | P_APPROVED | P_EXECUTING | P_VERIFYING | P_COMPLETED | P_FAILED
  | P_ROLLED_BACK

datatype drift_status =
    D_OPEN | D_ACKNOWLEDGED | D_IN_REMEDIATION | D_RESOLVED | D_SUPPRESSED | D_EXCEPTION

datatype run_status = W_RUNNING | W_WAITING_APPROVAL | W_SUCCEEDED | W_FAILED | W_CANCELLED

datatype step_status =
    S_PENDING | S_RUNNING | S_WAITING_APPROVAL | S_SUCCEEDED | S_FAILED | S_SKIPPED | S_CANCELLED

datatype version_status = V_DRAFT | V_PUBLISHED | V_ARCHIVED

datatype agent_status = G_PENDING | G_REGISTERED | G_ACTIVE | G_INACTIVE | G_UNHEALTHY | G_MAINTENANCE

datatype plugin_status =
    L_PENDING_INSTALL | L_INSTALLING | L_INSTALLED | L_INSTALLING_FAILED | L_ENABLED | L_DISABLED | L_ERROR

definition job_status_value :: "job_status \<Rightarrow> string" where
  "job_status_value s = (case s of
      J_QUEUED \<Rightarrow> ''QUEUED'' | J_SCHEDULED \<Rightarrow> ''SCHEDULED'' | J_PENDING \<Rightarrow> ''PENDING'' | J_RUNNING \<Rightarrow> ''RUNNING''
    | J_COMPLETED \<Rightarrow> ''COMPLETED'' | J_FAILED \<Rightarrow> ''FAILED'' | J_TIMEOUT \<Rightarrow> ''TIMEOUT'' | J_CANCELLED \<Rightarrow> ''CANCELLED'')"

definition result_status_value :: "result_status \<Rightarrow> string" where
  "result_status_value s = (case s of
      R_PENDING \<Rightarrow> ''PENDING'' | R_RUNNING \<Rightarrow> ''RUNNING'' | R_COMPLETED \<Rightarrow> ''COMPLETED'' | R_FAILED \<Rightarrow> ''FAILED''
    | R_TIMEOUT \<Rightarrow> ''TIMEOUT'' | R_CANCELLED \<Rightarrow> ''CANCELLED'' | R_SKIPPED \<Rightarrow> ''SKIPPED'')"

definition step_status_value :: "step_status \<Rightarrow> string" where
  "step_status_value s = (case s of
      S_PENDING \<Rightarrow> ''PENDING'' | S_RUNNING \<Rightarrow> ''RUNNING'' | S_WAITING_APPROVAL \<Rightarrow> ''WAITING_APPROVAL''
    | S_SUCCEEDED \<Rightarrow> ''SUCCEEDED'' | S_FAILED \<Rightarrow> ''FAILED'' | S_SKIPPED \<Rightarrow> ''SKIPPED'' | S_CANCELLED \<Rightarrow> ''CANCELLED'')"

definition agent_status_value :: "agent_status \<Rightarrow> string" where
  "agent_status_value s = (case s of
      G_PENDING \<Rightarrow> ''PENDING'' | G_REGISTERED \<Rightarrow> ''REGISTERED'' | G_ACTIVE \<Rightarrow> ''ACTIVE'' | G_INACTIVE \<Rightarrow> ''INACTIVE''
    | G_UNHEALTHY \<Rightarrow> ''UNHEALTHY'' | G_MAINTENANCE \<Rightarrow> ''MAINTENANCE'')"

definition run_status_value :: "run_status \<Rightarrow> string" where
  "run_status_value s = (case s of
      W_RUNNING \<Rightarrow> ''RUNNING'' | W_WAITING_APPROVAL \<Rightarrow> ''WAITING_APPROVAL'' | W_SUCCEEDED \<Rightarrow> ''SUCCEEDED''
    | W_FAILED \<Rightarrow> ''FAILED'' | W_CANCELLED \<Rightarrow> ''CANCELLED'')"

section \<open>Rows\<close>

type_synonym time = int

record agent =
  a_id :: uuid
  a_agent_id :: string
  a_status :: agent_status
  a_last_heartbeat :: "time option"
  a_agent_version :: "string option"
  a_capabilities :: "string list option"
  a_hostname :: "string option"
  a_os_family :: "string option"
  a_os_distro :: "string option"
  a_os_version :: "string option"
  a_tags :: config
  a_custom_facts :: config
  a_category_id :: "uuid option"
  a_project_id :: "uuid option"

record job =
  j_id :: uuid
  j_name :: string
  j_type :: string
  j_targets :: pv
  j_total :: "nat option"
  j_params :: config
  j_status :: job_status
  j_scheduled_time :: "time option"
  j_started_at :: "time option"
  j_completed_at :: "time option"
  j_policy_id :: "uuid option"
  j_requires_approval :: bool
  j_approved_by :: "uuid option"
  j_approved_at :: "time option"
  j_dedup_key :: string
  j_created_by :: "uuid option"
  j_created_by_actor :: "string option"
  j_created_at :: time

record job_result =
  r_job :: uuid
  r_agent :: uuid
  r_status :: result_status
  r_exit_code :: "int option"
  r_error :: "string option"
  r_stdout :: "string option"
  r_stderr :: "string option"
  r_duration :: "int option"
  r_resources :: "config option"
  r_started_at :: "time option"
  r_completed_at :: "time option"
  r_held_until :: "time option"

record approval_claim =
  ac_job :: uuid
  ac_approver :: "string option"
  ac_target :: "string option"
  ac_claim :: config
  ac_expires_at :: time
  ac_created_at :: time
  ac_consumed_at :: "time option"

record maintenance_window =
  mw_id :: uuid
  mw_scope_type :: string
  mw_scope_selector :: config
  mw_cron_expr :: "string option"
  mw_duration_minutes :: int
  mw_timezone :: string
  mw_is_enabled :: bool

record remediation_plan =
  p_id :: uuid
  p_name :: string
  p_status :: plan_status
  p_trigger_type :: string
  p_window :: "uuid option"
  p_is_emergency :: bool
  p_created_by :: "uuid option"
  p_created_by_actor :: "string option"
  p_approved_by :: "uuid option"
  p_approved_at :: "time option"
  p_created_at :: time

record remediation_action =
  ra_id :: uuid
  ra_plan :: uuid
  ra_rule :: "uuid option"
  ra_drift :: "uuid option"
  ra_agent :: uuid
  ra_provider :: string
  ra_body :: string
  ra_rollback :: "string option"
  ra_sequence :: int

record remediation_job =
  rj_plan :: uuid
  rj_job :: uuid

record drift_event =
  d_id :: uuid
  d_agent :: uuid
  d_domain :: string
  d_time :: time
  d_status :: drift_status
  d_last_seen :: "time option"
  d_resolved_at :: "time option"
  d_acknowledged_by :: "uuid option"
  d_acknowledged_by_actor :: "string option"
  d_acknowledged_at :: "time option"
  d_suppressed_by :: "uuid option"

record plugin =
  pl_id :: uuid
  pl_status :: plugin_status
  pl_is_installed :: bool
  pl_installed_at :: "time option"

record plugin_installation =
  pi_id :: nat
  pi_plugin :: uuid
  pi_agent :: "uuid option"
  pi_status :: "string option"
  pi_error :: "string option"
  pi_installed_at :: "time option"

record playbook =
  pb_id :: uuid
  pb_name :: string
  pb_content :: string
  pb_version :: int
  pb_is_enabled :: bool
  pb_default_extra_vars :: config
  pb_role_ids :: "string list"

record policy =
  po_id :: uuid
  po_name :: string
  po_targets :: config
  po_is_enabled :: bool
  po_trigger_type :: string
  po_cron_expr :: "string option"
  po_next_run_at :: "time option"
  po_last_run_at :: "time option"
  po_actions :: "pv list"
  po_execution :: config

record workflow =
  wf_id :: uuid
  wf_is_enabled :: bool
  wf_current_version :: "uuid option"
  wf_trigger_type :: string
  wf_cron_expr :: "string option"
  wf_next_run_at :: "time option"
  wf_last_run_at :: "time option"
  wf_migrated_from :: "uuid option"

record workflow_version =
  v_id :: uuid
  v_workflow :: uuid
  v_graph :: compiled_graph
  v_status :: version_status
  v_published_by :: "uuid option"
  v_published_by_actor :: "string option"

record workflow_run =
  w_id :: uuid
  w_workflow :: uuid
  w_version :: uuid
  w_status :: run_status
  w_trigger_type :: string
  w_triggered_by :: "uuid option"
  w_triggered_by_actor :: "string option"
  w_agent_ids :: "uuid list"
  w_vars :: config
  w_is_dry_run :: bool
  w_started_at :: "time option"
  w_completed_at :: "time option"
  w_error :: "string option"

record step_run =
  s_run :: uuid
  s_step :: string
  s_status :: step_status
  s_job :: "uuid option"
  s_started_at :: "time option"
  s_completed_at :: "time option"
  s_output :: "config option"
  s_error :: "string option"

record alert =
  al_id :: uuid
  al_title :: string
  al_description :: "string option"
  al_severity :: string
  al_type :: "string option"
  al_agent :: "uuid option"
  al_status :: string
  al_acknowledged_by :: "uuid option"
  al_acknowledged_by_actor :: "string option"
  al_acknowledged_at :: "time option"
  al_resolved_by :: "uuid option"
  al_resolved_at :: "time option"

section \<open>The database\<close>

record db =
  agents :: "agent list"
  jobs :: "job list"
  results :: "job_result list"
  claims :: "approval_claim list"
  windows :: "maintenance_window list"
  plans :: "remediation_plan list"
  actions :: "remediation_action list"
  plan_jobs :: "remediation_job list"
  drifts :: "drift_event list"
  plugins :: "plugin list"
  installs :: "plugin_installation list"
  playbooks :: "playbook list"
  policies :: "policy list"
  workflows :: "workflow list"
  versions :: "workflow_version list"
  runs :: "workflow_run list"
  step_runs :: "step_run list"
  alerts :: "alert list"

definition empty_db :: db where
  "empty_db = \<lparr>agents = [], jobs = [], results = [], claims = [], windows = [], plans = [], actions = [],
     plan_jobs = [], drifts = [], plugins = [], installs = [], playbooks = [], policies = [], workflows = [], versions = [],
     runs = [], step_runs = [], alerts = []\<rparr>"

text \<open>\<open>scalar_one_or_none\<close>: a second matching row raises.\<close>

definition sql_one :: "('r \<Rightarrow> bool) \<Rightarrow> 'r list \<Rightarrow> exn + 'r option" where
  "sql_one p rows = (case filter p rows of
      [] \<Rightarrow> Inr None
    | [r] \<Rightarrow> Inr (Some r)
    | _ \<Rightarrow> Inl (DatabaseError ''MultipleResultsFound''))"

lemma sql_one_SomeD: "sql_one p rows = Inr (Some r) \<Longrightarrow> r \<in> set rows \<and> p r"
proof -
  assume "sql_one p rows = Inr (Some r)"
  then have "filter p rows = [r]" by (auto simp: sql_one_def split: list.splits)
  from arg_cong [OF this, of set] show ?thesis by auto
qed

lemma sql_one_None_iff: "sql_one p rows = Inr None \<longleftrightarrow> (\<forall>r \<in> set rows. \<not> p r)"
proof -
  have "sql_one p rows = Inr None \<longleftrightarrow> filter p rows = []"
    by (simp add: sql_one_def split: list.split)
  then show ?thesis by (simp add: filter_empty_conv)
qed

section \<open>The tables implement the keyed-table interface\<close>

interpretation job_table: keyed_table "sql_get j_id" "sql_modify j_id" "\<lambda>f. \<forall>r. j_id (f r) = j_id r"
  by (rule keyed_table_sql)

interpretation plan_table: keyed_table "sql_get p_id" "sql_modify p_id" "\<lambda>f. \<forall>r. p_id (f r) = p_id r"
  by (rule keyed_table_sql)

interpretation run_table: keyed_table "sql_get w_id" "sql_modify w_id" "\<lambda>f. \<forall>r. w_id (f r) = w_id r"
  by (rule keyed_table_sql)

text \<open>The step runs of one run, by step id.\<close>

definition step_key :: "step_run \<Rightarrow> uuid \<times> string" where
  "step_key sr = (s_run sr, s_step sr)"

interpretation step_table: keyed_table "sql_get step_key" "sql_modify step_key"
    "\<lambda>f. \<forall>r. step_key (f r) = step_key r"
  by (rule keyed_table_sql)

text \<open>Statuses, from the code's tuples.\<close>

definition job_terminal :: "job_status \<Rightarrow> bool" where
  "job_terminal s = (s \<in> {J_COMPLETED, J_FAILED, J_TIMEOUT, J_CANCELLED})"

definition job_active :: "job_status \<Rightarrow> bool" where
  "job_active s = (s \<in> {J_QUEUED, J_SCHEDULED, J_PENDING, J_RUNNING})"

definition result_terminal :: "result_status \<Rightarrow> bool" where
  "result_terminal s = (s \<in> {R_COMPLETED, R_FAILED, R_TIMEOUT, R_CANCELLED, R_SKIPPED})"

lemma job_terminal_active: "job_terminal s \<longleftrightarrow> \<not> job_active s"
  by (cases s) (simp_all add: job_terminal_def job_active_def)

lemma result_terminal_iff: "result_terminal s \<longleftrightarrow> s \<noteq> R_PENDING \<and> s \<noteq> R_RUNNING"
  by (cases s) (simp_all add: result_terminal_def)

section \<open>A sample row\<close>

definition toy_agent_pk :: uuid where "toy_agent_pk = ''11111111-1111-1111-1111-111111111111''"
definition toy_job_id :: uuid where "toy_job_id = ''22222222-2222-2222-2222-222222222222''"

definition toy_agent :: agent where
  "toy_agent = \<lparr>a_id = toy_agent_pk, a_agent_id = ''host-1'', a_status = G_ACTIVE, a_last_heartbeat = Some 0,
     a_agent_version = Some ''0.41.0'', a_capabilities = None, a_hostname = None, a_os_family = None,
     a_os_distro = None, a_os_version = None, a_tags = [], a_custom_facts = [], a_category_id = None, a_project_id = None\<rparr>"

end
