(* ===== verification/Jobs.thy ===== *)
theory Jobs
  imports Store Capability
begin

text \<open>
  The job engine: \<open>services/job_service.py\<close> (creation with its gates and fan-out, approval, completion,
  the recomputation of a job's status and what follows from it for plugins, remediation plans and drift),
  the job half of \<open>services/agent_service.py\<close> (pending jobs, claiming, holding, reported results), the
  dispatch loop of \<open>api/grpc/agent_service.py\<close>, the sweep of \<open>workers/job_timeout.py\<close> and
  \<open>cancel_job\<close> of \<open>api/v1/routers/jobs.py\<close>. SHA-256, new row ids, the clock and the signer of claims are
  parameters; caches, metrics and NATS messages are left out. The order of rows that SQL leaves open is
  the order of insertion.
\<close>

section \<open>Targets\<close>

definition parse_uuid :: "pv \<Rightarrow> exn + uuid" where
  "parse_uuid v = (case v of
      PStr s \<Rightarrow> (case uuid_parse s of
          Some u \<Rightarrow> Inr u
        | None \<Rightarrow> Inl (ValueError ''badly formed hexadecimal UUID string''))
    | _ \<Rightarrow> Inl (TypeError ''not a UUID text''))"

fun parse_uuids :: "pv list \<Rightarrow> exn + uuid list" where
  "parse_uuids [] = Inr []"
| "parse_uuids (v # vs) =
    (case parse_uuid v of
       Inl e \<Rightarrow> Inl e
     | Inr u \<Rightarrow> (case parse_uuids vs of Inl e \<Rightarrow> Inl e | Inr us \<Rightarrow> Inr (u # us)))"

definition target_agent_uuids :: "pv \<Rightarrow> exn + uuid list" where
  "target_agent_uuids target_servers = (case target_servers of
      PDict d \<Rightarrow>
        sum_bind (iterate (py_or (cfg_get d ''agent_ids'')
                    (PList (map (\<lambda>e. PStr (fst e)) (filter (\<lambda>e. truthy (snd e)) d)))))
          parse_uuids
    | PList xs \<Rightarrow> parse_uuids xs
    | _ \<Rightarrow> Inr [])"

section \<open>Remediation plans and drift behind a job\<close>

definition drift_ids :: "db \<Rightarrow> uuid \<Rightarrow> uuid list" where
  "drift_ids d plan_id =
    map (\<lambda>a. the (ra_drift a)) (filter (\<lambda>a. ra_plan a = plan_id \<and> ra_drift a \<noteq> None) (actions d))"

definition revert_drift_to_open :: "time \<Rightarrow> uuid \<Rightarrow> db \<Rightarrow> db" where
  "revert_drift_to_open now plan_id d =
    (let ids = drift_ids d plan_id in
     if ids = [] then d
     else d\<lparr>drifts := sql_update (\<lambda>e. d_id e \<in> set ids \<and> d_status e = D_IN_REMEDIATION)
                        (\<lambda>e. e\<lparr>d_status := D_OPEN, d_last_seen := Some now\<rparr>) (drifts d)\<rparr>)"

definition plan_has_verifiable_actions :: "db \<Rightarrow> uuid \<Rightarrow> bool" where
  "plan_has_verifiable_actions d plan_id = list_ex (\<lambda>a. ra_plan a = plan_id \<and> ra_rule a \<noteq> None) (actions d)"

text \<open>The plan's job links, newest job first; links without a job drop out of the join.\<close>

definition newest_first :: "db \<Rightarrow> uuid \<Rightarrow> remediation_job list" where
  "newest_first d plan_id =
    sort_key (\<lambda>l. case sql_get j_id (jobs d) (rj_job l) of Some j \<Rightarrow> - j_created_at j | None \<Rightarrow> 0)
      (filter (\<lambda>l. rj_plan l = plan_id \<and> sql_get j_id (jobs d) (rj_job l) \<noteq> None) (plan_jobs d))"

definition set_plan_status :: "uuid \<Rightarrow> plan_status \<Rightarrow> db \<Rightarrow> db" where
  "set_plan_status plan_id s d = d\<lparr>plans := sql_modify p_id plan_id (\<lambda>p. p\<lparr>p_status := s\<rparr>) (plans d)\<rparr>"

definition job_operation :: "job \<Rightarrow> pv" where
  "job_operation j = (case map_of (j_params j) ''operation'' of None \<Rightarrow> PStr ''APPLY'' | Some v \<Rightarrow> v)"

definition sync_remediation_plan :: "time \<Rightarrow> job \<Rightarrow> db \<Rightarrow> exn + db" where
  "sync_remediation_plan now j d =
    (if \<not> job_terminal (j_status j) then Inr d
     else if job_operation j = PStr ''DRY_RUN'' then Inr d
     else (let raw = cfg_get (j_params j) ''remediation_plan_id'' in
       if \<not> truthy raw then Inr d
       else sum_bind (parse_uuid raw) (\<lambda>plan_id.
         (case newest_first d plan_id of
            [] \<Rightarrow> Inr d
          | latest # _ \<Rightarrow>
            if rj_job latest \<noteq> j_id j then Inr d
            else if sql_get p_id (plans d) plan_id = None then Inr d
            else if job_operation j = PStr ''ROLLBACK'' then
              Inr (revert_drift_to_open now plan_id
                (set_plan_status plan_id (if j_status j = J_COMPLETED then P_ROLLED_BACK else P_FAILED) d))
            else if j_status j \<noteq> J_COMPLETED then
              Inr (revert_drift_to_open now plan_id (set_plan_status plan_id P_FAILED d))
            else if plan_has_verifiable_actions d plan_id then Inr (set_plan_status plan_id P_VERIFYING d)
            else Inr (set_plan_status plan_id P_COMPLETED d)))))"

section \<open>Plugins behind a job\<close>

definition lower_text :: "string \<Rightarrow> string" where
  "lower_text s = map to_lower s"

definition opt_or :: "string option \<Rightarrow> string option \<Rightarrow> string option" where
  "opt_or a b = (if a = None \<or> a = Some [] then b else a)"

text \<open>\<open>by_agent\<close> maps an agent to the last installation of the plugin on it.\<close>

definition installation_of :: "db \<Rightarrow> uuid \<Rightarrow> uuid \<Rightarrow> plugin_installation option" where
  "installation_of d plugin_id agent_id =
    sql_first (\<lambda>i. pi_plugin i = plugin_id \<and> pi_agent i = Some agent_id) (rev (installs d))"

definition sync_installation :: "time \<Rightarrow> uuid \<Rightarrow> job_result \<Rightarrow> db \<Rightarrow> db" where
  "sync_installation now plugin_id r d =
    (case installation_of d plugin_id (r_agent r) of
       None \<Rightarrow> d
     | Some inst \<Rightarrow>
        if \<not> result_terminal (r_status r) then d
        else d\<lparr>installs := sql_modify pi_id (pi_id inst)
          (\<lambda>i. if r_status r = R_COMPLETED
               then i\<lparr>pi_status := Some ''INSTALLED'', pi_error := None,
                      pi_installed_at := (case pi_installed_at i of None \<Rightarrow> Some now | t \<Rightarrow> t)\<rparr>
               else i\<lparr>pi_status := Some ''ERROR'',
                      pi_error := opt_or (r_error r) (opt_or (r_stderr r)
                        (Some (''install '' @ lower_text (result_status_value (r_status r)))))\<rparr>)
          (installs d)\<rparr>)"

definition sync_plugin_installations :: "time \<Rightarrow> job \<Rightarrow> job_result list \<Rightarrow> db \<Rightarrow> exn + db" where
  "sync_plugin_installations now j rows d =
    (let raw = cfg_get (j_params j) ''plugin_id'' in
     if \<not> truthy raw then Inr d
     else sum_bind (parse_uuid raw) (\<lambda>plugin_id.
       (case sql_get pl_id (plugins d) plugin_id of
          None \<Rightarrow> Inr d
        | Some plugin \<Rightarrow>
          if pl_status plugin \<notin> {L_INSTALLING, L_INSTALLING_FAILED} then Inr d
          else (let d1 = fold (sync_installation now plugin_id) rows d;
                    statuses = map pi_status (filter (\<lambda>i. pi_plugin i = plugin_id) (installs d1))
                in Inr (if statuses \<noteq> [] \<and> list_all (\<lambda>s. s = Some ''INSTALLED'') statuses
                   then d1\<lparr>plugins := sql_modify pl_id plugin_id
                     (\<lambda>p. p\<lparr>pl_status := L_INSTALLED, pl_is_installed := True,
                            pl_installed_at := (case pl_installed_at p of None \<Rightarrow> Some now | t \<Rightarrow> t)\<rparr>)
                     (plugins d1)\<rparr>
                   else if Some ''ERROR'' \<in> set statuses
                   then d1\<lparr>plugins := sql_modify pl_id plugin_id (\<lambda>p. p\<lparr>pl_status := L_INSTALLING_FAILED\<rparr>)
                     (plugins d1)\<rparr>
                   else d1)))))"

section \<open>The status of a job\<close>

definition job_results :: "db \<Rightarrow> uuid \<Rightarrow> job_result list" where
  "job_results d job_id = filter (\<lambda>r. r_job r = job_id) (results d)"

definition aggregate_status :: "result_status list \<Rightarrow> job_status" where
  "aggregate_status statuses =
    (if R_FAILED \<in> set statuses then J_FAILED
     else if R_TIMEOUT \<in> set statuses then J_TIMEOUT
     else if R_CANCELLED \<in> set statuses then J_CANCELLED
     else J_COMPLETED)"

definition or_now :: "time \<Rightarrow> time option \<Rightarrow> time option" where
  "or_now now t = (case t of None \<Rightarrow> Some now | Some x \<Rightarrow> Some x)"

definition refresh_status :: "time \<Rightarrow> result_status list \<Rightarrow> job \<Rightarrow> job" where
  "refresh_status now statuses j =
    (if list_all result_terminal statuses
     then j\<lparr>j_status := aggregate_status statuses, j_completed_at := or_now now (j_completed_at j)\<rparr>
     else if list_ex result_terminal statuses
     then j\<lparr>j_status := J_RUNNING, j_started_at := or_now now (j_started_at j)\<rparr>
     else j)"

definition recompute_job_status :: "time \<Rightarrow> uuid \<Rightarrow> db \<Rightarrow> exn + db" where
  "recompute_job_status now job_id d =
    (let rows = job_results d job_id in
     if rows = [] then Inr d
     else (case sql_get j_id (jobs d) job_id of
        None \<Rightarrow> Inr d
      | Some j \<Rightarrow>
        if j_status j = J_CANCELLED then Inr d
        else (let j' = refresh_status now (map r_status rows) j;
                  d1 = d\<lparr>jobs := sql_modify j_id job_id (refresh_status now (map r_status rows)) (jobs d)\<rparr>
              in sum_bind (if j_type j' = ''PLUGIN_INSTALL'' then sync_plugin_installations now j' rows d1 else Inr d1)
                   (\<lambda>d2. if j_type j' = ''COMPLIANCE_REMEDIATE'' then sync_remediation_plan now j' d2 else Inr d2))))"

text \<open>The public wrapper of the timeout sweep and the cancel route.\<close>

definition sync_plan_of_job :: "time \<Rightarrow> uuid \<Rightarrow> db \<Rightarrow> exn + db" where
  "sync_plan_of_job now job_id d =
    (case sql_get j_id (jobs d) job_id of
       Some j \<Rightarrow> if j_type j = ''COMPLIANCE_REMEDIATE'' then sync_remediation_plan now j d else Inr d
     | None \<Rightarrow> Inr d)"

section \<open>Creating a job\<close>

record job_args =
  n_name :: string
  n_type :: string
  n_targets :: pv
  n_params :: config
  n_scheduled_time :: "time option"
  n_policy_id :: "uuid option"
  n_created_by :: "uuid option"
  n_requires_approval :: bool
  n_skip_approval_gate :: bool
  n_created_by_actor :: "string option"
  n_actor_role :: "string option"

definition FORCE_APPROVAL_JOB_TYPES :: "string list" where
  "FORCE_APPROVAL_JOB_TYPES = [''CUSTOM_COMMAND'', ''ANSIBLE_PLAYBOOK'']"

definition compute_dedup_key :: "(string \<Rightarrow> string) \<Rightarrow> string \<Rightarrow> pv \<Rightarrow> config \<Rightarrow> string" where
  "compute_dedup_key sha256 job_type target_servers parameters =
    sha256 (job_type @ '':'' @ json_sorted '', '' '': '' target_servers @ '':''
            @ json_sorted '', '' '': '' (PDict parameters))"

definition pending_result :: "uuid \<Rightarrow> uuid \<Rightarrow> job_result" where
  "pending_result job_id aid =
    \<lparr>r_job = job_id, r_agent = aid, r_status = R_PENDING, r_exit_code = None, r_error = None, r_stdout = None,
     r_stderr = None, r_duration = None, r_resources = None, r_started_at = None, r_completed_at = None,
     r_held_until = None\<rparr>"

definition duplicate_error :: exn where
  "duplicate_error = ValueError ''Duplicate job already active''"

text \<open>The foreign key of \<open>job_results.agent_id\<close> fails at the commit, whose handler reports a duplicate.\<close>

definition create_job ::
    "(string \<Rightarrow> string) \<Rightarrow> uuid \<Rightarrow> time \<Rightarrow> job_args \<Rightarrow> db \<Rightarrow> exn + (job \<times> db)" where
  "create_job sha256 new_id now args d =
    (let job_type = n_type args;
         params = n_params args;
         requires_approval = (n_requires_approval args
            \<or> (job_type \<in> set FORCE_APPROVAL_JOB_TYPES \<and> \<not> n_skip_approval_gate args))
     in case assert_no_smuggled_command job_type params of
          Some e \<Rightarrow> Inl e
        | None \<Rightarrow>
       (case assert_can_create (n_actor_role args) job_type params of
          Some e \<Rightarrow> Inl e
        | None \<Rightarrow>
         (let dedup_key = compute_dedup_key sha256 job_type (n_targets args) params in
          sum_bind (sql_one (\<lambda>j. j_dedup_key j = dedup_key \<and> job_active (j_status j)) (jobs d)) (\<lambda>existing.
          if existing \<noteq> None then Inl duplicate_error
          else sum_bind (target_agent_uuids (n_targets args)) (\<lambda>agent_uuids.
            (let j = \<lparr>j_id = new_id, j_name = n_name args, j_type = job_type, j_targets = n_targets args,
                   j_total = (if agent_uuids = [] then None else Some (length agent_uuids)),
                   j_params = params, j_status = J_QUEUED, j_scheduled_time = n_scheduled_time args,
                   j_started_at = None, j_completed_at = None, j_policy_id = n_policy_id args,
                   j_requires_approval = requires_approval, j_approved_by = None, j_approved_at = None,
                   j_dedup_key = dedup_key, j_created_by = n_created_by args,
                   j_created_by_actor = n_created_by_actor args, j_created_at = now\<rparr>
             in if \<not> list_all (\<lambda>a. a \<in> a_id ` set (agents d)) agent_uuids then Inl duplicate_error
                else Inr (j, d\<lparr>jobs := jobs d @ [j],
                               results := results d @ map (pending_result new_id) agent_uuids\<rparr>)))))))"

text \<open>Whether the failure came from the commit, which rolls the session back, and not from the query before it.\<close>

definition commit_refused :: "(string \<Rightarrow> string) \<Rightarrow> uuid \<Rightarrow> time \<Rightarrow> job_args \<Rightarrow> db \<Rightarrow> bool" where
  "commit_refused sha256 new_id now args d =
    (create_job sha256 new_id now args d = Inl duplicate_error
     \<and> sql_one (\<lambda>j. j_dedup_key j = compute_dedup_key sha256 (n_type args) (n_targets args) (n_params args)
                     \<and> job_active (j_status j)) (jobs d) = Inr None)"

section \<open>Approving and completing a job\<close>

definition parameters_for_agent :: "job \<Rightarrow> uuid \<Rightarrow> exn + config" where
  "parameters_for_agent j agent_id =
    (let params = j_params j in
     if j_type j \<noteq> ''COMPLIANCE_REMEDIATE'' then Inr params
     else (case (case map_of params ''actions'' of None \<Rightarrow> PDict [] | Some v \<Rightarrow> v) of
        PDict m \<Rightarrow>
          Inr [(''remediation_plan_id'', cfg_get params ''remediation_plan_id''),
               (''operation'', cfg_get params ''operation''),
               (''actions'', (case map_of m agent_id of None \<Rightarrow> PList [] | Some v \<Rightarrow> v))]
      | _ \<Rightarrow> Inl (TypeError ''object has no attribute get'')))"

text \<open>\<open>sign_approval_claim\<close>: job, target, payload, capabilities and approver to a claim, or it raises.\<close>

type_synonym claim_signer = "uuid \<Rightarrow> string \<Rightarrow> config \<Rightarrow> string list \<Rightarrow> string \<Rightarrow> config option"

definition claim_row :: "time \<Rightarrow> job \<Rightarrow> uuid option \<Rightarrow> string \<Rightarrow> config \<Rightarrow> approval_claim" where
  "claim_row now j approved_by target claim =
    \<lparr>ac_job = j_id j, ac_approver = approved_by, ac_target = Some target, ac_claim = claim,
     ac_expires_at = (case cfg_get claim ''expires_at'' of PInt t \<Rightarrow> t * 1000000 | _ \<Rightarrow> 0),
     ac_created_at = now, ac_consumed_at = None\<rparr>"

text \<open>The loop over the targets; a failure ends it and keeps the claims already added.\<close>

fun issue_claims :: "time \<Rightarrow> claim_signer \<Rightarrow> job \<Rightarrow> string list \<Rightarrow> uuid option \<Rightarrow> uuid list \<Rightarrow> db \<Rightarrow> db" where
  "issue_claims now sign j caps approved_by [] d = d"
| "issue_claims now sign j caps approved_by (aid # aids) d =
    (let target = (case sql_get a_id (agents d) aid of Some a \<Rightarrow> a_agent_id a | None \<Rightarrow> []) in
     case parameters_for_agent j aid of
       Inl e \<Rightarrow> d
     | Inr payload \<Rightarrow>
       (case sign (j_id j) target payload caps (case approved_by of Some u \<Rightarrow> u | None \<Rightarrow> []) of
          None \<Rightarrow> d
        | Some claim \<Rightarrow>
            issue_claims now sign j caps approved_by aids
              (d\<lparr>claims := claims d @ [claim_row now j approved_by target claim]\<rparr>)))"

definition approve_job ::
    "claim_signer option \<Rightarrow> time \<Rightarrow> uuid \<Rightarrow> uuid option \<Rightarrow> string option \<Rightarrow> db \<Rightarrow> exn + db" where
  "approve_job signer now job_id approved_by approver_actor d =
    (case sql_get j_id (jobs d) job_id of
       None \<Rightarrow> Inl (ValueError (''Job '' @ job_id @ '' not found''))
     | Some j \<Rightarrow>
       if \<not> j_requires_approval j then Inl (ValueError ''Job does not require approval'')
       else if j_approved_at j \<noteq> None then Inl (ValueError ''Job already approved'')
       else if (approver_actor \<noteq> None \<and> approver_actor \<noteq> Some [] \<and> j_created_by_actor j = approver_actor)
            \<or> (j_created_by j \<noteq> None \<and> j_created_by j = approved_by)
         then Inl (PermissionError ''Job creator cannot approve their own job'')
       else (let approve = (\<lambda>x. x\<lparr>j_approved_by := approved_by, j_approved_at := Some now\<rparr>);
                 j' = approve j;
                 d1 = d\<lparr>jobs := sql_modify j_id job_id approve (jobs d)\<rparr>
             in case signer of
                  None \<Rightarrow> Inr d1
                | Some sign \<Rightarrow>
                   (case env_required_capabilities (j_type j') (j_params j') of
                      Inl e \<Rightarrow> Inr d1
                    | Inr caps \<Rightarrow>
                       (case target_agent_uuids (j_targets j') of
                          Inl e \<Rightarrow> Inr d1
                        | Inr aids \<Rightarrow> Inr (issue_claims now sign j' caps approved_by aids d1)))))"

definition set_result :: "uuid \<Rightarrow> uuid \<Rightarrow> (job_result \<Rightarrow> job_result) \<Rightarrow> db \<Rightarrow> db" where
  "set_result job_id agent_id f d =
    d\<lparr>results := sql_update (\<lambda>r. r_job r = job_id \<and> r_agent r = agent_id) f (results d)\<rparr>"

definition complete_job ::
    "time \<Rightarrow> uuid \<Rightarrow> uuid \<Rightarrow> int \<Rightarrow> string \<Rightarrow> string \<Rightarrow> int \<Rightarrow> db \<Rightarrow> exn + db" where
  "complete_job now job_id agent_id exit_code out err duration_ms d =
    sum_bind (sql_one (\<lambda>r. r_job r = job_id \<and> r_agent r = agent_id) (results d)) (\<lambda>row.
      case row of
        None \<Rightarrow> Inl (ValueError (''JobResult not found for job='' @ job_id @ '' agent='' @ agent_id))
      | Some r \<Rightarrow>
          recompute_job_status now job_id
            (set_result job_id agent_id
              (\<lambda>r. r\<lparr>r_status := (if exit_code = 0 then R_COMPLETED else R_FAILED), r_exit_code := Some exit_code,
                     r_stdout := Some (take 50000 out), r_stderr := Some (take 10000 err),
                     r_duration := Some (duration_ms div 1000), r_completed_at := Some now\<rparr>) d))"

section \<open>Handing jobs to an agent\<close>

definition PENDING_JOBS_PER_HEARTBEAT :: nat where "PENDING_JOBS_PER_HEARTBEAT = 10"

definition HELD_JOB_SECONDS :: int where "HELD_JOB_SECONDS = 60"

definition pending_for :: "time \<Rightarrow> uuid \<Rightarrow> uuid set \<Rightarrow> job \<Rightarrow> job_result \<Rightarrow> bool" where
  "pending_for now agent_id exclude j r =
    (r_job r = j_id j \<and> r_agent r = agent_id \<and> r_status r = R_PENDING
     \<and> (case r_held_until r of None \<Rightarrow> True | Some t \<Rightarrow> t \<le> now)
     \<and> j_id j \<notin> exclude
     \<and> (\<not> j_requires_approval j \<or> j_approved_at j \<noteq> None))"

definition get_pending_jobs :: "time \<Rightarrow> uuid \<Rightarrow> uuid set \<Rightarrow> nat \<Rightarrow> db \<Rightarrow> job list" where
  "get_pending_jobs now agent_id exclude limit d =
    take limit (concat (map (\<lambda>j. map (\<lambda>_. j) (filter (pending_for now agent_id exclude j) (results d))) (jobs d)))"

definition mark_dispatched :: "time \<Rightarrow> uuid \<Rightarrow> job list \<Rightarrow> db \<Rightarrow> job list \<times> db" where
  "mark_dispatched now agent_id js d =
    (let hit = (\<lambda>r. r_job r \<in> j_id ` set js \<and> r_agent r = agent_id \<and> r_status r = R_PENDING);
         claimed = r_job ` set (filter hit (results d))
     in if js = [] \<or> claimed = {} then ([], d)
        else (filter (\<lambda>j. j_id j \<in> claimed) js,
              d\<lparr>results := sql_update hit
                   (\<lambda>r. r\<lparr>r_status := R_RUNNING, r_started_at := Some now, r_held_until := None\<rparr>) (results d),
                jobs := sql_update (\<lambda>j. j_id j \<in> claimed \<and> j_status j \<in> {J_QUEUED, J_SCHEDULED})
                   (\<lambda>j. j\<lparr>j_status := J_RUNNING, j_started_at := Some now\<rparr>) (jobs d)\<rparr>))"

definition mark_held :: "time \<Rightarrow> uuid \<Rightarrow> uuid list \<Rightarrow> db \<Rightarrow> db" where
  "mark_held now agent_id job_ids d =
    (if job_ids = [] then d
     else d\<lparr>results := sql_update (\<lambda>r. r_job r \<in> set job_ids \<and> r_agent r = agent_id)
              (\<lambda>r. r\<lparr>r_held_until := Some (now + HELD_JOB_SECONDS * 1000000)\<rparr>) (results d)\<rparr>)"

section \<open>Results an agent reports\<close>

record job_report =
  jr_job_id :: "string option"
  jr_state :: "int option"
  jr_exit_code :: "int option"
  jr_error_message :: "string option"
  jr_output :: "string option"
  jr_audit :: config

definition state_to_status :: "int option \<Rightarrow> result_status" where
  "state_to_status s =
    (if s = Some 0 then R_PENDING else if s = Some 1 then R_RUNNING else if s = Some 2 then R_COMPLETED
     else if s = Some 3 then R_FAILED else if s = Some 4 then R_TIMEOUT else if s = Some 5 then R_CANCELLED
     else if s = Some 6 then R_FAILED else R_COMPLETED)"

definition non_empty :: "string option \<Rightarrow> string option" where
  "non_empty s = (if s = Some [] then None else s)"

definition audit_meta :: "config \<Rightarrow> config" where
  "audit_meta r =
    map (\<lambda>k. (k, cfg_get r k))
      (filter (\<lambda>k. truthy (cfg_get r k)) [''capability'', ''risk_level'', ''policy_id'', ''duration_ms''])"

definition apply_report :: "time \<Rightarrow> job_report \<Rightarrow> job_result \<Rightarrow> job_result" where
  "apply_report now rep r =
    (let r1 = r\<lparr>r_status := state_to_status (jr_state rep), r_exit_code := jr_exit_code rep,
                r_error := non_empty (jr_error_message rep), r_stdout := non_empty (jr_output rep),
                r_completed_at := Some now\<rparr>
     in if audit_meta (jr_audit rep) = [] then r1
        else r1\<lparr>r_resources := Some (audit_meta (jr_audit rep))\<rparr>)"

text \<open>The first loop: the rows, and the jobs it touched in order of first touch.\<close>

fun apply_reports :: "time \<Rightarrow> uuid \<Rightarrow> job_report list \<Rightarrow> uuid list \<Rightarrow> db \<Rightarrow> exn + (uuid list \<times> db)" where
  "apply_reports now agent_pk [] touched d = Inr (touched, d)"
| "apply_reports now agent_pk (rep # reps) touched d =
    (if jr_job_id rep = None \<or> jr_job_id rep = Some [] then apply_reports now agent_pk reps touched d
     else (case parse_uuid (PStr (the (jr_job_id rep))) of
        Inl e \<Rightarrow> Inl e
      | Inr job_id \<Rightarrow>
        (case sql_one (\<lambda>r. r_job r = job_id \<and> r_agent r = agent_pk) (results d) of
           Inl e \<Rightarrow> Inl e
         | Inr None \<Rightarrow> apply_reports now agent_pk reps touched d
         | Inr (Some _) \<Rightarrow>
             apply_reports now agent_pk reps (add_new touched job_id)
               (set_result job_id agent_pk (apply_report now rep) d))))"

fun recompute_all :: "time \<Rightarrow> uuid list \<Rightarrow> db \<Rightarrow> exn + db" where
  "recompute_all now [] d = Inr d"
| "recompute_all now (job_id # ids) d =
    (case recompute_job_status now job_id d of Inl e \<Rightarrow> Inl e | Inr d' \<Rightarrow> recompute_all now ids d')"

definition apply_job_results :: "time \<Rightarrow> uuid \<Rightarrow> job_report list \<Rightarrow> db \<Rightarrow> exn + db" where
  "apply_job_results now agent_pk reps d =
    sum_bind (apply_reports now agent_pk reps [] d) (\<lambda>(touched, d1). recompute_all now touched d1)"

section \<open>The timeout sweep and the cancel route\<close>

definition sweep_job :: "time \<Rightarrow> job \<Rightarrow> db \<Rightarrow> db" where
  "sweep_job now j d =
    d\<lparr>jobs := sql_modify j_id (j_id j)
        (\<lambda>x. x\<lparr>j_status := J_TIMEOUT, j_completed_at := or_now now (j_completed_at x)\<rparr>) (jobs d),
      results := sql_update (\<lambda>r. r_job r = j_id j \<and> r_status r \<in> {R_PENDING, R_RUNNING})
        (\<lambda>r. r\<lparr>r_status := R_TIMEOUT, r_completed_at := Some now\<rparr>) (results d)\<rparr>"

fun sync_plans :: "time \<Rightarrow> job list \<Rightarrow> db \<Rightarrow> exn + db" where
  "sync_plans now [] d = Inr d"
| "sync_plans now (j # js) d =
    (case (if j_type j = ''COMPLIANCE_REMEDIATE'' then sync_plan_of_job now (j_id j) d else Inr d) of
       Inl e \<Rightarrow> Inl e
     | Inr d' \<Rightarrow> sync_plans now js d')"

definition stale_jobs :: "time \<Rightarrow> int \<Rightarrow> db \<Rightarrow> job list" where
  "stale_jobs now timeout_minutes d =
    filter (\<lambda>j. job_active (j_status j) \<and> j_created_at j < now - timeout_minutes * 60 * 1000000) (jobs d)"

text \<open>The rows are committed before the plans are synchronised: a failure there keeps them.\<close>

definition timeout_sweep :: "time \<Rightarrow> int \<Rightarrow> db \<Rightarrow> db" where
  "timeout_sweep now timeout_minutes d =
    (let stale = stale_jobs now timeout_minutes d;
         d1 = fold (sweep_job now) stale d
     in if stale = [] then d
        else (case sync_plans now stale d1 of Inl e \<Rightarrow> d1 | Inr d2 \<Rightarrow> d2))"

definition cancel_job :: "time \<Rightarrow> uuid \<Rightarrow> db \<Rightarrow> exn + db" where
  "cancel_job now job_id d =
    (case sql_get j_id (jobs d) job_id of
       None \<Rightarrow> Inl (HTTPException 404 ''Job not found'')
     | Some j \<Rightarrow>
       if j_status j \<notin> {J_QUEUED, J_SCHEDULED}
       then Inl (HTTPException 409 ''Job cannot be cancelled in current state'')
       else sync_plan_of_job now job_id
              (d\<lparr>jobs := sql_modify j_id job_id (\<lambda>x. x\<lparr>j_status := J_CANCELLED\<rparr>) (jobs d)\<rparr>))"

section \<open>The dispatch loop of a heartbeat\<close>

text \<open>\<open>attach\<close> is \<open>maybe_attach_envelope\<close> on the agent's view of the parameters: it raises, holds the job
  (\<open>None\<close>) or returns what to send.\<close>

type_synonym attach = "job \<Rightarrow> exn + config option"

fun sign_batch :: "attach \<Rightarrow> job list \<Rightarrow> uuid list \<Rightarrow> (job \<times> config) list \<Rightarrow> uuid list \<Rightarrow> bool
    \<Rightarrow> exn + (uuid list \<times> (job \<times> config) list \<times> uuid list \<times> bool)" where
  "sign_batch attach [] seen sent held held_in_batch = Inr (seen, sent, held, held_in_batch)"
| "sign_batch attach (j # js) seen sent held held_in_batch =
    (case attach j of
       Inl e \<Rightarrow> Inl e
     | Inr None \<Rightarrow> sign_batch attach js (j_id j # seen) sent (held @ [j_id j]) True
     | Inr (Some p) \<Rightarrow> sign_batch attach js (j_id j # seen) (sent @ [(j, p)]) held held_in_batch)"

lemma sign_batch_seen:
  "sign_batch attach js seen sent held hib = Inr (seen', sent', held', hib') \<Longrightarrow>
     set seen' = set seen \<union> j_id ` set js"
  by (induction js arbitrary: seen sent held hib) (auto split: sum.splits option.splits)

lemma get_pending_jobs_sound:
  "j \<in> set (get_pending_jobs now agent_id exclude limit d) \<Longrightarrow>
     j \<in> set (jobs d) \<and> (\<exists>r \<in> set (results d). pending_for now agent_id exclude j r)"
  unfolding get_pending_jobs_def by (drule in_set_takeD) auto

function fill_window :: "time \<Rightarrow> uuid \<Rightarrow> attach \<Rightarrow> db \<Rightarrow> uuid list \<Rightarrow> (job \<times> config) list \<Rightarrow> uuid list
    \<Rightarrow> exn + ((job \<times> config) list \<times> uuid list)" where
  "fill_window now agent_id attach d seen sent held =
    (if length sent < PENDING_JOBS_PER_HEARTBEAT then
       (let batch = get_pending_jobs now agent_id (set seen) (PENDING_JOBS_PER_HEARTBEAT - length sent) d in
        if batch = [] then Inr (sent, held)
        else (case sign_batch attach batch seen sent held False of
            Inl e \<Rightarrow> Inl e
          | Inr (seen', sent', held', held_in_batch) \<Rightarrow>
              if \<not> held_in_batch then Inr (sent', held')
              else fill_window now agent_id attach d seen' sent' held'))
     else Inr (sent, held))"
  by pat_completeness auto

termination
proof (relation "measure (\<lambda>(now, agent_id, attach, d, seen, sent, held). card (j_id ` set (jobs d) - set seen))")
  fix now :: time and agent_id :: uuid and attach :: attach and d :: db
  fix seen :: "uuid list" and sent :: "(job \<times> config) list" and held :: "uuid list"
  fix batch and r seen' p2 sent' p3 held' hib
  assume batch: "batch = get_pending_jobs now agent_id (set seen) (PENDING_JOBS_PER_HEARTBEAT - length sent) d"
    and ne: "batch \<noteq> []"
    and sign: "sign_batch attach batch seen sent held False = Inr r"
    and r: "(seen', p2) = r" "(sent', p3) = p2" "(held', hib) = p3"
  from r sign have "sign_batch attach batch seen sent held False = Inr (seen', sent', held', hib)" by simp
  from sign_batch_seen [OF this] have seen': "set seen' = set seen \<union> j_id ` set batch" .
  have hd: "hd batch \<in> set batch" using ne by simp
  then have "hd batch \<in> set (jobs d) \<and> (\<exists>r \<in> set (results d). pending_for now agent_id (set seen) (hd batch) r)"
    unfolding batch by (rule get_pending_jobs_sound)
  then have "j_id (hd batch) \<in> j_id ` set (jobs d) - set seen" by (auto simp: pending_for_def)
  moreover have "j_id (hd batch) \<in> set seen'" using seen' hd by simp
  ultimately have "j_id ` set (jobs d) - set seen' \<subset> j_id ` set (jobs d) - set seen" using seen' by blast
  then have "card (j_id ` set (jobs d) - set seen') < card (j_id ` set (jobs d) - set seen)"
    by (intro psubset_card_mono) simp_all
  then show "((now, agent_id, attach, d, seen', sent', held'), now, agent_id, attach, d, seen, sent, held)
      \<in> measure (\<lambda>(now, agent_id, attach, d, seen, sent, held). card (j_id ` set (jobs d) - set seen))"
    by simp
qed simp

declare fill_window.simps [simp del]

text \<open>\<open>_select_approval_claim\<close>: the newest unconsumed claim bound to the agent, else the newest unbound one.\<close>

definition newest_claim :: "(approval_claim \<Rightarrow> bool) \<Rightarrow> db \<Rightarrow> approval_claim option" where
  "newest_claim p d =
    (case sort_key (\<lambda>c. - ac_created_at c) (filter p (claims d)) of [] \<Rightarrow> None | c # _ \<Rightarrow> Some c)"

definition select_approval_claim :: "uuid \<Rightarrow> string \<Rightarrow> db \<Rightarrow> approval_claim option" where
  "select_approval_claim job_id wire_agent_id d =
    (case newest_claim (\<lambda>c. ac_job c = job_id \<and> ac_consumed_at c = None \<and> ac_target c = Some wire_agent_id) d of
       Some c \<Rightarrow> Some c
     | None \<Rightarrow> newest_claim (\<lambda>c. ac_job c = job_id \<and> ac_consumed_at c = None \<and> ac_target c = None) d)"

definition with_claim :: "agent \<Rightarrow> db \<Rightarrow> job \<times> config \<Rightarrow> job \<times> config" where
  "with_claim ag d jp =
    (case jp of (j, p) \<Rightarrow>
       if \<not> j_requires_approval j then (j, p)
       else (case select_approval_claim (j_id j) (a_agent_id ag) d of
          None \<Rightarrow> (j, p)
        | Some row \<Rightarrow> (j, dict_put p (''_approval_claim'', PDict (ac_claim row)))))"

text \<open>The job part of one heartbeat: what the agent is sent.\<close>

definition dispatch_to_agent :: "time \<Rightarrow> attach \<Rightarrow> agent \<Rightarrow> db \<Rightarrow> exn + ((job \<times> config) list \<times> db)" where
  "dispatch_to_agent now attach ag d =
    sum_bind (fill_window now (a_id ag) attach d [] [] []) (\<lambda>(sent, held).
      (let d1 = mark_held now (a_id ag) held d;
           signed = map (with_claim ag d1) sent
       in case mark_dispatched now (a_id ag) (map fst sent) d1 of
            (claimed, d2) \<Rightarrow>
              Inr (map (\<lambda>j. (j, the (map_of (rev (map (\<lambda>jp. (j_id (fst jp), snd jp)) signed)) (j_id j)))) claimed, d2)))"

text \<open>The envelope step with the agent's view of the parameters.\<close>

definition attach_envelope :: "bool \<Rightarrow> signer \<Rightarrow> agent \<Rightarrow> attach" where
  "attach_envelope signing_required get_signer ag j =
    sum_bind (parameters_for_agent j (a_id ag)) (\<lambda>params.
      Inr (maybe_attach_envelope signing_required get_signer (j_id j) (j_type j)
             (case j_policy_id j of None \<Rightarrow> [] | Some p \<Rightarrow> p) params (a_agent_version ag) (a_agent_id ag)))"

end
