(* ===== verification/JobLaws.thy ===== *)
theory JobLaws
  imports Jobs
begin

text \<open>
  What the job engine guarantees. First the frame: which operations leave the identity of jobs and
  results alone. Then the operations one by one (the aggregated status, creation, claiming, the
  dispatch window, the sweep), and at the end the engine as a step relation with what holds in every
  state it reaches: two pairs of eyes on every gated job, and cancellation is final.
\<close>

named_theorems frame "what an operation leaves unchanged"

section \<open>Frames\<close>

text \<open>Everything of a job but its status and its times.\<close>

definition job_core :: "job \<Rightarrow> job" where
  "job_core j = j\<lparr>j_status := J_QUEUED, j_started_at := None, j_completed_at := None\<rparr>"

definition result_core :: "job_result \<Rightarrow> uuid \<times> uuid" where
  "result_core r = (r_job r, r_agent r)"

lemma job_core_simps [simp]:
  "job_core (j\<lparr>j_status := s\<rparr>) = job_core j"
  "job_core (j\<lparr>j_started_at := t\<rparr>) = job_core j"
  "job_core (j\<lparr>j_completed_at := t\<rparr>) = job_core j"
  by (simp_all add: job_core_def)

lemma job_core_fields:
  assumes "job_core j = job_core j'"
  shows "j_id j = j_id j' \<and> j_type j = j_type j' \<and> j_params j = j_params j'
    \<and> j_requires_approval j = j_requires_approval j' \<and> j_approved_at j = j_approved_at j'
    \<and> j_approved_by j = j_approved_by j' \<and> j_created_by j = j_created_by j'
    \<and> j_created_by_actor j = j_created_by_actor j' \<and> j_dedup_key j = j_dedup_key j'
    \<and> j_created_at j = j_created_at j' \<and> j_targets j = j_targets j'"
proof -
  have "f (job_core j) = f (job_core j')" for f :: "job \<Rightarrow> 'a" using assms by simp
  from this [of j_id] this [of j_type] this [of j_params] show ?thesis
    using assms by (cases j; cases j') (simp add: job_core_def)
qed

text \<open>A change of the job table that keeps every core, and never revives a cancelled job.\<close>

definition job_evolves :: "job \<Rightarrow> job \<Rightarrow> bool" where
  "job_evolves j j' =
    (job_core j' = job_core j \<and> (j_status j = J_CANCELLED \<longrightarrow> j_status j' = J_CANCELLED))"

definition jobs_evolve :: "db \<Rightarrow> db \<Rightarrow> bool" where
  "jobs_evolve d d' = list_all2 job_evolves (jobs d) (jobs d')"

lemma job_evolves_refl [simp]: "job_evolves j j"
  by (simp add: job_evolves_def)

definition results_keep :: "db \<Rightarrow> db \<Rightarrow> bool" where
  "results_keep d d' = (map result_core (results d') = map result_core (results d))"

lemma jobs_evolve_refl [simp]: "jobs_evolve d d"
  by (simp add: jobs_evolve_def list_all2_refl)

lemma jobs_evolve_trans: "jobs_evolve d1 d2 \<Longrightarrow> jobs_evolve d2 d3 \<Longrightarrow> jobs_evolve d1 d3"
  unfolding jobs_evolve_def
  by (rule list_all2_trans [of job_evolves job_evolves job_evolves]) (auto simp: job_evolves_def)

lemma jobs_evolve_same_jobs: "jobs d' = jobs d \<Longrightarrow> jobs_evolve d d'"
  by (simp add: jobs_evolve_def list_all2_refl)

lemma jobs_evolve_update:
  assumes "jobs d' = sql_update p f (jobs d)"
    and "\<And>j. p j \<Longrightarrow> job_evolves j (f j)"
  shows "jobs_evolve d d'"
  unfolding jobs_evolve_def assms(1) sql_update_def using assms(2) by (auto simp: list_all2_conv_all_nth)

lemma results_keep_refl [simp]: "results_keep d d"
  by (simp add: results_keep_def)

lemma results_keep_trans: "results_keep d1 d2 \<Longrightarrow> results_keep d2 d3 \<Longrightarrow> results_keep d1 d3"
  by (simp add: results_keep_def)

lemma revert_drift_frame [frame]:
  "jobs (revert_drift_to_open now plan_id d) = jobs d" "results (revert_drift_to_open now plan_id d) = results d"
  "agents (revert_drift_to_open now plan_id d) = agents d" "plans (revert_drift_to_open now plan_id d) = plans d"
  by (simp_all add: revert_drift_to_open_def Let_def)

lemma set_plan_status_frame [frame]:
  "jobs (set_plan_status plan_id s d) = jobs d" "results (set_plan_status plan_id s d) = results d"
  "agents (set_plan_status plan_id s d) = agents d" "drifts (set_plan_status plan_id s d) = drifts d"
  by (simp_all add: set_plan_status_def)

lemma sync_remediation_plan_frame:
  "sync_remediation_plan now j d = Inr d' \<Longrightarrow> jobs d' = jobs d \<and> results d' = results d \<and> agents d' = agents d"
  by (auto simp: sync_remediation_plan_def Let_def sum_bind_Inr_iff frame split: if_splits list.splits)

lemma sync_plan_of_job_frame:
  "sync_plan_of_job now i d = Inr d' \<Longrightarrow> jobs d' = jobs d \<and> results d' = results d \<and> agents d' = agents d"
  by (auto simp: sync_plan_of_job_def dest: sync_remediation_plan_frame split: option.splits if_splits)

lemma sync_plans_frame:
  "sync_plans now js d = Inr d' \<Longrightarrow> jobs d' = jobs d \<and> results d' = results d \<and> agents d' = agents d"
  by (induction js arbitrary: d) (auto dest!: sync_plan_of_job_frame split: sum.splits if_splits)

lemma sync_installation_frame [frame]:
  "jobs (sync_installation now p r d) = jobs d" "results (sync_installation now p r d) = results d"
  "agents (sync_installation now p r d) = agents d"
  by (simp_all add: sync_installation_def split: option.split)

lemma fold_sync_installation_frame [frame]:
  "jobs (fold (sync_installation now p) rs d) = jobs d" "results (fold (sync_installation now p) rs d) = results d"
  "agents (fold (sync_installation now p) rs d) = agents d"
  by (induction rs arbitrary: d) (simp_all add: frame)

lemma sync_plugins_frame:
  "sync_plugin_installations now j rs d = Inr d' \<Longrightarrow> jobs d' = jobs d \<and> results d' = results d \<and> agents d' = agents d"
  by (auto simp: sync_plugin_installations_def Let_def sum_bind_Inr_iff frame split: option.splits if_splits)

lemma job_core_refresh [simp]: "job_core (refresh_status now ss j) = job_core j"
  by (simp add: refresh_status_def)

lemma j_id_refresh [simp]: "j_id (refresh_status now ss j) = j_id j"
  by (simp add: refresh_status_def)

text \<open>After a recomputation only the job's own row may have changed, by \<open>refresh_status\<close>.\<close>

lemma recompute_jobs_live:
  assumes "recompute_job_status now i d = Inr d'" and rows: "job_results d i \<noteq> []"
    and j: "sql_get j_id (jobs d) i = Some j" and live: "j_status j \<noteq> J_CANCELLED"
  shows "jobs d' = sql_modify j_id i (refresh_status now (map r_status (job_results d i))) (jobs d)
    \<and> results d' = results d \<and> agents d' = agents d"
proof -
  let ?ss = "map r_status (job_results d i)"
  let ?d1 = "d\<lparr>jobs := sql_modify j_id i (refresh_status now ?ss) (jobs d)\<rparr>"
  from assms obtain d2 where
    d2: "(if j_type (refresh_status now ?ss j) = ''PLUGIN_INSTALL''
          then sync_plugin_installations now (refresh_status now ?ss j) (job_results d i) ?d1 else Inr ?d1) = Inr d2"
    and d': "(if j_type (refresh_status now ?ss j) = ''COMPLIANCE_REMEDIATE''
          then sync_remediation_plan now (refresh_status now ?ss j) d2 else Inr d2) = Inr d'"
    by (auto simp: recompute_job_status_def Let_def sum_bind_Inr_iff)
  from d2 have "jobs d2 = jobs ?d1 \<and> results d2 = results d \<and> agents d2 = agents d"
    by (auto dest!: sync_plugins_frame split: if_splits)
  with d' show ?thesis
    by (auto dest!: sync_remediation_plan_frame split: if_splits)
qed

lemma recompute_jobs:
  assumes "recompute_job_status now i d = Inr d'"
  shows "(jobs d' = jobs d \<or>
      (\<exists>j. sql_get j_id (jobs d) i = Some j \<and> j_status j \<noteq> J_CANCELLED
         \<and> jobs d' = sql_modify j_id i (refresh_status now (map r_status (job_results d i))) (jobs d)))
    \<and> results d' = results d \<and> agents d' = agents d"
proof (cases "job_results d i = [] \<or> sql_get j_id (jobs d) i = None
    \<or> (\<exists>j. sql_get j_id (jobs d) i = Some j \<and> j_status j = J_CANCELLED)")
  case True
  with assms have "d' = d" by (auto simp: recompute_job_status_def Let_def split: if_splits)
  then show ?thesis by simp
next
  case False
  then obtain j where "job_results d i \<noteq> []" and "sql_get j_id (jobs d) i = Some j"
    and "j_status j \<noteq> J_CANCELLED"
    by auto
  with recompute_jobs_live [OF assms this] show ?thesis by auto
qed

definition distinct_jobs :: "db \<Rightarrow> bool" where
  "distinct_jobs d = distinct (map j_id (jobs d))"

lemma recompute_evolves:
  assumes "recompute_job_status now i d = Inr d'" and "distinct_jobs d"
  shows "jobs_evolve d d' \<and> results d' = results d \<and> agents d' = agents d"
proof -
  from recompute_jobs [OF assms(1)] consider "jobs d' = jobs d"
    | j where "sql_get j_id (jobs d) i = Some j" "j_status j \<noteq> J_CANCELLED"
        "jobs d' = sql_modify j_id i (refresh_status now (map r_status (job_results d i))) (jobs d)"
    by blast
  then have "jobs_evolve d d'"
  proof cases
    case 1
    then show ?thesis by (rule jobs_evolve_same_jobs)
  next
    case 2
    have only: "x = j" if "x \<in> set (jobs d)" "j_id x = i" for x
      using that 2(1) assms(2) sql_get_distinct [of j_id "jobs d" x] by (simp add: distinct_jobs_def)
    have live: "j_status x \<noteq> J_CANCELLED" if "x \<in> set (jobs d)" "j_id x = i" for x
      using only [OF that] 2(2) by simp
    show ?thesis
      unfolding jobs_evolve_def 2(3) sql_modify_def sql_update_def
      using live by (auto simp: list_all2_conv_all_nth job_evolves_def)
  qed
  with recompute_jobs [OF assms(1)] show ?thesis by blast
qed

lemma jobs_evolve_distinct: "jobs_evolve d d' \<Longrightarrow> map j_id (jobs d') = map j_id (jobs d)"
  unfolding jobs_evolve_def
  by (induction rule: list_all2_induct) (auto simp: job_evolves_def dest: job_core_fields)

lemma recompute_all_evolves:
  "recompute_all now ids d = Inr d' \<Longrightarrow> distinct_jobs d \<Longrightarrow>
     jobs_evolve d d' \<and> results d' = results d \<and> agents d' = agents d"
proof (induction ids arbitrary: d)
  case Nil
  then show ?case by simp
next
  case (Cons i ids)
  then obtain d1 where d1: "recompute_job_status now i d = Inr d1" and rest: "recompute_all now ids d1 = Inr d'"
    by (auto split: sum.splits)
  from recompute_evolves [OF d1 Cons.prems(2)] have one: "jobs_evolve d d1 \<and> results d1 = results d \<and> agents d1 = agents d" .
  then have "distinct_jobs d1" using Cons.prems(2) jobs_evolve_distinct [of d d1] by (simp add: distinct_jobs_def)
  with Cons.IH [OF rest] one show ?case by (auto intro: jobs_evolve_trans)
qed

lemma set_result_frame [frame]:
  "jobs (set_result i a f d) = jobs d" "agents (set_result i a f d) = agents d"
  by (simp_all add: set_result_def)

lemma set_result_keep:
  "(\<And>r. result_core (f r) = result_core r) \<Longrightarrow> results_keep d (set_result i a f d)"
  by (simp add: results_keep_def set_result_def map_key_sql_update)

lemma apply_report_core [simp]: "result_core (apply_report now rep r) = result_core r"
  by (simp add: apply_report_def result_core_def Let_def)

lemma apply_reports_frame:
  "apply_reports now a reps touched d = Inr (touched', d') \<Longrightarrow>
     jobs d' = jobs d \<and> agents d' = agents d \<and> results_keep d d'"
proof (induction reps arbitrary: touched d)
  case Nil
  then show ?case by simp
next
  case (Cons rep reps)
  consider "apply_reports now a reps touched d = Inr (touched', d')"
    | i where "apply_reports now a reps (add_new touched i) (set_result i a (apply_report now rep) d) = Inr (touched', d')"
    using Cons.prems by (auto split: if_splits sum.splits option.splits)
  then show ?case
  proof cases
    case 1
    then show ?thesis by (rule Cons.IH)
  next
    case 2
    from Cons.IH [OF this] have "results_keep (set_result i a (apply_report now rep) d) d'" by simp
    moreover have "results_keep d (set_result i a (apply_report now rep) d)" by (rule set_result_keep) simp
    ultimately have "results_keep d d'" by (rule results_keep_trans [rotated])
    with Cons.IH [OF 2] show ?thesis by (simp add: frame)
  qed
qed

lemma jobs_evolve_cong: "jobs_evolve d1 d2 \<Longrightarrow> jobs d1 = jobs d1' \<Longrightarrow> jobs_evolve d1' d2"
  by (simp add: jobs_evolve_def)

lemma apply_job_results_evolves:
  assumes "apply_job_results now a reps d = Inr d'" and "distinct_jobs d"
  shows "jobs_evolve d d' \<and> results_keep d d' \<and> agents d' = agents d"
proof -
  from assms(1) obtain touched d1 where d1: "apply_reports now a reps [] d = Inr (touched, d1)"
    and d': "recompute_all now touched d1 = Inr d'"
    by (auto simp: apply_job_results_def sum_bind_Inr_iff)
  note f = apply_reports_frame [OF d1]
  with assms(2) have "distinct_jobs d1" by (simp add: distinct_jobs_def)
  from recompute_all_evolves [OF d' this] f show ?thesis
    by (auto simp: results_keep_def intro: jobs_evolve_cong)
qed

lemma complete_job_evolves:
  assumes "complete_job now i a code out err ms d = Inr d'" and "distinct_jobs d"
  shows "jobs_evolve d d' \<and> results_keep d d' \<and> agents d' = agents d"
proof -
  let ?f = "\<lambda>r. r\<lparr>r_status := (if code = 0 then R_COMPLETED else R_FAILED), r_exit_code := Some code,
      r_stdout := Some (take 50000 out), r_stderr := Some (take 10000 err),
      r_duration := Some (ms div 1000), r_completed_at := Some now\<rparr>"
  from assms(1) have d': "recompute_job_status now i (set_result i a ?f d) = Inr d'"
    by (auto simp: complete_job_def sum_bind_Inr_iff split: option.splits)
  have f: "result_core (?f r) = result_core r" for r by (simp add: result_core_def)
  have "distinct_jobs (set_result i a ?f d)" using assms(2) by (simp add: distinct_jobs_def frame)
  from recompute_evolves [OF d' this] set_result_keep [OF f, where i = i and a = a and d = d] show ?thesis
    by (auto simp: results_keep_def frame intro: jobs_evolve_cong)
qed

lemma mark_held_frame [frame]:
  "jobs (mark_held now a ids d) = jobs d" "agents (mark_held now a ids d) = agents d"
  "claims (mark_held now a ids d) = claims d"
  by (simp_all add: mark_held_def)

lemma mark_held_keep: "results_keep d (mark_held now a ids d)"
  by (simp add: results_keep_def mark_held_def map_key_sql_update result_core_def)

lemma mark_dispatched_evolves:
  assumes "mark_dispatched now a js d = (sent, d')"
  shows "jobs_evolve d d' \<and> results_keep d d' \<and> agents d' = agents d"
proof (cases "d' = d")
  case False
  with assms have "\<exists>p. jobs d' = sql_update (\<lambda>j. p j \<and> j_status j \<in> {J_QUEUED, J_SCHEDULED})
        (\<lambda>j. j\<lparr>j_status := J_RUNNING, j_started_at := Some now\<rparr>) (jobs d)"
    and res: "\<exists>p. results d' = sql_update p
        (\<lambda>r. r\<lparr>r_status := R_RUNNING, r_started_at := Some now, r_held_until := None\<rparr>) (results d)"
    and "agents d' = agents d"
    by (auto simp: mark_dispatched_def Let_def split: if_splits)
  moreover from res have "results_keep d d'"
    by (auto simp: results_keep_def map_key_sql_update result_core_def)
  ultimately show ?thesis
    by (auto intro!: jobs_evolve_update simp: job_evolves_def)
qed simp

lemma dispatch_to_agentE:
  assumes "dispatch_to_agent now attach ag d = Inr (sent, d')"
  obtains ws held claimed where "fill_window now (a_id ag) attach d [] [] [] = Inr (ws, held)"
    and "mark_dispatched now (a_id ag) (map fst ws) (mark_held now (a_id ag) held d) = (claimed, d')"
    and "map fst sent = claimed"
proof -
  from assms obtain ws held where w: "fill_window now (a_id ag) attach d [] [] [] = Inr (ws, held)"
    by (auto simp: dispatch_to_agent_def sum_bind_Inr_iff)
  obtain claimed d2 where m: "mark_dispatched now (a_id ag) (map fst ws) (mark_held now (a_id ag) held d) = (claimed, d2)"
    by (cases "mark_dispatched now (a_id ag) (map fst ws) (mark_held now (a_id ag) held d)")
  from assms w m have "d2 = d'" and "map fst sent = claimed"
    by (auto simp: dispatch_to_agent_def Let_def comp_def)
  with that w m show ?thesis by blast
qed

lemma dispatch_evolves:
  assumes "dispatch_to_agent now attach ag d = Inr (sent, d')"
  shows "jobs_evolve d d' \<and> results_keep d d' \<and> agents d' = agents d"
proof -
  from assms obtain ws held claimed where "fill_window now (a_id ag) attach d [] [] [] = Inr (ws, held)"
    and m: "mark_dispatched now (a_id ag) (map fst ws) (mark_held now (a_id ag) held d) = (claimed, d')"
    and "map fst sent = claimed"
    by (rule dispatch_to_agentE)
  from mark_dispatched_evolves [OF m] mark_held_keep [of d now "a_id ag" held] show ?thesis
    by (auto simp: results_keep_def frame intro: jobs_evolve_cong)
qed

lemma sweep_job_evolves:
  assumes "\<forall>x \<in> set (jobs d). j_id x = j_id j \<longrightarrow> j_status x \<noteq> J_CANCELLED"
  shows "jobs_evolve d (sweep_job now j d) \<and> results_keep d (sweep_job now j d)
    \<and> agents (sweep_job now j d) = agents d"
proof -
  have "jobs_evolve d (sweep_job now j d)"
    unfolding jobs_evolve_def sweep_job_def using assms
    by (auto simp: sql_modify_def sql_update_def list_all2_conv_all_nth job_evolves_def)
  moreover have "results_keep d (sweep_job now j d)"
    by (simp add: results_keep_def sweep_job_def map_key_sql_update result_core_def)
  ultimately show ?thesis by (simp add: sweep_job_def)
qed

text \<open>Sweeping a list of jobs: those whose id is in the list time out, the others stay.\<close>

lemma fold_sweep_jobs:
  "jobs (fold (sweep_job now) js d) =
     map (\<lambda>x. if j_id x \<in> j_id ` set js
              then x\<lparr>j_status := J_TIMEOUT, j_completed_at := or_now now (j_completed_at x)\<rparr> else x) (jobs d)"
proof (induction js arbitrary: d)
  case Nil
  then show ?case by simp
next
  case (Cons j js)
  have "or_now now (or_now now t) = or_now now t" for t by (cases t) (simp_all add: or_now_def)
  with Cons show ?case
    by (auto simp: sweep_job_def sql_modify_def sql_update_def)
qed

lemma fold_sweep_rest:
  "agents (fold (sweep_job now) js d) = agents d \<and> results_keep d (fold (sweep_job now) js d)"
proof (induction js arbitrary: d)
  case (Cons j js)
  have "results_keep d (sweep_job now j d)"
    by (simp add: results_keep_def sweep_job_def map_key_sql_update result_core_def)
  with Cons show ?case by (auto simp: sweep_job_def intro: results_keep_trans)
qed simp

lemma timeout_sweep_jobs:
  "jobs (timeout_sweep now m d) = jobs (fold (sweep_job now) (stale_jobs now m d) d)
   \<and> results (timeout_sweep now m d) = results (fold (sweep_job now) (stale_jobs now m d) d)
   \<and> agents (timeout_sweep now m d) = agents d"
  using fold_sweep_rest [of now "stale_jobs now m d" d]
  by (auto simp: timeout_sweep_def Let_def dest: sync_plans_frame split: sum.splits)

lemma timeout_sweep_evolves:
  assumes "distinct_jobs d"
  shows "jobs_evolve d (timeout_sweep now m d) \<and> results_keep d (timeout_sweep now m d)
    \<and> agents (timeout_sweep now m d) = agents d"
proof -
  have live: "j_status x \<noteq> J_CANCELLED"
    if "x \<in> set (jobs d)" "j_id x \<in> j_id ` set (stale_jobs now m d)" for x
  proof -
    from that(2) obtain y where y: "y \<in> set (stale_jobs now m d)" "j_id y = j_id x" by auto
    then have "y \<in> set (jobs d)" by (simp add: stale_jobs_def)
    with that(1) y(2) assms have "y = x"
      by (simp add: distinct_jobs_def distinct_map inj_on_def)
    with y(1) show ?thesis by (auto simp: stale_jobs_def job_active_def)
  qed
  have "jobs_evolve d (timeout_sweep now m d)"
    unfolding jobs_evolve_def timeout_sweep_jobs [THEN conjunct1] fold_sweep_jobs
    using live by (auto simp: list_all2_conv_all_nth job_evolves_def)
  then show ?thesis
    using timeout_sweep_jobs [of now m d] fold_sweep_rest [of now "stale_jobs now m d" d]
    by (simp add: results_keep_def)
qed

lemma cancel_job_evolves:
  assumes "cancel_job now i d = Inr d'"
  shows "jobs_evolve d d' \<and> results d' = results d \<and> agents d' = agents d"
proof -
  from assms have "sync_plan_of_job now i
      (d\<lparr>jobs := sql_modify j_id i (\<lambda>x. x\<lparr>j_status := J_CANCELLED\<rparr>) (jobs d)\<rparr>) = Inr d'"
    by (auto simp: cancel_job_def split: option.splits if_splits)
  from sync_plan_of_job_frame [OF this]
  have jobs: "jobs d' = sql_update (\<lambda>x. j_id x = i) (\<lambda>x. x\<lparr>j_status := J_CANCELLED\<rparr>) (jobs d)"
    and rest: "results d' = results d" "agents d' = agents d"
    by (simp_all add: sql_modify_def)
  have "jobs_evolve d d'" using jobs by (rule jobs_evolve_update) (simp add: job_evolves_def)
  with rest show ?thesis by simp
qed

section \<open>The dispatch window\<close>

definition sendable :: "time \<Rightarrow> uuid \<Rightarrow> attach \<Rightarrow> db \<Rightarrow> job \<times> config \<Rightarrow> bool" where
  "sendable now a attach d jp =
    (fst jp \<in> set (jobs d) \<and> (\<exists>r \<in> set (results d). pending_for now a {} (fst jp) r)
     \<and> attach (fst jp) = Inr (Some (snd jp)))"

definition holdable :: "attach \<Rightarrow> db \<Rightarrow> uuid \<Rightarrow> bool" where
  "holdable attach d i = (\<exists>j \<in> set (jobs d). j_id j = i \<and> attach j = Inr None)"

lemma pending_for_weaken: "pending_for now a ex j r \<Longrightarrow> pending_for now a {} j r"
  by (simp add: pending_for_def)

lemma sign_batch_content:
  "sign_batch attach js seen sent held hib = Inr (seen', sent', held', hib') \<Longrightarrow>
     \<exists>new newh. sent' = sent @ new \<and> held' = held @ newh \<and> length new \<le> length js
       \<and> (\<forall>jp \<in> set new. fst jp \<in> set js \<and> attach (fst jp) = Inr (Some (snd jp)))
       \<and> (\<forall>i \<in> set newh. \<exists>j \<in> set js. j_id j = i \<and> attach j = Inr None)"
proof (induction js arbitrary: seen sent held hib)
  case Nil
  then show ?case by simp
next
  case (Cons j js)
  consider "attach j = Inr None" "sign_batch attach js (j_id j # seen) sent (held @ [j_id j]) True = Inr (seen', sent', held', hib')"
    | p where "attach j = Inr (Some p)" "sign_batch attach js (j_id j # seen) (sent @ [(j, p)]) held hib = Inr (seen', sent', held', hib')"
    using Cons.prems by (auto split: sum.splits option.splits)
  then show ?case
  proof cases
    case 1
    from Cons.IH [OF 1(2)] obtain new newh where "sent' = sent @ new" "held' = held @ (j_id j # newh)"
      "length new \<le> length js" "\<forall>jp \<in> set new. fst jp \<in> set js \<and> attach (fst jp) = Inr (Some (snd jp))"
      "\<forall>i \<in> set newh. \<exists>j \<in> set js. j_id j = i \<and> attach j = Inr None"
      by auto
    with 1(1) show ?thesis by (intro exI [of _ new] exI [of _ "j_id j # newh"]) auto
  next
    case 2
    from Cons.IH [OF 2(2)] obtain new newh where "sent' = sent @ ((j, p) # new)" "held' = held @ newh"
      "length new \<le> length js" "\<forall>jp \<in> set new. fst jp \<in> set js \<and> attach (fst jp) = Inr (Some (snd jp))"
      "\<forall>i \<in> set newh. \<exists>j \<in> set js. j_id j = i \<and> attach j = Inr None"
      by auto
    with 2(1) show ?thesis by (intro exI [of _ "(j, p) # new"] exI [of _ newh]) auto
  qed
qed

lemma get_pending_jobs_length: "length (get_pending_jobs now a ex limit d) \<le> limit"
  by (simp add: get_pending_jobs_def)

lemma fill_window_content:
  "fill_window now a attach d seen sent held = Inr (sent', held') \<Longrightarrow>
     length sent \<le> PENDING_JOBS_PER_HEARTBEAT \<Longrightarrow>
     (\<forall>jp \<in> set sent. sendable now a attach d jp) \<Longrightarrow> (\<forall>i \<in> set held. holdable attach d i) \<Longrightarrow>
     length sent' \<le> PENDING_JOBS_PER_HEARTBEAT \<and> (\<forall>jp \<in> set sent'. sendable now a attach d jp)
       \<and> (\<forall>i \<in> set held'. holdable attach d i)"
proof (induction now a attach d seen sent held rule: fill_window.induct)
  case (1 now a attach d seen sent held)
  let ?batch = "get_pending_jobs now a (set seen) (PENDING_JOBS_PER_HEARTBEAT - length sent) d"
  show ?case
  proof (cases "length sent < PENDING_JOBS_PER_HEARTBEAT \<and> ?batch \<noteq> []")
    case False
    with "1.prems" show ?thesis by (subst (asm) fill_window.simps) (auto simp: Let_def split: if_splits)
  next
    case True
    with "1.prems"(1) obtain seen1 sent1 held1 hib where
      batch: "sign_batch attach ?batch seen sent held False = Inr (seen1, sent1, held1, hib)"
      and rest: "if \<not> hib then (sent', held') = (sent1, held1)
          else fill_window now a attach d seen1 sent1 held1 = Inr (sent', held')"
      by (subst (asm) fill_window.simps) (auto simp: Let_def split: sum.splits if_splits)
    from sign_batch_content [OF batch] obtain new newh where
      new: "sent1 = sent @ new" "held1 = held @ newh" "length new \<le> length ?batch"
      "\<forall>jp \<in> set new. fst jp \<in> set ?batch \<and> attach (fst jp) = Inr (Some (snd jp))"
      "\<forall>i \<in> set newh. \<exists>j \<in> set ?batch. j_id j = i \<and> attach j = Inr None"
      by blast
    have len: "length sent1 \<le> PENDING_JOBS_PER_HEARTBEAT"
      using new(3) True get_pending_jobs_length [of now a "set seen" "PENDING_JOBS_PER_HEARTBEAT - length sent" d]
      unfolding new(1) length_append by arith
    have snd: "\<forall>jp \<in> set sent1. sendable now a attach d jp"
      using new(1,4) "1.prems"(3) get_pending_jobs_sound pending_for_weaken
      by (fastforce simp: sendable_def)
    have hld: "\<forall>i \<in> set held1. holdable attach d i"
      using new(2,5) "1.prems"(4) get_pending_jobs_sound by (fastforce simp: holdable_def)
    show ?thesis
    proof (cases hib)
      case False
      with rest len snd hld show ?thesis by simp
    next
      case True': True
      with rest have "fill_window now a attach d seen1 sent1 held1 = Inr (sent', held')" by simp
      from "1.IH" [OF _ refl _ batch refl refl refl _ this len snd hld] True True' show ?thesis by blast
    qed
  qed
qed

section \<open>Creating and approving\<close>

lemma create_job_Inr:
  assumes "create_job sha256 new_id now args d = Inr (j, d')"
  shows "j_id j = new_id \<and> j_type j = n_type args \<and> j_status j = J_QUEUED \<and> j_approved_at j = None
    \<and> j_approved_by j = None \<and> j_created_by j = n_created_by args \<and> j_created_by_actor j = n_created_by_actor args
    \<and> j_dedup_key j = compute_dedup_key sha256 (n_type args) (n_targets args) (n_params args)
    \<and> j_requires_approval j = (n_requires_approval args
        \<or> (n_type args \<in> set FORCE_APPROVAL_JOB_TYPES \<and> \<not> n_skip_approval_gate args))
    \<and> (\<exists>aids. target_agent_uuids (n_targets args) = Inr aids \<and> set aids \<subseteq> a_id ` set (agents d)
        \<and> d' = d\<lparr>jobs := jobs d @ [j], results := results d @ map (pending_result new_id) aids\<rparr>)
    \<and> assert_no_smuggled_command (n_type args) (n_params args) = None
    \<and> assert_can_create (n_actor_role args) (n_type args) (n_params args) = None
    \<and> (\<forall>x \<in> set (jobs d). j_dedup_key x = j_dedup_key j \<longrightarrow> \<not> job_active (j_status x))
    \<and> j_params j = n_params args \<and> j_created_at j = now"
  using assms
  by (auto simp: create_job_def Let_def sum_bind_Inr_iff sql_one_None_iff list_all_iff
      split: option.splits if_splits)

lemma issue_claims_frame [frame]:
  "jobs (issue_claims now sign j caps by aids d) = jobs d"
  "results (issue_claims now sign j caps by aids d) = results d"
  "agents (issue_claims now sign j caps by aids d) = agents d"
  by (induction aids arbitrary: d) (auto simp: Let_def split: sum.split option.split)

lemma approve_job_Inr:
  assumes "approve_job signer now i approved_by actor d = Inr d'"
  shows "\<exists>j. sql_get j_id (jobs d) i = Some j \<and> j_requires_approval j \<and> j_approved_at j = None
    \<and> (actor \<noteq> None \<and> actor \<noteq> Some [] \<longrightarrow> j_created_by_actor j \<noteq> actor)
    \<and> (j_created_by j \<noteq> None \<longrightarrow> j_created_by j \<noteq> approved_by)
    \<and> jobs d' = sql_modify j_id i (\<lambda>x. x\<lparr>j_approved_by := approved_by, j_approved_at := Some now\<rparr>) (jobs d)
    \<and> results d' = results d \<and> agents d' = agents d"
  using assms
  by (auto simp: approve_job_def Let_def frame split: option.splits if_splits sum.splits)

section \<open>The engine as a whole\<close>

text \<open>A step of the engine, with a log of the approvals: job, approving user, approving identity. \<open>skip\<close>
  says whether creators may ask for the gate to be skipped (the workflow engine does).\<close>

type_synonym approval_log = "(uuid \<times> uuid option \<times> string option) list"

inductive engine_step :: "bool \<Rightarrow> db \<times> approval_log \<Rightarrow> db \<times> approval_log \<Rightarrow> bool" for skip where
  create: "create_job sha256 new_id now args d = Inr (j, d') \<Longrightarrow> new_id \<notin> j_id ` set (jobs d) \<Longrightarrow>
     (n_skip_approval_gate args \<longrightarrow> skip) \<Longrightarrow> engine_step skip (d, ap) (d', ap)"
| approve: "approve_job signer now i by actor d = Inr d' \<Longrightarrow>
     engine_step skip (d, ap) (d', (i, by, actor) # ap)"
| complete: "complete_job now i a code out err ms d = Inr d' \<Longrightarrow> engine_step skip (d, ap) (d', ap)"
| report: "apply_job_results now a reps d = Inr d' \<Longrightarrow> engine_step skip (d, ap) (d', ap)"
| dispatch: "dispatch_to_agent now attach ag d = Inr (sent, d') \<Longrightarrow> engine_step skip (d, ap) (d', ap)"
| sweep: "engine_step skip (d, ap) (timeout_sweep now m d, ap)"
| cancel: "cancel_job now i d = Inr d' \<Longrightarrow> engine_step skip (d, ap) (d', ap)"

inductive_cases engine_stepE: "engine_step skip (d, ap) (d', ap')"

definition approved_by_other :: "approval_log \<Rightarrow> job \<Rightarrow> bool" where
  "approved_by_other ap j =
    (\<exists>by actor. (j_id j, by, actor) \<in> set ap \<and> j_approved_by j = by
       \<and> (actor \<noteq> None \<and> actor \<noteq> Some [] \<longrightarrow> j_created_by_actor j \<noteq> actor)
       \<and> (j_created_by j \<noteq> None \<longrightarrow> j_created_by j \<noteq> by))"

definition gate_ok :: "bool \<Rightarrow> approval_log \<Rightarrow> job \<Rightarrow> bool" where
  "gate_ok skip ap j =
    ((j_approved_at j \<noteq> None \<longrightarrow> approved_by_other ap j)
     \<and> (\<not> skip \<and> j_type j \<in> set FORCE_APPROVAL_JOB_TYPES \<longrightarrow> j_requires_approval j))"

definition engine_inv :: "bool \<Rightarrow> db \<times> approval_log \<Rightarrow> bool" where
  "engine_inv skip s = (distinct_jobs (fst s) \<and> (\<forall>j \<in> set (jobs (fst s)). gate_ok skip (snd s) j))"

lemma gate_ok_core: "job_core j' = job_core j \<Longrightarrow> gate_ok skip ap j \<Longrightarrow> gate_ok skip ap j'"
  using job_core_fields [of j' j] by (simp add: gate_ok_def approved_by_other_def)

lemma jobs_evolve_back:
  assumes "jobs_evolve d d'" and "j' \<in> set (jobs d')"
  obtains j where "j \<in> set (jobs d)" and "job_evolves j j'"
proof -
  from assms(2) obtain n where "n < length (jobs d')" "jobs d' ! n = j'" by (auto simp: in_set_conv_nth)
  with assms(1) have "n < length (jobs d)" and "job_evolves (jobs d ! n) j'"
    by (auto simp: jobs_evolve_def list_all2_conv_all_nth)
  with that show ?thesis by (meson nth_mem)
qed

lemma engine_inv_evolve:
  assumes "jobs_evolve d d'" and "engine_inv skip (d, ap)"
  shows "engine_inv skip (d', ap)"
proof -
  have "gate_ok skip ap j'" if "j' \<in> set (jobs d')" for j'
  proof -
    from assms(1) that obtain j where "j \<in> set (jobs d)" and "job_evolves j j'" by (rule jobs_evolve_back)
    with assms(2) gate_ok_core [of j' j] show ?thesis by (auto simp: engine_inv_def job_evolves_def)
  qed
  with assms show ?thesis by (simp add: engine_inv_def distinct_jobs_def jobs_evolve_distinct)
qed

lemma gate_ok_log: "gate_ok skip ap j \<Longrightarrow> gate_ok skip (e # ap) j"
  by (auto simp: gate_ok_def approved_by_other_def)

lemma engine_step_inv:
  assumes "engine_step skip s s'" and "engine_inv skip s"
  shows "engine_inv skip s'"
  using assms
proof (induction rule: engine_step.induct)
  case (create sha256 new_id now args d j d' ap)
  then show ?case
    using create_job_Inr [OF create(1)]
    by (auto simp: engine_inv_def distinct_jobs_def gate_ok_def)
next
  case (approve signer now i usr actor d d' ap)
  from approve_job_Inr [OF approve(1)] obtain j where j: "sql_get j_id (jobs d) i = Some j"
    and actor: "actor \<noteq> None \<and> actor \<noteq> Some [] \<longrightarrow> j_created_by_actor j \<noteq> actor"
    and user: "j_created_by j \<noteq> None \<longrightarrow> j_created_by j \<noteq> usr"
    and jobs: "jobs d' = sql_update (\<lambda>x. j_id x = i) (\<lambda>x. x\<lparr>j_approved_by := usr, j_approved_at := Some now\<rparr>) (jobs d)"
    unfolding sql_modify_def by blast
  have distinct: "distinct_jobs d" using approve by (simp add: engine_inv_def)
  then have only: "x = j" if "x \<in> set (jobs d)" "j_id x = i" for x
    using that j sql_get_distinct [of j_id "jobs d" x] by (simp add: distinct_jobs_def)
  have "gate_ok skip ((i, usr, actor) # ap) x'" if "x' \<in> set (jobs d')" for x'
  proof -
    from that obtain x where x: "x \<in> set (jobs d)"
      and x': "x' = (if j_id x = i then x\<lparr>j_approved_by := usr, j_approved_at := Some now\<rparr> else x)"
      unfolding jobs in_set_sql_update by blast
    have ok: "gate_ok skip ap x" using approve(2) x by (simp add: engine_inv_def)
    show ?thesis
    proof (cases "j_id x = i")
      case True
      with only x have "x = j" by simp
      with True x' ok actor user show ?thesis by (auto simp: gate_ok_def approved_by_other_def)
    next
      case False
      with x' ok show ?thesis by (simp add: gate_ok_log)
    qed
  qed
  moreover have "map j_id (jobs d') = map j_id (jobs d)"
    unfolding jobs by (rule map_key_sql_update) simp
  ultimately show ?case using distinct by (simp add: engine_inv_def distinct_jobs_def)
next
  case (complete now i a code out err ms d d' ap)
  then show ?case using complete_job_evolves engine_inv_evolve by (metis engine_inv_def fst_conv)
next
  case (report now a reps d d' ap)
  then show ?case using apply_job_results_evolves engine_inv_evolve by (metis engine_inv_def fst_conv)
next
  case (dispatch now attach ag d sent d' ap)
  then show ?case using dispatch_evolves engine_inv_evolve by blast
next
  case (sweep d ap now m)
  then show ?case using timeout_sweep_evolves engine_inv_evolve by (metis engine_inv_def fst_conv)
next
  case (cancel now i d d' ap)
  then show ?case using cancel_job_evolves engine_inv_evolve by blast
qed

lemma engine_reach_inv:
  "(engine_step skip)\<^sup>*\<^sup>* s s' \<Longrightarrow> engine_inv skip s \<Longrightarrow> engine_inv skip s'"
  by (induction rule: rtranclp_induct) (auto intro: engine_step_inv)

section \<open>Cancellation\<close>

definition job_change :: "job_status \<Rightarrow> job_status \<Rightarrow> bool" where
  "job_change s t = (s \<noteq> J_CANCELLED \<and> t \<noteq> s)"

interpretation job_machine: status_machine job_change "\<lambda>s. s = J_CANCELLED"
  by unfold_locales (simp add: job_change_def)

lemma job_evolves_change: "job_evolves j j' \<Longrightarrow> job_change\<^sup>*\<^sup>* (j_status j) (j_status j')"
  by (cases "j_status j = j_status j'") (auto simp: job_evolves_def job_change_def)

lemma jobs_evolve_get:
  assumes "jobs_evolve d d'" and "sql_get j_id (jobs d) k = Some j"
  shows "\<exists>j'. sql_get j_id (jobs d') k = Some j' \<and> job_evolves j j'"
  using assms unfolding jobs_evolve_def sql_get_def
proof (induction rule: list_all2_induct)
  case (Cons x xs y ys)
  then have "j_id y = j_id x" using job_core_fields [of y x] by (simp add: job_evolves_def)
  with Cons show ?case by (auto split: if_splits)
qed simp

lemma engine_step_status:
  assumes "engine_step skip s s'" and "engine_inv skip s" and "sql_get j_id (jobs (fst s)) k = Some j"
  shows "\<exists>j'. sql_get j_id (jobs (fst s')) k = Some j' \<and> job_change\<^sup>*\<^sup>* (j_status j) (j_status j')"
proof -
  have evolve: ?thesis if "jobs_evolve (fst s) (fst s')"
    using jobs_evolve_get [OF that assms(3)] job_evolves_change by blast
  from assms(1) show ?thesis
  proof cases
    case (create sha256 new_id now args d j0 d' ap)
    with create_job_Inr [OF create(3)] assms(3) show ?thesis by (auto simp: sql_get_append)
  next
    case (approve signer now i usr actor d d' ap)
    from approve_job_Inr [OF approve(3)] have
      "jobs d' = sql_modify j_id i (\<lambda>x. x\<lparr>j_approved_by := usr, j_approved_at := Some now\<rparr>) (jobs d)"
      by auto
    with approve assms(3) show ?thesis by (auto simp: job_table.get_modify)
  next
    case (complete now i a code out err ms d d' ap)
    then show ?thesis
      using complete_job_evolves [OF complete(3)] assms(2) evolve by (simp add: engine_inv_def)
  next
    case (report now a reps d d' ap)
    then show ?thesis
      using apply_job_results_evolves [OF report(3)] assms(2) evolve by (simp add: engine_inv_def)
  next
    case (dispatch now attach ag d sent d' ap)
    then show ?thesis using dispatch_evolves [OF dispatch(3)] evolve by simp
  next
    case (sweep d ap now m)
    then show ?thesis using timeout_sweep_evolves [of d now m] assms(2) evolve by (simp add: engine_inv_def)
  next
    case (cancel now i d d' ap)
    then show ?thesis using cancel_job_evolves [OF cancel(3)] evolve by simp
  qed
qed

lemma engine_reach_status:
  assumes "(engine_step skip)\<^sup>*\<^sup>* s s'" and "engine_inv skip s" and "sql_get j_id (jobs (fst s)) k = Some j"
  shows "\<exists>j'. sql_get j_id (jobs (fst s')) k = Some j' \<and> job_change\<^sup>*\<^sup>* (j_status j) (j_status j')"
  using assms(1)
proof (induction rule: rtranclp_induct)
  case base
  with assms(3) show ?case by auto
next
  case (step y z)
  from step.IH obtain j1 where j1: "sql_get j_id (jobs (fst y)) k = Some j1"
    and c1: "job_change\<^sup>*\<^sup>* (j_status j) (j_status j1)"
    by blast
  have "engine_inv skip y" using engine_reach_inv [OF step.hyps(1) assms(2)] .
  from engine_step_status [OF step.hyps(2) this j1] c1 show ?case by (meson rtranclp_trans)
qed

text \<open>The pending list reads neither a job's status nor its scheduled time.\<close>

lemma pending_list_ids:
  assumes jobs: "jobs d' = map f (jobs d)" and results: "results d' = results d"
    and f: "\<And>j. j_id (f j) = j_id j \<and> j_requires_approval (f j) = j_requires_approval j
              \<and> j_approved_at (f j) = j_approved_at j"
  shows "map j_id (get_pending_jobs now a ex limit d') = map j_id (get_pending_jobs now a ex limit d)"
proof -
  have "pending_for now a ex (f j) = pending_for now a ex j" for j
    by (rule ext) (simp add: pending_for_def f)
  then have "map j_id (concat (map (\<lambda>j. map (\<lambda>_. j) (filter (pending_for now a ex j) (results d))) (map f (jobs d))))
      = map j_id (concat (map (\<lambda>j. map (\<lambda>_. j) (filter (pending_for now a ex j) (results d))) (jobs d)))"
    by (simp add: map_concat comp_def f)
  then show ?thesis
    unfolding get_pending_jobs_def jobs results by (simp only: take_map [symmetric])
qed

section \<open>A small engine state for the witnesses\<close>

definition toy_args :: job_args where
  "toy_args = \<lparr>n_name = ''run'', n_type = ''CUSTOM_COMMAND'',
     n_targets = PDict [(''agent_ids'', PList [PStr toy_agent_pk])], n_params = [(''command'', PStr ''id'')],
     n_scheduled_time = None, n_policy_id = None, n_created_by = None, n_requires_approval = False,
     n_skip_approval_gate = False, n_created_by_actor = Some ''alice'', n_actor_role = Some ''ADMIN''\<rparr>"

definition toy_job :: job where
  "toy_job = \<lparr>j_id = toy_job_id, j_name = ''run'', j_type = ''CUSTOM_COMMAND'',
     j_targets = PDict [(''agent_ids'', PList [PStr toy_agent_pk])], j_total = Some 1,
     j_params = [(''command'', PStr ''id'')], j_status = J_QUEUED, j_scheduled_time = None, j_started_at = None,
     j_completed_at = None, j_policy_id = None, j_requires_approval = True, j_approved_by = None,
     j_approved_at = None, j_dedup_key = ''h'', j_created_by = None, j_created_by_actor = Some ''alice'',
     j_created_at = 1\<rparr>"

definition toy_d0 :: db where "toy_d0 = empty_db\<lparr>agents := [toy_agent]\<rparr>"

definition toy_d1 :: db where
  "toy_d1 = toy_d0\<lparr>jobs := [toy_job], results := [pending_result toy_job_id toy_agent_pk]\<rparr>"

definition toy_approved :: job where
  "toy_approved = toy_job\<lparr>j_approved_at := Some 5\<rparr>"

definition toy_d2 :: db where "toy_d2 = toy_d1\<lparr>jobs := [toy_approved]\<rparr>"

definition toy_attach :: attach where "toy_attach j = Inr (Some (j_params j))"

lemma toy_create: "create_job (\<lambda>_. ''h'') toy_job_id 1 toy_args toy_d0 = Inr (toy_job, toy_d1)"
  by code_simp

lemma toy_approve: "approve_job None 5 toy_job_id None (Some ''bob'') toy_d1 = Inr toy_d2"
  by code_simp

lemma toy_dispatch:
  "\<exists>d'. dispatch_to_agent 10 toy_attach toy_agent toy_d2 = Inr ([(toy_approved, [(''command'', PStr ''id'')])], d')"
proof -
  have "(case dispatch_to_agent 10 toy_attach toy_agent toy_d2 of
      Inr (sent, d') \<Rightarrow> sent = [(toy_approved, [(''command'', PStr ''id'')])] | Inl e \<Rightarrow> False)"
    by code_simp
  then show ?thesis by (auto split: sum.splits)
qed

lemma toy_reach: "(engine_step False)\<^sup>*\<^sup>* (toy_d0, []) (toy_d2, [(toy_job_id, None, Some ''bob'')])"
proof -
  have "engine_step False (toy_d0, []) (toy_d1, [])"
    by (rule engine_step.create [OF toy_create]) (simp_all add: toy_d0_def empty_db_def toy_args_def)
  moreover have "engine_step False (toy_d1, []) (toy_d2, [(toy_job_id, None, Some ''bob'')])"
    by (rule engine_step.approve [OF toy_approve])
  ultimately show ?thesis by auto
qed

section \<open>Properties\<close>



text \<open>Cancelling a job is final: once its row says CANCELLED, no later completion, agent report,
  heartbeat, sweep or approval changes the status again.\<close>

theorem cancelled_job_stays_cancelled:
  assumes "(engine_step skip)\<^sup>*\<^sup>* (d0, []) (d, ap)" and "jobs d0 = []"
    and "(engine_step skip)\<^sup>*\<^sup>* (d, ap) (d', ap')"
    and "sql_get j_id (jobs d) k = Some j" and "j_status j = J_CANCELLED"
  shows "\<exists>j'. sql_get j_id (jobs d') k = Some j' \<and> j_status j' = J_CANCELLED"
proof -
  have "engine_inv skip (d0, [])" using assms(2) by (simp add: engine_inv_def distinct_jobs_def)
  from engine_reach_inv [OF assms(1) this] have inv: "engine_inv skip (d, ap)" .
  from assms(4) have k: "sql_get j_id (jobs (fst (d, ap))) k = Some j" by simp
  from engine_reach_status [OF assms(3) inv k] obtain j' where "sql_get j_id (jobs d') k = Some j'"
    and "job_change\<^sup>*\<^sup>* (j_status j) (j_status j')"
    by auto
  with job_machine.final_rtranclp [of "j_status j" "j_status j'"] assms(5) show ?thesis by auto
qed

theorem cancelled_job_stays_cancelled_witness:
  "\<exists>j'. sql_get j_id (jobs (toy_d1\<lparr>jobs := [toy_job\<lparr>j_status := J_CANCELLED\<rparr>]\<rparr>)) toy_job_id = Some j'
     \<and> j_status j' = J_CANCELLED"
proof -
  let ?d = "toy_d1\<lparr>jobs := [toy_job\<lparr>j_status := J_CANCELLED\<rparr>]\<rparr>"
  have cancel: "cancel_job 7 toy_job_id toy_d1 = Inr ?d" by code_simp
  have "engine_step False (toy_d0, []) (toy_d1, [])"
    by (rule engine_step.create [OF toy_create]) (simp_all add: toy_d0_def empty_db_def toy_args_def)
  moreover have "engine_step False (toy_d1, []) (?d, [])" by (rule engine_step.cancel [OF cancel])
  ultimately have reach: "(engine_step False)\<^sup>*\<^sup>* (toy_d0, []) (?d, [])" by auto
  have "jobs toy_d0 = []" by (simp add: toy_d0_def empty_db_def)
  moreover have "sql_get j_id (jobs ?d) toy_job_id = Some (toy_job\<lparr>j_status := J_CANCELLED\<rparr>)" by code_simp
  moreover have "j_status (toy_job\<lparr>j_status := J_CANCELLED\<rparr>) = J_CANCELLED" by simp
  ultimately show ?thesis using cancelled_job_stays_cancelled [OF reach _ rtranclp.rtrancl_refl] by blast
qed

text \<open>But a cancelled job still runs: cancelling changes nothing about which jobs an agent is handed
  on its next heartbeat - the list of pending jobs is the same, job for job, as without the cancellation,
  as the query looks at the per-agent rows and the approval only.\<close>

theorem cancellation_does_not_stop_dispatch:
  assumes "cancel_job now i d = Inr d'"
  shows "map j_id (get_pending_jobs now' a ex limit d') = map j_id (get_pending_jobs now' a ex limit d)"
proof -
  from assms have "sync_plan_of_job now i
      (d\<lparr>jobs := sql_modify j_id i (\<lambda>x. x\<lparr>j_status := J_CANCELLED\<rparr>) (jobs d)\<rparr>) = Inr d'"
    by (auto simp: cancel_job_def split: option.splits if_splits)
  from sync_plan_of_job_frame [OF this] show ?thesis
    by (intro pending_list_ids [where f = "\<lambda>x. if j_id x = i then x\<lparr>j_status := J_CANCELLED\<rparr> else x"])
      (auto simp: sql_modify_def sql_update_def)
qed

theorem cancellation_does_not_stop_dispatch_witness:
  "map j_id (get_pending_jobs 10 toy_agent_pk {} 10 (toy_d2\<lparr>jobs := [toy_approved\<lparr>j_status := J_CANCELLED\<rparr>]\<rparr>))
     = [toy_job_id]"
proof -
  have "cancel_job 7 toy_job_id toy_d2 = Inr (toy_d2\<lparr>jobs := [toy_approved\<lparr>j_status := J_CANCELLED\<rparr>]\<rparr>)"
    by code_simp
  from cancellation_does_not_stop_dispatch [OF this, of 10 toy_agent_pk "{}" 10]
  have "map j_id (get_pending_jobs 10 toy_agent_pk {} 10 (toy_d2\<lparr>jobs := [toy_approved\<lparr>j_status := J_CANCELLED\<rparr>]\<rparr>))
      = map j_id (get_pending_jobs 10 toy_agent_pk {} 10 toy_d2)" .
  moreover have "map j_id (get_pending_jobs 10 toy_agent_pk {} 10 toy_d2) = [toy_job_id]" by code_simp
  ultimately show ?thesis by simp
qed

text \<open>A scheduled time does not delay a job: the pending list of an agent is the same whatever the
  scheduled times of the jobs are.\<close>

theorem scheduled_time_does_not_delay:
  "map j_id (get_pending_jobs now a ex limit (d\<lparr>jobs := map (\<lambda>j. j\<lparr>j_scheduled_time := t j\<rparr>) (jobs d)\<rparr>))
     = map j_id (get_pending_jobs now a ex limit d)"
  by (rule pending_list_ids [where f = "\<lambda>j. j\<lparr>j_scheduled_time := t j\<rparr>"]) simp_all

text \<open>A job is handed to an agent once: after a heartbeat has claimed jobs for an agent, no later claim
  for that agent returns any of them, as long as its result row is not reported pending again.\<close>

theorem claimed_jobs_are_not_claimed_again:
  assumes "mark_dispatched now a js d = (sent, d1)"
  shows "j_id ` set (fst (mark_dispatched now' a js' d1)) \<inter> j_id ` set sent = {}"
proof -
  have "r_job r \<notin> j_id ` set sent" if "r \<in> set (results d1)" "r_agent r = a" "r_status r = R_PENDING" for r
  proof (cases "sent = []")
    case False
    with assms obtain js1 where sent: "sent = filter (\<lambda>j. j_id j \<in> js1) js"
      and res: "results d1 = sql_update (\<lambda>r. r_job r \<in> j_id ` set js \<and> r_agent r = a \<and> r_status r = R_PENDING)
        (\<lambda>r. r\<lparr>r_status := R_RUNNING, r_started_at := Some now, r_held_until := None\<rparr>) (results d)"
      by (auto simp: mark_dispatched_def Let_def split: if_splits)
    from that(1) obtain r0 where "r = (if r_job r0 \<in> j_id ` set js \<and> r_agent r0 = a \<and> r_status r0 = R_PENDING
        then r0\<lparr>r_status := R_RUNNING, r_started_at := Some now, r_held_until := None\<rparr> else r0)"
      unfolding res in_set_sql_update by blast
    with that(2,3) have "r_job r \<notin> j_id ` set js" by (auto split: if_splits)
    with sent show ?thesis by auto
  qed simp
  moreover have "\<exists>r \<in> set (results d1). r_agent r = a \<and> r_status r = R_PENDING \<and> r_job r = j_id j"
    if "j \<in> set (fst (mark_dispatched now' a js' d1))" for j
    using that by (auto simp: mark_dispatched_def Let_def split: if_splits)
  ultimately show ?thesis by fastforce
qed

theorem claimed_jobs_are_not_claimed_again_witness:
  "j_id ` set (fst (mark_dispatched 20 toy_agent_pk [toy_approved]
       (snd (mark_dispatched 10 toy_agent_pk [toy_approved] toy_d2)))) \<inter> {toy_job_id} = {}"
proof -
  have "fst (mark_dispatched 10 toy_agent_pk [toy_approved] toy_d2) = [toy_approved]" by code_simp
  then have "mark_dispatched 10 toy_agent_pk [toy_approved] toy_d2
      = ([toy_approved], snd (mark_dispatched 10 toy_agent_pk [toy_approved] toy_d2))"
    by (simp add: prod_eq_iff)
  from claimed_jobs_are_not_claimed_again [OF this, of 20 "[toy_approved]"] show ?thesis
    by (simp add: toy_approved_def toy_job_def)
qed

text \<open>What a heartbeat sends comes from the window, with the parameters the window signed, a claim added.\<close>

definition signed_params :: "agent \<Rightarrow> db \<Rightarrow> (job \<times> config) list \<Rightarrow> uuid \<Rightarrow> config option" where
  "signed_params ag d ws = map_of (rev (map (\<lambda>jp. (j_id (fst jp), snd jp)) (map (with_claim ag d) ws)))"

lemma dispatched_from_window:
  assumes "dispatch_to_agent now attach ag d = Inr (sent, d')"
  obtains ws d1 where "length ws \<le> PENDING_JOBS_PER_HEARTBEAT" "\<forall>jp \<in> set ws. sendable now (a_id ag) attach d jp"
    "length sent \<le> length ws" "\<forall>(j, p) \<in> set sent. j \<in> fst ` set ws \<and> p = the (signed_params ag d1 ws (j_id j))"
proof -
  from assms obtain ws held where w: "fill_window now (a_id ag) attach d [] [] [] = Inr (ws, held)"
    by (auto simp: dispatch_to_agent_def sum_bind_Inr_iff)
  let ?d1 = "mark_held now (a_id ag) held d"
  obtain claimed where m: "mark_dispatched now (a_id ag) (map fst ws) ?d1 = (claimed, d')"
    and sent: "sent = map (\<lambda>j. (j, the (signed_params ag ?d1 ws (j_id j)))) claimed"
    using assms w by (auto simp: dispatch_to_agent_def Let_def signed_params_def split: prod.splits)
  have "claimed = filter (\<lambda>j. j_id j \<in> K) (map fst ws) \<or> claimed = []" if "K = r_job ` set (filter
      (\<lambda>r. r_job r \<in> j_id ` set (map fst ws) \<and> r_agent r = a_id ag \<and> r_status r = R_PENDING) (results ?d1))" for K
    using m that by (auto simp: mark_dispatched_def Let_def split: if_splits)
  then obtain f where "claimed = filter f (map fst ws) \<or> claimed = []" by blast
  then have c: "set claimed \<subseteq> fst ` set ws" "length claimed \<le> length ws"
    by (auto intro: le_trans [OF length_filter_le])
  have "length ws \<le> PENDING_JOBS_PER_HEARTBEAT" "\<forall>jp \<in> set ws. sendable now (a_id ag) attach d jp"
    using fill_window_content [OF w] by simp_all
  moreover have "length sent \<le> length ws" using c(2) sent by simp
  moreover have "\<forall>(j, p) \<in> set sent. j \<in> fst ` set ws \<and> p = the (signed_params ag ?d1 ws (j_id j))"
    using c(1) sent by (simp add: subset_iff)
  ultimately show ?thesis by (rule that)
qed

lemma with_claim_cases:
  "fst (with_claim ag d (j, p)) = j"
  "snd (with_claim ag d (j, p)) = p \<or> (j_requires_approval j \<and> (\<exists>c. snd (with_claim ag d (j, p)) = dict_put p (''_approval_claim'', PDict c)))"
  by (auto simp: with_claim_def split: option.splits)

lemma signed_params_from:
  assumes "j \<in> fst ` set ws"
  obtains j1 p1 where "(j1, p1) \<in> set ws" "j_id j1 = j_id j" "the (signed_params ag d ws (j_id j)) = snd (with_claim ag d (j1, p1))"
proof -
  let ?es = "map (\<lambda>jp. (j_id (fst jp), snd jp)) (map (with_claim ag d) ws)"
  have es: "?es = map (\<lambda>jp. (j_id (fst (with_claim ag d jp)), snd (with_claim ag d jp))) ws" by simp
  obtain p where p: "(j, p) \<in> set ws" using assms by auto
  have "(j_id j, snd (with_claim ag d (j, p))) \<in> set ?es" unfolding es set_map
    by (rule image_eqI [OF _ p]) (simp only: with_claim_cases(1))
  then have "j_id j \<in> fst ` set (rev ?es)" unfolding set_rev by (rule image_eqI [rotated]) (simp only: fst_conv)
  then have "signed_params ag d ws (j_id j) \<noteq> None" unfolding signed_params_def map_of_eq_None_iff by blast
  then obtain v where v: "signed_params ag d ws (j_id j) = Some v" by blast
  from map_of_SomeD [OF this [unfolded signed_params_def]] have "(j_id j, v) \<in> set ?es" unfolding set_rev .
  then obtain jp where jp: "jp \<in> set ws" "(j_id j, v) = (j_id (fst (with_claim ag d jp)), snd (with_claim ag d jp))"
    unfolding es set_map by (rule imageE)
  obtain j1 p1 where e: "jp = (j1, p1)" by (cases jp)
  have "j_id j = j_id j1 \<and> v = snd (with_claim ag d (j1, p1))" using jp(2) unfolding e with_claim_cases(1) prod.inject .
  then show ?thesis using that jp(1) v e by simp
qed

text \<open>C17. What a heartbeat hands out: at most ten jobs, each a job of the table with a result row for this
  agent that is pending and not held, and each with the parameters the envelope step returned for it, to
  which only the approval claim may have been added; a job the envelope step held back is never sent.\<close>

theorem heartbeat_sends_only_signed_pending_jobs:
  assumes "dispatch_to_agent now attach ag d = Inr (sent, d')" and "distinct_jobs d"
  shows "length sent \<le> 10 \<and> (\<forall>(j, p) \<in> set sent. j \<in> set (jobs d)
    \<and> (\<exists>r \<in> set (results d). r_job r = j_id j \<and> r_agent r = a_id ag \<and> r_status r = R_PENDING
         \<and> (case r_held_until r of None \<Rightarrow> True | Some t \<Rightarrow> t \<le> now))
    \<and> (\<exists>p0. attach j = Inr (Some p0)
         \<and> (p = p0 \<or> (j_requires_approval j \<and> (\<exists>c. p = dict_put p0 (''_approval_claim'', PDict c))))))"
proof -
  obtain ws d1 where w: "length ws \<le> PENDING_JOBS_PER_HEARTBEAT" "\<forall>jp \<in> set ws. sendable now (a_id ag) attach d jp"
    "length sent \<le> length ws" "\<forall>(j, p) \<in> set sent. j \<in> fst ` set ws \<and> p = the (signed_params ag d1 ws (j_id j))"
    by (rule dispatched_from_window [OF assms(1)])
  have each: "j \<in> set (jobs d)
    \<and> (\<exists>r \<in> set (results d). r_job r = j_id j \<and> r_agent r = a_id ag \<and> r_status r = R_PENDING
         \<and> (case r_held_until r of None \<Rightarrow> True | Some t \<Rightarrow> t \<le> now))
    \<and> (\<exists>p0. attach j = Inr (Some p0)
         \<and> (p = p0 \<or> (j_requires_approval j \<and> (\<exists>c. p = dict_put p0 (''_approval_claim'', PDict c)))))"
    if "(j, p) \<in> set sent" for j p
  proof -
    from that w(4) have j: "j \<in> fst ` set ws" and p: "p = the (signed_params ag d1 ws (j_id j))" by auto
    from j w(2) have s: "j \<in> set (jobs d)" "\<exists>r \<in> set (results d). pending_for now (a_id ag) {} j r" by (force simp: sendable_def)+
    obtain j1 p1 where j1: "(j1, p1) \<in> set ws" "j_id j1 = j_id j" "p = snd (with_claim ag d1 (j1, p1))"
      using signed_params_from [OF j] p by metis
    from j1(1) w(2) have j1d: "j1 \<in> set (jobs d)" and a: "attach j1 = Inr (Some p1)" by (force simp: sendable_def)+
    have "j1 = j" using j1d s(1) j1(2) assms(2) by (simp add: distinct_jobs_def distinct_map inj_on_def)
    with a j1(3) with_claim_cases(2) [of ag d1 j1 p1] s show ?thesis by (auto simp: pending_for_def)
  qed
  with w(1,3) show ?thesis by (simp add: PENDING_JOBS_PER_HEARTBEAT_def) blast
qed

theorem heartbeat_sends_only_signed_pending_jobs_witness:
  "toy_approved \<in> set (jobs toy_d2) \<and> toy_attach toy_approved = Inr (Some [(''command'', PStr ''id'')])"
proof -
  obtain d' where d': "dispatch_to_agent 10 toy_attach toy_agent toy_d2 = Inr ([(toy_approved, [(''command'', PStr ''id'')])], d')"
    using toy_dispatch by blast
  have "distinct_jobs toy_d2" by (simp add: distinct_jobs_def toy_d2_def)
  from heartbeat_sends_only_signed_pending_jobs [OF d' this]
  show ?thesis by (simp add: toy_attach_def toy_approved_def toy_job_def)
qed

text \<open>Creating a job fans out: on success the new job is queued, every targeted agent exists and gets
  exactly one pending result in the order of the targets, nothing else changes, and creating a job of the
  same type, targets and parameters again is refused as a duplicate while the first one is active.\<close>

theorem created_job_fans_out_and_blocks_duplicates:
  assumes "create_job sha256 new_id now args d = Inr (j, d')"
  shows "(\<exists>aids. target_agent_uuids (n_targets args) = Inr aids \<and> set aids \<subseteq> a_id ` set (agents d)
      \<and> d' = d\<lparr>jobs := jobs d @ [j], results := results d @ map (pending_result new_id) aids\<rparr>)
    \<and> j_status j = J_QUEUED
    \<and> create_job sha256 new_id' now' (args\<lparr>n_name := name', n_skip_approval_gate := skip'\<rparr>) d' = Inl duplicate_error"
proof -
  note c = create_job_Inr [OF assms]
  then obtain aids where d': "d' = d\<lparr>jobs := jobs d @ [j], results := results d @ map (pending_result new_id) aids\<rparr>"
    by blast
  let ?p = "\<lambda>x. j_dedup_key x = compute_dedup_key sha256 (n_type args) (n_targets args) (n_params args)
      \<and> job_active (j_status x)"
  have "filter ?p (jobs d) = []" and "?p j"
    using c by (auto simp: filter_empty_conv job_active_def)
  then have "filter ?p (jobs d') = [j]" by (simp add: d')
  then have "sql_one ?p (jobs d') = Inr (Some j)" by (simp add: sql_one_def)
  with c have "create_job sha256 new_id' now' (args\<lparr>n_name := name', n_skip_approval_gate := skip'\<rparr>) d'
      = Inl duplicate_error"
    by (simp add: create_job_def Let_def)
  with c show ?thesis by blast
qed

theorem created_job_fans_out_and_blocks_duplicates_witness:
  "create_job (\<lambda>_. ''h'') ''33333333-3333-3333-3333-333333333333'' 2
     (toy_args\<lparr>n_name := ''again'', n_skip_approval_gate := True\<rparr>) toy_d1 = Inl duplicate_error"
  using created_job_fans_out_and_blocks_duplicates [OF toy_create] by blast

text \<open>The status of a fan-out: recomputing a job that is not cancelled and has results gives COMPLETED
  exactly when every result is completed or skipped, FAILED exactly when all are terminal and one failed,
  RUNNING when some but not all are terminal, and otherwise leaves the status alone; all other jobs keep
  their status.\<close>

theorem recomputed_status:
  assumes "recompute_job_status now i d = Inr d'" and "distinct_jobs d"
    and "sql_get j_id (jobs d) i = Some j" and "j_status j \<noteq> J_CANCELLED" and "job_results d i \<noteq> []"
  shows "\<exists>j'. sql_get j_id (jobs d') i = Some j'
    \<and> (let ss = set (map r_status (job_results d i)) in
        (ss \<subseteq> {R_COMPLETED, R_SKIPPED} \<longrightarrow> j_status j' = J_COMPLETED)
        \<and> (Ball ss result_terminal \<and> R_FAILED \<in> ss \<longrightarrow> j_status j' = J_FAILED)
        \<and> (Ball ss result_terminal \<and> \<not> ss \<subseteq> {R_COMPLETED, R_SKIPPED} \<longrightarrow>
             j_status j' \<in> {J_FAILED, J_TIMEOUT, J_CANCELLED})
        \<and> (\<not> Ball ss result_terminal \<and> Bex ss result_terminal \<longrightarrow> j_status j' = J_RUNNING)
        \<and> (\<not> Bex ss result_terminal \<longrightarrow> j_status j' = j_status j))
    \<and> (\<forall>k \<noteq> i. sql_get j_id (jobs d') k = sql_get j_id (jobs d) k)"
proof -
  let ?ss = "map r_status (job_results d i)"
  have jobs: "jobs d' = sql_modify j_id i (refresh_status now ?ss) (jobs d)"
    using recompute_jobs_live [OF assms(1,5,3,4)] by simp
  have shape: "R_FAILED \<in> S \<or> R_TIMEOUT \<in> S \<or> R_CANCELLED \<in> S \<or> S \<subseteq> {R_COMPLETED, R_SKIPPED}"
    if "Ball S result_terminal" for S
    using that by (auto simp: result_terminal_def)
  have nonempty: "set ?ss \<noteq> {}" using assms(5) by simp
  have "sql_get j_id (jobs d') i = Some (refresh_status now ?ss j)"
    using assms(3) by (simp add: jobs job_table.get_modify)
  moreover have "\<forall>k \<noteq> i. sql_get j_id (jobs d') k = sql_get j_id (jobs d) k"
    by (simp add: jobs job_table.get_modify)
  moreover have "let ss = set ?ss; j' = refresh_status now ?ss j in
        (ss \<subseteq> {R_COMPLETED, R_SKIPPED} \<longrightarrow> j_status j' = J_COMPLETED)
        \<and> (Ball ss result_terminal \<and> R_FAILED \<in> ss \<longrightarrow> j_status j' = J_FAILED)
        \<and> (Ball ss result_terminal \<and> \<not> ss \<subseteq> {R_COMPLETED, R_SKIPPED} \<longrightarrow>
             j_status j' \<in> {J_FAILED, J_TIMEOUT, J_CANCELLED})
        \<and> (\<not> Ball ss result_terminal \<and> Bex ss result_terminal \<longrightarrow> j_status j' = J_RUNNING)
        \<and> (\<not> Bex ss result_terminal \<longrightarrow> j_status j' = j_status j)"
    using shape [of "set ?ss"] nonempty
    unfolding Let_def refresh_status_def aggregate_status_def list_all_iff list_ex_iff
    by (auto simp: result_terminal_def)
  ultimately show ?thesis by (auto simp: Let_def)
qed

theorem recomputed_status_witness:
  "\<exists>j'. sql_get j_id (jobs (toy_d2\<lparr>jobs := [toy_approved\<lparr>j_status := J_COMPLETED, j_completed_at := Some 9\<rparr>],
        results := [(pending_result toy_job_id toy_agent_pk)\<lparr>r_status := R_COMPLETED\<rparr>]\<rparr>)) toy_job_id = Some j'
     \<and> j_status j' = J_COMPLETED"
proof -
  let ?d = "toy_d2\<lparr>results := [(pending_result toy_job_id toy_agent_pk)\<lparr>r_status := R_COMPLETED\<rparr>]\<rparr>"
  let ?d' = "toy_d2\<lparr>jobs := [toy_approved\<lparr>j_status := J_COMPLETED, j_completed_at := Some 9\<rparr>],
        results := [(pending_result toy_job_id toy_agent_pk)\<lparr>r_status := R_COMPLETED\<rparr>]\<rparr>"
  have "recompute_job_status 9 toy_job_id ?d = Inr ?d'" by code_simp
  moreover have "distinct_jobs ?d" by (simp add: distinct_jobs_def toy_d2_def)
  moreover have "sql_get j_id (jobs ?d) toy_job_id = Some toy_approved" by code_simp
  moreover have "j_status toy_approved \<noteq> J_CANCELLED" by (simp add: toy_approved_def toy_job_def)
  moreover have "job_results ?d toy_job_id = results ?d" by code_simp
  ultimately show ?thesis
    using recomputed_status [of 9 toy_job_id ?d ?d' toy_approved] by (auto simp: Let_def)
qed

lemma timeout_sweep_results:
  "r \<in> set (results (timeout_sweep now m d)) \<Longrightarrow> r_job r \<in> j_id ` set (stale_jobs now m d) \<Longrightarrow>
     result_terminal (r_status r)"
proof -
  have sweep: "result_terminal (r_status r)"
    if "r \<in> set (results (fold (sweep_job now) js d))" "r_job r \<in> j_id ` set js
        \<or> (\<forall>x \<in> set (results d). r_job x = r_job r \<longrightarrow> result_terminal (r_status x))" for r js d
    using that
  proof (induction js arbitrary: d)
    case Nil
    then show ?case by auto
  next
    case (Cons j js)
    have step: "\<forall>x \<in> set (results (sweep_job now j d)). r_job x = r_job r \<longrightarrow> result_terminal (r_status x)"
      if "r_job r = j_id j \<or> (\<forall>x \<in> set (results d). r_job x = r_job r \<longrightarrow> result_terminal (r_status x))"
    proof (intro ballI impI)
      fix x assume "x \<in> set (results (sweep_job now j d))" and job: "r_job x = r_job r"
      then obtain r0 where r0: "r0 \<in> set (results d)"
        and x: "x = (if r_job r0 = j_id j \<and> r_status r0 \<in> {R_PENDING, R_RUNNING}
            then r0\<lparr>r_status := R_TIMEOUT, r_completed_at := Some now\<rparr> else r0)"
        unfolding sweep_job_def by (auto simp: in_set_sql_update)
      show "result_terminal (r_status x)"
      proof (cases "r_job r0 = j_id j \<and> r_status r0 \<in> {R_PENDING, R_RUNNING}")
        case True
        then have "x = r0\<lparr>r_status := R_TIMEOUT, r_completed_at := Some now\<rparr>" unfolding x by (simp only: if_True simp_thms)
        then show ?thesis by (simp add: result_terminal_def)
      next
        case False
        then have "x = r0" unfolding x by (simp only: if_False)
        with False job that r0 show ?thesis by (auto simp: result_terminal_iff)
      qed
    qed
    show ?case using Cons.IH [of "sweep_job now j d"] Cons.prems step by auto
  qed
  assume "r \<in> set (results (timeout_sweep now m d))" and "r_job r \<in> j_id ` set (stale_jobs now m d)"
  then show ?thesis using sweep [of r "stale_jobs now m d" d] timeout_sweep_jobs [of now m d] by auto
qed

definition swept_job :: "time \<Rightarrow> int \<Rightarrow> db \<Rightarrow> job \<Rightarrow> job" where
  "swept_job now m d x =
    (if x \<in> set (stale_jobs now m d) then x\<lparr>j_status := J_TIMEOUT, j_completed_at := or_now now (j_completed_at x)\<rparr> else x)"

lemma swept_jobs:
  assumes "distinct_jobs d"
  shows "jobs (timeout_sweep now m d) = map (swept_job now m d) (jobs d)"
proof -
  have "j_id x \<in> j_id ` set (stale_jobs now m d) \<longleftrightarrow> x \<in> set (stale_jobs now m d)" if x: "x \<in> set (jobs d)" for x
  proof
    assume "j_id x \<in> j_id ` set (stale_jobs now m d)"
    then obtain y where y: "y \<in> set (stale_jobs now m d)" "j_id x = j_id y" by auto
    then have "y \<in> set (jobs d)" by (simp add: stale_jobs_def)
    then have "x = y" using x y(2) assms unfolding distinct_jobs_def distinct_map by (blast dest: inj_onD)
    with y(1) show "x \<in> set (stale_jobs now m d)" by simp
  qed blast
  note stale = this
  have "jobs (timeout_sweep now m d) = map (\<lambda>x. if j_id x \<in> j_id ` set (stale_jobs now m d)
      then x\<lparr>j_status := J_TIMEOUT, j_completed_at := or_now now (j_completed_at x)\<rparr> else x) (jobs d)"
    by (simp only: timeout_sweep_jobs fold_sweep_jobs)
  also have "\<dots> = map (swept_job now m d) (jobs d)"
    by (rule map_cong [OF refl]) (simp only: stale swept_job_def)
  finally show ?thesis .
qed

lemma swept_job_fresh: "x \<in> set (jobs d) \<Longrightarrow>
    \<not> (job_active (j_status (swept_job now m d x)) \<and> j_created_at (swept_job now m d x) < now - m * 60 * 1000000)"
  by (auto simp: swept_job_def stale_jobs_def job_active_def)

lemma swept_job_id: "j_id (swept_job now m d x) = j_id x"
  by (simp add: swept_job_def)

text \<open>C18. The sweep leaves nothing stale: after it no job older than the limit is active, each job it found
  stale is TIMEOUT with all its results terminal, every other job is untouched - so a duplicate check
  against a swept job no longer finds it active.\<close>

theorem sweep_clears_stale_jobs:
  assumes "distinct_jobs d"
  shows "stale_jobs now m (timeout_sweep now m d) = []
    \<and> (\<forall>j \<in> set (stale_jobs now m d).
         (\<exists>j'. sql_get j_id (jobs (timeout_sweep now m d)) (j_id j) = Some j' \<and> j_status j' = J_TIMEOUT)
         \<and> (\<forall>r \<in> set (results (timeout_sweep now m d)). r_job r = j_id j \<longrightarrow> result_terminal (r_status r)))
    \<and> (\<forall>j \<in> set (jobs d). j \<notin> set (stale_jobs now m d) \<longrightarrow> j \<in> set (jobs (timeout_sweep now m d)))"
proof -
  note jobs = swept_jobs [OF assms, of now m]
  have "stale_jobs now m (timeout_sweep now m d) = []"
    using swept_job_fresh [of _ d now m] by (auto simp: stale_jobs_def [of now m "timeout_sweep now m d"] filter_empty_conv jobs)
  moreover have "\<exists>j'. sql_get j_id (jobs (timeout_sweep now m d)) (j_id j) = Some j' \<and> j_status j' = J_TIMEOUT"
    if j: "j \<in> set (stale_jobs now m d)" for j
  proof -
    have "distinct (map j_id (map (swept_job now m d) (jobs d)))"
      using assms by (simp add: distinct_jobs_def comp_def swept_job_id)
    moreover have "j \<in> set (jobs d)" using j by (simp add: stale_jobs_def)
    ultimately have "sql_get j_id (jobs (timeout_sweep now m d)) (j_id (swept_job now m d j)) = Some (swept_job now m d j)"
      unfolding jobs by (intro sql_get_distinct) simp_all
    then show ?thesis using j by (simp add: swept_job_id) (simp add: swept_job_def)
  qed
  moreover have "j \<in> set (jobs (timeout_sweep now m d))" if "j \<in> set (jobs d)" "j \<notin> set (stale_jobs now m d)" for j
    unfolding jobs set_map using that by (intro image_eqI [where x = j]) (simp_all add: swept_job_def)
  moreover note timeout_sweep_results
  ultimately show ?thesis by (intro conjI ballI impI; blast)
qed

theorem sweep_clears_stale_jobs_witness:
  "stale_jobs 100000000000 30 (timeout_sweep 100000000000 30 toy_d2) = []
   \<and> stale_jobs 100000000000 30 toy_d2 = [toy_approved]"
proof -
  have "distinct_jobs toy_d2" by (simp add: distinct_jobs_def toy_d2_def)
  moreover have "stale_jobs 100000000000 30 toy_d2 = [toy_approved]" by code_simp
  ultimately show ?thesis using sweep_clears_stale_jobs [of toy_d2 100000000000 30] by simp
qed

end
