(* ===== verification/UrlGuard.thy ===== *)
theory UrlGuard
  imports Prelude "HOL-Library.Word"
begin

text \<open>
  The guard against server-side requests to inner addresses (\<open>utils/url_guard.py\<close>). Addresses are
  machine words of 32 and 128 bits, a network is a base address and a prefix length, and the tables are
  those of Python's \<open>ipaddress\<close> that the predicates \<open>is_private\<close>, \<open>is_reserved\<close> and so on read.
  \<open>urlsplit\<close> and \<open>getaddrinfo\<close> are parameters: the name service answers what it likes.
\<close>

section \<open>Addresses and networks\<close>

datatype ip = V4 "32 word" | V6 "128 word"

definition in_net4 :: "nat \<Rightarrow> 32 word \<Rightarrow> nat \<Rightarrow> bool" where
  "in_net4 base w prefix = (drop_bit (32 - prefix) w = drop_bit (32 - prefix) (word_of_nat base))"

definition in_net6 :: "nat \<Rightarrow> 128 word \<Rightarrow> nat \<Rightarrow> bool" where
  "in_net6 base w prefix = (drop_bit (128 - prefix) w = drop_bit (128 - prefix) (word_of_nat base))"

definition quad :: "nat \<Rightarrow> nat \<Rightarrow> nat \<Rightarrow> nat \<Rightarrow> nat" where
  "quad a b c d = ((a * 256 + b) * 256 + c) * 256 + d"

text \<open>The first groups of an IPv6 address; the others are zero.\<close>

definition groups :: "nat list \<Rightarrow> nat" where
  "groups gs = foldl (\<lambda>n g. n * 65536 + g) 0 gs * 65536 ^ (8 - length gs)"

definition private_networks4 :: "(nat \<times> nat) list" where
  "private_networks4 =
    [(quad 0 0 0 0, 8), (quad 10 0 0 0, 8), (quad 127 0 0 0, 8), (quad 169 254 0 0, 16), (quad 172 16 0 0, 12),
     (quad 192 0 0 0, 24), (quad 192 0 0 170, 31), (quad 192 0 2 0, 24), (quad 192 168 0 0, 16),
     (quad 198 18 0 0, 15), (quad 198 51 100 0, 24), (quad 203 0 113 0, 24), (quad 240 0 0 0, 4),
     (quad 255 255 255 255, 32)]"

definition private_exceptions4 :: "(nat \<times> nat) list" where
  "private_exceptions4 = [(quad 192 0 0 9, 32), (quad 192 0 0 10, 32)]"

definition in_any4 :: "(nat \<times> nat) list \<Rightarrow> 32 word \<Rightarrow> bool" where
  "in_any4 nets w = list_ex (\<lambda>(b, p). in_net4 b w p) nets"

definition in_any6 :: "(nat \<times> nat) list \<Rightarrow> 128 word \<Rightarrow> bool" where
  "in_any6 nets w = list_ex (\<lambda>(b, p). in_net6 b w p) nets"

definition is_private4 :: "32 word \<Rightarrow> bool" where
  "is_private4 w = (in_any4 private_networks4 w \<and> \<not> in_any4 private_exceptions4 w)"

definition private_networks6 :: "(nat \<times> nat) list" where
  "private_networks6 =
    [(1, 128), (0, 128), (65535 * 2 ^ 32, 96), (groups [100, 65435, 1], 48), (groups [256], 64),
     (groups [8193], 23), (groups [8193, 3512], 32), (groups [8194], 16), (groups [64512], 7),
     (groups [65152], 10)]"

definition private_exceptions6 :: "(nat \<times> nat) list" where
  "private_exceptions6 =
    [(groups [8193, 1, 0, 0, 0, 0, 0, 1], 128), (groups [8193, 1, 0, 0, 0, 0, 0, 2], 128),
     (groups [8193, 3], 32), (groups [8193, 4, 274], 48), (groups [8193, 32], 28), (groups [8193, 48], 28)]"

definition reserved_networks6 :: "(nat \<times> nat) list" where
  "reserved_networks6 =
    [(0, 8), (groups [256], 8), (groups [512], 7), (groups [1024], 6), (groups [2048], 5), (groups [4096], 4),
     (groups [16384], 3), (groups [24576], 3), (groups [32768], 3), (groups [40960], 3), (groups [49152], 3),
     (groups [57344], 4), (groups [61440], 5), (groups [63488], 6), (groups [65024], 9)]"

text \<open>\<open>ipv4_mapped\<close>: the low 32 bits of \<open>::ffff:a.b.c.d\<close>.\<close>

definition ipv4_mapped :: "128 word \<Rightarrow> 32 word option" where
  "ipv4_mapped w = (if drop_bit 32 w = word_of_nat 65535 then Some (ucast w) else None)"

definition is_private6 :: "128 word \<Rightarrow> bool" where
  "is_private6 w = (case ipv4_mapped w of
      Some v \<Rightarrow> is_private4 v
    | None \<Rightarrow> in_any6 private_networks6 w \<and> \<not> in_any6 private_exceptions6 w)"

section \<open>The guard\<close>

definition blocked4 :: "32 word \<Rightarrow> bool" where
  "blocked4 w =
    (is_private4 w
     \<or> in_net4 (quad 127 0 0 0) w 8
     \<or> in_net4 (quad 169 254 0 0) w 16
     \<or> in_net4 (quad 224 0 0 0) w 4
     \<or> in_net4 (quad 240 0 0 0) w 4
     \<or> w = 0
     \<or> in_net4 (quad 100 64 0 0) w 10)"

definition blocked6 :: "128 word \<Rightarrow> bool" where
  "blocked6 w =
    (is_private6 w
     \<or> w = 1
     \<or> in_net6 (groups [65152]) w 10
     \<or> in_net6 (groups [65280]) w 8
     \<or> in_any6 reserved_networks6 w
     \<or> w = 0)"

definition is_blocked :: "ip \<Rightarrow> bool" where
  "is_blocked a = (case a of
      V4 w \<Rightarrow> blocked4 w
    | V6 w \<Rightarrow> (case ipv4_mapped w of Some v \<Rightarrow> blocked4 v | None \<Rightarrow> blocked6 w))"

text \<open>What \<open>urlsplit\<close> finds, or that it (or the port) is malformed; what the resolver answers.\<close>

record url_parts =
  u_scheme :: string
  u_hostname :: "string option"
  u_port :: "int option"

datatype resolution = Unresolved | BadName | Addresses "ip list"

definition assert_safe_url ::
    "(string \<Rightarrow> url_parts option) \<Rightarrow> (string \<Rightarrow> int option \<Rightarrow> resolution) \<Rightarrow> string \<Rightarrow> string list \<Rightarrow> string option" where
  "assert_safe_url urlsplit getaddrinfo url allowed_hosts =
    (case urlsplit url of
       None \<Rightarrow> Some ''malformed URL''
     | Some parts \<Rightarrow>
        if u_scheme parts \<notin> {''http'', ''https''} then Some (''scheme not allowed: '' @ repr_str (u_scheme parts))
        else (let host = map to_lower (case u_hostname parts of None \<Rightarrow> [] | Some h \<Rightarrow> h) in
          if host = [] then Some ''missing host''
          else if host \<in> set (map (map to_lower) allowed_hosts) then None
          else (case getaddrinfo host (u_port parts) of
              Unresolved \<Rightarrow> Some (''host does not resolve: '' @ host)
            | BadName \<Rightarrow> Some (''malformed host: '' @ host)
            | Addresses as \<Rightarrow>
                if list_ex is_blocked as then Some (''host resolves to a blocked address: '' @ host)
                else None)))"

section \<open>Networks are ranges\<close>

lemma div_eq_iff_range: "0 < (d :: nat) \<Longrightarrow> n div d = m \<longleftrightarrow> d * m \<le> n \<and> n < d * m + d"
  by (auto simp: div_nat_eqI dividend_less_times_div add.commute)

lemma drop_bit_eq_iff_range:
  fixes w :: "'a::len word"
  assumes "base < 2 ^ LENGTH('a)" and "2 ^ k dvd base"
  shows "drop_bit k w = drop_bit k (word_of_nat base) \<longleftrightarrow> base \<le> unat w \<and> unat w < base + 2 ^ k"
proof -
  have "drop_bit k w = drop_bit k (word_of_nat base) \<longleftrightarrow> unat w div 2 ^ k = base div 2 ^ k"
    using assms(1) unfolding word_unat_eq_iff unat_drop_bit_eq unat_of_nat
    by (simp only: mod_less) (simp only: drop_bit_eq_div)
  also have "\<dots> \<longleftrightarrow> base \<le> unat w \<and> unat w < base + 2 ^ k"
    using assms(2) by (simp add: div_eq_iff_range)
  finally show ?thesis .
qed

lemma in_net4_range:
  assumes "base < 2 ^ 32" and "2 ^ (32 - p) dvd base"
  shows "in_net4 base w p \<longleftrightarrow> base \<le> unat w \<and> unat w < base + 2 ^ (32 - p)"
  unfolding in_net4_def by (rule drop_bit_eq_iff_range) (use assms in simp_all)

text \<open>The addresses the guard refuses, as numbers: first address and length of each range.\<close>

definition refused_ranges :: "(nat \<times> nat) list" where
  "refused_ranges =
    [(quad 0 0 0 0, 2 ^ 24), (quad 10 0 0 0, 2 ^ 24), (quad 100 64 0 0, 2 ^ 22), (quad 127 0 0 0, 2 ^ 24),
     (quad 169 254 0 0, 2 ^ 16), (quad 172 16 0 0, 2 ^ 20), (quad 192 0 0 0, 9), (quad 192 0 0 11, 245),
     (quad 192 0 2 0, 2 ^ 8), (quad 192 168 0 0, 2 ^ 16), (quad 198 18 0 0, 2 ^ 17), (quad 198 51 100 0, 2 ^ 8),
     (quad 203 0 113 0, 2 ^ 8), (quad 224 0 0 0, 2 ^ 29)]"

definition in_range :: "nat \<Rightarrow> nat \<times> nat \<Rightarrow> bool" where
  "in_range n r = (fst r \<le> n \<and> n < fst r + snd r)"

lemma blocked4_ranges: "blocked4 w \<longleftrightarrow> list_ex (in_range (unat w)) refused_ranges"
proof -
  define n where "n = unat w"
  have "n < 2 ^ 32" unfolding n_def using unsigned_less [of w, where 'a = nat] by simp
  moreover have "w = 0 \<longleftrightarrow> n = 0" by (simp add: n_def unat_eq_0)
  ultimately show ?thesis
    apply (simp add: blocked4_def is_private4_def in_any4_def private_networks4_def
        private_exceptions4_def in_net4_range quad_def refused_ranges_def in_range_def flip: n_def)
    by (rule iffI) (elim disjE conjE; simp; arith?)+
qed

lemma mapped_prefix: "drop_bit 32 (w :: 128 word) = word_of_nat 65535 \<Longrightarrow> unat w div 2 ^ 32 = 65535"
  by (drule arg_cong [where f = unat]) (simp add: unat_drop_bit_eq; simp add: drop_bit_eq_div)

lemma in_net6_range:
  assumes "base < 2 ^ 128" and "2 ^ (128 - p) dvd base"
  shows "in_net6 base w p \<longleftrightarrow> base \<le> unat w \<and> unat w < base + 2 ^ (128 - p)"
  unfolding in_net6_def by (rule drop_bit_eq_iff_range) (use assms in simp_all)

text \<open>Outside the global unicast block and the old site-local block every IPv6 address is refused.\<close>

definition global_unicast :: "nat \<times> nat" where "global_unicast = (2 ^ 125, 2 ^ 125)"
definition site_local :: "nat \<times> nat" where "site_local = (groups [65216], 2 ^ 118)"

lemma blocked6_outside:
  assumes "\<not> blocked6 w" and "ipv4_mapped w = None"
  shows "in_range (unat w) global_unicast \<or> in_range (unat w) site_local"
proof -
  define n where "n = unat w"
  have "n < 2 ^ 128" unfolding n_def using unsigned_less [of w, where 'a = nat] by simp
  moreover have "\<not> in_any6 reserved_networks6 w" "\<not> in_net6 (groups [65152]) w 10" "\<not> in_net6 (groups [65280]) w 8"
    "\<not> in_net6 (groups [64512]) w 7 \<or> in_any6 private_exceptions6 w"
    using assms by (auto simp: blocked6_def is_private6_def in_any6_def private_networks6_def)
  ultimately show ?thesis
    apply (simp add: in_any6_def reserved_networks6_def private_exceptions6_def in_net6_range groups_def
        global_unicast_def site_local_def in_range_def flip: n_def)
    by (elim conjE; cases "n < 2 ^ 126"; simp add: not_less)
qed

section \<open>Properties\<close>

text \<open>What the guard refuses among IPv4 addresses, written directly or mapped into IPv6, is exactly a list of
  numeric ranges: the current network, the private, shared, loopback, link-local, documentation,
  benchmark and multicast blocks and everything above, less the two public service addresses
  192.0.0.9 and 192.0.0.10.\<close>

theorem blocked_ipv4_ranges:
  "(is_blocked (V4 w) \<longleftrightarrow> list_ex (in_range (unat w)) refused_ranges)
   \<and> (\<forall>m v. ipv4_mapped m = Some v \<longrightarrow> (is_blocked (V6 m) \<longleftrightarrow> list_ex (in_range (unat v)) refused_ranges))"
  by (simp add: is_blocked_def blocked4_ranges)

theorem blocked_ipv4_ranges_witness:
  "is_blocked (V6 (word_of_nat (65535 * 2 ^ 32 + quad 169 254 169 254)))
   \<and> \<not> is_blocked (V6 (word_of_nat (65535 * 2 ^ 32 + quad 93 184 216 34)))"
proof -
  have "ipv4_mapped (word_of_nat (65535 * 2 ^ 32 + quad 169 254 169 254)) = Some (word_of_nat (quad 169 254 169 254))"
    "ipv4_mapped (word_of_nat (65535 * 2 ^ 32 + quad 93 184 216 34)) = Some (word_of_nat (quad 93 184 216 34))"
    by (simp_all add: ipv4_mapped_def quad_def)
  moreover have "list_ex (in_range (unat (word_of_nat (quad 169 254 169 254) :: 32 word))) refused_ranges"
    "\<not> list_ex (in_range (unat (word_of_nat (quad 93 184 216 34) :: 32 word))) refused_ranges"
    by (simp_all add: refused_ranges_def in_range_def quad_def unat_of_nat)
  ultimately show ?thesis using blocked_ipv4_ranges by blast
qed


definition sample_split :: "string \<Rightarrow> url_parts option" where
  "sample_split url = Some \<lparr>u_scheme = ''https'', u_hostname = Some ''Example.org'', u_port = None\<rparr>"

definition sample_dns :: "string \<Rightarrow> int option \<Rightarrow> resolution" where
  "sample_dns h p = (if h = ''example.org'' then Addresses [V4 (word_of_nat (quad 93 184 216 34))] else Unresolved)"


text \<open>The guard has a gap: site-local IPv6 addresses (\<open>fec0::/10\<close>), which are private to a site,
  are never refused unless they are written in another way.\<close>

theorem site_local_not_blocked:
  assumes "in_range (unat w) site_local"
  shows "\<not> is_blocked (V6 w)"
proof -
  define n where "n = unat w"
  have "drop_bit 32 w \<noteq> word_of_nat 65535"
  proof
    assume "drop_bit 32 w = word_of_nat 65535"
    then have "unat w div 2 ^ 32 = 65535"
      by (rule mapped_prefix)
    with assms show False by (simp add: in_range_def site_local_def groups_def div_eq_iff_range)
  qed
  then have "ipv4_mapped w = None" by (simp add: ipv4_mapped_def)
  moreover have "w \<noteq> 0" "w \<noteq> 1" using assms by (auto simp: in_range_def site_local_def groups_def)
  ultimately show ?thesis using assms
    by (simp add: is_blocked_def blocked6_def is_private6_def in_any6_def reserved_networks6_def
        private_networks6_def in_net6_range groups_def in_range_def site_local_def flip: n_def)
qed

theorem site_local_not_blocked_witness: "\<not> is_blocked (V6 (word_of_nat (groups [65216, 0, 0, 0, 0, 0, 0, 1])))"
  by (rule site_local_not_blocked) (simp add: in_range_def site_local_def groups_def unat_of_nat)

end
