(* ===== verification/Alerts.thy ===== *)
theory Alerts
  imports Store Jobs
begin

text \<open>
  Alerts (\<open>services/alert_service.py\<close>): raising one, closing the offline alerts of an agent that is back,
  acknowledging and resolving. The table has a partial unique index on agent and type of the active
  alerts, in which a missing agent or type equals nothing; the insertion does nothing on a conflict.
  The event published for a new alert is not modelled.
\<close>

section \<open>Operations\<close>

definition alert_conflict :: "uuid option \<Rightarrow> string option \<Rightarrow> alert \<Rightarrow> bool" where
  "alert_conflict agent_id alert_type al =
    (al_status al = ''ACTIVE'' \<and> agent_id \<noteq> None \<and> alert_type \<noteq> None
     \<and> al_agent al = agent_id \<and> al_type al = alert_type)"

definition create_alert ::
    "uuid \<Rightarrow> string \<Rightarrow> string \<Rightarrow> string \<Rightarrow> uuid option \<Rightarrow> string option \<Rightarrow> db \<Rightarrow> exn + (alert option \<times> db)" where
  "create_alert new_id title description severity agent_id alert_type d =
    (let al = \<lparr>al_id = new_id, al_title = title, al_description = Some description,
               al_severity = map to_upper severity, al_type = alert_type, al_agent = agent_id,
               al_status = ''ACTIVE'', al_acknowledged_by = None, al_acknowledged_by_actor = None,
               al_acknowledged_at = None, al_resolved_by = None, al_resolved_at = None\<rparr>
     in if list_ex (alert_conflict agent_id alert_type) (alerts d) then Inr (None, d)
        else if (case agent_id of None \<Rightarrow> False | Some a \<Rightarrow> a \<notin> a_id ` set (agents d))
          then Inl (DatabaseError ''alerts_agent_id_fkey'')
        else Inr (Some al, d\<lparr>alerts := alerts d @ [al]\<rparr>))"

definition resolve_agent_offline_alerts :: "time \<Rightarrow> uuid \<Rightarrow> db \<Rightarrow> db" where
  "resolve_agent_offline_alerts now agent_id d =
    d\<lparr>alerts := sql_update
        (\<lambda>al. al_agent al = Some agent_id \<and> al_type al = Some ''AGENT_OFFLINE'' \<and> al_status al = ''ACTIVE'')
        (\<lambda>al. al\<lparr>al_status := ''RESOLVED'', al_resolved_at := Some now\<rparr>) (alerts d)\<rparr>"

definition acknowledge_alert :: "time \<Rightarrow> uuid \<Rightarrow> string \<Rightarrow> db \<Rightarrow> exn + db" where
  "acknowledge_alert now alert_id user_id d =
    (case sql_get al_id (alerts d) alert_id of
       None \<Rightarrow> Inl (ValueError (''Alert '' @ alert_id @ '' not found''))
     | Some al \<Rightarrow> Inr (d\<lparr>alerts := sql_modify al_id alert_id
          (\<lambda>al. al\<lparr>al_status := ''ACKNOWLEDGED'', al_acknowledged_at := Some now,
                   al_acknowledged_by_actor := Some user_id,
                   al_acknowledged_by := (case uuid_parse user_id of
                      None \<Rightarrow> al_acknowledged_by al | Some u \<Rightarrow> Some u)\<rparr>) (alerts d)\<rparr>))"

definition resolve_alert :: "time \<Rightarrow> uuid \<Rightarrow> string option \<Rightarrow> db \<Rightarrow> exn + db" where
  "resolve_alert now alert_id user_id d =
    (case sql_get al_id (alerts d) alert_id of
       None \<Rightarrow> Inl (ValueError (''Alert '' @ alert_id @ '' not found''))
     | Some al \<Rightarrow> Inr (d\<lparr>alerts := sql_modify al_id alert_id
          (\<lambda>al. al\<lparr>al_status := ''RESOLVED'', al_resolved_at := Some now,
                   al_resolved_by := (case safe_uuid user_id of
                      None \<Rightarrow> al_resolved_by al | Some u \<Rightarrow> Some u)\<rparr>) (alerts d)\<rparr>))"

section \<open>The unique index holds\<close>

text \<open>No two active alerts share an agent and a type.\<close>

fun alerts_unique :: "alert list \<Rightarrow> bool" where
  "alerts_unique [] = True"
| "alerts_unique (al # als) =
    ((al_status al = ''ACTIVE'' \<longrightarrow> \<not> list_ex (alert_conflict (al_agent al) (al_type al)) als) \<and> alerts_unique als)"

lemma alert_conflict_commute:
  "al_status al = ''ACTIVE'' \<Longrightarrow> al_status b = ''ACTIVE'' \<Longrightarrow>
     alert_conflict (al_agent al) (al_type al) b = alert_conflict (al_agent b) (al_type b) al"
  by (auto simp: alert_conflict_def)

lemma alerts_unique_append:
  "alerts_unique als \<Longrightarrow> \<not> list_ex (alert_conflict (al_agent al) (al_type al)) als \<Longrightarrow> al_status al = ''ACTIVE'' \<Longrightarrow>
     alerts_unique (als @ [al])"
proof (induction als)
  case Nil
  then show ?case by simp
next
  case (Cons b als)
  have "\<not> alert_conflict (al_agent b) (al_type b) al" if "al_status b = ''ACTIVE''"
    using Cons.prems alert_conflict_commute [of al b] that by simp
  with Cons show ?case by simp
qed

text \<open>Closing alerts keeps the index: a changed row is no longer active, or was active with the same key.\<close>

lemma alerts_unique_sql_update:
  assumes "alerts_unique als"
    and "\<And>al. p al \<Longrightarrow> al_status (f al) \<noteq> ''ACTIVE''"
  shows "alerts_unique (sql_update p f als)"
proof -
  have "list_ex (alert_conflict x y) (sql_update p f als) \<Longrightarrow> list_ex (alert_conflict x y) als" for x y als
    using assms(2) by (induction als) (auto simp: alert_conflict_def split: if_splits)
  with assms show ?thesis by (induction als) (auto split: if_splits)
qed

text \<open>The active alerts stay deduplicated: whatever is raised, acknowledged, resolved or closed because
  an agent came back, no two active alerts are ever about the same agent and of the same type; a second
  raise reports that nothing was inserted and changes nothing.\<close>

theorem alert_operations_keep_unique:
  assumes "alerts_unique (alerts d)"
  shows "(create_alert i title desc sev (Some a) (Some t) d = Inr (r, d1) \<longrightarrow> alerts_unique (alerts d1)
        \<and> create_alert i' title' desc' sev' (Some a) (Some t) d1 = Inr (None, d1))
    \<and> alerts_unique (alerts (resolve_agent_offline_alerts now ag d))
    \<and> (acknowledge_alert now k user d = Inr d2 \<longrightarrow> alerts_unique (alerts d2))
    \<and> (resolve_alert now k who d = Inr d3 \<longrightarrow> alerts_unique (alerts d3))"
proof (intro conjI impI)
  assume c: "create_alert i title desc sev (Some a) (Some t) d = Inr (r, d1)"
  show "alerts_unique (alerts d1)"
  proof (cases "list_ex (alert_conflict (Some a) (Some t)) (alerts d)")
    case True
    with c assms show ?thesis by (simp add: create_alert_def)
  next
    case False
    with c obtain al where "alerts d1 = alerts d @ [al]" "al_agent al = Some a" "al_type al = Some t"
        "al_status al = ''ACTIVE''"
      by (auto simp: create_alert_def Let_def split: if_splits)
    with False assms alerts_unique_append [of "alerts d" al] show ?thesis by simp
  qed
  have "list_ex (alert_conflict (Some a) (Some t)) (alerts d1)"
    using c by (auto simp: create_alert_def Let_def alert_conflict_def split: if_splits)
  then show "create_alert i' title' desc' sev' (Some a) (Some t) d1 = Inr (None, d1)"
    by (simp add: create_alert_def)
next
  show "alerts_unique (alerts (resolve_agent_offline_alerts now ag d))"
    by (simp add: resolve_agent_offline_alerts_def alerts_unique_sql_update assms)
next
  assume "acknowledge_alert now k user d = Inr d2"
  then show "alerts_unique (alerts d2)"
    by (auto simp: acknowledge_alert_def sql_modify_def alerts_unique_sql_update assms split: option.splits)
next
  assume "resolve_alert now k who d = Inr d3"
  then show "alerts_unique (alerts d3)"
    by (auto simp: resolve_alert_def sql_modify_def alerts_unique_sql_update assms split: option.splits)
qed

definition toy_offline :: alert where
  "toy_offline = \<lparr>al_id = ''1'', al_title = ''offline'', al_description = Some ''x'', al_severity = ''HIGH'',
     al_type = Some ''AGENT_OFFLINE'', al_agent = Some toy_agent_pk, al_status = ''ACTIVE'', al_acknowledged_by = None,
     al_acknowledged_by_actor = None, al_acknowledged_at = None, al_resolved_by = None, al_resolved_at = None\<rparr>"

theorem alert_operations_keep_unique_witness:
  "\<exists>d. create_alert ''1'' ''offline'' ''x'' ''high'' (Some toy_agent_pk) (Some ''AGENT_OFFLINE'')
      (empty_db\<lparr>agents := [toy_agent]\<rparr>) = Inr (Some toy_offline, d)
    \<and> alerts_unique (alerts d)
    \<and> create_alert ''2'' ''offline'' ''x'' ''high'' (Some toy_agent_pk) (Some ''AGENT_OFFLINE'') d = Inr (None, d)"
proof -
  let ?d = "empty_db\<lparr>agents := [toy_agent], alerts := [toy_offline]\<rparr>"
  have "create_alert ''1'' ''offline'' ''x'' ''high'' (Some toy_agent_pk) (Some ''AGENT_OFFLINE'')
      (empty_db\<lparr>agents := [toy_agent]\<rparr>) = Inr (Some toy_offline, ?d)"
    by code_simp
  moreover have "alerts_unique (alerts (empty_db\<lparr>agents := [toy_agent]\<rparr>))" by (simp add: empty_db_def)
  ultimately show ?thesis
    using alert_operations_keep_unique [of "empty_db\<lparr>agents := [toy_agent]\<rparr>" "''1''" "''offline''" "''x''" "''high''"
        toy_agent_pk "''AGENT_OFFLINE''" "Some toy_offline" ?d "''2''" "''offline''" "''x''" "''high''" 0 "[]" "[]" "[]"]
    by blast
qed

text \<open>An acknowledged alert may be one that was already closed: acknowledging succeeds on every existing
  alert and reopens a resolved one as ACKNOWLEDGED, with its resolution time still set.\<close>

theorem acknowledge_reopens_resolved:
  assumes "sql_get al_id (alerts d) k = Some al" and "al_status al = ''RESOLVED''"
  shows "\<exists>d' al'. acknowledge_alert now k user d = Inr d' \<and> sql_get al_id (alerts d') k = Some al'
    \<and> al_status al' = ''ACKNOWLEDGED'' \<and> al_resolved_at al' = al_resolved_at al"
  using assms sql_get_SomeD [OF assms(1)] by (simp add: acknowledge_alert_def sql_modify_def sql_get_update)

theorem acknowledge_reopens_resolved_witness:
  "\<exists>d'. acknowledge_alert 9 ''1'' ''bob''
      (empty_db\<lparr>alerts := [toy_offline\<lparr>al_status := ''RESOLVED'', al_resolved_at := Some 5\<rparr>]\<rparr>) = Inr d'
    \<and> map al_status (alerts d') = [''ACKNOWLEDGED'']"
proof -
  let ?al = "toy_offline\<lparr>al_status := ''RESOLVED'', al_resolved_at := Some 5\<rparr>"
  let ?d = "empty_db\<lparr>alerts := [?al]\<rparr>"
  have "sql_get al_id (alerts ?d) ''1'' = Some ?al" by (simp add: sql_get_def toy_offline_def)
  moreover have "al_status ?al = ''RESOLVED''" by simp
  ultimately obtain d' al' where "acknowledge_alert 9 ''1'' ''bob'' ?d = Inr d'"
      "sql_get al_id (alerts d') ''1'' = Some al'" "al_status al' = ''ACKNOWLEDGED''"
    using acknowledge_reopens_resolved by blast
  then show ?thesis
    by (auto simp: acknowledge_alert_def sql_get_def sql_modify_def toy_offline_def)
qed

end
