(* ===== verification/Automation.thy ===== *)
theory Automation
  imports Jobs
begin

text \<open>
  The two services that make jobs from stored automation: policies (\<open>services/policy_service.py\<close>:
  \<open>resolve_targets\<close>, \<open>run_policy\<close>, with their scheduler \<open>workers/policy_scheduler.py\<close>) and playbooks
  (\<open>PlaybookService.execute_playbook\<close>). The cron library, the playbook's text and the files of its roles in
  the object store are parameters. Audit rows are not modelled.
\<close>

section \<open>Targets\<close>

definition text_filter :: "config \<Rightarrow> string \<Rightarrow> exn + string option" where
  "text_filter f k =
    (case cfg_get f k of
       PStr s \<Rightarrow> Inr (if s = [] then None else Some s)
     | v \<Rightarrow> if truthy v then Inl (DatabaseError k) else Inr None)"

definition uuid_filter :: "config \<Rightarrow> string \<Rightarrow> exn + uuid option" where
  "uuid_filter f k =
    (if truthy (cfg_get f k) then sum_bind (parse_uuid (cfg_get f k)) (\<lambda>u. Inr (Some u)) else Inr None)"

definition all_agent_statuses :: "agent_status list" where
  "all_agent_statuses = [G_PENDING, G_REGISTERED, G_ACTIVE, G_INACTIVE, G_UNHEALTHY, G_MAINTENANCE]"

definition status_filter :: "config \<Rightarrow> string \<Rightarrow> exn + agent_status option" where
  "status_filter f k =
    (let v = cfg_get f k in
     if \<not> truthy v then Inr None
     else (case List.find (\<lambda>s. PStr (agent_status_value s) = v) all_agent_statuses of
         Some s \<Rightarrow> Inr (Some s)
       | None \<Rightarrow> Inl (ValueError (pyrepr v @ '' is not a valid AgentStatus''))))"

definition matches :: "'a option \<Rightarrow> 'a option \<Rightarrow> bool" where
  "matches wanted column = (wanted = None \<or> column = wanted)"

definition resolve_targets :: "config \<Rightarrow> db \<Rightarrow> exn + uuid list" where
  "resolve_targets target_servers d =
    (if truthy (cfg_get target_servers ''all'') then Inr (map a_id (agents d))
     else if truthy (cfg_get target_servers ''agent_ids'')
       then sum_bind (iterate (cfg_get target_servers ''agent_ids'')) parse_uuids
     else (case cfg_get target_servers ''filters'' of
         PDict f \<Rightarrow>
           if f = [] then Inr []
           else sum_bind (text_filter f ''os_family'') (\<lambda>fam.
                sum_bind (text_filter f ''os_distro'') (\<lambda>distro.
                sum_bind (uuid_filter f ''category_id'') (\<lambda>cat.
                sum_bind (uuid_filter f ''project_id'') (\<lambda>proj.
                sum_bind (status_filter f ''status'') (\<lambda>st.
                  Inr (map a_id (filter (\<lambda>a. matches fam (a_os_family a) \<and> matches distro (a_os_distro a)
                        \<and> matches cat (a_category_id a) \<and> matches proj (a_project_id a)
                        \<and> (st = None \<or> st = Some (a_status a))) (agents d))))))))
       | v \<Rightarrow> if truthy v then Inl (TypeError ''filters is not a dictionary'') else Inr []))"

definition agent_targets :: "uuid list \<Rightarrow> pv" where
  "agent_targets ids = PDict [(''agent_ids'', PList (map PStr ids))]"

section \<open>Policies\<close>

definition policy_job :: "policy \<Rightarrow> string \<Rightarrow> string option \<Rightarrow> string option \<Rightarrow> uuid list \<Rightarrow> exn + job_args" where
  "policy_job p triggered_by actor role agent_ids =
    (case po_actions p of
       PDict action # _ \<Rightarrow>
        (case map_of action ''type'' of
           Some (PStr job_type) \<Rightarrow>
             (case py_or (cfg_get action ''params'') (PDict []) of
                PDict params \<Rightarrow> Inr \<lparr>n_name = po_name p @ '' ('' @ triggered_by @ '')'', n_type = job_type,
                    n_targets = agent_targets agent_ids, n_params = params, n_scheduled_time = None,
                    n_policy_id = Some (po_id p), n_created_by = None,
                    n_requires_approval = truthy (cfg_get (po_execution p) ''requires_approval''),
                    n_skip_approval_gate = False, n_created_by_actor = actor, n_actor_role = role\<rparr>
              | _ \<Rightarrow> Inl (TypeError ''parameters''))
         | Some v \<Rightarrow> Inl (TypeError ''job type'')
         | None \<Rightarrow> Inl (KeyError ''type''))
     | _ \<Rightarrow> Inl (TypeError ''action''))"

text \<open>The returned job ids and the number of matched agents. A duplicate found by the query is skipped
  quietly; one reported by the commit has expired the policy row, whose next access raises.\<close>

definition run_policy ::
    "(string \<Rightarrow> string) \<Rightarrow> uuid \<Rightarrow> time \<Rightarrow> policy \<Rightarrow> string \<Rightarrow> string option \<Rightarrow> string option \<Rightarrow> db
     \<Rightarrow> exn + ((uuid list \<times> nat) \<times> db)" where
  "run_policy sha256 new_id now p triggered_by actor role d =
    (case resolve_targets (po_targets p) d of
       Inl e \<Rightarrow> Inl e
     | Inr agent_ids \<Rightarrow>
        if agent_ids = [] \<or> po_actions p = [] then Inr (([], length agent_ids), d)
        else (case policy_job p triggered_by actor role agent_ids of
            Inl e \<Rightarrow> Inl e
          | Inr args \<Rightarrow>
             (case create_job sha256 new_id now args d of
                Inr (j, d') \<Rightarrow> Inr (([j_id j], length agent_ids), d')
              | Inl (ValueError m) \<Rightarrow>
                  if commit_refused sha256 new_id now args d then Inl (DatabaseError ''MissingGreenlet'')
                  else Inr (([], length agent_ids), d)
              | Inl e \<Rightarrow> Inl e)))"

definition due_policies :: "time \<Rightarrow> db \<Rightarrow> policy list" where
  "due_policies now d = filter (\<lambda>p. po_is_enabled p \<and> po_trigger_type p = ''SCHEDULE''
      \<and> (case po_next_run_at p of None \<Rightarrow> False | Some t \<Rightarrow> t \<le> now)
      \<and> Some (po_id p) \<notin> wf_migrated_from ` set (workflows d)) (policies d)"

text \<open>One due policy: the claim is an update of the row whose next run is still the one seen.\<close>

definition claim_policy :: "(string option \<Rightarrow> time \<Rightarrow> time option) \<Rightarrow> time \<Rightarrow> policy \<Rightarrow> db \<Rightarrow> (bool \<times> db) option" where
  "claim_policy cron now p d =
    (case cron (po_cron_expr p) now of
       None \<Rightarrow> None
     | Some next \<Rightarrow>
        (let mine = (\<lambda>r. po_id r = po_id p \<and> po_next_run_at r = po_next_run_at p \<and> po_next_run_at r \<noteq> None)
         in Some (length (filter mine (policies d)) = 1,
              d\<lparr>policies := sql_update mine (\<lambda>r. r\<lparr>po_next_run_at := Some next, po_last_run_at := Some now\<rparr>)
                  (policies d)\<rparr>)))"

definition claim_and_run_policy ::
    "(string \<Rightarrow> string) \<Rightarrow> (string option \<Rightarrow> time \<Rightarrow> time option) \<Rightarrow> uuid \<Rightarrow> time \<Rightarrow> policy \<Rightarrow> db \<Rightarrow> exn option \<times> db" where
  "claim_and_run_policy sha256 cron new_id now p d =
    (case claim_policy cron now p d of
       None \<Rightarrow> (None, d)
     | Some (claimed, d') \<Rightarrow>
        if \<not> claimed then (None, d')
        else (case run_policy sha256 new_id now p ''schedule'' None (Some SYSTEM_ROLE) d' of
            Inl e \<Rightarrow> (Some e, d')
          | Inr (r, d'') \<Rightarrow> (None, d'')))"

text \<open>One tick: the first exception ends it, and the policies after it wait for the next.\<close>

fun policy_loop ::
    "(string \<Rightarrow> string) \<Rightarrow> (string option \<Rightarrow> time \<Rightarrow> time option) \<Rightarrow> (db \<Rightarrow> uuid) \<Rightarrow> time \<Rightarrow> policy list \<Rightarrow> db \<Rightarrow> exn option \<times> db" where
  "policy_loop sha256 cron new_id now [] d = (None, d)"
| "policy_loop sha256 cron new_id now (p # ps) d =
    (case claim_and_run_policy sha256 cron (new_id d) now p d of
       (None, d') \<Rightarrow> policy_loop sha256 cron new_id now ps d'
     | (Some e, d') \<Rightarrow> (Some e, d'))"

definition policy_tick ::
    "(string \<Rightarrow> string) \<Rightarrow> (string option \<Rightarrow> time \<Rightarrow> time option) \<Rightarrow> (db \<Rightarrow> uuid) \<Rightarrow> time \<Rightarrow> db \<Rightarrow> exn option \<times> db" where
  "policy_tick sha256 cron new_id now d = policy_loop sha256 cron new_id now (due_policies now d) d"

section \<open>Playbooks\<close>

definition agent_label :: "agent \<Rightarrow> string" where
  "agent_label a = (case a_hostname a of Some h \<Rightarrow> if h = [] then a_id a else h | None \<Rightarrow> a_id a)"

definition ansible_blocked :: "uuid list \<Rightarrow> db \<Rightarrow> string list" where
  "ansible_blocked agent_ids d =
    map agent_label (filter (\<lambda>a. a_id a \<in> set agent_ids
      \<and> \<not> agent_can_run_job_type (a_capabilities a) ''ANSIBLE_PLAYBOOK'') (agents d))"

definition playbook_args ::
    "playbook \<Rightarrow> string \<Rightarrow> pv \<Rightarrow> uuid list \<Rightarrow> config \<Rightarrow> uuid option \<Rightarrow> config \<Rightarrow> bool \<Rightarrow> string option \<Rightarrow> string option \<Rightarrow> job_args" where
  "playbook_args pb content roles agent_ids extra_vars created_by extra requires_approval actor role =
    \<lparr>n_name = ''Ansible: '' @ pb_name pb, n_type = ''ANSIBLE_PLAYBOOK'', n_targets = agent_targets agent_ids,
     n_params = dict_merge [(''playbook_id'', PStr (pb_id pb)), (''playbook_version'', PInt (pb_version pb)),
        (''playbook_content'', PStr content), (''extra_vars'', PDict (dict_merge (pb_default_extra_vars pb) extra_vars)),
        (''roles'', roles)] extra,
     n_scheduled_time = None, n_policy_id = None, n_created_by = created_by, n_requires_approval = requires_approval,
     n_skip_approval_gate = False, n_created_by_actor = actor, n_actor_role = role\<rparr>"

text \<open>The arguments of the job that running a playbook makes, or why it is refused before.\<close>

definition playbook_job ::
    "(playbook \<Rightarrow> exn + string) \<Rightarrow> (string list \<Rightarrow> exn + pv) \<Rightarrow> uuid \<Rightarrow> uuid list \<Rightarrow> pv \<Rightarrow> uuid option \<Rightarrow> config
     \<Rightarrow> bool \<Rightarrow> string option \<Rightarrow> string option \<Rightarrow> db \<Rightarrow> exn + job_args" where
  "playbook_job resolve_content snapshot_roles playbook_id agent_ids extra_vars created_by extra
      requires_approval actor role d =
    (case sql_get pb_id (playbooks d) playbook_id of
       None \<Rightarrow> Inl (ValueError (''Playbook '' @ playbook_id @ '' not found''))
     | Some pb \<Rightarrow>
        if \<not> pb_is_enabled pb then Inl (ValueError ''Playbook is disabled'')
        else if ansible_blocked agent_ids d \<noteq> []
          then Inl (ValueError (''ansible-core is not installed on: '' @ join '', '' (sort (ansible_blocked agent_ids d))))
        else sum_bind (case py_or extra_vars (PDict []) of PDict v \<Rightarrow> Inr v | _ \<Rightarrow> Inl (TypeError ''not a mapping'')) (\<lambda>vars.
             sum_bind (resolve_content pb) (\<lambda>content.
             sum_bind (if pb_role_ids pb = [] then Inr (PDict []) else snapshot_roles (pb_role_ids pb)) (\<lambda>roles.
               Inr (playbook_args pb content roles agent_ids vars created_by extra requires_approval actor role)))))"

definition execute_playbook ::
    "(string \<Rightarrow> string) \<Rightarrow> (playbook \<Rightarrow> exn + string) \<Rightarrow> (string list \<Rightarrow> exn + pv) \<Rightarrow> uuid \<Rightarrow> time \<Rightarrow> uuid \<Rightarrow> uuid list
     \<Rightarrow> pv \<Rightarrow> uuid option \<Rightarrow> config \<Rightarrow> bool \<Rightarrow> string option \<Rightarrow> string option \<Rightarrow> db \<Rightarrow> exn + (job \<times> db)" where
  "execute_playbook sha256 resolve_content snapshot_roles new_id now playbook_id agent_ids extra_vars created_by
      extra requires_approval actor role d =
    sum_bind (playbook_job resolve_content snapshot_roles playbook_id agent_ids extra_vars created_by extra
        requires_approval actor role d)
      (\<lambda>args. create_job sha256 new_id now args d)"

end
