(* ===== verification/Session.thy ===== *)
theory Session
  imports Jobs
begin

text \<open>
  A database session as the workers and services use it: the pair of what it sees and what is committed. A
  commit makes both the same, a rollback (which \<open>create_job\<close> does when its commit is refused) returns to
  the committed state, and an exception that leaves the request loses whatever was not committed. A
  rollback also expires the row objects loaded before it, so that reading one of them afterwards, outside
  a database call, raises.
\<close>

record session =
  se_db :: db
  se_saved :: db
  se_expired :: bool

definition open_session :: "db \<Rightarrow> session" where
  "open_session d = \<lparr>se_db = d, se_saved = d, se_expired = False\<rparr>"

definition commit :: "session \<Rightarrow> session" where
  "commit se = se\<lparr>se_saved := se_db se\<rparr>"

definition rollback :: "session \<Rightarrow> session" where
  "rollback se = se\<lparr>se_db := se_saved se, se_expired := True\<rparr>"

text \<open>Reading an attribute of a row object that a rollback has expired, outside a database call.\<close>

definition expired_access :: exn where
  "expired_access = DatabaseError ''MissingGreenlet''"

section \<open>Creating a job in a session\<close>

text \<open>The outcome of a creation: the job and the committed session, an exception that left the session as it
  was, or a refused commit that rolled it back.\<close>

datatype dispatch_result = Dispatched job session | Raised exn session

definition create_job_in :: "(string \<Rightarrow> string) \<Rightarrow> uuid \<Rightarrow> time \<Rightarrow> job_args \<Rightarrow> session \<Rightarrow> dispatch_result" where
  "create_job_in sha256 new_id now args se =
    (case create_job sha256 new_id now args (se_db se) of
       Inr (j, d) \<Rightarrow> Dispatched j (commit (se\<lparr>se_db := d\<rparr>))
     | Inl e \<Rightarrow> Raised e (if commit_refused sha256 new_id now args (se_db se) then rollback se else se))"

end
