(* ===== verification/WorkflowEngine.thy ===== *)
theory WorkflowEngine
  imports StepCompile Expr Alerts Automation UrlGuard Session
begin

text \<open>
  The workflow engine (\<open>services/workflow_engine.py\<close>): starting a run, the dry-run preview, one tick of a
  run (\<open>advance_run\<close>), approving, rejecting and cancelling, and the two workers that drive it
  (\<open>workers/workflow_runner.py\<close>, \<open>workers/workflow_scheduler.py\<close>).

  The audit log is not modelled; rows another session changes during a call are not seen.
\<close>

section \<open>What the engine runs in\<close>

datatype http_outcome = HttpOk | HttpError string | HttpRaises exn

record world =
  wd_sha256 :: "string \<Rightarrow> string"
  wd_is_ip :: "string \<Rightarrow> bool"
  wd_parse :: "string \<Rightarrow> string + expr"
  wd_py :: interpreter
  wd_expr_text :: "expr_error \<Rightarrow> string"
  wd_urlsplit :: "string \<Rightarrow> url_parts option"
  wd_resolve :: "string \<Rightarrow> int option \<Rightarrow> resolution"
  wd_request :: "string \<Rightarrow> string \<Rightarrow> pv \<Rightarrow> pv \<Rightarrow> http_outcome"
  wd_content :: "playbook \<Rightarrow> exn + string"
  wd_roles :: "string list \<Rightarrow> exn + pv"
  wd_new_id :: "db \<Rightarrow> uuid"

definition exn_text :: "exn \<Rightarrow> string" where
  "exn_text e = (case e of
      WorkflowRunError m \<Rightarrow> m | ValueError m \<Rightarrow> m | TypeError m \<Rightarrow> m | KeyError m \<Rightarrow> repr_str m
    | PermissionError m \<Rightarrow> m | HTTPException code m \<Rightarrow> m | DatabaseError m \<Rightarrow> m)"

section \<open>Step runs of one run\<close>

definition step_of :: "db \<Rightarrow> uuid \<Rightarrow> string \<Rightarrow> step_run option" where
  "step_of d run sid = sql_get step_key (step_runs d) (run, sid)"

definition status_of :: "db \<Rightarrow> uuid \<Rightarrow> string \<Rightarrow> step_status option" where
  "status_of d run sid = map_option s_status (step_of d run sid)"

definition set_step :: "uuid \<Rightarrow> string \<Rightarrow> (step_run \<Rightarrow> step_run) \<Rightarrow> db \<Rightarrow> db" where
  "set_step run sid f d = d\<lparr>step_runs := sql_modify step_key (run, sid) f (step_runs d)\<rparr>"

definition set_run :: "uuid \<Rightarrow> (workflow_run \<Rightarrow> workflow_run) \<Rightarrow> db \<Rightarrow> db" where
  "set_run run f d = d\<lparr>runs := sql_modify w_id run f (runs d)\<rparr>"

definition finish_step :: "time \<Rightarrow> step_status \<Rightarrow> step_run \<Rightarrow> step_run" where
  "finish_step now st sr = sr\<lparr>s_status := st, s_completed_at := Some now\<rparr>"

definition fail_step :: "time \<Rightarrow> string \<Rightarrow> step_run \<Rightarrow> step_run" where
  "fail_step now msg sr = sr\<lparr>s_status := S_FAILED, s_error := Some msg, s_completed_at := Some now\<rparr>"

definition run_steps :: "db \<Rightarrow> uuid \<Rightarrow> step_run list" where
  "run_steps d run = filter (\<lambda>sr. s_run sr = run) (step_runs d)"

section \<open>Waiting\<close>

definition HEARTBEAT_INTERVAL_SECONDS :: int where "HEARTBEAT_INTERVAL_SECONDS = 60"

definition second :: int where "second = 1000000"

text \<open>\<open>int(config.get(k) or default)\<close>.\<close>

definition cfg_int :: "config \<Rightarrow> string \<Rightarrow> int \<Rightarrow> exn + int" where
  "cfg_int config k dflt = py_int (py_or (cfg_get config k) (PInt dflt))"

fun heartbeats_fresh :: "time \<Rightarrow> time option \<Rightarrow> int \<Rightarrow> agent list \<Rightarrow> bool" where
  "heartbeats_fresh now started required [] = True"
| "heartbeats_fresh now started required (a # as) =
    (case a_last_heartbeat a of
       None \<Rightarrow> False
     | Some hb \<Rightarrow>
        (case started of None \<Rightarrow> True | Some t \<Rightarrow> \<not> hb - t < required * second)
        \<and> \<not> now - hb > HEARTBEAT_INTERVAL_SECONDS * 2 * second
        \<and> heartbeats_fresh now started required as)"

text \<open>The pair says whether the wait is over and whether it timed out.\<close>

definition wait_for_agent_satisfied ::
    "time \<Rightarrow> db \<Rightarrow> step_run \<Rightarrow> workflow_step \<Rightarrow> uuid list \<Rightarrow> exn + (bool \<times> bool)" where
  "wait_for_agent_satisfied now d sr step targets =
    (let config = step_config step in
     if py_or (cfg_get config ''mode'') (PStr ''agent'') = PStr ''duration'' then
       sum_bind (cfg_int config ''seconds'' 0) (\<lambda>seconds.
         Inr ((case s_started_at sr of None \<Rightarrow> 0 | Some t \<Rightarrow> now - t) \<ge> seconds * second, False))
     else
       sum_bind (cfg_int config ''timeout_seconds'' 1800) (\<lambda>timeout.
       sum_bind (cfg_int config ''min_heartbeats'' 1) (\<lambda>beats.
         if (case s_started_at sr of None \<Rightarrow> False | Some t \<Rightarrow> now - t > timeout * second) then Inr (False, True)
         else if targets = [] then Inr (True, False)
         else Inr (heartbeats_fresh now (s_started_at sr) (beats * HEARTBEAT_INTERVAL_SECONDS)
                    (filter (\<lambda>a. a_id a \<in> set targets) (agents d)), False))))"

section \<open>Conditions\<close>

definition step_exit_code :: "db \<Rightarrow> uuid \<Rightarrow> int option" where
  "step_exit_code d job_id =
    (case remdups (List.map_filter r_exit_code (filter (\<lambda>r. r_job r = job_id) (results d))) of
       [c] \<Rightarrow> Some c | _ \<Rightarrow> None)"

definition opt_val :: "('a \<Rightarrow> val) \<Rightarrow> 'a option \<Rightarrow> val" where
  "opt_val f x = (case x of None \<Rightarrow> VNone | Some a \<Rightarrow> f a)"

definition step_context :: "db \<Rightarrow> step_run \<Rightarrow> val" where
  "step_context d sr = VDict
    [(''status'', VStr (step_status_value (s_status sr))),
     (''exit_code'', opt_val VInt (Option.bind (s_job sr) (step_exit_code d))),
     (''duration_seconds'', (case (s_started_at sr, s_completed_at sr) of
         (Some a, Some b) \<Rightarrow> VFloat (of_int (b - a) / of_int second) | _ \<Rightarrow> VNone))]"

definition build_condition_context :: "db \<Rightarrow> workflow_run \<Rightarrow> (string \<times> val) list" where
  "build_condition_context d run =
    [(''steps'', VDict (map (\<lambda>sr. (s_step sr, step_context d sr)) (run_steps d (w_id run)))),
     (''vars'', val_of_pv (PDict (w_vars run))),
     (''targets'', VDict [(''count'', VInt (int (length (w_agent_ids run))))])]"

section \<open>Side effects of the inline kinds\<close>

definition dispatch_notification :: "world \<Rightarrow> workflow_step \<Rightarrow> uuid \<Rightarrow> session \<Rightarrow> exn option \<times> session" where
  "dispatch_notification w step run se =
    (let config = step_config step;
         alert_type = ''WORKFLOW_STEP:'' @ take 16 (wd_sha256 w (run @ '':'' @ step_id step));
         message = ''Workflow step '' @ [sq] @ step_name step @ [sq] @ '' reached.''
     in case create_alert (wd_new_id w (se_db se))
            (pystr (py_or (cfg_get config ''subject'') (PStr (step_name step))))
            (pystr (py_or (cfg_get config ''message'') (PStr message)))
            ''LOW'' None (Some alert_type) (se_db se) of
          Inl e \<Rightarrow> (Some e, se)
        | Inr (Some al, d) \<Rightarrow> (None, commit (se\<lparr>se_db := d\<rparr>))
        | Inr (None, d) \<Rightarrow> (Some (WorkflowRunError (''step '' @ [sq] @ step_id step @ [sq]
              @ '': an ACTIVE alert with type '' @ [sq] @ alert_type @ [sq] @ '' already exists'')), commit se))"

text \<open>\<open>config.get(k) or None\<close>.\<close>

definition or_none :: "pv \<Rightarrow> pv" where
  "or_none v = (if truthy v then v else PNone)"

definition dispatch_webhook :: "world \<Rightarrow> workflow_step \<Rightarrow> exn option" where
  "dispatch_webhook w step =
    (let config = step_config step in
     case require config ''url'' (step_id step) of
       Inl e \<Rightarrow> Some e
     | Inr url \<Rightarrow>
        (let http_method = map to_upper (pystr (py_or (cfg_get config ''method'') (PStr ''POST''))) in
         case assert_safe_url (wd_urlsplit w) (wd_resolve w) url [] of
           Some msg \<Rightarrow> Some (WorkflowRunError (''step '' @ [sq] @ step_id step @ [sq]
                @ '' (type webhook): url refused: '' @ msg))
         | None \<Rightarrow>
            (case wd_request w http_method url (or_none (cfg_get config ''headers'')) (or_none (cfg_get config ''body'')) of
               HttpOk \<Rightarrow> None
             | HttpError msg \<Rightarrow> Some (WorkflowRunError (''step '' @ [sq] @ step_id step @ [sq]
                  @ '' (type webhook): request failed: '' @ msg))
             | HttpRaises e \<Rightarrow> Some e)))"

section \<open>Dispatching a step as a job\<close>

definition agents_support_native :: "db \<Rightarrow> uuid list \<Rightarrow> bool" where
  "agents_support_native d targets =
    (let found = filter (\<lambda>a. a_id a \<in> set targets) (agents d) in
     targets \<noteq> [] \<and> length found = length targets
     \<and> list_all (\<lambda>a. agent_meets_minimum (a_agent_version a) MIN_AGENT_VERSION_NATIVE_MODULES) found)"

definition extra_params :: "uuid \<Rightarrow> workflow_step \<Rightarrow> config" where
  "extra_params run step = [(''workflow_run_id'', PStr run), (''workflow_step_id'', PStr (step_id step))]"

definition step_job_args :: "workflow_step \<Rightarrow> uuid list \<Rightarrow> string \<Rightarrow> config \<Rightarrow> bool \<Rightarrow> job_args" where
  "step_job_args step targets job_type params skip =
    \<lparr>n_name = ''Workflow step: '' @ step_name step, n_type = job_type, n_targets = agent_targets targets,
     n_params = params, n_scheduled_time = None, n_policy_id = None, n_created_by = None,
     n_requires_approval = False, n_skip_approval_gate = skip, n_created_by_actor = None,
     n_actor_role = Some SYSTEM_ROLE\<rparr>"

definition command_args :: "workflow_step \<Rightarrow> uuid list \<Rightarrow> uuid \<Rightarrow> exn + string \<Rightarrow> exn + job_args" where
  "command_args step targets run r =
    sum_bind r (\<lambda>command. Inr (step_job_args step targets ''CUSTOM_COMMAND''
      (dict_merge [(''command'', PStr command)] (extra_params run step)) True))"

definition native_args :: "workflow_step \<Rightarrow> uuid list \<Rightarrow> uuid \<Rightarrow> string \<Rightarrow> exn + job_args" where
  "native_args step targets run job_type =
    Inr (step_job_args step targets job_type (dict_merge (step_config step) (extra_params run step)) False)"

definition ansible_args :: "world \<Rightarrow> workflow_step \<Rightarrow> uuid list \<Rightarrow> uuid \<Rightarrow> db \<Rightarrow> exn + job_args" where
  "ansible_args w step targets run d =
    (let config = step_config step; playbook_id = cfg_get config ''playbook_id'' in
     if \<not> truthy playbook_id then step_error step '' (type ansible) has no config.playbook_id''
     else sum_bind (parse_uuid (PStr (pystr playbook_id))) (\<lambda>pid.
       playbook_job (wd_content w) (wd_roles w) pid targets (py_or (cfg_get config ''extra_vars'') (PDict [])) None
         (extra_params run step) False None (Some SYSTEM_ROLE) d))"

text \<open>What \<open>_dispatch_step\<close> hands to \<open>create_job\<close>, or what it raises before.\<close>

definition dispatch_args :: "world \<Rightarrow> workflow_step \<Rightarrow> uuid list \<Rightarrow> uuid \<Rightarrow> db \<Rightarrow> exn + job_args" where
  "dispatch_args w step targets run d =
    (let config = step_config step; shell = command_args step targets run (compile_step (wd_is_ip w) step) in
     case normalize_type (step_type step) of
       T_ANSIBLE \<Rightarrow> ansible_args w step targets run d
     | T_PACKAGE \<Rightarrow>
         if py_or (cfg_get config ''action'') (PStr ''install'') \<in> {PStr ''install'', PStr ''update''} then
           sum_bind (package_names step) (\<lambda>names.
             Inr (step_job_args step targets ''PACKAGE_UPDATE''
               (dict_merge [(''package_names'', PList (map PStr names))] (extra_params run step)) False))
         else shell
     | T_SERVICE \<Rightarrow> if agents_support_native d targets then native_args step targets run ''SERVICE'' else shell
     | T_SYSTEM \<Rightarrow>
         if cfg_get config ''action'' \<in> {PStr ''reboot'', PStr ''shutdown''} \<and> agents_support_native d targets
         then native_args step targets run ''REBOOT'' else shell
     | T_FILE \<Rightarrow> if agents_support_native d targets then native_args step targets run ''FILE'' else shell
     | _ \<Rightarrow> shell)"

definition dispatch_step :: "world \<Rightarrow> time \<Rightarrow> workflow_step \<Rightarrow> uuid list \<Rightarrow> uuid \<Rightarrow> session \<Rightarrow> dispatch_result" where
  "dispatch_step w now step targets run se =
    (case dispatch_args w step targets run (se_db se) of
       Inl e \<Rightarrow> Raised e se
     | Inr args \<Rightarrow> create_job_in (wd_sha256 w) (wd_new_id w (se_db se)) now args se)"

section \<open>One tick of a run\<close>

definition find_step :: "compiled_graph \<Rightarrow> string \<Rightarrow> workflow_step option" where
  "find_step g sid = List.find (\<lambda>st. step_id st = sid) (rev (g_steps g))"

text \<open>First part: a running step whose job ended, or whose wait is over.\<close>

definition job_outcome :: "time \<Rightarrow> job \<Rightarrow> step_run \<Rightarrow> step_run" where
  "job_outcome now j sr =
    (if \<not> job_terminal (j_status j) then sr
     else (let value = job_status_value (j_status j);
               sr' = sr\<lparr>s_completed_at := Some now,
                        s_output := Some [(''job_id'', PStr (j_id j)), (''job_status'', PStr value)]\<rparr>
           in if j_status j = J_COMPLETED then sr'\<lparr>s_status := S_SUCCEEDED\<rparr>
              else sr'\<lparr>s_status := S_FAILED, s_error := Some (''Job ended in status '' @ value)\<rparr>))"

definition sync_change ::
    "time \<Rightarrow> db \<Rightarrow> compiled_graph \<Rightarrow> uuid list \<Rightarrow> step_run \<Rightarrow> exn + (step_run \<Rightarrow> step_run)" where
  "sync_change now d g targets sr =
    (if s_status sr \<noteq> S_RUNNING then Inr (\<lambda>x. x)
     else (case s_job sr of
         Some jid \<Rightarrow> (case sql_get j_id (jobs d) jid of None \<Rightarrow> Inr (\<lambda>x. x) | Some j \<Rightarrow> Inr (job_outcome now j))
       | None \<Rightarrow>
          (case find_step g (s_step sr) of
             None \<Rightarrow> Inr (\<lambda>x. x)
           | Some step \<Rightarrow>
              if normalize_type (step_type step) \<noteq> T_WAIT then Inr (\<lambda>x. x)
              else sum_bind (wait_for_agent_satisfied now d sr step targets) (\<lambda>(over, timed_out).
                Inr (if over then finish_step now S_SUCCEEDED
                     else if timed_out then fail_step now ''Timed out waiting for a fresh agent heartbeat''
                     else (\<lambda>x. x))))))"

fun sync_steps :: "time \<Rightarrow> compiled_graph \<Rightarrow> uuid list \<Rightarrow> step_run list \<Rightarrow> db \<Rightarrow> exn + db" where
  "sync_steps now g targets [] d = Inr d"
| "sync_steps now g targets (sr # srs) d =
    (case sync_change now d g targets sr of
       Inl e \<Rightarrow> Inl e
     | Inr f \<Rightarrow> sync_steps now g targets srs (set_step (s_run sr) (s_step sr) f d))"

text \<open>Second part: which pending steps are ready.\<close>

definition incoming_edges :: "compiled_graph \<Rightarrow> string \<Rightarrow> workflow_edge list" where
  "incoming_edges g sid = filter (\<lambda>e. e_to e = sid) (g_edges g)"

definition settled :: "step_status \<Rightarrow> bool" where
  "settled s = (s \<in> {S_SUCCEEDED, S_FAILED, S_SKIPPED})"

fun preds_terminal :: "(string \<Rightarrow> step_status option) \<Rightarrow> workflow_edge list \<Rightarrow> exn + bool" where
  "preds_terminal st [] = Inr True"
| "preds_terminal st (e # es) =
    (case st (e_from e) of
       None \<Rightarrow> Inl (KeyError (e_from e))
     | Some s \<Rightarrow> if settled s then preds_terminal st es else Inr False)"

definition edge_matches :: "(string \<Rightarrow> step_status option) \<Rightarrow> workflow_edge \<Rightarrow> bool" where
  "edge_matches st e =
    (e_on e = ''always''
     \<or> (e_on e = ''success'' \<and> st (e_from e) = Some S_SUCCEEDED)
     \<or> (e_on e = ''failure'' \<and> st (e_from e) = Some S_FAILED))"

datatype readiness = Blocked | Ready | Unmatched

definition readiness_of :: "(string \<Rightarrow> step_status option) \<Rightarrow> workflow_edge list \<Rightarrow> exn + readiness" where
  "readiness_of st es =
    (if es = [] then Inr Ready
     else sum_bind (preds_terminal st es) (\<lambda>terminal.
       Inr (if \<not> terminal then Blocked else if list_ex (edge_matches st) es then Ready else Unmatched)))"

text \<open>The result of handling a step: an exception with what was committed by then, or the session and
  whether an approval now blocks the run.\<close>

type_synonym tick = "(exn \<times> session) + (session \<times> bool)"

definition put_step :: "uuid \<Rightarrow> string \<Rightarrow> (step_run \<Rightarrow> step_run) \<Rightarrow> session \<Rightarrow> session" where
  "put_step run sid f se = se\<lparr>se_db := set_step run sid f (se_db se)\<rparr>"

definition caught :: "exn \<Rightarrow> bool" where
  "caught e = (case e of WorkflowRunError _ \<Rightarrow> True | ValueError _ \<Rightarrow> True | _ \<Rightarrow> False)"

definition is_run_error :: "exn \<Rightarrow> bool" where
  "is_run_error e = (case e of WorkflowRunError _ \<Rightarrow> True | _ \<Rightarrow> False)"

definition condition_outcome :: "world \<Rightarrow> time \<Rightarrow> workflow_run \<Rightarrow> workflow_step \<Rightarrow> db \<Rightarrow> step_run \<Rightarrow> step_run" where
  "condition_outcome w now r step d sr =
    (let expression = pystr (py_or (cfg_get (step_config step) ''expression'') (PStr [])) in
     case evaluate_condition (wd_py w) (wd_parse w) expression (build_condition_context d r) of
       Inl e \<Rightarrow> fail_step now (''Condition expression error: '' @ wd_expr_text w e) sr
     | Inr result \<Rightarrow>
         sr\<lparr>s_status := (if result then S_SUCCEEDED else S_FAILED),
            s_output := Some [(''expression'', PStr expression), (''result'', PBool result)],
            s_error := (if result then s_error sr else Some ''Condition evaluated to false''),
            s_completed_at := Some now\<rparr>)"

definition start_step :: "world \<Rightarrow> time \<Rightarrow> workflow_run \<Rightarrow> workflow_step \<Rightarrow> session \<Rightarrow> tick" where
  "start_step w now r step se =
    (let run = w_id r; sid = step_id step; config = step_config step in
     case normalize_type (step_type step) of
       T_START \<Rightarrow> Inr (put_step run sid (finish_step now S_SUCCEEDED) se, False)
     | T_END \<Rightarrow> Inr (put_step run sid (finish_step now
          (if py_or (cfg_get config ''outcome'') (PStr ''success'') = PStr ''failure'' then S_FAILED else S_SUCCEEDED)) se, False)
     | T_APPROVAL \<Rightarrow> Inr (put_step run sid (\<lambda>sr. sr\<lparr>s_status := S_WAITING_APPROVAL\<rparr>) se, True)
     | T_CONDITION \<Rightarrow>
         if se_expired se then Inl (expired_access, se)
         else Inr (put_step run sid (condition_outcome w now r step (se_db se)) se, False)
     | T_WAIT \<Rightarrow>
         if py_or (cfg_get config ''mode'') (PStr ''agent'') = PStr ''condition''
         then Inr (put_step run sid (fail_step now (''wait mode '' @ [sq] @ ''condition'' @ [sq] @ '' is not supported yet'')) se, False)
         else Inr (put_step run sid (\<lambda>sr. sr\<lparr>s_status := S_RUNNING, s_started_at := Some now\<rparr>) se, False)
     | T_NOTIFICATION \<Rightarrow>
         if se_expired se then Inl (expired_access, se)
         else (case dispatch_notification w step run se of
             (None, se') \<Rightarrow> Inr (put_step run sid (finish_step now S_SUCCEEDED) se', False)
           | (Some e, se') \<Rightarrow>
               if is_run_error e then Inr (put_step run sid (fail_step now (exn_text e)) se', False) else Inl (e, se'))
     | T_WEBHOOK \<Rightarrow>
         (case dispatch_webhook w step of
            None \<Rightarrow> Inr (put_step run sid (finish_step now S_SUCCEEDED) se, False)
          | Some e \<Rightarrow> if is_run_error e then Inr (put_step run sid (fail_step now (exn_text e)) se, False) else Inl (e, se))
     | _ \<Rightarrow>
         if se_expired se then Inl (expired_access, se)
         else (case dispatch_step w now step (w_agent_ids r) run se of
             Dispatched j se' \<Rightarrow> Inr (put_step run sid
                (\<lambda>sr. sr\<lparr>s_job := Some (j_id j), s_status := S_RUNNING, s_started_at := Some now\<rparr>) se', False)
           | Raised e se' \<Rightarrow>
               if caught e then Inr (put_step run sid (fail_step now (exn_text e)) se', False) else Inl (e, se')))"

definition process_step :: "world \<Rightarrow> time \<Rightarrow> compiled_graph \<Rightarrow> workflow_run \<Rightarrow> workflow_step \<Rightarrow> session \<Rightarrow> tick" where
  "process_step w now g r step se =
    (let run = w_id r; sid = step_id step; st = status_of (se_db se) run in
     case st sid of
       None \<Rightarrow> Inl (KeyError sid, se)
     | Some status \<Rightarrow>
        if status \<noteq> S_PENDING then Inr (se, False)
        else (case readiness_of st (incoming_edges g sid) of
            Inl e \<Rightarrow> Inl (e, se)
          | Inr Blocked \<Rightarrow> Inr (se, False)
          | Inr Unmatched \<Rightarrow> Inr (put_step run sid (finish_step now S_SKIPPED) se, False)
          | Inr Ready \<Rightarrow>
              if step_disabled step then Inr (put_step run sid (finish_step now S_SKIPPED) se, False)
              else start_step w now r step se))"

fun process_steps ::
    "world \<Rightarrow> time \<Rightarrow> compiled_graph \<Rightarrow> workflow_run \<Rightarrow> workflow_step list \<Rightarrow> session \<Rightarrow> bool \<Rightarrow> tick" where
  "process_steps w now g r [] se blocked = Inr (se, blocked)"
| "process_steps w now g r (step # steps) se blocked =
    (case process_step w now g r step se of
       Inl x \<Rightarrow> Inl x
     | Inr (se', b) \<Rightarrow> process_steps w now g r steps se' (blocked \<or> b))"

text \<open>Third part: the run waits for an approval, has ended, or goes on.\<close>

definition still_active :: "step_status \<Rightarrow> bool" where
  "still_active s = (s \<in> {S_PENDING, S_RUNNING, S_WAITING_APPROVAL})"

definition close_tick :: "time \<Rightarrow> uuid \<Rightarrow> bool \<Rightarrow> db \<Rightarrow> db" where
  "close_tick now run blocked d =
    (if blocked then set_run run (\<lambda>r. r\<lparr>w_status := W_WAITING_APPROVAL\<rparr>) d
     else if list_ex (\<lambda>sr. still_active (s_status sr)) (run_steps d run) then d
     else set_run run (\<lambda>r. r\<lparr>w_status :=
            (if list_ex (\<lambda>sr. s_status sr = S_FAILED) (run_steps d run) then W_FAILED else W_SUCCEEDED),
            w_completed_at := Some now\<rparr>) d)"

definition advance_run :: "world \<Rightarrow> time \<Rightarrow> uuid \<Rightarrow> session \<Rightarrow> exn option \<times> session" where
  "advance_run w now run se =
    (if se_expired se then (Some expired_access, se)
     else (case sql_get w_id (runs (se_db se)) run of
        None \<Rightarrow> (None, se)
      | Some r \<Rightarrow>
         if w_status r \<noteq> W_RUNNING then (None, se)
         else (case sql_get v_id (versions (se_db se)) (w_version r) of
            None \<Rightarrow> (None, commit (se\<lparr>se_db := set_run run
                (\<lambda>r. r\<lparr>w_status := W_FAILED, w_error := Some ''workflow version referenced by this run no longer exists'',
                       w_completed_at := Some now\<rparr>) (se_db se)\<rparr>))
          | Some v \<Rightarrow>
             (case sync_steps now (v_graph v) (w_agent_ids r) (run_steps (se_db se) run) (se_db se) of
                Inl e \<Rightarrow> (Some e, se)
              | Inr d1 \<Rightarrow>
                 (case process_steps w now (v_graph v) r (g_steps (v_graph v)) (se\<lparr>se_db := d1\<rparr>) False of
                    Inl (e, se') \<Rightarrow> (Some e, se')
                  | Inr (se', blocked) \<Rightarrow>
                      (None, commit (se'\<lparr>se_db := close_tick now run blocked (se_db se')\<rparr>)))))))"

section \<open>Starting a run\<close>

text \<open>\<open>targets.model_dump(mode="json", exclude_none=True)\<close>.\<close>

definition dump_field :: "string \<Rightarrow> ('a \<Rightarrow> pv) \<Rightarrow> 'a option \<Rightarrow> config" where
  "dump_field k f x = (case x of None \<Rightarrow> [] | Some v \<Rightarrow> [(k, f v)])"

definition dump_filters :: "target_filters \<Rightarrow> config" where
  "dump_filters f = dump_field ''os_family'' PStr (f_os_family f) @ dump_field ''os_distro'' PStr (f_os_distro f)
     @ dump_field ''category_id'' PStr (f_category_id f) @ dump_field ''project_id'' PStr (f_project_id f)
     @ dump_field ''status'' PStr (f_status f)"

definition dump_targets :: "targets \<Rightarrow> config" where
  "dump_targets t = dump_field ''all'' PBool (t_all t)
     @ dump_field ''agent_ids'' (\<lambda>ids. PList (map PStr ids)) (t_agent_ids t)
     @ dump_field ''filters'' (\<lambda>f. PDict (dump_filters f)) (t_filters t)"

definition new_step_run :: "uuid \<Rightarrow> workflow_step \<Rightarrow> step_run" where
  "new_step_run run step = \<lparr>s_run = run, s_step = step_id step, s_status = S_PENDING, s_job = None,
     s_started_at = None, s_completed_at = None, s_output = None, s_error = None\<rparr>"

text \<open>The published graph and the agents of a run about to start, or why it does not.\<close>

definition run_inputs :: "world \<Rightarrow> uuid \<Rightarrow> db \<Rightarrow> exn + (workflow_version \<times> uuid list)" where
  "run_inputs w workflow_id d =
    (case sql_get wf_id (workflows d) workflow_id of
       None \<Rightarrow> Inl (HTTPException 404 ''Workflow not found'')
     | Some flow \<Rightarrow>
        (case wf_current_version flow of
           None \<Rightarrow> Inl (HTTPException 409 ''Workflow has no published version'')
         | Some vid \<Rightarrow>
            (case sql_get v_id (versions d) vid of
               None \<Rightarrow> Inl (HTTPException 409 ''Workflow's current version is not published'')
             | Some v \<Rightarrow>
                if v_status v \<noteq> V_PUBLISHED then Inl (HTTPException 409 ''Workflow's current version is not published'')
                else (case validate_step_inputs (wd_is_ip w) (g_steps (v_graph v)) of
                    Some e \<Rightarrow> Inl e
                  | None \<Rightarrow>
                     sum_bind (resolve_targets (dump_targets (g_targets (v_graph v))) d) (\<lambda>ids.
                       if ids = [] then Inl (HTTPException 422 ''No agents match this workflow's targets'')
                       else Inr (v, ids))))))"

definition new_run :: "uuid \<Rightarrow> uuid \<Rightarrow> time \<Rightarrow> workflow_version \<Rightarrow> uuid list \<Rightarrow> string \<Rightarrow> uuid option \<Rightarrow> string option \<Rightarrow> bool
    \<Rightarrow> workflow_run" where
  "new_run run_id workflow_id now v ids trigger by actor dry =
    \<lparr>w_id = run_id, w_workflow = workflow_id, w_version = v_id v, w_status = W_RUNNING, w_trigger_type = trigger,
     w_triggered_by = by, w_triggered_by_actor = actor, w_agent_ids = ids, w_vars = g_vars (v_graph v),
     w_is_dry_run = dry, w_started_at = Some now, w_completed_at = None, w_error = None\<rparr>"

definition insert_run :: "workflow_run \<Rightarrow> workflow_step list \<Rightarrow> db \<Rightarrow> db" where
  "insert_run r steps d = d\<lparr>runs := runs d @ [r], step_runs := step_runs d @ map (new_step_run (w_id r)) steps\<rparr>"

definition start_run ::
    "world \<Rightarrow> time \<Rightarrow> uuid \<Rightarrow> uuid \<Rightarrow> string \<Rightarrow> uuid option \<Rightarrow> string option \<Rightarrow> bool \<Rightarrow> session \<Rightarrow> exn option \<times> session" where
  "start_run w now run_id workflow_id trigger by actor dry se =
    (case run_inputs w workflow_id (se_db se) of
       Inl e \<Rightarrow> (Some e, se)
     | Inr (v, ids) \<Rightarrow>
        (let r = new_run run_id workflow_id now v ids trigger by actor dry;
             se1 = commit (se\<lparr>se_db := insert_run r (g_steps (v_graph v)) (se_db se), se_expired := False\<rparr>);
             (res, se2) = (if dry then (None, se1) else advance_run w now run_id se1)
         in (res, se2\<lparr>se_expired := se_expired se \<or> se_expired se2\<rparr>)))"

section \<open>The preview\<close>

record dry_run_step =
  ds_id :: string
  ds_type :: string
  ds_eligible :: nat
  ds_blocked :: nat

record dry_run_response =
  dr_matched :: nat
  dr_targets :: "uuid list"
  dr_steps :: "dry_run_step list"
  dr_seconds :: int
  dr_approvals :: "string list"

definition step_estimate :: "workflow_step \<Rightarrow> exn + int" where
  "step_estimate step =
    (let normalized = normalize_type (step_type step); config = step_config step in
     if normalized \<in> {T_START, T_END, T_CONDITION, T_APPROVAL, T_NOTIFICATION, T_WEBHOOK} then Inr 0
     else if normalized = T_WAIT then
       (if py_or (cfg_get config ''mode'') (PStr ''agent'') = PStr ''duration'' then cfg_int config ''seconds'' 0
        else sum_bind (cfg_int config ''min_heartbeats'' 1) (\<lambda>n. Inr (n * HEARTBEAT_INTERVAL_SECONDS)))
     else Inr HEARTBEAT_INTERVAL_SECONDS)"

fun estimate_steps :: "workflow_step list \<Rightarrow> exn + int" where
  "estimate_steps [] = Inr 0"
| "estimate_steps (step # steps) =
    (case step_estimate step of
       Inl e \<Rightarrow> Inl e
     | Inr n \<Rightarrow> (case estimate_steps steps of Inl e \<Rightarrow> Inl e | Inr m \<Rightarrow> Inr (n + m)))"

definition dry_run :: "uuid \<Rightarrow> db \<Rightarrow> exn + dry_run_response" where
  "dry_run workflow_id d =
    (case sql_get wf_id (workflows d) workflow_id of
       None \<Rightarrow> Inl (HTTPException 404 ''Workflow not found'')
     | Some flow \<Rightarrow>
        (case wf_current_version flow of
           None \<Rightarrow> Inl (HTTPException 409 ''Workflow has no published version'')
         | Some vid \<Rightarrow>
            (case sql_get v_id (versions d) vid of
               None \<Rightarrow> Inl (HTTPException 409 ''Workflow's current version could not be loaded'')
             | Some v \<Rightarrow>
                sum_bind (resolve_targets (dump_targets (g_targets (v_graph v))) d) (\<lambda>ids.
                sum_bind (estimate_steps (g_steps (v_graph v))) (\<lambda>seconds.
                  Inr \<lparr>dr_matched = length ids, dr_targets = ids,
                       dr_steps = map (\<lambda>st. \<lparr>ds_id = step_id st, ds_type = type_value (step_type st),
                                              ds_eligible = length ids, ds_blocked = 0\<rparr>) (g_steps (v_graph v)),
                       dr_seconds = seconds,
                       dr_approvals = map step_id (filter (\<lambda>st. step_type st = T_APPROVAL) (g_steps (v_graph v)))\<rparr>)))))"

section \<open>Approving, rejecting, cancelling\<close>

definition waiting_step :: "uuid \<Rightarrow> string \<Rightarrow> db \<Rightarrow> exn + (workflow_run \<times> step_run)" where
  "waiting_step run sid d =
    (case sql_get w_id (runs d) run of
       None \<Rightarrow> Inl (HTTPException 404 ''Workflow run not found'')
     | Some r \<Rightarrow>
        (case step_of d run sid of
           None \<Rightarrow> Inl (HTTPException 404 (''Step '' @ [sq] @ sid @ [sq] @ '' not found in this run''))
         | Some sr \<Rightarrow>
            if s_status sr \<noteq> S_WAITING_APPROVAL
            then Inl (HTTPException 409 (''Step '' @ [sq] @ sid @ [sq] @ '' is not waiting for approval (status: ''
                   @ step_status_value (s_status sr) @ '')''))
            else Inr (r, sr)))"

definition triggered_by_approver :: "workflow_run \<Rightarrow> uuid option \<Rightarrow> string option \<Rightarrow> bool" where
  "triggered_by_approver r actor actor_id =
    ((actor_id \<noteq> None \<and> w_triggered_by_actor r = actor_id)
     \<or> (actor \<noteq> None \<and> w_triggered_by r \<noteq> None \<and> actor = w_triggered_by r))"

definition published_by_approver :: "workflow_run \<Rightarrow> uuid option \<Rightarrow> string option \<Rightarrow> db \<Rightarrow> bool" where
  "published_by_approver r actor actor_id d =
    (case sql_get v_id (versions d) (w_version r) of
       None \<Rightarrow> False
     | Some v \<Rightarrow> (actor_id \<noteq> None \<and> v_published_by_actor v = actor_id) \<or> (actor \<noteq> None \<and> v_published_by v = actor))"

definition approve_step ::
    "world \<Rightarrow> time \<Rightarrow> uuid \<Rightarrow> string \<Rightarrow> uuid option \<Rightarrow> string option \<Rightarrow> session \<Rightarrow> exn option \<times> session" where
  "approve_step w now run sid actor actor_id se =
    (case waiting_step run sid (se_db se) of
       Inl e \<Rightarrow> (Some e, se)
     | Inr (r, sr) \<Rightarrow>
        if triggered_by_approver r actor actor_id
        then (Some (HTTPException 403 ''You cannot approve a run you triggered yourself''), se)
        else if published_by_approver r actor actor_id (se_db se)
        then (Some (HTTPException 403 ''You cannot approve a run of a version you published''), se)
        else advance_run w now run
               (commit (se\<lparr>se_db := set_run run (\<lambda>r. r\<lparr>w_status := W_RUNNING\<rparr>)
                  (set_step run sid (finish_step now S_SUCCEEDED) (se_db se))\<rparr>)))"

definition skip_dangling :: "time \<Rightarrow> uuid \<Rightarrow> string \<Rightarrow> db \<Rightarrow> db" where
  "skip_dangling now run sid d = d\<lparr>step_runs := sql_update
      (\<lambda>sr. s_run sr = run \<and> s_step sr \<noteq> sid \<and> s_status sr \<in> {S_PENDING, S_WAITING_APPROVAL})
      (finish_step now S_SKIPPED) (step_runs d)\<rparr>"

definition end_run :: "time \<Rightarrow> run_status \<Rightarrow> workflow_run \<Rightarrow> workflow_run" where
  "end_run now st r = r\<lparr>w_status := st, w_completed_at := Some now\<rparr>"

definition reject_step :: "time \<Rightarrow> uuid \<Rightarrow> string \<Rightarrow> db \<Rightarrow> exn + db" where
  "reject_step now run sid d =
    sum_bind (waiting_step run sid d) (\<lambda>_.
      Inr (set_run run (end_run now W_FAILED)
        (skip_dangling now run sid (set_step run sid (fail_step now ''Rejected by approver'') d))))"

definition cancel_run :: "time \<Rightarrow> uuid \<Rightarrow> db \<Rightarrow> exn + db" where
  "cancel_run now run d =
    (case sql_get w_id (runs d) run of
       None \<Rightarrow> Inl (HTTPException 404 ''Workflow run not found'')
     | Some r \<Rightarrow>
        if w_status r \<in> {W_SUCCEEDED, W_FAILED, W_CANCELLED}
        then Inl (HTTPException 409 (''Run already terminal (status: '' @ run_status_value (w_status r) @ '')''))
        else Inr (set_run run (end_run now W_CANCELLED)
          (d\<lparr>step_runs := sql_update (\<lambda>sr. s_run sr = run \<and> still_active (s_status sr))
               (finish_step now S_CANCELLED) (step_runs d),
             jobs := sql_update (\<lambda>j. list_ex (\<lambda>sr. s_status sr = S_RUNNING \<and> s_job sr = Some (j_id j)) (run_steps d run)
                                     \<and> j_status j \<in> {J_QUEUED, J_SCHEDULED})
               (\<lambda>j. j\<lparr>j_status := J_CANCELLED\<rparr>) (jobs d)\<rparr>)))"

section \<open>The two workers\<close>

text \<open>The runner: every running run, in order; the first exception ends the tick.\<close>

fun runner_loop :: "world \<Rightarrow> time \<Rightarrow> uuid list \<Rightarrow> session \<Rightarrow> exn option \<times> session" where
  "runner_loop w now [] se = (None, se)"
| "runner_loop w now (run # rest) se =
    (case advance_run w now run se of
       (None, se') \<Rightarrow> runner_loop w now rest se'
     | (Some e, se') \<Rightarrow> (Some e, se'))"

definition runner_tick :: "world \<Rightarrow> time \<Rightarrow> db \<Rightarrow> exn option \<times> db" where
  "runner_tick w now d =
    (let (res, se) = runner_loop w now (map w_id (filter (\<lambda>r. w_status r = W_RUNNING) (runs d))) (open_session d)
     in (res, se_saved se))"

text \<open>The scheduler: due workflows are claimed by an update that still finds the next run seen before.\<close>

definition due_workflows :: "time \<Rightarrow> db \<Rightarrow> workflow list" where
  "due_workflows now d = filter (\<lambda>flow. wf_is_enabled flow \<and> wf_trigger_type flow = ''SCHEDULE''
     \<and> (case wf_next_run_at flow of None \<Rightarrow> False | Some t \<Rightarrow> t \<le> now) \<and> wf_current_version flow \<noteq> None) (workflows d)"

definition claim_workflow :: "time \<Rightarrow> time \<Rightarrow> workflow \<Rightarrow> db \<Rightarrow> bool \<times> db" where
  "claim_workflow now next flow d =
    (let mine = (\<lambda>r. wf_id r = wf_id flow \<and> wf_next_run_at r = wf_next_run_at flow \<and> wf_next_run_at r \<noteq> None)
     in (length (filter mine (workflows d)) = 1,
         d\<lparr>workflows := sql_update mine (\<lambda>r. r\<lparr>wf_next_run_at := Some next, wf_last_run_at := Some now\<rparr>) (workflows d)\<rparr>))"

definition claim_and_run ::
    "world \<Rightarrow> (string option \<Rightarrow> time \<Rightarrow> time option) \<Rightarrow> time \<Rightarrow> workflow \<Rightarrow> session \<Rightarrow> session" where
  "claim_and_run w cron now flow se =
    (case cron (wf_cron_expr flow) now of
       None \<Rightarrow> se
     | Some next \<Rightarrow>
        (let (claimed, d) = claim_workflow now next flow (se_db se); se1 = commit (se\<lparr>se_db := d\<rparr>)
         in if \<not> claimed then se1
            else snd (start_run w now (wd_new_id w d) (wf_id flow) ''SCHEDULE'' None None False se1)))"

fun scheduler_loop ::
    "world \<Rightarrow> (string option \<Rightarrow> time \<Rightarrow> time option) \<Rightarrow> time \<Rightarrow> workflow list \<Rightarrow> session \<Rightarrow> exn option \<times> session" where
  "scheduler_loop w cron now [] se = (None, se)"
| "scheduler_loop w cron now (flow # flows) se =
    (if se_expired se then (Some expired_access, se)
     else scheduler_loop w cron now flows (claim_and_run w cron now flow se))"

definition scheduler_tick :: "world \<Rightarrow> (string option \<Rightarrow> time \<Rightarrow> time option) \<Rightarrow> time \<Rightarrow> db \<Rightarrow> exn option \<times> db" where
  "scheduler_tick w cron now d =
    (let (res, se) = scheduler_loop w cron now (due_workflows now d) (open_session d) in (res, se_saved se))"

end
