(* ===== verification/WorkflowLaws.thy ===== *)
theory WorkflowLaws
  imports WorkflowEngine JobLaws
begin

text \<open>
  What the workflow engine guarantees about a run: how the statuses of its steps move, what gates a
  step, that a tick makes progress, what ends a run, and what the engine gets wrong. The invariant of a
  tick speaks of both halves of a session, so that it survives commits, rollbacks and exceptions.
\<close>

section \<open>The status of a step as a graded machine\<close>

fun step_next :: "step_status \<Rightarrow> step_status \<Rightarrow> bool" where
  "step_next S_PENDING t = (t \<noteq> S_PENDING)"
| "step_next S_RUNNING t = (t \<in> {S_SUCCEEDED, S_FAILED, S_CANCELLED})"
| "step_next S_WAITING_APPROVAL t = (t \<in> {S_SUCCEEDED, S_FAILED, S_SKIPPED, S_CANCELLED})"
| "step_next _ t = False"

definition step_final :: "step_status \<Rightarrow> bool" where
  "step_final s = (s \<in> {S_SUCCEEDED, S_FAILED, S_SKIPPED, S_CANCELLED})"

fun step_rank :: "step_status \<Rightarrow> nat" where
  "step_rank S_PENDING = 2"
| "step_rank S_RUNNING = 1"
| "step_rank S_WAITING_APPROVAL = 1"
| "step_rank _ = 0"

interpretation step_machine: graded_machine step_next step_final step_rank
proof
  show "\<not> step_next s t" if "step_final s" for s t using that by (cases s) (simp_all add: step_final_def)
  show "step_rank t < step_rank s" if "step_next s t" for s t using that by (cases s; cases t) simp_all
qed

lemma settled_final: "settled s \<Longrightarrow> step_final s"
  by (auto simp: settled_def step_final_def)

lemma not_to_pending: "\<not> step_next s S_PENDING"
  by (cases s) simp_all

lemma to_pending: "step_next\<^sup>*\<^sup>* s S_PENDING \<Longrightarrow> s = S_PENDING"
  by (erule rtranclp.cases) (auto simp: not_to_pending)

lemma settled_stays: "settled s \<Longrightarrow> step_next\<^sup>*\<^sup>* s t \<Longrightarrow> t = s"
  using step_machine.final_rtranclp settled_final by blast

section \<open>Statuses after an update\<close>

lemma step_of_set_step:
  assumes "\<And>sr. step_key (f sr) = step_key sr"
  shows "step_of (set_step run sid f d) run' sid' =
    (if run' = run \<and> sid' = sid then map_option f (step_of d run sid) else step_of d run' sid')"
  using step_table.get_modify [of f "(run, sid)" "step_runs d" "(run', sid')"] assms
  by (simp add: step_of_def set_step_def)

lemma status_of_set_step:
  assumes "\<And>sr. step_key (f sr) = step_key sr" and "step_of d run sid = Some sr"
  shows "status_of (set_step run sid f d) run = (status_of d run)(sid \<mapsto> s_status (f sr))"
    and "run' \<noteq> run \<Longrightarrow> status_of (set_step run sid f d) run' = status_of d run'"
  using assms(2) by (auto simp: status_of_def step_of_set_step [OF assms(1)] fun_eq_iff)

definition status_grows :: "(string \<Rightarrow> step_status option) \<Rightarrow> (string \<Rightarrow> step_status option) \<Rightarrow> bool" where
  "status_grows st st' = (\<forall>sid. rel_option step_next\<^sup>*\<^sup>* (st sid) (st' sid))"

lemma status_grows_refl [simp]: "status_grows st st"
  by (simp add: status_grows_def option.rel_refl)

lemma status_grows_trans: "status_grows a b \<Longrightarrow> status_grows b c \<Longrightarrow> status_grows a c"
  unfolding status_grows_def
proof (intro allI)
  fix sid
  assume "\<forall>sid. rel_option step_next\<^sup>*\<^sup>* (a sid) (b sid)" and "\<forall>sid. rel_option step_next\<^sup>*\<^sup>* (b sid) (c sid)"
  then have "rel_option step_next\<^sup>*\<^sup>* (a sid) (b sid)" "rel_option step_next\<^sup>*\<^sup>* (b sid) (c sid)" by blast+
  then show "rel_option step_next\<^sup>*\<^sup>* (a sid) (c sid)" by (auto simp: option_rel_Some1 option_rel_Some2 elim!: option.rel_cases)
qed

lemma status_grows_upd: "st sid = Some s \<Longrightarrow> step_next\<^sup>*\<^sup>* s t \<Longrightarrow> status_grows st (st(sid \<mapsto> t))"
  by (simp add: status_grows_def option.rel_refl)

lemma status_grows_SomeD:
  "status_grows st st' \<Longrightarrow> st sid = Some s \<Longrightarrow> \<exists>t. st' sid = Some t \<and> step_next\<^sup>*\<^sup>* s t"
  unfolding status_grows_def by (drule spec [of _ sid]) (auto elim: option.rel_cases)

lemma status_grows_back:
  "status_grows st st' \<Longrightarrow> st' sid = Some t \<Longrightarrow> \<exists>s. st sid = Some s \<and> step_next\<^sup>*\<^sup>* s t"
  unfolding status_grows_def by (drule spec [of _ sid]) (auto elim: option.rel_cases)

lemma status_grows_dom: "status_grows st st' \<Longrightarrow> dom st' = dom st"
  using status_grows_SomeD status_grows_back by (fastforce simp: dom_def)

lemma status_grows_pending: "status_grows st st' \<Longrightarrow> st' sid = Some S_PENDING \<Longrightarrow> st sid = Some S_PENDING"
  using status_grows_back to_pending by fastforce

lemma status_grows_settled: "status_grows st st' \<Longrightarrow> st sid = Some s \<Longrightarrow> settled s \<Longrightarrow> st' sid = Some s"
  using status_grows_SomeD settled_stays by fastforce

section \<open>What gates a step\<close>

definition gate :: "compiled_graph \<Rightarrow> (string \<Rightarrow> step_status option) \<Rightarrow> string \<Rightarrow> bool" where
  "gate g st sid =
    (incoming_edges g sid = []
     \<or> ((\<forall>e \<in> set (incoming_edges g sid). \<exists>s. st (e_from e) = Some s \<and> settled s)
        \<and> list_ex (edge_matches st) (incoming_edges g sid)))"

definition approval_id :: "compiled_graph \<Rightarrow> string \<Rightarrow> bool" where
  "approval_id g sid = (\<exists>st \<in> set (g_steps g). step_id st = sid \<and> step_type st = T_APPROVAL)"

definition started :: "step_status \<Rightarrow> bool" where
  "started s = (s \<in> {S_RUNNING, S_WAITING_APPROVAL, S_SUCCEEDED})"

definition run_ok :: "compiled_graph \<Rightarrow> string set \<Rightarrow> (string \<Rightarrow> step_status option) \<Rightarrow> bool" where
  "run_ok g cleared st =
    (dom st = step_id ` set (g_steps g)
     \<and> (\<forall>sid s. st sid = Some s \<longrightarrow>
          (started s \<longrightarrow> gate g st sid)
          \<and> (approval_id g sid \<longrightarrow> s \<noteq> S_RUNNING \<and> (s = S_SUCCEEDED \<longrightarrow> sid \<in> cleared))))"

lemma edge_matches_grows:
  "status_grows st st' \<Longrightarrow> edge_matches st e \<Longrightarrow> edge_matches st' e"
  unfolding edge_matches_def
  by (auto simp: settled_def dest: status_grows_settled)

lemma gate_grows:
  assumes "status_grows st st'" and "gate g st sid"
  shows "gate g st' sid"
  using assms status_grows_settled [OF assms(1)] edge_matches_grows [OF assms(1)]
  by (fastforce simp: gate_def list_ex_iff)

lemma run_ok_upd:
  assumes "run_ok g cleared st" and "st sid = Some s" and "step_next\<^sup>*\<^sup>* s t"
    and "started t \<Longrightarrow> gate g st sid"
    and "approval_id g sid \<Longrightarrow> t \<noteq> S_RUNNING \<and> (t = S_SUCCEEDED \<longrightarrow> sid \<in> cleared)"
  shows "run_ok g cleared (st(sid \<mapsto> t))"
proof -
  have grows: "status_grows st (st(sid \<mapsto> t))" using assms(2,3) by (rule status_grows_upd)
  have "(started u \<longrightarrow> gate g (st(sid \<mapsto> t)) x)
      \<and> (approval_id g x \<longrightarrow> u \<noteq> S_RUNNING \<and> (u = S_SUCCEEDED \<longrightarrow> x \<in> cleared))"
    if "(st(sid \<mapsto> t)) x = Some u" for x u
  proof (cases "x = sid")
    case True
    with that have "u = t" by simp
    with True assms(4,5) gate_grows [OF grows] show ?thesis by blast
  next
    case False
    with that have "st x = Some u" by simp
    with assms(1) gate_grows [OF grows] show ?thesis by (auto simp: run_ok_def)
  qed
  moreover have "dom (st(sid \<mapsto> t)) = step_id ` set (g_steps g)"
    using assms(1,2) by (auto simp: run_ok_def)
  ultimately show ?thesis unfolding run_ok_def by blast
qed

lemma run_ok_cleared: "run_ok g cleared st \<Longrightarrow> cleared \<subseteq> cleared' \<Longrightarrow> run_ok g cleared' st"
  by (auto simp: run_ok_def)

lemma readiness_Ready: "readiness_of st (incoming_edges g sid) = Inr Ready \<Longrightarrow> gate g st sid"
proof -
  have settled: "\<forall>e \<in> set es. \<exists>s. st (e_from e) = Some s \<and> settled s" if "preds_terminal st es = Inr True" for es
    using that by (induction es) (auto split: option.splits if_splits)
  assume "readiness_of st (incoming_edges g sid) = Inr Ready"
  with settled show ?thesis
    by (cases "preds_terminal st (incoming_edges g sid)")
      (auto simp: readiness_of_def gate_def split: if_splits)
qed

section \<open>The invariant of a tick\<close>

definition tick_view :: "db \<Rightarrow> uuid \<Rightarrow> compiled_graph \<Rightarrow> string set \<Rightarrow> db \<Rightarrow> bool" where
  "tick_view d0 run g cleared x =
    (runs x = runs d0 \<and> versions x = versions d0 \<and> workflows x = workflows d0
     \<and> map step_key (step_runs x) = map step_key (step_runs d0)
     \<and> (\<forall>run'. run' \<noteq> run \<longrightarrow> status_of x run' = status_of d0 run')
     \<and> status_grows (status_of d0 run) (status_of x run)
     \<and> run_ok g cleared (status_of x run))"

definition tick_inv :: "db \<Rightarrow> uuid \<Rightarrow> compiled_graph \<Rightarrow> string set \<Rightarrow> session \<Rightarrow> bool" where
  "tick_inv d0 run g cleared se =
    (tick_view d0 run g cleared (se_db se) \<and> tick_view d0 run g cleared (se_saved se)
     \<and> status_grows (status_of (se_saved se) run) (status_of (se_db se) run))"

lemma status_of_cong: "step_runs y = step_runs x \<Longrightarrow> status_of y = status_of x"
  by (simp add: status_of_def step_of_def fun_eq_iff)

lemma tick_view_cong:
  "tick_view d0 run g cleared x \<Longrightarrow> step_runs y = step_runs x \<Longrightarrow> runs y = runs x \<Longrightarrow> versions y = versions x \<Longrightarrow>
     workflows y = workflows x \<Longrightarrow> tick_view d0 run g cleared y"
  using status_of_cong [of y x] by (simp add: tick_view_def)

lemma tick_inv_commit: "tick_inv d0 run g cleared se \<Longrightarrow> tick_inv d0 run g cleared (commit se)"
  by (simp add: tick_inv_def commit_def)

lemma tick_inv_rollback: "tick_inv d0 run g cleared se \<Longrightarrow> tick_inv d0 run g cleared (rollback se)"
  by (simp add: tick_inv_def rollback_def)

lemma tick_inv_cong:
  assumes "tick_inv d0 run g cleared se" and "step_runs y = step_runs (se_db se)" and "runs y = runs (se_db se)"
    and "versions y = versions (se_db se)" and "workflows y = workflows (se_db se)"
  shows "tick_inv d0 run g cleared (se\<lparr>se_db := y\<rparr>)"
  using assms tick_view_cong [of d0 run g cleared "se_db se" y] status_of_cong [of y "se_db se"]
  by (simp add: tick_inv_def)

lemma step_of_key: "step_of d run sid = Some sr \<Longrightarrow> step_key sr = (run, sid)"
  unfolding step_of_def by (drule sql_get_SomeD) simp

lemma set_step_frame [simp]:
  "runs (set_step run sid f d) = runs d" "versions (set_step run sid f d) = versions d"
  "workflows (set_step run sid f d) = workflows d" "jobs (set_step run sid f d) = jobs d"
  "agents (set_step run sid f d) = agents d" "results (set_step run sid f d) = results d"
  by (simp_all add: set_step_def)

text \<open>Changing the row of a step, from a status that may move to the new one.\<close>

lemma tick_view_set_step:
  assumes view: "tick_view d0 run g cleared x" and row: "step_of x run sid = Some sr"
    and key: "\<And>sr. step_key (f sr) = step_key sr"
    and legal: "step_next\<^sup>*\<^sup>* (s_status sr) (s_status (f sr))"
    and gate: "started (s_status (f sr)) \<Longrightarrow> gate g (status_of x run) sid"
    and cleared: "approval_id g sid \<Longrightarrow> s_status (f sr) \<noteq> S_RUNNING \<and> (s_status (f sr) = S_SUCCEEDED \<longrightarrow> sid \<in> cleared)"
  shows "tick_view d0 run g cleared (set_step run sid f x)"
    and "status_grows (status_of x run) (status_of (set_step run sid f x) run)"
proof -
  have st: "status_of x run sid = Some (s_status sr)" using row by (simp add: status_of_def)
  note upd = status_of_set_step [OF key row]
  show grows: "status_grows (status_of x run) (status_of (set_step run sid f x) run)"
    unfolding upd(1) using st legal by (rule status_grows_upd)
  have "run_ok g cleared (status_of (set_step run sid f x) run)"
    unfolding upd(1) by (rule run_ok_upd [OF _ st legal gate cleared]) (use view in \<open>simp add: tick_view_def\<close>)
  moreover have "map step_key (step_runs (set_step run sid f x)) = map step_key (step_runs x)"
    unfolding set_step_def using key by (simp add: sql_modify_def map_key_sql_update)
  ultimately show "tick_view d0 run g cleared (set_step run sid f x)"
    using view upd(2) grows status_grows_trans by (auto simp: tick_view_def)
qed

lemma tick_inv_put:
  assumes inv: "tick_inv d0 run g cleared se" and row: "step_of (se_db se) run sid = Some sr"
    and key: "\<And>sr. step_key (f sr) = step_key sr"
    and legal: "step_next\<^sup>*\<^sup>* (s_status sr) (s_status (f sr))"
    and gate: "started (s_status (f sr)) \<Longrightarrow> gate g (status_of (se_db se) run) sid"
    and cleared: "approval_id g sid \<Longrightarrow> s_status (f sr) \<noteq> S_RUNNING \<and> (s_status (f sr) = S_SUCCEEDED \<longrightarrow> sid \<in> cleared)"
  shows "tick_inv d0 run g cleared (put_step run sid f se)"
proof -
  from inv have view: "tick_view d0 run g cleared (se_db se)" by (simp add: tick_inv_def)
  note upd = tick_view_set_step [OF view row key legal gate cleared]
  from inv upd(1) status_grows_trans [OF _ upd(2)] show ?thesis
    by (simp add: tick_inv_def put_step_def)
qed

lemma pending_any: "step_next\<^sup>*\<^sup>* S_PENDING t"
  by (cases "t = S_PENDING") (auto intro: r_into_rtranclp)

text \<open>A pending step: nothing but the gate and the approval rule has to be shown.\<close>

lemma tick_inv_put_pending:
  assumes "tick_inv d0 run g cleared se" and "status_of (se_db se) run sid = Some S_PENDING"
    and "\<And>sr. step_key (f sr) = step_key sr"
    and "\<And>sr. started (s_status (f sr)) \<Longrightarrow> gate g (status_of (se_db se) run) sid"
    and "\<And>sr. approval_id g sid \<Longrightarrow> s_status (f sr) \<noteq> S_RUNNING \<and> s_status (f sr) \<noteq> S_SUCCEEDED"
  shows "tick_inv d0 run g cleared (put_step run sid f se)"
proof -
  from assms(2) obtain sr where row: "step_of (se_db se) run sid = Some sr" and st: "s_status sr = S_PENDING"
    by (auto simp: status_of_def)
  show ?thesis
    by (rule tick_inv_put [OF assms(1) row assms(3)]) (use st assms(4,5) in \<open>simp_all add: pending_any\<close>)
qed

section \<open>Starting a step keeps the invariant\<close>

lemma create_alert_frame:
  "create_alert i t de sv a ty d = Inr (r, d') \<Longrightarrow>
     step_runs d' = step_runs d \<and> runs d' = runs d \<and> versions d' = versions d \<and> workflows d' = workflows d"
  by (auto simp: create_alert_def Let_def split: if_splits)

lemma create_job_frame:
  assumes "create_job sha256 new_id now args d = Inr (j, d')"
  shows "step_runs d' = step_runs d \<and> runs d' = runs d \<and> versions d' = versions d \<and> workflows d' = workflows d"
  using create_job_Inr [OF assms] by auto

text \<open>A side effect leaves the step rows of the session as they are, or rolls them back.\<close>

lemma dispatch_notification_inv:
  assumes "tick_inv d0 run g cleared se" and "dispatch_notification w step run se = (r, se')"
  shows "tick_inv d0 run g cleared se' \<and> step_runs (se_db se') = step_runs (se_db se)"
proof (cases "\<exists>e. se' = se \<and> r = Some e")
  case True
  with assms(1) show ?thesis by auto
next
  case False
  with assms(2) consider d where "se' = commit (se\<lparr>se_db := d\<rparr>)" and "step_runs d = step_runs (se_db se)"
      "runs d = runs (se_db se)" "versions d = versions (se_db se)" "workflows d = workflows (se_db se)"
    | "se' = commit se"
    by (auto simp: dispatch_notification_def Let_def dest!: create_alert_frame split: sum.splits option.splits prod.splits)
  then show ?thesis
  proof cases
    case 1
    with tick_inv_commit [OF tick_inv_cong [OF assms(1) 1(2-5)]] show ?thesis by (simp add: commit_def)
  next
    case 2
    with tick_inv_commit [OF assms(1)] show ?thesis by (simp add: commit_def)
  qed
qed

lemma dispatch_step_Dispatched:
  assumes "tick_inv d0 run g cleared se" and "dispatch_step w now step ids run se = Dispatched j se'"
  shows "tick_inv d0 run g cleared se' \<and> step_runs (se_db se') = step_runs (se_db se)"
proof -
  from assms(2) obtain args d where "create_job (wd_sha256 w) (wd_new_id w (se_db se)) now args (se_db se) = Inr (j, d)"
      and se': "se' = commit (se\<lparr>se_db := d\<rparr>)"
    by (auto simp: dispatch_step_def create_job_in_def split: sum.splits prod.splits if_splits)
  with create_job_frame have f: "step_runs d = step_runs (se_db se)" "runs d = runs (se_db se)"
    "versions d = versions (se_db se)" "workflows d = workflows (se_db se)" by blast+
  from tick_inv_commit [OF tick_inv_cong [OF assms(1) f]] f show ?thesis by (simp add: se' commit_def)
qed

lemma dispatch_step_Raised:
  assumes "dispatch_step w now step ids run se = Raised e se'"
  shows "se' = se \<or> se' = rollback se"
  using assms by (auto simp: dispatch_step_def create_job_in_def split: sum.splits prod.splits if_splits)

text \<open>How a started step leaves its row.\<close>

definition left_pending :: "uuid \<Rightarrow> string \<Rightarrow> session \<Rightarrow> bool" where
  "left_pending run sid se = (\<exists>s. status_of (se_db se) run sid = Some s \<and> s \<noteq> S_PENDING)"

lemma left_pending_put:
  assumes "status_of (se_db se) run sid \<noteq> None" and "\<And>sr. step_key (f sr) = step_key sr"
    and "\<And>sr. s_status (f sr) \<noteq> S_PENDING"
  shows "left_pending run sid (put_step run sid f se)"
proof -
  from assms(1) obtain sr where "step_of (se_db se) run sid = Some sr" by (auto simp: status_of_def)
  from status_of_set_step(1) [of f "se_db se" run sid, OF assms(2) this] assms(3) show ?thesis
    by (simp add: left_pending_def put_step_def)
qed

definition tick_ok :: "db \<Rightarrow> uuid \<Rightarrow> compiled_graph \<Rightarrow> string set \<Rightarrow> string \<Rightarrow> tick \<Rightarrow> bool" where
  "tick_ok d0 run g cleared sid res =
    (case res of
       Inl (e, se') \<Rightarrow> tick_inv d0 run g cleared se'
     | Inr (se', b) \<Rightarrow> tick_inv d0 run g cleared se' \<and> left_pending run sid se')"

lemma tick_ok_put:
  assumes "tick_inv d0 run g cleared se" and "status_of (se_db se) run sid = Some S_PENDING"
    and "\<And>sr. step_key (f sr) = step_key sr" and "\<And>sr. s_status (f sr) \<noteq> S_PENDING"
    and "\<And>sr. started (s_status (f sr)) \<Longrightarrow> gate g (status_of (se_db se) run) sid"
    and "\<And>sr. approval_id g sid \<Longrightarrow> s_status (f sr) \<noteq> S_RUNNING \<and> s_status (f sr) \<noteq> S_SUCCEEDED"
  shows "tick_ok d0 run g cleared sid (Inr (put_step run sid f se, b))"
  using tick_inv_put_pending [OF assms(1-3,5,6)] left_pending_put [of se run sid f] assms(2-4)
  by (simp add: tick_ok_def)

lemma finish_step_simps [simp]:
  "s_status (finish_step now st sr) = st" "step_key (finish_step now st sr) = step_key sr"
  "s_status (fail_step now m sr) = S_FAILED" "step_key (fail_step now m sr) = step_key sr"
  by (simp_all add: finish_step_def fail_step_def step_key_def)

lemma step_key_update [simp]:
  "step_key (sr\<lparr>s_status := a\<rparr>) = step_key sr" "step_key (sr\<lparr>s_started_at := b\<rparr>) = step_key sr"
  "step_key (sr\<lparr>s_job := c\<rparr>) = step_key sr"
  by (simp_all add: step_key_def)

lemma condition_outcome_simps [simp]:
  "step_key (condition_outcome w now r step d sr) = step_key sr"
  "s_status (condition_outcome w now r step d sr) \<in> {S_SUCCEEDED, S_FAILED}"
  by (simp_all add: condition_outcome_def Let_def step_key_def fail_step_def split: sum.split)

lemma not_started_FAILED [simp]: "\<not> started S_FAILED" "\<not> started S_SKIPPED" "\<not> started S_PENDING"
  by (simp_all add: started_def)

lemma normalize_approval: "normalize_type t = T_APPROVAL \<longleftrightarrow> t = T_APPROVAL"
  by (cases t) (simp_all add: normalize_type_def)

text \<open>A step that fails leaves no obligation, even after a rollback took its gate away.\<close>

lemma tick_ok_fail:
  assumes "tick_inv d0 run g cleared se" and "status_of (se_db se) run sid = Some S_PENDING"
  shows "tick_ok d0 run g cleared sid (Inr (put_step run sid (fail_step now m) se, b))"
  using assms by (rule tick_ok_put) simp_all

lemma rollback_pending:
  assumes "tick_inv d0 run g cleared se" and "status_of (se_db se) run sid = Some S_PENDING"
  shows "status_of (se_db (rollback se)) run sid = Some S_PENDING"
  using assms by (auto simp: tick_inv_def rollback_def intro: status_grows_pending)

lemma dispatch_kind_ok:
  assumes inv: "tick_inv d0 run g cleared se" and pending: "status_of (se_db se) run sid = Some S_PENDING"
    and gate: "gate g (status_of (se_db se) run) sid" and plain: "\<not> approval_id g sid"
  shows "tick_ok d0 run g cleared sid
    (case dispatch_step w now step ids run se of
       Dispatched j se' \<Rightarrow> Inr (put_step run sid
          (\<lambda>sr. sr\<lparr>s_job := Some (j_id j), s_status := S_RUNNING, s_started_at := Some now\<rparr>) se', False)
     | Raised e se' \<Rightarrow>
         if caught e then Inr (put_step run sid (fail_step now (exn_text e)) se', False) else Inl (e, se'))"
proof (cases "dispatch_step w now step ids run se")
  case (Dispatched j se')
  from dispatch_step_Dispatched [OF inv Dispatched] have inv': "tick_inv d0 run g cleared se'"
    and st: "status_of (se_db se') = status_of (se_db se)" by (auto intro: status_of_cong)
  have "tick_ok d0 run g cleared sid (Inr (put_step run sid
          (\<lambda>sr. sr\<lparr>s_job := Some (j_id j), s_status := S_RUNNING, s_started_at := Some now\<rparr>) se', False))"
    by (rule tick_ok_put [OF inv']) (use st pending gate plain in simp_all)
  with Dispatched show ?thesis by simp
next
  case (Raised e se')
  from dispatch_step_Raised [OF Raised] have "tick_inv d0 run g cleared se'"
    and "status_of (se_db se') run sid = Some S_PENDING"
    using inv pending tick_inv_rollback rollback_pending by auto
  with Raised tick_ok_fail show ?thesis by (simp add: tick_ok_def)
qed

lemma start_step_ok:
  assumes inv: "tick_inv d0 run g cleared se" and pending: "status_of (se_db se) run sid = Some S_PENDING"
    and gate: "gate g (status_of (se_db se) run) sid"
    and run: "w_id r = run" and sid: "step_id step = sid"
    and approval: "approval_id g sid \<longleftrightarrow> step_type step = T_APPROVAL"
  shows "tick_ok d0 run g cleared sid (start_step w now r step se)"
proof -
  let ?t = "normalize_type (step_type step)"
  have plain: "\<not> approval_id g sid" if "?t \<noteq> T_APPROVAL" using that approval normalize_approval by simp
  have fails: "tick_ok d0 run g cleared sid (Inl (e, se))" for e using inv by (simp add: tick_ok_def)
  note fail = tick_ok_fail [OF inv pending]
  have fin: "tick_ok d0 run g cleared sid (Inr (put_step run sid (finish_step now u) se, b))"
    if "\<not> approval_id g sid" "u \<noteq> S_PENDING" for u b
    by (rule tick_ok_put [OF inv pending]) (use that gate in simp_all)
  have wait: "tick_ok d0 run g cleared sid
      (Inr (put_step run sid (\<lambda>sr. sr\<lparr>s_status := S_RUNNING, s_started_at := Some now\<rparr>) se, b))"
    if "\<not> approval_id g sid" for b
    by (rule tick_ok_put [OF inv pending]) (use that gate in simp_all)
  have hold: "tick_ok d0 run g cleared sid (Inr (put_step run sid (\<lambda>sr. sr\<lparr>s_status := S_WAITING_APPROVAL\<rparr>) se, b))" for b
    by (rule tick_ok_put [OF inv pending]) (use gate in simp_all)
  consider "?t = T_APPROVAL" | "?t = T_START" | "?t = T_END" | "?t = T_CONDITION" | "?t = T_WAIT" | "?t = T_NOTIFICATION"
    | "?t = T_WEBHOOK" | "?t \<notin> {T_APPROVAL, T_START, T_END, T_CONDITION, T_WAIT, T_NOTIFICATION, T_WEBHOOK}" by auto
  then show ?thesis
  proof cases
    case 1
    then show ?thesis unfolding start_step_def Let_def by (simp add: run sid hold)
  next
    case 2
    with plain show ?thesis unfolding start_step_def Let_def by (simp add: run sid fin)
  next
    case 3
    with plain show ?thesis unfolding start_step_def Let_def by (simp add: run sid fin)
  next
    case 4
    have "tick_ok d0 run g cleared sid (Inr (put_step run sid (condition_outcome w now r step (se_db se)) se, False))"
    proof (rule tick_ok_put [OF inv pending])
      show "s_status (condition_outcome w now r step (se_db se) sr) \<noteq> S_PENDING" for sr
        using condition_outcome_simps(2) [of w now r step "se_db se" sr] by auto
    qed (use gate 4 plain in auto)
    with 4 fails show ?thesis unfolding start_step_def Let_def by (simp add: run sid)
  next
    case 5
    with plain show ?thesis unfolding start_step_def Let_def by (simp add: run sid wait fail)
  next
    case 6
    obtain res se' where n: "dispatch_notification w step run se = (res, se')" by fastforce
    from dispatch_notification_inv [OF inv n] have inv': "tick_inv d0 run g cleared se'"
      and st: "status_of (se_db se') = status_of (se_db se)" by (auto intro: status_of_cong)
    note fail' = tick_ok_fail [OF inv']
    have fin': "tick_ok d0 run g cleared sid (Inr (put_step run sid (finish_step now S_SUCCEEDED) se', b))" for b
      by (rule tick_ok_put [OF inv']) (use 6 plain st pending gate in simp_all)
    have "tick_ok d0 run g cleared sid (Inl (e, se'))" for e using inv' by (simp add: tick_ok_def)
    with 6 plain n fails show ?thesis unfolding start_step_def Let_def
      by (auto simp: run sid fin' fail' st pending split: option.split)
  next
    case 7
    with plain fails show ?thesis unfolding start_step_def Let_def
      by (auto simp: run sid fin fail split: option.split)
  next
    case 8
    then have "start_step w now r step se =
      (if se_expired se then Inl (expired_access, se)
       else (case dispatch_step w now step (w_agent_ids r) run se of
             Dispatched j se' \<Rightarrow> Inr (put_step run sid
                (\<lambda>sr. sr\<lparr>s_job := Some (j_id j), s_status := S_RUNNING, s_started_at := Some now\<rparr>) se', False)
           | Raised e se' \<Rightarrow>
               if caught e then Inr (put_step run sid (fail_step now (exn_text e)) se', False) else Inl (e, se')))"
      unfolding start_step_def Let_def run sid by (auto split: node_type.split)
    moreover from 8 plain have "\<not> approval_id g sid" by simp
    ultimately show ?thesis using dispatch_kind_ok [OF inv pending gate] fails by simp
  qed
qed

text \<open>One step of the list: nothing happens unless the step is pending and its predecessors are settled;
  otherwise it leaves the pending state.\<close>

definition actionable :: "compiled_graph \<Rightarrow> (string \<Rightarrow> step_status option) \<Rightarrow> string \<Rightarrow> bool" where
  "actionable g st sid =
    (st sid = Some S_PENDING \<and> readiness_of st (incoming_edges g sid) \<noteq> Inr Blocked)"

lemma process_step_ok:
  assumes inv: "tick_inv d0 run g cleared se" and run: "w_id r = run"
    and approval: "approval_id g (step_id step) \<longleftrightarrow> step_type step = T_APPROVAL"
  shows "(case process_step w now g r step se of
      Inl (e, se') \<Rightarrow> tick_inv d0 run g cleared se'
    | Inr (se', b) \<Rightarrow> tick_inv d0 run g cleared se'
        \<and> (if actionable g (status_of (se_db se) run) (step_id step)
           then left_pending run (step_id step) se' else se' = se \<and> \<not> b))"
proof (cases "actionable g (status_of (se_db se) run) (step_id step)")
  case False
  with inv show ?thesis
    by (auto simp: process_step_def Let_def run actionable_def split: option.split sum.split readiness.split)
next
  case True
  then have pending: "status_of (se_db se) run (step_id step) = Some S_PENDING"
    and ready: "readiness_of (status_of (se_db se) run) (incoming_edges g (step_id step)) \<noteq> Inr Blocked"
    by (simp_all add: actionable_def)
  have skip: "tick_ok d0 run g cleared (step_id step) (Inr (put_step run (step_id step) (finish_step now S_SKIPPED) se, False))"
    by (rule tick_ok_put [OF inv pending]) simp_all
  have "tick_ok d0 run g cleared (step_id step) (process_step w now g r step se)"
  proof (cases "readiness_of (status_of (se_db se) run) (incoming_edges g (step_id step))")
    case (Inl e)
    with pending inv show ?thesis by (simp add: process_step_def run tick_ok_def)
  next
    case (Inr rd)
    then show ?thesis
      using pending skip ready readiness_Ready [of "status_of (se_db se) run" g "step_id step"]
        start_step_ok [OF inv pending _ run refl approval]
      by (cases rd) (simp_all add: process_step_def run)
  qed
  with True show ?thesis by (auto simp: tick_ok_def split: sum.splits prod.splits)
qed

section \<open>A whole tick keeps the invariant and makes progress\<close>

definition progressed :: "db \<Rightarrow> uuid \<Rightarrow> session \<Rightarrow> bool" where
  "progressed d0 run se = (\<exists>sid. status_of d0 run sid = Some S_PENDING \<and> left_pending run sid se)"

lemma process_steps_ok:
  assumes "tick_inv d0 run g cleared se" and "w_id r = run"
    and "\<forall>step \<in> set steps. approval_id g (step_id step) \<longleftrightarrow> step_type step = T_APPROVAL"
  shows "(case process_steps w now g r steps se b of
      Inl (e, se') \<Rightarrow> tick_inv d0 run g cleared se'
    | Inr (se', b') \<Rightarrow> tick_inv d0 run g cleared se'
        \<and> (progressed d0 run se'
           \<or> (se' = se \<and> b' = b \<and> (\<forall>step \<in> set steps. \<not> actionable g (status_of (se_db se) run) (step_id step)))))"
  using assms
proof (induction steps arbitrary: se b)
  case Nil
  then show ?case by simp
next
  case (Cons step steps)
  let ?sid = "step_id step"
  from Cons.prems(3) have approval: "approval_id g ?sid \<longleftrightarrow> step_type step = T_APPROVAL" by simp
  note ok = process_step_ok [OF Cons.prems(1,2) approval, of w now]
  show ?case
  proof (cases "process_step w now g r step se")
    case (Inl x)
    with ok show ?thesis by (cases x) simp
  next
    case (Inr y)
    then obtain se1 b1 where step: "process_step w now g r step se = Inr (se1, b1)" by (cases y) simp
    with ok have inv1: "tick_inv d0 run g cleared se1"
      and act: "if actionable g (status_of (se_db se) run) ?sid then left_pending run ?sid se1 else se1 = se \<and> \<not> b1" by auto
    from Cons.prems(3) have "\<forall>step \<in> set steps. approval_id g (step_id step) \<longleftrightarrow> step_type step = T_APPROVAL" by simp
    note rest = Cons.IH [OF inv1 Cons.prems(2) this, of "b \<or> b1"]
    show ?thesis
    proof (cases "actionable g (status_of (se_db se) run) ?sid")
      case False
      with act rest step show ?thesis by (simp split: sum.splits prod.splits)
    next
      case True
      with Cons.prems(1) have "status_of d0 run ?sid = Some S_PENDING"
        by (auto simp: actionable_def tick_inv_def tick_view_def intro: status_grows_pending)
      with True act have "progressed d0 run se1" by (auto simp: progressed_def)
      with rest step show ?thesis by (auto split: sum.splits prod.splits)
    qed
  qed
qed

lemma sync_change_cases:
  assumes "sync_change now d g ids sr = Inr f"
  shows "(\<forall>x. step_key (f x) = step_key x)
    \<and> (f = (\<lambda>x. x) \<or> (s_status sr = S_RUNNING \<and> (\<forall>x. s_status (f x) \<in> {s_status x, S_SUCCEEDED, S_FAILED})))"
proof -
  have job: "step_key (job_outcome now j x) = step_key x \<and> s_status (job_outcome now j x) \<in> {s_status x, S_SUCCEEDED, S_FAILED}"
    for j x by (simp add: job_outcome_def Let_def step_key_def)
  show ?thesis
    using assms job
    by (auto simp: sync_change_def sum_bind_Inr_iff split: if_splits option.splits)
qed

text \<open>The first part works on the rows as loaded; as keys are distinct, each is still the current row.\<close>

lemma sync_steps_ok:
  assumes "tick_view d0 run g cleared d"
    and "\<forall>sr \<in> set rows. s_run sr = run \<and> step_of d run (s_step sr) = Some sr"
    and "distinct (map s_step rows)"
    and "sync_steps now g ids rows d = Inr d'"
  shows "tick_view d0 run g cleared d'"
  using assms
proof (induction rows arbitrary: d)
  case Nil
  then show ?case by simp
next
  case (Cons sr rows)
  from Cons.prems(4) obtain f where f: "sync_change now d g ids sr = Inr f"
    and rest: "sync_steps now g ids rows (set_step run (s_step sr) f d) = Inr d'"
    using Cons.prems(2) by (auto split: sum.splits)
  note fc = sync_change_cases [OF f]
  then have key: "step_key (f x) = step_key x" for x by blast
  from Cons.prems(2) have row: "step_of d run (s_step sr) = Some sr" by simp
  then have st: "status_of d run (s_step sr) = Some (s_status sr)" by (simp add: status_of_def)
  with Cons.prems(1) have ok: "started (s_status sr) \<Longrightarrow> gate g (status_of d run) (s_step sr)"
    "approval_id g (s_step sr) \<Longrightarrow> s_status sr \<noteq> S_RUNNING \<and> (s_status sr = S_SUCCEEDED \<longrightarrow> s_step sr \<in> cleared)"
    by (auto simp: tick_view_def run_ok_def)
  have "tick_view d0 run g cleared (set_step run (s_step sr) f d)"
  proof (rule tick_view_set_step [OF Cons.prems(1) row])
    consider "s_status (f sr) = s_status sr" | "s_status sr = S_RUNNING" "s_status (f sr) \<in> {S_SUCCEEDED, S_FAILED}"
      using fc by fastforce
    note moves = this
    show "step_next\<^sup>*\<^sup>* (s_status sr) (s_status (f sr))"
      using moves by cases (auto intro: r_into_rtranclp)
    show "gate g (status_of d run) (s_step sr)" if "started (s_status (f sr))"
      using moves by cases (use that ok(1) in \<open>auto simp: started_def\<close>)
    show "s_status (f sr) \<noteq> S_RUNNING \<and> (s_status (f sr) = S_SUCCEEDED \<longrightarrow> s_step sr \<in> cleared)"
      if "approval_id g (s_step sr)"
      using moves by cases (use ok(2) [OF that] in auto)
  qed (rule key)
  moreover have "s_run x = run \<and> step_of (set_step run (s_step sr) f d) run (s_step x) = Some x"
    if "x \<in> set rows" for x
  proof -
    have "s_step sr \<notin> s_step ` set rows" using Cons.prems(3) by simp
    with that have "s_step x \<noteq> s_step sr" by (metis imageI)
    moreover have "s_run x = run" "step_of d run (s_step x) = Some x" using Cons.prems(2) that by simp_all
    ultimately show ?thesis by (simp add: step_of_set_step [OF key])
  qed
  ultimately show ?case using Cons.IH Cons.prems(3) rest by simp
qed

lemma run_steps_current:
  assumes "distinct (map step_key (step_runs d))"
  shows "\<forall>sr \<in> set (run_steps d run). s_run sr = run \<and> step_of d run (s_step sr) = Some sr"
    and "distinct (map s_step (run_steps d run))"
proof -
  have "step_of d run (s_step sr) = Some sr" if "sr \<in> set (step_runs d)" "s_run sr = run" for sr
    using sql_get_distinct [OF assms that(1)] that(2) by (simp add: step_of_def step_key_def)
  then show "\<forall>sr \<in> set (run_steps d run). s_run sr = run \<and> step_of d run (s_step sr) = Some sr"
    by (simp add: run_steps_def)
  from assms have "distinct (map step_key (run_steps d run))"
    unfolding run_steps_def by (rule distinct_map_filter)
  then show "distinct (map s_step (run_steps d run))"
    by (auto simp: distinct_map inj_on_def step_key_def run_steps_def)
qed

section \<open>All runs\<close>

text \<open>Approvals the engine accepted: run, step and the approver by user id and identity.\<close>

type_synonym clearance = "(uuid \<times> string \<times> uuid option \<times> string option) list"

definition cleared_steps :: "clearance \<Rightarrow> db \<Rightarrow> workflow_run \<Rightarrow> string set" where
  "cleared_steps L d r =
    {sid. \<exists>actor actor_id. (w_id r, sid, actor, actor_id) \<in> set L
       \<and> \<not> triggered_by_approver r actor actor_id \<and> \<not> published_by_approver r actor actor_id d}"

definition run_final :: "run_status \<Rightarrow> bool" where
  "run_final s = (s \<in> {W_SUCCEEDED, W_FAILED, W_CANCELLED})"

definition run_core :: "workflow_run \<Rightarrow> workflow_run" where
  "run_core r = r\<lparr>w_status := W_RUNNING, w_completed_at := None, w_error := None\<rparr>"

lemma run_core_fields:
  assumes "run_core r' = run_core r"
  shows "w_id r' = w_id r" "w_version r' = w_version r" "w_agent_ids r' = w_agent_ids r"
    "w_triggered_by r' = w_triggered_by r" "w_triggered_by_actor r' = w_triggered_by_actor r"
  using assms by (cases r; cases r'; simp add: run_core_def)+

definition run_inv :: "clearance \<Rightarrow> db \<Rightarrow> workflow_run \<Rightarrow> bool" where
  "run_inv L d r =
    ((\<exists>v. sql_get v_id (versions d) (w_version r) = Some v
        \<and> run_ok (v_graph v) (cleared_steps L d r) (status_of d (w_id r)))
     \<and> (run_final (w_status r) \<longrightarrow> (\<forall>sid. status_of d (w_id r) sid \<notin> {Some S_PENDING, Some S_WAITING_APPROVAL})))"

definition flow_inv :: "clearance \<Rightarrow> db \<Rightarrow> bool" where
  "flow_inv L d =
    (distinct (map step_key (step_runs d)) \<and> distinct (map w_id (runs d))
     \<and> s_run ` set (step_runs d) \<subseteq> w_id ` set (runs d)
     \<and> (\<forall>v \<in> set (versions d). distinct (map step_id (g_steps (v_graph v))))
     \<and> (\<forall>r \<in> set (runs d). run_inv L d r))"

text \<open>What later states keep: step statuses only move forward, a run keeps its identity, its version and
  its targets, and a finished run does not change at all.\<close>

definition flow_grows :: "db \<Rightarrow> db \<Rightarrow> bool" where
  "flow_grows d d' =
    ((\<forall>run sid s. status_of d run sid = Some s \<longrightarrow> (\<exists>t. status_of d' run sid = Some t \<and> step_next\<^sup>*\<^sup>* s t))
     \<and> (\<forall>run r. sql_get w_id (runs d) run = Some r \<longrightarrow>
          (\<exists>r'. sql_get w_id (runs d') run = Some r' \<and> run_core r' = run_core r
              \<and> (run_final (w_status r) \<longrightarrow> r' = r))))"

lemma flow_grows_refl [simp]: "flow_grows d d"
  by (simp add: flow_grows_def)

lemma flow_grows_step:
  "flow_grows d d' \<Longrightarrow> status_of d run sid = Some s \<Longrightarrow> \<exists>t. status_of d' run sid = Some t \<and> step_next\<^sup>*\<^sup>* s t"
  unfolding flow_grows_def by (elim conjE) metis

lemma flow_grows_run:
  "flow_grows d d' \<Longrightarrow> sql_get w_id (runs d) run = Some r \<Longrightarrow>
     \<exists>r'. sql_get w_id (runs d') run = Some r' \<and> run_core r' = run_core r \<and> (run_final (w_status r) \<longrightarrow> r' = r)"
  unfolding flow_grows_def by (elim conjE) metis

lemma flow_grows_trans:
  assumes "flow_grows a b" and "flow_grows b c"
  shows "flow_grows a c"
  unfolding flow_grows_def
proof (intro conjI allI impI)
  fix run sid s
  assume "status_of a run sid = Some s"
  from flow_grows_step [OF assms(1) this] obtain t where t: "status_of b run sid = Some t" "step_next\<^sup>*\<^sup>* s t" by blast
  from flow_grows_step [OF assms(2) t(1)] obtain u where "status_of c run sid = Some u" "step_next\<^sup>*\<^sup>* t u" by blast
  with t show "\<exists>t. status_of c run sid = Some t \<and> step_next\<^sup>*\<^sup>* s t" by (meson rtranclp_trans)
next
  fix run r
  assume "sql_get w_id (runs a) run = Some r"
  from flow_grows_run [OF assms(1) this] obtain r' where r': "sql_get w_id (runs b) run = Some r'" "run_core r' = run_core r"
      "run_final (w_status r) \<longrightarrow> r' = r" by blast
  from flow_grows_run [OF assms(2) r'(1)] obtain r'' where "sql_get w_id (runs c) run = Some r''" "run_core r'' = run_core r'"
      "run_final (w_status r') \<longrightarrow> r'' = r'" by blast
  with r' show "\<exists>r'. sql_get w_id (runs c) run = Some r' \<and> run_core r' = run_core r
      \<and> (run_final (w_status r) \<longrightarrow> r' = r)" by auto
qed

text \<open>A change of one run and its steps: the shape all engine operations have.\<close>

lemma run_change_ok:
  assumes inv: "flow_inv L d" and r: "sql_get w_id (runs d) run = Some r" and open_run: "\<not> run_final (w_status r)"
    and v: "sql_get v_id (versions d) (w_version r) = Some v"
    and versions: "versions d' = versions d"
    and keys: "map step_key (step_runs d') = map step_key (step_runs d)"
    and others: "\<And>run'. run' \<noteq> run \<Longrightarrow> status_of d' run' = status_of d run'"
    and grows: "status_grows (status_of d run) (status_of d' run)"
    and ok: "run_ok (v_graph v) (cleared_steps L' d r) (status_of d' run)"
    and runs: "runs d' = sql_modify w_id run f (runs d)" and core: "\<And>r. run_core (f r) = run_core r"
    and final: "run_final (w_status (f r)) \<Longrightarrow>
      \<forall>sid. status_of d' run sid \<notin> {Some S_PENDING, Some S_WAITING_APPROVAL}"
    and log: "set L \<subseteq> set L'"
  shows "flow_inv L' d' \<and> flow_grows d d'"
proof
  have id: "w_id (f x) = w_id x" for x using run_core_fields(1) [OF core] .
  have get: "sql_get w_id (runs d') i = (if i = run then map_option f (sql_get w_id (runs d) i) else sql_get w_id (runs d) i)" for i
    using run_table.get_modify [of f run "runs d" i] id by (simp add: runs)
  have ids: "map w_id (runs d') = map w_id (runs d)"
    unfolding runs sql_modify_def by (rule map_key_sql_update) (simp add: id)
  have more: "cleared_steps L d x \<subseteq> cleared_steps L' d' x" for x
    using log versions by (auto simp: cleared_steps_def published_by_approver_def)
  have "run_inv L' d' x'" if "x' \<in> set (runs d')" for x'
  proof -
    from that obtain x where x: "x \<in> set (runs d)" "x' = (if w_id x = run then f x else x)"
      by (auto simp: runs sql_modify_def in_set_sql_update)
    from inv x(1) have invx: "run_inv L d x" and dist: "distinct (map w_id (runs d))" by (auto simp: flow_inv_def)
    show ?thesis
    proof (cases "w_id x = run")
      case False
      with x(2) have "x' = x" by simp
      with invx False run_ok_cleared [OF _ more] versions others [OF False] show ?thesis
        by (fastforce simp: run_inv_def)
    next
      case True
      with sql_get_distinct [OF dist x(1)] r have "x = r" by simp
      with x(2) True have x': "x' = f r" by simp
      note c = run_core_fields [OF core [of r]]
      have "cleared_steps L' d' (f r) = cleared_steps L' d r"
        using versions by (simp add: cleared_steps_def triggered_by_approver_def published_by_approver_def c)
      with ok v versions final show ?thesis using True \<open>x = r\<close>
        by (auto simp: run_inv_def x' c)
    qed
  qed
  moreover have "s_run ` set (step_runs d') \<subseteq> w_id ` set (runs d')"
  proof -
    have "s_run ` set xs = fst ` set (map step_key xs)" for xs by (force simp: step_key_def image_iff)
    then have "s_run ` set (step_runs d') = s_run ` set (step_runs d)" by (simp only: keys)
    moreover have "w_id ` set (runs d') = w_id ` set (runs d)" using ids by (metis set_map)
    ultimately show ?thesis using inv by (simp add: flow_inv_def)
  qed
  ultimately show "flow_inv L' d'"
    using inv keys ids versions by (simp add: flow_inv_def)
  show "flow_grows d d'"
    unfolding flow_grows_def
  proof (intro conjI allI impI)
    fix run' sid s
    assume "status_of d run' sid = Some s"
    then show "\<exists>t. status_of d' run' sid = Some t \<and> step_next\<^sup>*\<^sup>* s t"
      using others [of run'] status_grows_SomeD [OF grows] by (cases "run' = run") auto
  next
    fix i x
    assume "sql_get w_id (runs d) i = Some x"
    then show "\<exists>r'. sql_get w_id (runs d') i = Some r' \<and> run_core r' = run_core x \<and> (run_final (w_status x) \<longrightarrow> r' = x)"
      using get [of i] r core open_run by (cases "i = run") auto
  qed
qed

section \<open>Every operation keeps the invariant\<close>

definition flow_session :: "clearance \<Rightarrow> db \<Rightarrow> session \<Rightarrow> bool" where
  "flow_session L d se =
    (flow_inv L (se_db se) \<and> flow_inv L (se_saved se) \<and> flow_grows d (se_db se) \<and> flow_grows d (se_saved se))"

lemma approval_id_distinct:
  assumes "distinct (map step_id (g_steps g))" and "step \<in> set (g_steps g)"
  shows "approval_id g (step_id step) \<longleftrightarrow> step_type step = T_APPROVAL"
proof -
  have "x = step" if "x \<in> set (g_steps g)" "step_id x = step_id step" for x
    using assms that by (simp add: distinct_map inj_on_def)
  with assms(2) show ?thesis by (auto simp: approval_id_def)
qed

lemma status_of_run_steps:
  "status_of d run sid = Some s \<Longrightarrow> \<exists>sr \<in> set (run_steps d run). s_step sr = sid \<and> s_status sr = s"
  by (auto simp: status_of_def step_of_def run_steps_def step_key_def dest!: sql_get_SomeD)

lemma set_run_frame [simp]:
  "step_runs (set_run run f d) = step_runs d" "versions (set_run run f d) = versions d"
  "runs (set_run run f d) = sql_modify w_id run f (runs d)" "jobs (set_run run f d) = jobs d"
  by (simp_all add: set_run_def)

lemma sql_modify_id: "sql_modify k i (\<lambda>x. x) xs = xs"
  by (induction xs) (simp_all add: sql_modify_def)

lemma tick_view_flow:
  assumes "flow_inv L d0" and "sql_get w_id (runs d0) run = Some r" and "w_status r = W_RUNNING"
    and "sql_get v_id (versions d0) (w_version r) = Some v"
    and view: "tick_view d0 run (v_graph v) (cleared_steps L d0 r) x"
    and d': "step_runs d' = step_runs x" "versions d' = versions x"
    and runs: "runs d' = sql_modify w_id run f (runs x)" and core: "\<And>r. run_core (f r) = run_core r"
    and final: "run_final (w_status (f r)) \<Longrightarrow>
      \<forall>sid. status_of x run sid \<notin> {Some S_PENDING, Some S_WAITING_APPROVAL}"
  shows "flow_inv L d' \<and> flow_grows d0 d'"
proof -
  have st: "status_of d' = status_of x" using d'(1) by (rule status_of_cong)
  show ?thesis
    by (rule run_change_ok [OF assms(1,2) _ assms(4), where f = f])
      (use view core final in \<open>auto simp: assms(3) run_final_def d' st runs tick_view_def\<close>)
qed

lemma close_tick_flow:
  assumes "flow_inv L d0" and "sql_get w_id (runs d0) run = Some r" and "w_status r = W_RUNNING"
    and "sql_get v_id (versions d0) (w_version r) = Some v"
    and view: "tick_view d0 run (v_graph v) (cleared_steps L d0 r) x"
  shows "flow_inv L (close_tick now run blocked x) \<and> flow_grows d0 (close_tick now run blocked x)"
proof -
  note flow = tick_view_flow [OF assms]
  consider (blocked) "blocked" | (active) "\<not> blocked" "list_ex (\<lambda>sr. still_active (s_status sr)) (run_steps x run)"
    | (ended) "\<not> blocked" "\<not> list_ex (\<lambda>sr. still_active (s_status sr)) (run_steps x run)" by blast
  then show ?thesis
  proof cases
    case blocked
    then show ?thesis unfolding close_tick_def
      by simp (rule flow [where f = "\<lambda>r. r\<lparr>w_status := W_WAITING_APPROVAL\<rparr>"], simp_all add: run_core_def run_final_def)
  next
    case active
    then show ?thesis unfolding close_tick_def
      by simp (rule flow [where f = "\<lambda>r. r"], simp_all add: sql_modify_id run_final_def assms(3))
  next
    case ended
    have "\<forall>sid. status_of x run sid \<notin> {Some S_PENDING, Some S_WAITING_APPROVAL}"
      using ended(2) status_of_run_steps [of x run] by (fastforce simp: list_ex_iff still_active_def)
    with ended(1) show ?thesis unfolding close_tick_def if_not_P [OF ended(2)] if_not_P [OF ended(1)]
      by (intro flow [where f = "\<lambda>r. r\<lparr>w_status :=
            (if list_ex (\<lambda>sr. s_status sr = S_FAILED) (run_steps x run) then W_FAILED else W_SUCCEEDED),
            w_completed_at := Some now\<rparr>"]) (simp_all add: run_core_def)
  qed
qed

lemma advance_run_ok:
  assumes session: "flow_session L d se" and synced: "se_expired se \<or> se_saved se = se_db se"
    and adv: "advance_run w now run se = (res, se')"
  shows "flow_session L d se' \<and> (res = None \<longrightarrow> se_saved se' = se_db se')"
proof (cases "se_expired se \<or> (case sql_get w_id (runs (se_db se)) run of None \<Rightarrow> True | Some r \<Rightarrow> w_status r \<noteq> W_RUNNING)")
  case True
  with adv session synced show ?thesis by (auto simp: advance_run_def split: option.splits if_splits)
next
  case False
  then obtain r where fresh: "\<not> se_expired se" and r: "sql_get w_id (runs (se_db se)) run = Some r"
    and running: "w_status r = W_RUNNING" by (auto split: option.splits)
  from fresh synced have saved: "se_saved se = se_db se" by simp
  let ?d0 = "se_db se"
  from session have inv: "flow_inv L ?d0" and grows: "flow_grows d ?d0" by (simp_all add: flow_session_def)
  from sql_get_SomeD [OF r] have rin: "r \<in> set (runs ?d0)" and id: "w_id r = run" by simp_all
  with inv obtain v where v: "sql_get v_id (versions ?d0) (w_version r) = Some v"
    and ok: "run_ok (v_graph v) (cleared_steps L ?d0 r) (status_of ?d0 run)"
    by (auto simp: flow_inv_def run_inv_def)
  let ?g = "v_graph v" and ?C = "cleared_steps L ?d0 r"
  have ids: "distinct (map step_id (g_steps ?g))"
    using inv sql_get_SomeD [OF v] by (simp add: flow_inv_def)
  have view0: "tick_view ?d0 run ?g ?C ?d0" using ok by (simp add: tick_view_def)
  show ?thesis
  proof (cases "sync_steps now ?g (w_agent_ids r) (run_steps ?d0 run) ?d0")
    case (Inl e)
    with adv fresh r running v have "se' = se \<and> res = Some e" by (simp add: advance_run_def)
    with session show ?thesis by simp
  next
    case (Inr d1)
    have keys: "distinct (map step_key (step_runs ?d0))" using inv by (simp add: flow_inv_def)
    note view1 = sync_steps_ok [OF view0 run_steps_current [OF keys] Inr]
    have tick: "tick_inv ?d0 run ?g ?C (se\<lparr>se_db := d1\<rparr>)"
      using view0 view1 saved by (simp add: tick_inv_def) (simp add: tick_view_def)
    have types: "\<forall>step \<in> set (g_steps ?g). approval_id ?g (step_id step) \<longleftrightarrow> step_type step = T_APPROVAL"
      using approval_id_distinct [OF ids] by blast
    note steps = process_steps_ok [OF tick id types, where w = w and now = now and b = False]
    have flow: "flow_inv L x \<and> flow_grows d x" if "tick_view ?d0 run ?g ?C x" for x
      using tick_view_flow [OF inv r running v that, of x "\<lambda>r. r"] flow_grows_trans [OF grows]
      by (simp add: sql_modify_id run_final_def running)
    show ?thesis
    proof (cases "process_steps w now ?g r (g_steps ?g) (se\<lparr>se_db := d1\<rparr>) False")
      case (Inl y)
      with adv fresh r running v Inr have "res = Some (fst y) \<and> se' = snd y"
        by (cases y) (simp add: advance_run_def)
      moreover from Inl steps have "tick_inv ?d0 run ?g ?C (snd y)" by (cases y) simp
      ultimately show ?thesis using flow by (simp add: flow_session_def tick_inv_def)
    next
      case (Inr z)
      obtain se2 blocked where z: "z = (se2, blocked)" by (cases z)
      from Inr z steps have view2: "tick_view ?d0 run ?g ?C (se_db se2)" by (simp add: tick_inv_def)
      from adv fresh r running v \<open>sync_steps _ _ _ _ _ = _\<close> Inr z
      have "res = None \<and> se' = commit (se2\<lparr>se_db := close_tick now run blocked (se_db se2)\<rparr>)"
        by (simp add: advance_run_def)
      moreover note close_tick_flow [OF inv r running v view2, of now blocked]
      ultimately show ?thesis using flow_grows_trans [OF grows] by (simp add: flow_session_def commit_def)
    qed
  qed
qed

lemma flow_session_open: "flow_inv L d \<Longrightarrow> flow_session L d (open_session d)"
  by (simp add: flow_session_def open_session_def)

lemma flow_session_trans:
  "flow_grows d d1 \<Longrightarrow> flow_session L d1 se \<Longrightarrow> flow_session L d se"
  by (auto simp: flow_session_def intro: flow_grows_trans)

lemma runner_loop_ok:
  "flow_session L d se \<Longrightarrow> se_expired se \<or> se_saved se = se_db se \<Longrightarrow> runner_loop w now rs se = (res, se') \<Longrightarrow>
     flow_session L d se'"
proof (induction rs arbitrary: se)
  case Nil
  then show ?case by simp
next
  case (Cons run rs)
  obtain r1 se1 where adv: "advance_run w now run se = (r1, se1)" by fastforce
  from advance_run_ok [OF Cons.prems(1,2) adv] have "flow_session L d se1" "r1 = None \<longrightarrow> se_saved se1 = se_db se1"
    by simp_all
  with Cons adv show ?case by (auto split: option.splits)
qed

text \<open>Changes that only stop steps.\<close>

lemma run_ok_stop:
  assumes "run_ok g C st" and grows: "status_grows st st'"
    and stop: "\<And>sid t. st' sid = Some t \<Longrightarrow> st sid = Some t \<or> \<not> started t"
  shows "run_ok g C st'"
proof -
  have "(started t \<longrightarrow> gate g st' sid) \<and> (approval_id g sid \<longrightarrow> t \<noteq> S_RUNNING \<and> (t = S_SUCCEEDED \<longrightarrow> sid \<in> C))"
    if "st' sid = Some t" for sid t
    using stop [OF that] assms(1) gate_grows [OF grows] by (auto simp: run_ok_def started_def)
  then show ?thesis using status_grows_dom [OF grows] assms(1) unfolding run_ok_def by metis
qed

lemma status_of_sql_update:
  assumes "\<And>sr. p sr \<Longrightarrow> step_key (f sr) = step_key sr" and "step_runs d' = sql_update p f (step_runs d)"
  shows "status_of d' run sid = map_option (\<lambda>sr. s_status (if p sr then f sr else sr)) (step_of d run sid)"
  using sql_get_update [of p step_key f "step_runs d" "(run, sid)", OF assms(1)]
  by (simp add: status_of_def step_of_def assms(2) option.map_comp o_def)

lemma waiting_step_Inr:
  assumes "waiting_step run sid d = Inr (r, sr)" and "flow_inv L d"
  shows "sql_get w_id (runs d) run = Some r \<and> w_id r = run \<and> step_of d run sid = Some sr
    \<and> s_status sr = S_WAITING_APPROVAL \<and> \<not> run_final (w_status r)
    \<and> (\<exists>v. sql_get v_id (versions d) (w_version r) = Some v
          \<and> run_ok (v_graph v) (cleared_steps L d r) (status_of d run))"
proof -
  from assms(1) have r: "sql_get w_id (runs d) run = Some r" and sr: "step_of d run sid = Some sr"
    and st: "s_status sr = S_WAITING_APPROVAL" by (auto simp: waiting_step_def split: option.splits if_splits)
  from sql_get_SomeD [OF r] assms(2) have id: "w_id r = run" and inv: "run_inv L d r"
    by (auto simp: flow_inv_def)
  have "status_of d run sid = Some S_WAITING_APPROVAL" using sr st by (simp add: status_of_def)
  with inv id have "\<not> run_final (w_status r)" by (auto simp: run_inv_def)
  with r sr st id inv show ?thesis by (auto simp: run_inv_def)
qed

lemma approve_change_ok:
  fixes now :: time
  assumes inv: "flow_inv L d" and wait: "waiting_step run sid d = Inr (r, sr)"
    and allowed: "\<not> triggered_by_approver r actor actor_id" "\<not> published_by_approver r actor actor_id d"
  defines "d' \<equiv> set_run run (\<lambda>r. r\<lparr>w_status := W_RUNNING\<rparr>) (set_step run sid (finish_step now S_SUCCEEDED) d)"
  shows "flow_inv ((run, sid, actor, actor_id) # L) d' \<and> flow_grows d d'"
proof -
  let ?f = "finish_step now S_SUCCEEDED" and ?L = "(run, sid, actor, actor_id) # L"
  from waiting_step_Inr [OF wait inv] obtain v where r: "sql_get w_id (runs d) run = Some r" "w_id r = run"
    and row: "step_of d run sid = Some sr" "s_status sr = S_WAITING_APPROVAL" and open_run: "\<not> run_final (w_status r)"
    and v: "sql_get v_id (versions d) (w_version r) = Some v"
    and ok: "run_ok (v_graph v) (cleared_steps L d r) (status_of d run)" by blast
  have st: "status_of d' = status_of (set_step run sid ?f d)" unfolding d'_def by (rule status_of_cong) simp
  have upd: "status_of (set_step run sid ?f d) run = (status_of d run)(sid \<mapsto> S_SUCCEEDED)"
    and others: "run' \<noteq> run \<Longrightarrow> status_of (set_step run sid ?f d) run' = status_of d run'" for run'
    using status_of_set_step [of ?f d run sid sr] row(1) by simp_all
  have was: "status_of d run sid = Some S_WAITING_APPROVAL" using row by (simp add: status_of_def)
  then have gate: "gate (v_graph v) (status_of d run) sid" using ok by (simp add: run_ok_def started_def)
  have moves: "step_next\<^sup>*\<^sup>* S_WAITING_APPROVAL S_SUCCEEDED" by (rule r_into_rtranclp) simp
  have cleared: "sid \<in> cleared_steps ?L d r" using allowed r(2) by (auto simp: cleared_steps_def)
  have more: "cleared_steps L d r \<subseteq> cleared_steps ?L d r" by (auto simp: cleared_steps_def)
  have ok': "run_ok (v_graph v) (cleared_steps ?L d r) (status_of d' run)"
    unfolding st upd by (rule run_ok_upd [OF run_ok_cleared [OF ok more] was moves gate]) (simp add: cleared)
  have grows: "status_grows (status_of d run) (status_of d' run)"
    unfolding st upd using was moves by (rule status_grows_upd)
  have keys: "map step_key (step_runs d') = map step_key (step_runs d)"
    by (simp add: d'_def set_step_def sql_modify_def map_key_sql_update)
  show ?thesis
    by (rule run_change_ok [OF inv r(1) open_run v _ keys _ grows ok', where f = "\<lambda>r. r\<lparr>w_status := W_RUNNING\<rparr>"])
      (simp_all add: st others run_core_def run_final_def, auto simp: d'_def)
qed

text \<open>The log of approvals: a call is recorded when its step had not succeeded before and has after.\<close>

definition log_approval :: "db \<Rightarrow> db \<Rightarrow> uuid \<times> string \<times> uuid option \<times> string option \<Rightarrow> clearance \<Rightarrow> clearance" where
  "log_approval d d' entry L =
    (if status_of d (fst entry) (fst (snd entry)) \<noteq> Some S_SUCCEEDED
        \<and> status_of d' (fst entry) (fst (snd entry)) = Some S_SUCCEEDED
     then entry # L else L)"

lemma approve_step_ok:
  assumes inv: "flow_inv L d" and app: "approve_step w now run sid actor actor_id (open_session d) = (res, se)"
  shows "flow_session (log_approval d (se_saved se) (run, sid, actor, actor_id) L) d se"
proof (cases "\<exists>r sr. waiting_step run sid d = Inr (r, sr)
          \<and> \<not> triggered_by_approver r actor actor_id \<and> \<not> published_by_approver r actor actor_id d")
  case False
  with app have "se = open_session d"
    by (auto simp: approve_step_def open_session_def split: sum.splits if_splits)
  with flow_session_open [OF inv] show ?thesis by (simp add: log_approval_def open_session_def)
next
  case True
  then obtain r sr where wait: "waiting_step run sid d = Inr (r, sr)"
    and allowed: "\<not> triggered_by_approver r actor actor_id" "\<not> published_by_approver r actor actor_id d" by blast
  let ?d = "set_run run (\<lambda>r. r\<lparr>w_status := W_RUNNING\<rparr>) (set_step run sid (finish_step now S_SUCCEEDED) d)"
  note c = approve_change_ok [OF inv wait allowed, of now]
  from app wait allowed have adv: "advance_run w now run (open_session ?d) = (res, se)"
    by (simp add: approve_step_def open_session_def commit_def)
  from advance_run_ok [OF flow_session_open _ adv] c
  have one: "flow_session ((run, sid, actor, actor_id) # L) ?d se" by (simp add: open_session_def)
  from waiting_step_Inr [OF wait inv] have row: "step_of d run sid = Some sr" "s_status sr = S_WAITING_APPROVAL" by blast+
  have "status_of ?d run sid = Some S_SUCCEEDED"
    using status_of_set_step(1) [of "finish_step now S_SUCCEEDED" d run sid sr] row(1)
      status_of_cong [of ?d "set_step run sid (finish_step now S_SUCCEEDED) d"] by simp
  with one have "status_of (se_saved se) run sid = Some S_SUCCEEDED"
    using flow_grows_step settled_stays unfolding flow_session_def settled_def by (metis insertI1)
  with row have log: "log_approval d (se_saved se) (run, sid, actor, actor_id) L = (run, sid, actor, actor_id) # L"
    by (simp add: log_approval_def status_of_def)
  show ?thesis unfolding log by (rule flow_session_trans [OF conjunct2 [OF c] one])
qed

lemma reject_step_ok:
  assumes inv: "flow_inv L d" and rej: "reject_step now run sid d = Inr d'"
  shows "flow_inv L d' \<and> flow_grows d d'"
proof -
  from rej obtain r sr where w: "waiting_step run sid d = Inr (r, sr)" by (auto simp: reject_step_def sum_bind_Inr_iff)
  from waiting_step_Inr [OF w inv] obtain v where r: "sql_get w_id (runs d) run = Some r"
    and row: "step_of d run sid = Some sr" "s_status sr = S_WAITING_APPROVAL" and open_run: "\<not> run_final (w_status r)"
    and v: "sql_get v_id (versions d) (w_version r) = Some v"
    and ok: "run_ok (v_graph v) (cleared_steps L d r) (status_of d run)" by blast
  define d1 where "d1 = set_step run sid (fail_step now ''Rejected by approver'') d"
  let ?p = "\<lambda>sr. s_run sr = run \<and> s_step sr \<noteq> sid \<and> s_status sr \<in> {S_PENDING, S_WAITING_APPROVAL}"
  have d': "d' = set_run run (end_run now W_FAILED) (skip_dangling now run sid d1)"
    using rej w by (simp add: reject_step_def d1_def)
  have rows: "step_runs d' = sql_update ?p (finish_step now S_SKIPPED) (step_runs d1)"
    by (simp add: d' skip_dangling_def)
  have st1: "status_of d1 run = (status_of d run)(sid \<mapsto> S_FAILED)"
    and others1: "run' \<noteq> run \<Longrightarrow> step_of d1 run' = step_of d run'" for run'
    using status_of_set_step(1) [of "fail_step now ''Rejected by approver''" d run sid sr] row(1)
    by (simp_all add: d1_def step_of_set_step fun_eq_iff)
  have upd: "status_of d' run' x = map_option (\<lambda>sr. s_status (if ?p sr then finish_step now S_SKIPPED sr else sr)) (step_of d1 run' x)"
    for run' x by (rule status_of_sql_update [OF _ rows]) simp
  have status: "status_of d' run x = (case status_of d1 run x of
      Some s \<Rightarrow> Some (if x \<noteq> sid \<and> s \<in> {S_PENDING, S_WAITING_APPROVAL} then S_SKIPPED else s) | None \<Rightarrow> None)" for x
    unfolding upd by (auto simp: status_of_def step_key_def dest!: step_of_key split: option.split)
  have others: "status_of d' run' = status_of d run'" if "run' \<noteq> run" for run'
  proof
    fix x
    show "status_of d' run' x = status_of d run' x"
      unfolding upd others1 [OF that]
      by (cases "step_of d run' x") (use that in \<open>auto simp: status_of_def step_key_def dest: step_of_key\<close>)
  qed
  have was: "status_of d run sid = Some S_WAITING_APPROVAL" using row by (simp add: status_of_def)
  have stop: "status_of d run x = Some t \<or> \<not> started t" if "status_of d' run x = Some t" for x t
    using that unfolding status st1 by (auto split: option.splits if_splits)
  have grows: "status_grows (status_of d run) (status_of d' run)"
    unfolding status_grows_def
  proof
    fix x
    show "rel_option step_next\<^sup>*\<^sup>* (status_of d run x) (status_of d' run x)"
      using was unfolding status st1
      by (cases "status_of d run x") (auto intro!: r_into_rtranclp)
  qed
  have keys: "map step_key (step_runs d') = map step_key (step_runs d)"
    unfolding rows by (simp add: map_key_sql_update d1_def set_step_def sql_modify_def)
  have frames: "runs d' = sql_modify w_id run (end_run now W_FAILED) (runs d)" "versions d' = versions d"
    by (simp_all add: d' skip_dangling_def d1_def)
  have ended: "status_of d' run x \<notin> {Some S_PENDING, Some S_WAITING_APPROVAL}" for x
    unfolding status st1 by (auto split: option.splits)
  show ?thesis
    by (rule run_change_ok [OF inv r open_run v frames(2) keys others grows run_ok_stop [OF ok grows stop] frames(1)])
      (use ended in \<open>simp_all add: run_core_def end_run_def\<close>)
qed

lemma cancel_run_ok:
  assumes inv: "flow_inv L d" and can: "cancel_run now run d = Inr d'"
  shows "flow_inv L d' \<and> flow_grows d d'"
proof -
  from can obtain r where r: "sql_get w_id (runs d) run = Some r" and open_run: "\<not> run_final (w_status r)"
    by (auto simp: cancel_run_def run_final_def split: option.splits if_splits)
  from sql_get_SomeD [OF r] inv have "w_id r = run" "run_inv L d r" by (auto simp: flow_inv_def)
  then obtain v where v: "sql_get v_id (versions d) (w_version r) = Some v"
    and ok: "run_ok (v_graph v) (cleared_steps L d r) (status_of d run)" by (auto simp: run_inv_def)
  let ?p = "\<lambda>sr. s_run sr = run \<and> still_active (s_status sr)"
  have d': "step_runs d' = sql_update ?p (finish_step now S_CANCELLED) (step_runs d)" "versions d' = versions d"
    "runs d' = sql_modify w_id run (end_run now W_CANCELLED) (runs d)"
    using can r open_run by (auto simp: cancel_run_def run_final_def)
  have upd: "status_of d' run' x = map_option (\<lambda>sr. s_status (if ?p sr then finish_step now S_CANCELLED sr else sr)) (step_of d run' x)"
    for run' x by (rule status_of_sql_update [OF _ d'(1)]) simp
  have status: "status_of d' run x = (case status_of d run x of
      Some s \<Rightarrow> Some (if still_active s then S_CANCELLED else s) | None \<Rightarrow> None)" for x
    unfolding upd by (auto simp: status_of_def step_key_def dest!: step_of_key split: option.split)
  have others: "status_of d' run' = status_of d run'" if "run' \<noteq> run" for run'
  proof
    fix x
    show "status_of d' run' x = status_of d run' x"
      unfolding upd
      by (cases "step_of d run' x") (use that in \<open>auto simp: status_of_def step_key_def dest: step_of_key\<close>)
  qed
  have stop: "status_of d run x = Some t \<or> \<not> started t" if "status_of d' run x = Some t" for x t
    using that unfolding status by (auto simp: started_def split: option.splits if_splits)
  have grows: "status_grows (status_of d run) (status_of d' run)"
    unfolding status_grows_def
  proof
    fix x
    show "rel_option step_next\<^sup>*\<^sup>* (status_of d run x) (status_of d' run x)"
      unfolding status
      by (cases "status_of d run x") (auto simp: still_active_def intro!: r_into_rtranclp)
  qed
  have keys: "map step_key (step_runs d') = map step_key (step_runs d)"
    unfolding d'(1) by (rule map_key_sql_update) simp
  show ?thesis
    by (rule run_change_ok [OF inv r open_run v d'(2) keys others grows run_ok_stop [OF ok grows stop] d'(3)])
      (auto simp: status run_core_def end_run_def still_active_def split: option.splits if_splits)
qed

lemma insert_run_ok:
  assumes inv: "flow_inv L d" and v: "sql_get v_id (versions d) (w_version r) = Some v"
    and fresh: "w_id r \<notin> w_id ` set (runs d)" and running: "w_status r = W_RUNNING"
  shows "flow_inv L (insert_run r (g_steps (v_graph v)) d) \<and> flow_grows d (insert_run r (g_steps (v_graph v)) d)"
proof -
  let ?steps = "g_steps (v_graph v)" and ?d = "insert_run r (g_steps (v_graph v)) d"
  have ids: "distinct (map step_id ?steps)" using inv sql_get_SomeD [OF v] by (simp add: flow_inv_def)
  have new: "step_key (new_step_run i st) = (i, step_id st)" "s_status (new_step_run i st) = S_PENDING"
    "s_run (new_step_run i st) = i" for i st by (simp_all add: new_step_run_def step_key_def)
  have norow: "status_of d (w_id r) sid = None" for sid
    using inv fresh by (auto simp: flow_inv_def status_of_def step_of_def sql_get_None_iff step_key_def)
  have old: "status_of ?d run = status_of d run" if "run \<noteq> w_id r" for run
  proof
    fix sid
    have "sql_get step_key (map (new_step_run (w_id r)) ?steps) (run, sid) = None"
      using that by (auto simp: sql_get_None_iff new)
    then show "status_of ?d run sid = status_of d run sid"
      by (simp add: status_of_def step_of_def insert_run_def sql_get_append split: option.split)
  qed
  have pending: "status_of ?d (w_id r) sid \<in> {None, Some S_PENDING}" for sid
  proof -
    have get: "status_of ?d (w_id r) sid
        = map_option s_status (sql_get step_key (map (new_step_run (w_id r)) ?steps) (w_id r, sid))"
      using norow [of sid] by (simp add: status_of_def step_of_def insert_run_def sql_get_append)
    show ?thesis
    proof (cases "sql_get step_key (map (new_step_run (w_id r)) ?steps) (w_id r, sid)")
      case (Some z)
      then have "s_status z = S_PENDING" by (auto simp: new dest!: sql_get_SomeD)
      with get Some show ?thesis by simp
    qed (use get in simp)
  qed
  have "s = S_PENDING" if "status_of ?d (w_id r) sid = Some s" for sid s
    using pending [of sid] that by simp
  moreover have "dom (status_of ?d (w_id r)) = step_id ` set ?steps"
  proof -
    have "(status_of ?d (w_id r) sid \<noteq> None) = (sid \<in> step_id ` set ?steps)" for sid
    proof -
      have "status_of ?d (w_id r) sid
          = map_option s_status (sql_get step_key (map (new_step_run (w_id r)) ?steps) (w_id r, sid))"
        using norow [of sid] by (simp add: status_of_def step_of_def insert_run_def sql_get_append)
      then show ?thesis
        using sql_get_None_iff [of step_key "map (new_step_run (w_id r)) ?steps" "(w_id r, sid)"] by (auto simp: new image_iff)
    qed
    then show ?thesis by (auto simp: dom_def)
  qed
  ultimately have "run_ok (v_graph v) C (status_of ?d (w_id r))" for C
    unfolding run_ok_def by (metis not_started_FAILED(3) step_status.distinct(1,5))
  then have "run_inv L ?d r" using v running by (auto simp: run_inv_def run_final_def insert_run_def)
  moreover have "run_inv L ?d x" if "x \<in> set (runs d)" for x
  proof -
    have "w_id x \<noteq> w_id r" using that fresh by (metis imageI)
    moreover from inv that have "run_inv L d x" by (simp add: flow_inv_def)
    moreover have "versions ?d = versions d" by (simp add: insert_run_def)
    moreover have "cleared_steps L ?d x = cleared_steps L d x"
      by (simp add: cleared_steps_def published_by_approver_def insert_run_def)
    ultimately show ?thesis by (simp add: run_inv_def old)
  qed
  moreover have "distinct (map step_key (step_runs ?d))"
  proof -
    have "s_run x \<noteq> w_id r" if "x \<in> set (step_runs d)" for x
      using that inv fresh unfolding flow_inv_def by (metis imageI subsetD)
    then have "set (map step_key (step_runs d)) \<inter> set (map (\<lambda>st. (w_id r, step_id st)) ?steps) = {}"
      by (auto simp: step_key_def)
    moreover have "distinct (map (\<lambda>st. (w_id r, step_id st)) ?steps)"
      using ids by (simp add: distinct_map inj_on_def)
    moreover have "map step_key (step_runs ?d)
        = map step_key (step_runs d) @ map (\<lambda>st. (w_id r, step_id st)) ?steps"
      by (simp add: insert_run_def new)
    moreover have "distinct (map step_key (step_runs d))" using inv by (simp add: flow_inv_def)
    ultimately show ?thesis by (simp only: distinct_append simp_thms)
  qed
  ultimately show "flow_inv L ?d \<and> flow_grows d ?d"
  proof (intro conjI)
    assume "run_inv L ?d r" and "\<And>x. x \<in> set (runs d) \<Longrightarrow> run_inv L ?d x" and "distinct (map step_key (step_runs ?d))"
    then show "flow_inv L ?d" using inv fresh
      by (auto simp: flow_inv_def insert_run_def new)
    show "flow_grows d ?d"
      unfolding flow_grows_def
    proof (intro conjI allI impI)
      fix run sid s
      assume "status_of d run sid = Some s"
      moreover from this norow have "run \<noteq> w_id r" by auto
      ultimately show "\<exists>t. status_of ?d run sid = Some t \<and> step_next\<^sup>*\<^sup>* s t" by (simp add: old)
    next
      fix run x
      assume "sql_get w_id (runs d) run = Some x"
      then show "\<exists>r'. sql_get w_id (runs ?d) run = Some r' \<and> run_core r' = run_core x \<and> (run_final (w_status x) \<longrightarrow> r' = x)"
        by (simp add: insert_run_def sql_get_append)
    qed
  qed
qed

lemma flow_session_commit:
  "flow_inv L (se_db se) \<Longrightarrow> flow_grows d (se_db se) \<Longrightarrow> flow_session L d (commit se)"
  by (simp add: flow_session_def commit_def)

lemma run_inputs_version:
  "run_inputs w i d = Inr (v, ids) \<Longrightarrow> sql_get v_id (versions d) (v_id v) = Some v \<and> v_status v = V_PUBLISHED \<and> ids \<noteq> []
     \<and> validate_step_inputs (wd_is_ip w) (g_steps (v_graph v)) = None
     \<and> resolve_targets (dump_targets (g_targets (v_graph v))) d = Inr ids"
  by (auto simp: run_inputs_def sum_bind_Inr_iff split: option.splits if_splits dest: sql_get_SomeD)

lemma start_run_ok:
  assumes session: "flow_session L d se" and fresh: "run_id \<notin> w_id ` set (runs (se_db se))"
    and start: "start_run w now run_id i trig by actor dry se = (res, se')"
  shows "flow_session L d se'"
proof (cases "run_inputs w i (se_db se)")
  case (Inl e)
  with start session show ?thesis by (simp add: start_run_def)
next
  case (Inr p)
  obtain v ids where p: "p = (v, ids)" by (cases p)
  let ?r = "new_run run_id i now v ids trig by actor dry"
  let ?se = "commit (se\<lparr>se_db := insert_run ?r (g_steps (v_graph v)) (se_db se), se_expired := False\<rparr>)"
  have r: "w_version ?r = v_id v" "w_id ?r = run_id" "w_status ?r = W_RUNNING" by (simp_all add: new_run_def)
  from session have inv: "flow_inv L (se_db se)" and grows: "flow_grows d (se_db se)" by (simp_all add: flow_session_def)
  note ins = insert_run_ok [OF inv, of ?r v] run_inputs_version [OF Inr [unfolded p]]
  from ins r fresh have one: "flow_session L d ?se"
    using flow_grows_trans [OF grows] by (intro flow_session_commit) auto
  have rest: "flow_session L d (snd (if dry then (None, ?se) else advance_run w now run_id ?se))"
  proof (cases dry)
    case True
    with one show ?thesis by simp
  next
    case False
    obtain r2 se2 where a: "advance_run w now run_id ?se = (r2, se2)" by fastforce
    have "se_expired ?se \<or> se_saved ?se = se_db ?se" by (simp add: commit_def)
    from advance_run_ok [OF one this a] False a show ?thesis by simp
  qed
  have "se' = (snd (if dry then (None, ?se) else advance_run w now run_id ?se))
      \<lparr>se_expired := se_expired se \<or> se_expired (snd (if dry then (None, ?se) else advance_run w now run_id ?se))\<rparr>"
    using start Inr p by (auto simp: start_run_def Let_def split: prod.splits if_splits)
  with rest show ?thesis by (simp add: flow_session_def)
qed

lemma flow_inv_env:
  assumes inv: "flow_inv L d" and same: "step_runs d' = step_runs d" "runs d' = runs d"
    and keep: "\<And>i v. sql_get v_id (versions d) i = Some v \<Longrightarrow> sql_get v_id (versions d') i = Some v"
    and ids: "\<forall>v \<in> set (versions d'). distinct (map step_id (g_steps (v_graph v)))"
  shows "flow_inv L d' \<and> flow_grows d d'"
proof
  have st: "status_of d' = status_of d" using same(1) by (rule status_of_cong)
  have "run_inv L d' r" if "r \<in> set (runs d)" for r
  proof -
    from inv that have r: "run_inv L d r" by (simp add: flow_inv_def)
    then obtain v where v: "sql_get v_id (versions d) (w_version r) = Some v" by (auto simp: run_inv_def)
    from keep [OF v] v have "cleared_steps L d' r = cleared_steps L d r"
      by (simp add: cleared_steps_def published_by_approver_def)
    with r keep [OF v] v show ?thesis by (simp add: run_inv_def st)
  qed
  with inv ids show "flow_inv L d'" by (simp add: flow_inv_def same)
  show "flow_grows d d'" by (simp add: flow_grows_def st same)
qed

lemma claim_workflow_ok:
  assumes "flow_inv L d" and "claim_workflow now next flow d = (b, d')"
  shows "flow_inv L d' \<and> flow_grows d d'"
proof -
  from assms(2) have "step_runs d' = step_runs d" "runs d' = runs d" "versions d' = versions d"
    by (auto simp: claim_workflow_def Let_def)
  then show ?thesis by (intro flow_inv_env [OF assms(1)]) (use assms(1) in \<open>simp_all add: flow_inv_def\<close>)
qed

lemma scheduler_loop_ok:
  assumes fresh: "\<And>x. wd_new_id w x \<notin> w_id ` set (runs x)"
  shows "flow_session L d se \<Longrightarrow> scheduler_loop w cron now flows se = (res, se') \<Longrightarrow> flow_session L d se'"
proof (induction flows arbitrary: se)
  case Nil
  then show ?case by simp
next
  case (Cons flow flows)
  have "flow_session L d (claim_and_run w cron now flow se)"
  proof (cases "cron (wf_cron_expr flow) now")
    case None
    with Cons.prems(1) show ?thesis by (simp add: claim_and_run_def)
  next
    case (Some t)
    obtain b d1 where c: "claim_workflow now t flow (se_db se) = (b, d1)" by fastforce
    from Cons.prems(1) have inv: "flow_inv L (se_db se)" and grows: "flow_grows d (se_db se)"
      by (simp_all add: flow_session_def)
    from claim_workflow_ok [OF inv c] have one: "flow_session L d (commit (se\<lparr>se_db := d1\<rparr>))"
      using flow_grows_trans [OF grows] by (intro flow_session_commit) auto
    show ?thesis
    proof (cases b)
      case False
      with one Some c show ?thesis by (simp add: claim_and_run_def)
    next
      case True
      obtain r2 se2 where s2: "start_run w now (wd_new_id w d1) (wf_id flow) ''SCHEDULE'' None None False
          (commit (se\<lparr>se_db := d1\<rparr>)) = (r2, se2)" by fastforce
      have "wd_new_id w d1 \<notin> w_id ` set (runs (se_db (commit (se\<lparr>se_db := d1\<rparr>))))"
        using fresh [of d1] by (simp add: commit_def)
      from start_run_ok [OF one this s2] True Some c s2 show ?thesis by (simp add: claim_and_run_def)
    qed
  qed
  with Cons show ?case by (auto split: if_splits)
qed

section \<open>Reachable states\<close>

text \<open>Everything that can happen to the workflow tables: the requests, accepted or refused, the two workers, and
  any change of the other tables (jobs running, agents reporting, new versions).\<close>

inductive flow_step :: "world \<Rightarrow> db \<times> clearance \<Rightarrow> db \<times> clearance \<Rightarrow> bool" for w where
  start: "start_run w now run_id i trig by actor dry (open_session d) = (res, se) \<Longrightarrow>
     run_id \<notin> w_id ` set (runs d) \<Longrightarrow> flow_step w (d, L) (se_saved se, L)"
| tick: "runner_tick w now d = (res, d') \<Longrightarrow> flow_step w (d, L) (d', L)"
| approve: "approve_step w now run sid actor actor_id (open_session d) = (res, se) \<Longrightarrow>
     flow_step w (d, L) (se_saved se, log_approval d (se_saved se) (run, sid, actor, actor_id) L)"
| reject: "reject_step now run sid d = Inr d' \<Longrightarrow> flow_step w (d, L) (d', L)"
| cancel: "cancel_run now run d = Inr d' \<Longrightarrow> flow_step w (d, L) (d', L)"
| schedule: "scheduler_tick w cron now d = (res, d') \<Longrightarrow> (\<And>x. wd_new_id w x \<notin> w_id ` set (runs x)) \<Longrightarrow>
     flow_step w (d, L) (d', L)"
| environment: "step_runs d' = step_runs d \<Longrightarrow> runs d' = runs d \<Longrightarrow>
     (\<And>i v. sql_get v_id (versions d) i = Some v \<Longrightarrow> sql_get v_id (versions d') i = Some v) \<Longrightarrow>
     (\<forall>v \<in> set (versions d'). distinct (map step_id (g_steps (v_graph v)))) \<Longrightarrow>
     flow_step w (d, L) (d', L)"

lemma flow_step_ok:
  assumes "flow_step w s s'" and "flow_inv (snd s) (fst s)"
  shows "flow_inv (snd s') (fst s') \<and> flow_grows (fst s) (fst s')"
  using assms
proof (induction rule: flow_step.induct)
  case (start now run_id i trig who actor dry d res se L)
  have "flow_session L d se"
    by (rule start_run_ok [OF flow_session_open _ start(1)]) (use start in \<open>simp_all add: open_session_def\<close>)
  then show ?case by (simp add: flow_session_def)
next
  case (tick now d res d' L)
  obtain r1 se1 where loop: "runner_loop w now (map w_id (filter (\<lambda>r. w_status r = W_RUNNING) (runs d))) (open_session d)
      = (r1, se1)" by fastforce
  have "flow_session L d se1"
    by (rule runner_loop_ok [OF flow_session_open _ loop]) (use tick in \<open>simp_all add: open_session_def\<close>)
  with tick loop show ?case by (simp add: runner_tick_def flow_session_def)
next
  case (approve now run sid actor actor_id d res se L)
  have "flow_inv L d" using approve(2) by simp
  from approve_step_ok [OF this approve(1)] show ?case by (simp add: flow_session_def)
next
  case (reject now run sid d d' L)
  then show ?case using reject_step_ok by simp
next
  case (cancel now run d d' L)
  then show ?case using cancel_run_ok by simp
next
  case (schedule cron now d res d' L)
  obtain r1 se1 where loop: "scheduler_loop w cron now (due_workflows now d) (open_session d) = (r1, se1)" by fastforce
  have "flow_session L d se1"
    by (rule scheduler_loop_ok [OF schedule(2) flow_session_open loop]) (use schedule in simp)
  with schedule loop show ?case by (simp add: scheduler_tick_def flow_session_def)
next
  case (environment d' d L)
  show ?case using flow_inv_env [OF _ environment(1-4)] environment(5) by simp
qed

lemma flow_reach:
  "(flow_step w)\<^sup>*\<^sup>* s s' \<Longrightarrow> flow_inv (snd s) (fst s) \<Longrightarrow> flow_inv (snd s') (fst s') \<and> flow_grows (fst s) (fst s')"
proof (induction rule: rtranclp_induct)
  case base
  then show ?case by simp
next
  case (step s' s'')
  with flow_step_ok [of w s' s''] flow_grows_trans [of "fst s" "fst s'" "fst s''"] show ?case by simp
qed

definition fresh_db :: "db \<Rightarrow> bool" where
  "fresh_db d = (runs d = [] \<and> step_runs d = [] \<and> (\<forall>v \<in> set (versions d). distinct (map step_id (g_steps (v_graph v)))))"

lemma fresh_db_inv: "fresh_db d \<Longrightarrow> flow_inv [] d"
  by (simp add: fresh_db_def flow_inv_def)

end
