(* ===== verification/WorkflowProps.thy ===== *)
theory WorkflowProps
  imports WorkflowLaws
begin

text \<open>
  The properties of the workflow engine, with a small published workflow (start, approval, command) on
  which each is shown to apply.
\<close>

section \<open>A sample workflow\<close>

definition toy_world :: world where
  "toy_world = \<lparr>wd_sha256 = (\<lambda>s. s), wd_is_ip = (\<lambda>_. False), wd_parse = no_parse,
     wd_py = \<lparr>same_object = (\<lambda>_ _. False), builtin_attr = (\<lambda>_ _. None)\<rparr>, wd_expr_text = (\<lambda>_. []),
     wd_urlsplit = (\<lambda>_. None), wd_resolve = (\<lambda>_ _. Unresolved), wd_request = (\<lambda>_ _ _ _. HttpOk),
     wd_content = (\<lambda>pb. Inr (pb_content pb)), wd_roles = (\<lambda>_. Inr (PDict [])),
     wd_new_id = (\<lambda>d. replicate (Suc (length (jobs d))) (CHR ''j''))\<rparr>"

definition toy_graph :: "workflow_step list \<Rightarrow> workflow_edge list \<Rightarrow> compiled_graph" where
  "toy_graph steps edges =
    \<lparr>g_targets = \<lparr>t_all = None, t_agent_ids = Some [toy_agent_pk], t_filters = None\<rparr>,
     g_strategy = \<lparr>mode = ''all_at_once'', batch_size = None\<rparr>,
     g_defaults = \<lparr>d_timeout = None, d_on_failure = None\<rparr>, g_vars = [], g_steps = steps, g_edges = edges,
     g_entry_ids = []\<rparr>"

definition toy_steps :: "workflow_step list" where
  "toy_steps = [sample_step ''a'' T_START [], sample_step ''ok'' T_APPROVAL [],
     sample_step ''run'' T_COMMAND [(''command'', PStr ''id'')]]"

definition toy_edges :: "workflow_edge list" where
  "toy_edges = [sample_edge ''a'' ''ok'', sample_edge ''ok'' ''run'']"

definition toy_version :: "compiled_graph \<Rightarrow> workflow_version" where
  "toy_version g = \<lparr>v_id = ''v1'', v_workflow = ''w'', v_graph = g, v_status = V_PUBLISHED,
     v_published_by = None, v_published_by_actor = Some ''carol''\<rparr>"

definition toy_workflow :: workflow where
  "toy_workflow = \<lparr>wf_id = ''w'', wf_is_enabled = True, wf_current_version = Some ''v1'', wf_trigger_type = ''MANUAL'',
     wf_cron_expr = None, wf_next_run_at = None, wf_last_run_at = None, wf_migrated_from = None\<rparr>"

definition toy_flow :: "compiled_graph \<Rightarrow> db" where
  "toy_flow g = empty_db\<lparr>agents := [toy_agent], workflows := [toy_workflow], versions := [toy_version g]\<rparr>"

definition toy_start :: "bool \<Rightarrow> compiled_graph \<Rightarrow> exn option \<times> session" where
  "toy_start dry g = start_run toy_world 5 ''r1'' ''w'' ''MANUAL'' None (Some ''alice'') dry (open_session (toy_flow g))"

definition toy_run_started :: db where
  "toy_run_started = se_saved (snd (toy_start False (toy_graph toy_steps toy_edges)))"

definition toy_approve :: "exn option \<times> session" where
  "toy_approve = approve_step toy_world 6 ''r1'' ''ok'' None (Some ''bob'') (open_session toy_run_started)"

definition toy_run_approved :: db where
  "toy_run_approved = se_saved (snd toy_approve)"

definition toy_log :: clearance where
  "toy_log = [(''r1'', ''ok'', None, Some ''bob'')]"

text \<open>One evaluation of the two calls, from which the facts below are read.\<close>

definition toy_facts :: "db \<Rightarrow> db \<Rightarrow> bool" where
  "toy_facts d d' =
    ((case waiting_step ''r1'' ''ok'' d of
        Inr (r, sr) \<Rightarrow> \<not> triggered_by_approver r None (Some ''bob'') \<and> \<not> published_by_approver r None (Some ''bob'') d
      | Inl _ \<Rightarrow> False)
     \<and> status_of d ''r1'' ''run'' = Some S_PENDING \<and> status_of d ''r1'' ''ok'' = Some S_WAITING_APPROVAL
     \<and> status_of d' ''r1'' ''ok'' = Some S_SUCCEEDED \<and> status_of d' ''r1'' ''run'' = Some S_RUNNING
     \<and> (case sql_get w_id (runs d') ''r1'' of
          Some r \<Rightarrow> w_status r = W_RUNNING \<and> w_version r = ''v1'' | None \<Rightarrow> False)
     \<and> (case sql_get v_id (versions d') ''v1'' of
          Some v \<Rightarrow> list_ex (\<lambda>st. step_id st = ''ok'' \<and> step_type st = T_APPROVAL) (g_steps (v_graph v)) | None \<Rightarrow> False))"

definition toy_trace :: bool where
  "toy_trace = (case toy_start False (toy_graph toy_steps toy_edges) of (res, se) \<Rightarrow>
     (case approve_step toy_world 6 ''r1'' ''ok'' None (Some ''bob'') (open_session (se_saved se)) of (res', se') \<Rightarrow>
        res = None \<and> res' = None \<and> toy_facts (se_saved se) (se_saved se')))"

lemma toy_trace: toy_trace
  by code_simp

lemma toy_results:
  "fst (toy_start False (toy_graph toy_steps toy_edges)) = None" "fst toy_approve = None"
  "toy_facts toy_run_started toy_run_approved"
  using toy_trace
  by (simp_all add: toy_trace_def toy_run_started_def toy_approve_def toy_run_approved_def split: prod.splits)

lemma toy_rows:
  "status_of toy_run_started ''r1'' ''run'' = Some S_PENDING"
  "status_of toy_run_started ''r1'' ''ok'' = Some S_WAITING_APPROVAL"
  "status_of toy_run_approved ''r1'' ''ok'' = Some S_SUCCEEDED" "status_of toy_run_approved ''r1'' ''run'' = Some S_RUNNING"
  using toy_results(3) by (simp_all add: toy_facts_def)

lemma toy_run:
  obtains r v step where "sql_get w_id (runs toy_run_approved) ''r1'' = Some r" "w_status r = W_RUNNING"
    "sql_get v_id (versions toy_run_approved) (w_version r) = Some v"
    "step \<in> set (g_steps (v_graph v))" "step_id step = ''ok''" "step_type step = T_APPROVAL"
  using toy_results(3) by (auto simp: toy_facts_def list_ex_iff split: option.splits)

lemma toy_fresh: "fresh_db (toy_flow (toy_graph toy_steps toy_edges))"
  by code_simp

lemma toy_reach_start:
  "(flow_step toy_world)\<^sup>*\<^sup>* (toy_flow (toy_graph toy_steps toy_edges), []) (toy_run_started, [])"
proof (rule r_into_rtranclp)
  let ?g = "toy_graph toy_steps toy_edges"
  have "start_run toy_world 5 ''r1'' ''w'' ''MANUAL'' None (Some ''alice'') False (open_session (toy_flow ?g))
      = (fst (toy_start False ?g), snd (toy_start False ?g))" by (simp add: toy_start_def)
  moreover have "''r1'' \<notin> w_id ` set (runs (toy_flow ?g))" by (simp add: toy_flow_def empty_db_def)
  ultimately show "flow_step toy_world (toy_flow ?g, []) (toy_run_started, [])"
    unfolding toy_run_started_def by (rule flow_step.start)
qed

lemma toy_reach_approve: "(flow_step toy_world)\<^sup>*\<^sup>* (toy_run_started, []) (toy_run_approved, toy_log)"
proof (rule r_into_rtranclp)
  have "approve_step toy_world 6 ''r1'' ''ok'' None (Some ''bob'') (open_session toy_run_started)
      = (fst toy_approve, snd toy_approve)" by (simp add: toy_approve_def)
  from flow_step.approve [OF this, of "[]"]
  show "flow_step toy_world (toy_run_started, []) (toy_run_approved, toy_log)"
    using toy_rows by (simp add: log_approval_def toy_run_approved_def toy_log_def)
qed

lemmas toy_reach = rtranclp_trans [OF toy_reach_start toy_reach_approve]

section \<open>What gates a step\<close>

lemma flow_reach_fresh:
  assumes "fresh_db d0" and "(flow_step w)\<^sup>*\<^sup>* (d0, []) (d, L)"
  shows "flow_inv L d"
  using flow_reach [OF assms(2)] fresh_db_inv [OF assms(1)] by simp

lemma reachable_run:
  assumes "fresh_db d0" and "(flow_step w)\<^sup>*\<^sup>* (d0, []) (d, L)" and "sql_get w_id (runs d) run = Some r"
  obtains v where "sql_get v_id (versions d) (w_version r) = Some v"
    and "run_ok (v_graph v) (cleared_steps L d r) (status_of d run)" and "w_id r = run"
proof -
  from flow_reach_fresh [OF assms(1,2)] sql_get_SomeD [OF assms(3)] have "run_inv L d r" and "w_id r = run"
    by (auto simp: flow_inv_def)
  with that show thesis by (auto simp: run_inv_def)
qed

text \<open>C1. No step starts early: whatever sequence of requests, worker ticks and changes by others led here, a
  step that runs, waits for its approval or has succeeded either is an entry of its run's graph, or all
  the steps before it have ended and one of its edges asked for the way its predecessor ended.\<close>

theorem steps_wait_for_their_gate:
  assumes "fresh_db d0" and "(flow_step w)\<^sup>*\<^sup>* (d0, []) (d, L)"
    and "sql_get w_id (runs d) run = Some r"
    and "status_of d run sid = Some s" and "s \<in> {S_RUNNING, S_WAITING_APPROVAL, S_SUCCEEDED}"
  shows "\<exists>v. sql_get v_id (versions d) (w_version r) = Some v
    \<and> (incoming_edges (v_graph v) sid = []
       \<or> (\<forall>e \<in> set (incoming_edges (v_graph v) sid).
            status_of d run (e_from e) \<in> {Some S_SUCCEEDED, Some S_FAILED, Some S_SKIPPED})
         \<and> (\<exists>e \<in> set (incoming_edges (v_graph v) sid). edge_matches (status_of d run) e))"
proof -
  obtain v where v: "sql_get v_id (versions d) (w_version r) = Some v"
    and ok: "run_ok (v_graph v) (cleared_steps L d r) (status_of d run)"
    by (rule reachable_run [OF assms(1-3)])
  from ok assms(4,5) have "gate (v_graph v) (status_of d run) sid" by (auto simp: run_ok_def started_def)
  with v show ?thesis by (auto simp: gate_def settled_def list_ex_iff)
qed

theorem steps_wait_for_their_gate_witness:
  "\<exists>(r :: workflow_run) v. sql_get v_id (versions toy_run_approved) (w_version r) = Some v
    \<and> (incoming_edges (v_graph v) ''run'' = []
       \<or> (\<forall>e \<in> set (incoming_edges (v_graph v) ''run'').
            status_of toy_run_approved ''r1'' (e_from e) \<in> {Some S_SUCCEEDED, Some S_FAILED, Some S_SKIPPED})
         \<and> (\<exists>e \<in> set (incoming_edges (v_graph v) ''run''). edge_matches (status_of toy_run_approved ''r1'') e))"
proof -
  obtain r where "sql_get w_id (runs toy_run_approved) ''r1'' = Some r" by (rule toy_run)
  from steps_wait_for_their_gate [OF toy_fresh toy_reach this toy_rows(4) insertI1] show ?thesis by blast
qed

text \<open>C2. An approval step is only ever passed by another person: it is never run as a job, and if it has
  succeeded then an accepted approval of exactly that step is on record, by someone who neither
  triggered the run nor published the version it executes.\<close>

theorem approvals_need_another_person:
  assumes "fresh_db d0" and "(flow_step w)\<^sup>*\<^sup>* (d0, []) (d, L)"
    and "sql_get w_id (runs d) run = Some r" and "sql_get v_id (versions d) (w_version r) = Some v"
    and "step \<in> set (g_steps (v_graph v))" and "step_type step = T_APPROVAL"
  shows "status_of d run (step_id step) \<noteq> Some S_RUNNING
    \<and> (status_of d run (step_id step) = Some S_SUCCEEDED \<longrightarrow>
        (\<exists>actor actor_id. (run, step_id step, actor, actor_id) \<in> set L
           \<and> \<not> triggered_by_approver r actor actor_id \<and> \<not> published_by_approver r actor actor_id d))"
proof -
  obtain v' where "sql_get v_id (versions d) (w_version r) = Some v'"
    and ok: "run_ok (v_graph v') (cleared_steps L d r) (status_of d run)" and "w_id r = run"
    by (rule reachable_run [OF assms(1-3)])
  moreover from assms(5,6) have "approval_id (v_graph v) (step_id step)" by (auto simp: approval_id_def)
  ultimately show ?thesis using assms(4) by (auto simp: run_ok_def cleared_steps_def)
qed

theorem approvals_need_another_person_witness:
  "\<exists>(r :: workflow_run) actor actor_id. (''r1'', ''ok'', actor, actor_id) \<in> set toy_log
     \<and> \<not> triggered_by_approver r actor actor_id \<and> \<not> published_by_approver r actor actor_id toy_run_approved"
proof -
  obtain r v step where r: "sql_get w_id (runs toy_run_approved) ''r1'' = Some r"
    and v: "sql_get v_id (versions toy_run_approved) (w_version r) = Some v"
    and step: "step \<in> set (g_steps (v_graph v))" "step_id step = ''ok''" "step_type step = T_APPROVAL"
    by (rule toy_run)
  from approvals_need_another_person [OF toy_fresh toy_reach r v step(1,3)] toy_rows(3)
  show ?thesis by (auto simp: step(2))
qed

section \<open>What never changes back\<close>



section \<open>A tick makes progress and decides the run\<close>

lemma sync_steps_idle:
  "\<forall>sr \<in> set rows. s_status sr \<noteq> S_RUNNING \<Longrightarrow> sync_steps now g ids rows d = Inr d"
  by (induction rows) (simp_all add: sync_change_def set_step_def sql_modify_id)

lemma preds_settled:
  "\<forall>e \<in> set es. \<exists>s. st (e_from e) = Some s \<and> settled s \<Longrightarrow> preds_terminal st es = Inr True"
  by (induction es) auto

text \<open>In an acyclic graph without running or cancelled steps, some pending step has settled predecessors.\<close>

lemma some_step_actionable:
  assumes acyclic: "acyclic (edge_rel (g_edges g))"
    and joined: "\<forall>e \<in> set (g_edges g). e_from e \<in> step_id ` set (g_steps g)"
    and dom: "dom st = step_id ` set (g_steps g)"
    and idle: "\<And>sid. st sid \<notin> {Some S_RUNNING, Some S_WAITING_APPROVAL, Some S_CANCELLED}"
    and pending: "st sid = Some S_PENDING"
  shows "\<exists>step \<in> set (g_steps g). actionable g st (step_id step)"
proof -
  have "finite (edge_rel (g_edges g))" by (simp add: edge_rel_def)
  with acyclic have wf: "wf (edge_rel (g_edges g))" by (simp add: finite_acyclic_wf)
  have "sid \<in> {x. st x = Some S_PENDING}" using pending by simp
  then have "\<exists>z \<in> {x. st x = Some S_PENDING}. \<forall>y. (y, z) \<in> edge_rel (g_edges g) \<longrightarrow> y \<notin> {x. st x = Some S_PENDING}"
    by (rule wf [unfolded wf_eq_minimal, rule_format])
  then obtain z where z: "st z = Some S_PENDING"
    and least: "\<forall>y. (y, z) \<in> edge_rel (g_edges g) \<longrightarrow> st y \<noteq> Some S_PENDING" by auto
  have "\<exists>s. st (e_from e) = Some s \<and> settled s" if "e \<in> set (incoming_edges g z)" for e
  proof -
    from that have e: "e \<in> set (g_edges g)" "e_to e = z" by (simp_all add: incoming_edges_def)
    then have "(e_from e, z) \<in> edge_rel (g_edges g)" by (force simp: edge_rel_def)
    with least have "st (e_from e) \<noteq> Some S_PENDING" by blast
    moreover from joined e(1) dom have "e_from e \<in> dom st" by simp
    then obtain s where "st (e_from e) = Some s" by blast
    ultimately show ?thesis using idle [of "e_from e"] by (cases s) (auto simp: settled_def)
  qed
  then have "preds_terminal st (incoming_edges g z) = Inr True" using preds_settled by blast
  then have "actionable g st z" using z by (simp add: actionable_def readiness_of_def)
  moreover from z dom obtain step where "step \<in> set (g_steps g)" "step_id step = z" by (metis domI imageE)
  ultimately show ?thesis by blast
qed

lemma advance_run_None:
  assumes inv: "flow_inv L d" and r: "sql_get w_id (runs d) run = Some r" and running: "w_status r = W_RUNNING"
    and v: "sql_get v_id (versions d) (w_version r) = Some v"
    and adv: "advance_run w now run (open_session d) = (None, se')"
  obtains d1 se2 b where "sync_steps now (v_graph v) (w_agent_ids r) (run_steps d run) d = Inr d1"
    and "process_steps w now (v_graph v) r (g_steps (v_graph v)) ((open_session d)\<lparr>se_db := d1\<rparr>) False = Inr (se2, b)"
    and "se_saved se' = close_tick now run b (se_db se2)"
    and "tick_inv d run (v_graph v) (cleared_steps L d r) ((open_session d)\<lparr>se_db := d1\<rparr>)"
    and "tick_inv d run (v_graph v) (cleared_steps L d r) se2"
    and "progressed d run se2 \<or> (se2 = (open_session d)\<lparr>se_db := d1\<rparr> \<and> \<not> b
      \<and> (\<forall>step \<in> set (g_steps (v_graph v)). \<not> actionable (v_graph v) (status_of d1 run) (step_id step)))"
proof -
  let ?g = "v_graph v" and ?C = "cleared_steps L d r"
  from adv r running v obtain d1 se2 b where sync: "sync_steps now ?g (w_agent_ids r) (run_steps d run) d = Inr d1"
    and steps: "process_steps w now ?g r (g_steps ?g) ((open_session d)\<lparr>se_db := d1\<rparr>) False = Inr (se2, b)"
    and saved: "se_saved se' = close_tick now run b (se_db se2)"
    by (auto simp: advance_run_def open_session_def commit_def split: sum.splits prod.splits)
  from sql_get_SomeD [OF r] inv v have id: "w_id r = run" and ok: "run_ok ?g ?C (status_of d run)"
    and ids: "distinct (map step_id (g_steps ?g))" and keys: "distinct (map step_key (step_runs d))"
    using sql_get_SomeD [OF v] by (auto simp: flow_inv_def run_inv_def)
  have view0: "tick_view d run ?g ?C d" using ok by (simp add: tick_view_def)
  note view1 = sync_steps_ok [OF view0 run_steps_current [OF keys] sync]
  have tick: "tick_inv d run ?g ?C ((open_session d)\<lparr>se_db := d1\<rparr>)"
    using view0 view1 by (simp add: tick_inv_def open_session_def) (simp add: tick_view_def)
  have types: "\<forall>step \<in> set (g_steps ?g). approval_id ?g (step_id step) \<longleftrightarrow> step_type step = T_APPROVAL"
    using approval_id_distinct [OF ids] by blast
  from process_steps_ok [OF tick id types, where w = w and now = now and b = False] steps
  show thesis by (intro that [OF sync steps saved tick]) (auto simp: open_session_def)
qed

lemma status_of_close_tick [simp]: "status_of (close_tick now run b d) = status_of d"
  by (rule status_of_cong) (simp add: close_tick_def)

lemma tick_progress:
  assumes "flow_inv L d"
    and "sql_get w_id (runs d) run = Some r" and "w_status r = W_RUNNING"
    and "sql_get v_id (versions d) (w_version r) = Some v"
    and "sound_graph (map step_id (g_steps (v_graph v))) (g_edges (v_graph v))"
    and "\<forall>sid. status_of d run sid \<notin> {Some S_RUNNING, Some S_WAITING_APPROVAL, Some S_CANCELLED}"
    and "advance_run w now run (open_session d) = (None, se)"
  shows "(\<exists>sid s. status_of d run sid = Some S_PENDING \<and> status_of (se_saved se) run sid = Some s \<and> s \<noteq> S_PENDING)
    \<or> (\<exists>r'. sql_get w_id (runs (se_saved se)) run = Some r' \<and> w_status r' \<in> {W_SUCCEEDED, W_FAILED}
          \<and> w_completed_at r' = Some now)"
proof -
  let ?g = "v_graph v"
  note inv = assms(1)
  obtain d1 se2 b where sync: "sync_steps now ?g (w_agent_ids r) (run_steps d run) d = Inr d1"
    and saved: "se_saved se = close_tick now run b (se_db se2)"
    and tick: "tick_inv d run ?g (cleared_steps L d r) ((open_session d)\<lparr>se_db := d1\<rparr>)"
    and cases: "progressed d run se2 \<or> (se2 = (open_session d)\<lparr>se_db := d1\<rparr> \<and> \<not> b
      \<and> (\<forall>step \<in> set (g_steps ?g). \<not> actionable ?g (status_of d1 run) (step_id step)))"
    by (rule advance_run_None [OF inv assms(2-4,7)])
  have "s_status sr \<noteq> S_RUNNING" if "sr \<in> set (run_steps d run)" for sr
  proof -
    have "step_of d run (s_step sr) = Some sr" using run_steps_current(1) that inv by (auto simp: flow_inv_def)
    with assms(6) show ?thesis by (auto simp: status_of_def)
  qed
  with sync have d1: "d1 = d" by (simp add: sync_steps_idle)
  show ?thesis
  proof (cases "progressed d run se2")
    case True
    then show ?thesis by (auto simp: progressed_def left_pending_def saved)
  next
    case False
    with cases d1 have stuck: "\<not> (\<exists>step \<in> set (g_steps ?g). actionable ?g (status_of d run) (step_id step))"
      and same: "se_db se2 = d" "\<not> b" by auto
    have dom: "dom (status_of d run) = step_id ` set (g_steps ?g)"
      using tick by (simp add: tick_inv_def tick_view_def run_ok_def d1)
    have "status_of d run sid \<noteq> Some S_PENDING" for sid
      using some_step_actionable [of ?g "status_of d run" sid] stuck dom assms(5,6) by (auto simp: sound_graph_def)
    then have "\<not> list_ex (\<lambda>sr. still_active (s_status sr)) (run_steps d run)"
      using run_steps_current(1) [of d run] inv assms(6)
      by (fastforce simp: list_ex_iff still_active_def flow_inv_def status_of_def)
    moreover have "sql_get w_id (runs d) run = Some r" by fact
    ultimately show ?thesis
      using run_table.get_modify [of _ run "runs d" run]
      by (simp add: saved same close_tick_def)
  qed
qed

text \<open>C6. A run cannot get stuck between its steps: in a run of a published graph where no step is running or
  waiting for anyone, a tick that does not fail moves at least one pending step on, or ends the run.\<close>

theorem tick_makes_progress:
  assumes "fresh_db d0" and "(flow_step w)\<^sup>*\<^sup>* (d0, []) (d, L)"
    and "sql_get w_id (runs d) run = Some r" and "w_status r = W_RUNNING"
    and "sql_get v_id (versions d) (w_version r) = Some v"
    and "sound_graph (map step_id (g_steps (v_graph v))) (g_edges (v_graph v))"
    and "\<forall>sid. status_of d run sid \<notin> {Some S_RUNNING, Some S_WAITING_APPROVAL, Some S_CANCELLED}"
    and "advance_run w now run (open_session d) = (None, se)"
  shows "(\<exists>sid s. status_of d run sid = Some S_PENDING \<and> status_of (se_saved se) run sid = Some s \<and> s \<noteq> S_PENDING)
    \<or> (\<exists>r'. sql_get w_id (runs (se_saved se)) run = Some r' \<and> w_status r' \<in> {W_SUCCEEDED, W_FAILED}
          \<and> w_completed_at r' = Some now)"
  by (rule tick_progress [OF flow_reach_fresh [OF assms(1,2)] assms(3-8)])

text \<open>A run that was only inserted: its steps wait for the next tick.\<close>

definition toy_inserted :: db where
  "toy_inserted = se_saved (snd (toy_start True (toy_graph toy_steps toy_edges)))"

lemma toy_reach_inserted:
  "(flow_step toy_world)\<^sup>*\<^sup>* (toy_flow (toy_graph toy_steps toy_edges), []) (toy_inserted, [])"
proof (rule r_into_rtranclp)
  let ?g = "toy_graph toy_steps toy_edges"
  have "start_run toy_world 5 ''r1'' ''w'' ''MANUAL'' None (Some ''alice'') True (open_session (toy_flow ?g))
      = (fst (toy_start True ?g), snd (toy_start True ?g))" by (simp add: toy_start_def)
  moreover have "''r1'' \<notin> w_id ` set (runs (toy_flow ?g))" by (simp add: toy_flow_def empty_db_def)
  ultimately show "flow_step toy_world (toy_flow ?g, []) (toy_inserted, [])"
    unfolding toy_inserted_def by (rule flow_step.start)
qed

lemma toy_inserted_facts:
  "list_all (\<lambda>sr. s_status sr = S_PENDING) (step_runs toy_inserted)
   \<and> fst (advance_run toy_world 6 ''r1'' (open_session toy_inserted)) = None
   \<and> (case sql_get w_id (runs toy_inserted) ''r1'' of
        None \<Rightarrow> False
      | Some r \<Rightarrow> w_status r = W_RUNNING
          \<and> (case sql_get v_id (versions toy_inserted) (w_version r) of
              None \<Rightarrow> False | Some v \<Rightarrow> map step_id (g_steps (v_graph v)) = [''a'', ''ok'', ''run'']
                \<and> map e_from (g_edges (v_graph v)) = [''a'', ''ok''] \<and> map e_to (g_edges (v_graph v)) = [''ok'', ''run'']))"
  by code_simp

lemma toy_idle:
  "\<exists>r v se. sql_get w_id (runs toy_inserted) ''r1'' = Some r \<and> w_status r = W_RUNNING
    \<and> sql_get v_id (versions toy_inserted) (w_version r) = Some v
    \<and> sound_graph (map step_id (g_steps (v_graph v))) (g_edges (v_graph v))
    \<and> (\<forall>sid. status_of toy_inserted ''r1'' sid \<notin> {Some S_RUNNING, Some S_WAITING_APPROVAL, Some S_CANCELLED})
    \<and> advance_run toy_world 6 ''r1'' (open_session toy_inserted) = (None, se)"
proof -
  from toy_inserted_facts obtain r v se where r: "sql_get w_id (runs toy_inserted) ''r1'' = Some r" "w_status r = W_RUNNING"
    and v: "sql_get v_id (versions toy_inserted) (w_version r) = Some v"
    and ids: "map step_id (g_steps (v_graph v)) = [''a'', ''ok'', ''run'']"
    and es: "map e_from (g_edges (v_graph v)) = [''a'', ''ok'']" "map e_to (g_edges (v_graph v)) = [''ok'', ''run'']"
    and adv: "advance_run toy_world 6 ''r1'' (open_session toy_inserted) = (None, se)"
    by (cases "advance_run toy_world 6 ''r1'' (open_session toy_inserted)") (auto split: option.splits)
  from es obtain e1 e2 where es2: "g_edges (v_graph v) = [e1, e2]" "e_from e1 = ''a''" "e_to e1 = ''ok''"
      "e_from e2 = ''ok''" "e_to e2 = ''run''" by (auto simp: map_eq_Cons_conv)
  have "acyclic (edge_rel (g_edges (v_graph v)))"
  proof (rule acyclicI)
    let ?rank = "\<lambda>x. if x = ''a'' then 0 else if x = ''ok'' then 1 else (2 :: nat)"
    have "?rank x < ?rank y" if "(x, y) \<in> (edge_rel (g_edges (v_graph v)))\<^sup>+" for x y
      using that by (induction rule: trancl_induct) (auto simp: edge_rel_def es2 split: if_splits)
    then show "\<forall>x. (x, x) \<notin> (edge_rel (g_edges (v_graph v)))\<^sup>+" by blast
  qed
  then have "sound_graph (map step_id (g_steps (v_graph v))) (g_edges (v_graph v))"
    by (simp add: sound_graph_def ids es2)
  moreover have "status_of toy_inserted ''r1'' sid \<notin> {Some S_RUNNING, Some S_WAITING_APPROVAL, Some S_CANCELLED}" for sid
    using toy_inserted_facts by (auto simp: list_all_iff run_steps_def dest!: status_of_run_steps)
  ultimately show ?thesis using r v adv by blast
qed

theorem tick_makes_progress_witness:
  "\<exists>se. advance_run toy_world 6 ''r1'' (open_session toy_inserted) = (None, se)
    \<and> ((\<exists>sid s. status_of toy_inserted ''r1'' sid = Some S_PENDING \<and> status_of (se_saved se) ''r1'' sid = Some s
          \<and> s \<noteq> S_PENDING)
      \<or> (\<exists>r'. sql_get w_id (runs (se_saved se)) ''r1'' = Some r' \<and> w_status r' \<in> {W_SUCCEEDED, W_FAILED}
          \<and> w_completed_at r' = Some 6))"
proof -
  from toy_idle obtain r v se where "sql_get w_id (runs toy_inserted) ''r1'' = Some r" "w_status r = W_RUNNING"
    "sql_get v_id (versions toy_inserted) (w_version r) = Some v"
    "sound_graph (map step_id (g_steps (v_graph v))) (g_edges (v_graph v))"
    "\<forall>sid. status_of toy_inserted ''r1'' sid \<notin> {Some S_RUNNING, Some S_WAITING_APPROVAL, Some S_CANCELLED}"
    and adv: "advance_run toy_world 6 ''r1'' (open_session toy_inserted) = (None, se)"
    by blast
  from tick_makes_progress [OF toy_fresh toy_reach_inserted this] adv show ?thesis by blast
qed

text \<open>When a tick completes it leaves the run with the right verdict: SUCCEEDED only with no step failed or
  left over, FAILED only with no step left over and some step failed, RUNNING only with a step left over,
  and never CANCELLED.\<close>

theorem tick_verdict:
  assumes "fresh_db d0" and "(flow_step w)\<^sup>*\<^sup>* (d0, []) (d, L)"
    and "sql_get w_id (runs d) run = Some r" and "w_status r = W_RUNNING"
    and "advance_run w now run (open_session d) = (None, se)"
    and "sql_get w_id (runs (se_saved se)) run = Some r'"
  shows "(w_status r' = W_SUCCEEDED \<longrightarrow>
        (\<forall>sid s. status_of (se_saved se) run sid = Some s \<longrightarrow> s \<in> {S_SUCCEEDED, S_SKIPPED, S_CANCELLED}))
    \<and> (w_status r' = W_FAILED \<longrightarrow>
        (\<forall>sid s. status_of (se_saved se) run sid = Some s \<longrightarrow> \<not> still_active s)
        \<and> (\<exists>sid. status_of (se_saved se) run sid = Some S_FAILED))
    \<and> (w_status r' = W_RUNNING \<longrightarrow> (\<exists>sid s. status_of (se_saved se) run sid = Some s \<and> still_active s))
    \<and> w_status r' \<noteq> W_CANCELLED"
proof -
  have inv: "flow_inv L d" by (rule flow_reach_fresh [OF assms(1,2)])
  obtain v where v: "sql_get v_id (versions d) (w_version r) = Some v" by (rule reachable_run [OF assms(1-3)])
  obtain se2 b where saved: "se_saved se = close_tick now run b (se_db se2)"
    and tick: "tick_inv d run (v_graph v) (cleared_steps L d r) se2"
    by (rule advance_run_None [OF inv assms(3,4) v assms(5)])
  let ?x = "se_db se2"
  from tick have view: "tick_view d run (v_graph v) (cleared_steps L d r) ?x" by (simp add: tick_inv_def)
  then have get: "sql_get w_id (runs ?x) run = Some r" and "distinct (map step_key (step_runs ?x))"
    using assms(3) inv by (simp_all add: tick_view_def flow_inv_def)
  note rows = run_steps_current(1) [OF this(2)]
  have st: "status_of (se_saved se) = status_of ?x" by (simp add: saved)
  have here: "status_of ?x run (s_step sr) = Some (s_status sr)" if "sr \<in> set (run_steps ?x run)" for sr
    using rows that by (auto simp: status_of_def)
  have row: "\<exists>sr \<in> set (run_steps ?x run). s_step sr = sid \<and> s_status sr = s" if "status_of ?x run sid = Some s" for sid s
    using that by (rule status_of_run_steps)
  note modify = run_table.get_modify [of _ run "runs ?x" run]
  show ?thesis
  proof (cases "b \<or> list_ex (\<lambda>sr. still_active (s_status sr)) (run_steps ?x run)")
    case True
    then consider "w_status r' = W_WAITING_APPROVAL"
      | "w_status r' = W_RUNNING" "list_ex (\<lambda>sr. still_active (s_status sr)) (run_steps ?x run)"
      using assms(4,6) get modify by (auto simp: saved close_tick_def split: if_splits)
    then show ?thesis using here by cases (auto simp: st list_ex_iff)
  next
    case False
    then have ended: "\<not> still_active s" if "status_of ?x run sid = Some s" for sid s
      using row [OF that] by (auto simp: list_ex_iff)
    have "w_status r' = (if list_ex (\<lambda>sr. s_status sr = S_FAILED) (run_steps ?x run) then W_FAILED else W_SUCCEEDED)"
      using False assms(6) get modify by (auto simp: saved close_tick_def)
    moreover have "s \<in> {S_SUCCEEDED, S_SKIPPED, S_CANCELLED}"
      if "\<not> list_ex (\<lambda>sr. s_status sr = S_FAILED) (run_steps ?x run)" "status_of ?x run sid = Some s" for sid s
      using that ended [OF that(2)] row [OF that(2)] by (cases s) (auto simp: still_active_def list_ex_iff)
    moreover have "\<exists>sid. status_of ?x run sid = Some S_FAILED"
      if "list_ex (\<lambda>sr. s_status sr = S_FAILED) (run_steps ?x run)"
      using that here by (auto simp: list_ex_iff) metis
    ultimately show ?thesis using ended by (auto simp: st split: if_splits)
  qed
qed

theorem tick_verdict_witness:
  "\<exists>se r'. advance_run toy_world 6 ''r1'' (open_session toy_inserted) = (None, se)
    \<and> sql_get w_id (runs (se_saved se)) ''r1'' = Some r' \<and> w_status r' \<noteq> W_CANCELLED"
proof -
  from toy_inserted_facts obtain r se where r: "sql_get w_id (runs toy_inserted) ''r1'' = Some r" "w_status r = W_RUNNING"
    and adv: "advance_run toy_world 6 ''r1'' (open_session toy_inserted) = (None, se)"
    by (cases "advance_run toy_world 6 ''r1'' (open_session toy_inserted)") (auto split: option.splits)
  have inv: "flow_inv [] toy_inserted" by (rule flow_reach_fresh [OF toy_fresh toy_reach_inserted])
  have "flow_session [] toy_inserted se"
    using advance_run_ok [OF flow_session_open [OF inv] _ adv] by (simp add: open_session_def)
  then obtain r' where r': "sql_get w_id (runs (se_saved se)) ''r1'' = Some r'"
    using flow_grows_run r(1) unfolding flow_session_def by blast
  from tick_verdict [OF toy_fresh toy_reach_inserted r adv r'] adv r' show ?thesis by blast
qed

end
