(* ===== verification/WorkflowEndings.thy ===== *)
theory WorkflowEndings
  imports WorkflowProps
begin

text \<open>
  Ending a run early, the workers, and where the engine does not do what it documents: cancelling and
  rejecting as functions on the statuses, claims that succeed once, a wait step that stops the runner, and
  dry runs that the runner executes.
\<close>

section \<open>Ending a run early\<close>

lemma status_of_update_rows:
  assumes "\<And>sr. step_key (f sr) = step_key sr"
    and "step_runs d' = sql_update (\<lambda>sr. s_run sr = run \<and> sel sr) f (step_runs d)"
  shows "run' \<noteq> run \<Longrightarrow> status_of d' run' sid = status_of d run' sid"
    and "status_of d' run sid = map_option (\<lambda>sr. s_status (if sel sr then f sr else sr)) (step_of d run sid)"
proof -
  have upd: "status_of d' r sid
      = map_option (\<lambda>sr. s_status (if s_run sr = run \<and> sel sr then f sr else sr)) (step_of d r sid)" for r
    by (rule status_of_sql_update [OF _ assms(2)]) (simp add: assms(1))
  show "run' \<noteq> run \<Longrightarrow> status_of d' run' sid = status_of d run' sid"
    unfolding upd by (cases "step_of d run' sid") (auto simp: status_of_def step_key_def dest: step_of_key)
  show "status_of d' run sid = map_option (\<lambda>sr. s_status (if sel sr then f sr else sr)) (step_of d run sid)"
    unfolding upd by (cases "step_of d run sid") (auto simp: step_key_def dest: step_of_key)
qed

text \<open>Cancelling a run cancels every step of it that had not ended and nothing else: steps that ended keep
  their status, steps of other runs are untouched, of the jobs exactly those that a running step waits
  for and that have not started are cancelled, the run ends as CANCELLED and cannot be cancelled again.\<close>

theorem cancel_run_effect:
  assumes "cancel_run now run d = Inr d'"
  shows "status_of d' run sid = map_option (\<lambda>s. if still_active s then S_CANCELLED else s) (status_of d run sid)
    \<and> (run' \<noteq> run \<longrightarrow> status_of d' run' sid = status_of d run' sid)
    \<and> sql_get j_id (jobs d') i = map_option
        (\<lambda>j. if (\<exists>sr \<in> set (run_steps d run). s_status sr = S_RUNNING \<and> s_job sr = Some i)
               \<and> j_status j \<in> {J_QUEUED, J_SCHEDULED} then j\<lparr>j_status := J_CANCELLED\<rparr> else j)
        (sql_get j_id (jobs d) i)
    \<and> (\<exists>r. sql_get w_id (runs d') run = Some r \<and> w_status r = W_CANCELLED \<and> w_completed_at r = Some now)
    \<and> (\<exists>msg. cancel_run later run d' = Inl (HTTPException 409 msg))"
proof -
  from assms obtain r where r: "sql_get w_id (runs d) run = Some r" and open_run: "\<not> run_final (w_status r)"
    by (auto simp: cancel_run_def run_final_def split: option.splits if_splits)
  from assms r open_run have d':
    "step_runs d' = sql_update (\<lambda>sr. s_run sr = run \<and> still_active (s_status sr)) (finish_step now S_CANCELLED) (step_runs d)"
    "runs d' = sql_modify w_id run (end_run now W_CANCELLED) (runs d)"
    "jobs d' = sql_update (\<lambda>j. list_ex (\<lambda>sr. s_status sr = S_RUNNING \<and> s_job sr = Some (j_id j)) (run_steps d run)
         \<and> j_status j \<in> {J_QUEUED, J_SCHEDULED}) (\<lambda>j. j\<lparr>j_status := J_CANCELLED\<rparr>) (jobs d)"
    by (auto simp: cancel_run_def run_final_def)
  note steps = status_of_update_rows [OF _ d'(1)]
  have run: "\<exists>r. sql_get w_id (runs d') run = Some r \<and> w_status r = W_CANCELLED \<and> w_completed_at r = Some now"
    using run_table.get_modify [of "end_run now W_CANCELLED" run "runs d" run] r by (simp add: d'(2) end_run_def)
  have job: "sql_get j_id (jobs d') i = map_option
        (\<lambda>j. if (\<exists>sr \<in> set (run_steps d run). s_status sr = S_RUNNING \<and> s_job sr = Some i)
               \<and> j_status j \<in> {J_QUEUED, J_SCHEDULED} then j\<lparr>j_status := J_CANCELLED\<rparr> else j)
        (sql_get j_id (jobs d) i)"
    unfolding d'(3)
    by (subst sql_get_update, simp) (cases "sql_get j_id (jobs d) i", auto simp: list_ex_iff dest: sql_get_SomeD)
  have "status_of d' run sid = map_option (\<lambda>s. if still_active s then S_CANCELLED else s) (status_of d run sid)"
    unfolding steps(2) [OF finish_step_simps(2)]
    by (cases "step_of d run sid") (simp_all add: status_of_def)
  moreover have "run' \<noteq> run \<longrightarrow> status_of d' run' sid = status_of d run' sid"
    using steps(1) [OF finish_step_simps(2)] by blast
  moreover from run have "\<exists>msg. cancel_run later run d' = Inl (HTTPException 409 msg)"
    by (auto simp: cancel_run_def)
  ultimately show ?thesis using run job by blast
qed

theorem cancel_run_effect_witness:
  "\<exists>d'. cancel_run 7 ''r1'' toy_run_approved = Inr d' \<and> status_of d' ''r1'' ''run'' = Some S_CANCELLED"
proof -
  obtain r where "sql_get w_id (runs toy_run_approved) ''r1'' = Some r" "w_status r = W_RUNNING"
    by (rule toy_run)
  then obtain d' where c: "cancel_run 7 ''r1'' toy_run_approved = Inr d'" by (simp add: cancel_run_def)
  from cancel_run_effect [OF this] toy_rows(4) c show ?thesis by (auto simp: still_active_def)
qed

text \<open>Rejecting an approval fails the step and the run and skips what had not started; but a step that is
  running stays RUNNING for good, and its job is not cancelled: the run has ended, so no later tick
  looks at it.\<close>

theorem rejection_effect:
  assumes "reject_step now run sid d = Inr d'"
  shows "status_of d' run x = (if x = sid then Some S_FAILED
      else map_option (\<lambda>s. if s \<in> {S_PENDING, S_WAITING_APPROVAL} then S_SKIPPED else s) (status_of d run x))
    \<and> jobs d' = jobs d
    \<and> (\<exists>r. sql_get w_id (runs d') run = Some r \<and> w_status r = W_FAILED)
    \<and> advance_run w later run (open_session d') = (None, open_session d')"
proof -
  from assms obtain r sr where wait: "waiting_step run sid d = Inr (r, sr)" by (auto simp: reject_step_def sum_bind_Inr_iff)
  then have r: "sql_get w_id (runs d) run = Some r" and row: "step_of d run sid = Some sr"
    by (auto simp: waiting_step_def split: option.splits if_splits)
  define d1 where "d1 = set_step run sid (fail_step now ''Rejected by approver'') d"
  have d': "d' = set_run run (end_run now W_FAILED) (skip_dangling now run sid d1)"
    using assms wait by (simp add: reject_step_def d1_def)
  have step1: "step_of d1 run x = (if x = sid then map_option (fail_step now ''Rejected by approver'') (step_of d run x)
      else step_of d run x)" for x
    by (simp add: d1_def step_of_set_step)
  have rows: "step_runs d' = sql_update
      (\<lambda>sr. s_run sr = run \<and> (s_step sr \<noteq> sid \<and> s_status sr \<in> {S_PENDING, S_WAITING_APPROVAL}))
      (finish_step now S_SKIPPED) (step_runs d1)"
    by (simp add: d' skip_dangling_def)
  have sid: "s_step y = x" if "step_of z run x = Some y" for x y z using step_of_key [OF that] by (simp add: step_key_def)
  have "status_of d' run x = (if x = sid then Some S_FAILED
      else map_option (\<lambda>s. if s \<in> {S_PENDING, S_WAITING_APPROVAL} then S_SKIPPED else s) (status_of d run x))"
    unfolding status_of_update_rows(2) [OF finish_step_simps(2) rows]
    by (cases "step_of d1 run x"; cases "x = sid") (use row in \<open>auto simp: step1 status_of_def dest: sid\<close>)
  moreover have "\<exists>r. sql_get w_id (runs d') run = Some r \<and> w_status r = W_FAILED"
    using run_table.get_modify [of "end_run now W_FAILED" run "runs d" run] r
    by (simp add: d' skip_dangling_def d1_def end_run_def)
  moreover from this have "advance_run w later run (open_session d') = (None, open_session d')"
    by (auto simp: advance_run_def open_session_def)
  moreover have "jobs d' = jobs d" by (simp add: d' skip_dangling_def d1_def)
  ultimately show ?thesis by blast
qed

theorem rejection_effect_witness:
  "\<exists>d'. reject_step 7 ''r1'' ''ok'' toy_run_started = Inr d' \<and> status_of d' ''r1'' ''run'' = Some S_SKIPPED"
proof -
  from toy_results(3) obtain r sr where "waiting_step ''r1'' ''ok'' toy_run_started = Inr (r, sr)"
    by (auto simp: toy_facts_def split: sum.splits)
  then obtain d' where r: "reject_step 7 ''r1'' ''ok'' toy_run_started = Inr d'" by (simp add: reject_step_def)
  from rejection_effect [OF this] toy_rows(1) r show ?thesis by auto
qed

section \<open>Claims\<close>

lemma claimed_row_gone:
  assumes "claim_workflow now next flow d = (b, d')" and "Some next \<noteq> wf_next_run_at flow"
  shows "filter (\<lambda>r. wf_id r = wf_id flow \<and> wf_next_run_at r = wf_next_run_at flow \<and> wf_next_run_at r \<noteq> None)
    (workflows d') = []"
proof -
  let ?mine = "\<lambda>r. wf_id r = wf_id flow \<and> wf_next_run_at r = wf_next_run_at flow \<and> wf_next_run_at r \<noteq> None"
  have "filter ?mine (sql_update ?mine (\<lambda>r. r\<lparr>wf_next_run_at := Some next, wf_last_run_at := Some now\<rparr>) rows) = []" for rows
    using assms(2) by (induction rows) auto
  with assms(1) show ?thesis by (auto simp: claim_workflow_def Let_def)
qed

text \<open>A due time fires once: of two schedulers that both saw the same next run of a workflow, the one whose
  claim comes second does not win it, whatever either of them computed as the next time, provided the
  first moved it on.\<close>

theorem due_time_fires_once:
  assumes "claim_workflow now next flow d = (b, d')" and "Some next \<noteq> wf_next_run_at flow"
  shows "claim_workflow now' next' flow d' = (False, d')"
proof -
  let ?mine = "\<lambda>r. wf_id r = wf_id flow \<and> wf_next_run_at r = wf_next_run_at flow \<and> wf_next_run_at r \<noteq> None"
  note gone = claimed_row_gone [OF assms]
  have "sql_update ?mine f rows = rows" if "filter ?mine rows = []" for f rows
    using that by (induction rows) (auto split: if_splits)
  note same = this [OF gone]
  show ?thesis unfolding claim_workflow_def Let_def gone same by simp
qed

theorem due_time_fires_once_witness:
  "\<exists>d'. claim_workflow 10 70 (toy_workflow\<lparr>wf_next_run_at := Some 9\<rparr>)
        (empty_db\<lparr>workflows := [toy_workflow\<lparr>wf_next_run_at := Some 9\<rparr>]\<rparr>) = (True, d')
     \<and> claim_workflow 11 71 (toy_workflow\<lparr>wf_next_run_at := Some 9\<rparr>) d' = (False, d')"
proof -
  let ?flow = "toy_workflow\<lparr>wf_next_run_at := Some 9\<rparr>"
  let ?d = "empty_db\<lparr>workflows := [?flow]\<rparr>"
  have c: "claim_workflow 10 70 ?flow ?d = (True, snd (claim_workflow 10 70 ?flow ?d))"
    by (simp add: claim_workflow_def)
  have "claim_workflow 11 71 ?flow (snd (claim_workflow 10 70 ?flow ?d)) = (False, snd (claim_workflow 10 70 ?flow ?d))"
    by (rule due_time_fires_once [OF c]) simp
  with c show ?thesis by blast
qed

section \<open>Where the engine stops short\<close>

lemma sync_steps_raises:
  assumes "sr \<in> set rows" and "\<And>x. \<exists>e. sync_change now x g ids sr = Inl e"
  shows "\<exists>e. sync_steps now g ids rows d = Inl e"
  using assms(1)
proof (induction rows arbitrary: d)
  case Nil
  then show ?case by simp
next
  case (Cons y rows)
  show ?case
  proof (cases "sync_change now d g ids y")
    case (Inl e)
    then show ?thesis by simp
  next
    case (Inr f)
    then have "sr \<in> set rows" using Cons.prems assms(2) [of d] by auto
    with Cons.IH Inr show ?thesis by simp
  qed
qed

text \<open>One wait step with a duration that is not a number stops the runner for good: the tick raises before
  it reaches the run's other steps or any later run, and changes nothing, so that the next tick does the
  same.\<close>

theorem unreadable_wait_stops_the_runner:
  assumes "filter (\<lambda>r. w_status r = W_RUNNING) (runs d) = r # later"
    and "sql_get w_id (runs d) (w_id r) = Some r" and "sql_get v_id (versions d) (w_version r) = Some v"
    and "sr \<in> set (run_steps d (w_id r))" and "s_status sr = S_RUNNING" and "s_job sr = None"
    and "find_step (v_graph v) (s_step sr) = Some step" and "normalize_type (step_type step) = T_WAIT"
    and "cfg_get (step_config step) ''mode'' = PStr ''duration''"
    and "cfg_get (step_config step) ''seconds'' = PStr secs" and "secs \<noteq> []" and "int_of_text secs = None"
  shows "\<exists>e. runner_tick w now d = (Some e, d)"
proof -
  have "r \<in> set (filter (\<lambda>r. w_status r = W_RUNNING) (runs d))" by (simp add: assms(1))
  then have running: "w_status r = W_RUNNING" by simp
  have "cfg_int (step_config step) ''seconds'' 0 = Inl e \<Longrightarrow> \<exists>e. sync_change now x (v_graph v) (w_agent_ids r) sr = Inl e" for e x
    using assms(5-9) by (simp add: sync_change_def wait_for_agent_satisfied_def Let_def py_or_def)
  moreover have "\<exists>e. cfg_int (step_config step) ''seconds'' 0 = Inl e"
    using assms(10-12) by (simp add: cfg_int_def py_int_def py_or_def)
  ultimately have "\<exists>e. sync_change now x (v_graph v) (w_agent_ids r) sr = Inl e" for x by blast
  from sync_steps_raises [OF assms(4) this] obtain e
    where "sync_steps now (v_graph v) (w_agent_ids r) (run_steps d (w_id r)) d = Inl e" by blast
  then have "advance_run w now (w_id r) (open_session d) = (Some e, open_session d)"
    using assms(2,3) running by (simp add: advance_run_def open_session_def)
  then show ?thesis by (simp add: runner_tick_def assms(1)) (simp add: open_session_def)
qed

definition toy_wait :: workflow_step where
  "toy_wait = sample_step ''nap'' T_WAIT [(''mode'', PStr ''duration''), (''seconds'', PStr ''soon'')]"

definition toy_napping :: db where
  "toy_napping = se_saved (snd (toy_start False (toy_graph [toy_wait] [])))"

theorem unreadable_wait_stops_the_runner_witness:
  "\<exists>e. runner_tick toy_world 9 toy_napping = (Some e, toy_napping)"
proof -
  have facts: "(case runs toy_napping of [r] \<Rightarrow> w_status r = W_RUNNING \<and> w_version r = ''v1''
        \<and> (case sql_get v_id (versions toy_napping) ''v1'' of None \<Rightarrow> False
            | Some v \<Rightarrow> g_steps (v_graph v) = [toy_wait])
        \<and> (case run_steps toy_napping (w_id r) of [sr] \<Rightarrow> s_status sr = S_RUNNING \<and> s_job sr = None \<and> s_step sr = ''nap''
            | _ \<Rightarrow> False)
      | _ \<Rightarrow> False)"
    by code_simp
  then obtain r v sr where r: "runs toy_napping = [r]" "w_status r = W_RUNNING" "w_version r = ''v1''"
    and v: "sql_get v_id (versions toy_napping) ''v1'' = Some v" "g_steps (v_graph v) = [toy_wait]"
    and sr: "run_steps toy_napping (w_id r) = [sr]" "s_status sr = S_RUNNING" "s_job sr = None" "s_step sr = ''nap''"
    by (auto split: list.splits option.splits)
  have soon: "int_of_text ''soon'' = None" by code_simp
  show ?thesis
    by (rule unreadable_wait_stops_the_runner [where r = r and later = "[]" and v = v and sr = sr
          and step = toy_wait and secs = "''soon''"])
      (use r v sr soon in \<open>simp_all add: sql_get_def find_step_def toy_wait_def sample_step_def normalize_type_def cfg_get_def\<close>)
qed

definition toy_dry :: db where
  "toy_dry = se_saved (snd (toy_start True
     (toy_graph [sample_step ''a'' T_START [], sample_step ''run'' T_COMMAND [(''command'', PStr ''id'')]]
        [sample_edge ''a'' ''run''])))"

text \<open>A dry run is not dry: the run that \<open>start_run\<close> persists with \<open>is_dry_run\<close> set creates no job there, but
  its status is RUNNING, so the next tick of the runner executes it like any other and creates the job.\<close>

theorem dry_runs_are_executed:
  "list_all w_is_dry_run (runs toy_dry) \<and> runs toy_dry \<noteq> [] \<and> jobs toy_dry = []
   \<and> (case runner_tick toy_world 7 toy_dry of
        (res, d) \<Rightarrow> res = None \<and> map j_type (jobs d) = [''CUSTOM_COMMAND''] \<and> map j_status (jobs d) = [J_QUEUED])"
  by code_simp

end
