(* ===== verification/Remediation.thy ===== *)
theory Remediation
  imports Session Automation "HOL-Library.Product_Lexorder"
begin

text \<open>
  Remediation plans: the service that drafts, submits, approves, dispatches, previews and rolls them back
  (\<open>services/remediation_service.py\<close>), the questions the automatic mode asks
  (\<open>services/auto_remediation.py\<close>), the scheduler with its automatic part
  (\<open>workers/remediation_scheduler.py\<close>) and the worker that verifies applied plans
  (\<open>workers/remediation_verification.py\<close>). What the results of the jobs do to a plan is in \<open>Jobs\<close>.

  The compliance tables are only read here and are an argument. Time zones and cron expressions are
  parameters: the wall clock of a zone, and the last occurrence of an expression before a wall time, each
  of which may raise. The times of a window are compared on the wall clock, as Python compares two times
  of the same zone. Equality of selector values identifies the numbers 0 and 1 with the truth values at
  the top level of a value.
\<close>

section \<open>The tables and the libraries around it\<close>

record compliance_rule =
  cr_id :: uuid
  cr_key :: string
  cr_domain :: string
  cr_status :: string

record policy_set =
  ps_id :: uuid
  ps_is_enabled :: bool
  ps_remediation :: config
  ps_rules :: "uuid list"

record remediation_template =
  rt_key :: string
  rt_version :: int
  rt_provider :: string
  rt_body :: string
  rt_rollback :: "string option"

record rule_evaluation =
  re_agent :: uuid
  re_rule :: uuid
  re_time :: time
  re_result :: string
  re_exception :: "uuid option"

record compliance =
  cp_rules :: "compliance_rule list"
  cp_sets :: "policy_set list"
  cp_templates :: "remediation_template list"
  cp_evaluations :: "rule_evaluation list"
  cp_categories :: "(uuid \<times> string) list"
  cp_projects :: "(uuid \<times> string) list"

record remedy_world =
  rw_sha256 :: "string \<Rightarrow> string"
  rw_wall :: "string \<Rightarrow> time \<Rightarrow> time option"
  rw_cron_prev :: "string \<Rightarrow> time \<Rightarrow> time option"
  rw_new_job :: "db \<Rightarrow> uuid"
  rw_new_plan :: "db \<Rightarrow> uuid"
  rw_new_action :: "db \<Rightarrow> nat \<Rightarrow> uuid"

section \<open>Comparing selector values\<close>

definition num_of :: "pv \<Rightarrow> int option" where
  "num_of v = (case v of PInt i \<Rightarrow> Some i | PBool b \<Rightarrow> Some (if b then 1 else 0) | _ \<Rightarrow> None)"

definition py_eq :: "pv \<Rightarrow> pv \<Rightarrow> bool" where
  "py_eq a b = (case (num_of a, num_of b) of (Some x, Some y) \<Rightarrow> x = y | _ \<Rightarrow> a = b)"

fun has_sub :: "string \<Rightarrow> string \<Rightarrow> bool" where
  "has_sub p [] = (p = [])"
| "has_sub p (c # cs) = (take (length p) (c # cs) = p \<or> has_sub p cs)"

text \<open>\<open>x in c\<close>.\<close>

definition py_in :: "pv \<Rightarrow> pv \<Rightarrow> exn + bool" where
  "py_in x c =
    (case c of
       PList xs \<Rightarrow> Inr (list_ex (py_eq x) xs)
     | PStr s \<Rightarrow> (case x of PStr p \<Rightarrow> Inr (has_sub p s) | _ \<Rightarrow> Inl (TypeError ''requires string as left operand''))
     | PDict d \<Rightarrow> (case x of
           PStr k \<Rightarrow> Inr (has_key d k)
         | PList _ \<Rightarrow> Inl (TypeError ''unhashable type'')
         | PDict _ \<Rightarrow> Inl (TypeError ''unhashable type'')
         | _ \<Rightarrow> Inr False)
     | _ \<Rightarrow> Inl (TypeError ''is not iterable''))"

definition opt_pv :: "string option \<Rightarrow> pv" where
  "opt_pv x = (case x of None \<Rightarrow> PNone | Some s \<Rightarrow> PStr s)"

section \<open>Maintenance windows\<close>

definition minute :: int where "minute = 60000000"

definition is_window_open :: "remedy_world \<Rightarrow> maintenance_window \<Rightarrow> time \<Rightarrow> bool" where
  "is_window_open w win now =
    (case mw_cron_expr win of
       None \<Rightarrow> False
     | Some expr \<Rightarrow>
        if expr = [] then False
        else (case rw_wall w (mw_timezone win) now of
            None \<Rightarrow> False
          | Some local \<Rightarrow>
             (case rw_cron_prev w expr local of
                None \<Rightarrow> False
              | Some prev \<Rightarrow> prev \<le> local \<and> local \<le> prev + mw_duration_minutes win * minute)))"

definition agent_matches_window_scope ::
    "string option \<Rightarrow> string option \<Rightarrow> config \<Rightarrow> config \<Rightarrow> string option \<Rightarrow> string option \<Rightarrow> maintenance_window
     \<Rightarrow> exn + bool" where
  "agent_matches_window_scope distro version tags facts category project win =
    (let scope = mw_scope_type win; selector = mw_scope_selector win in
     if scope = ''GLOBAL'' then Inr (selector = [] \<or> cfg_get selector ''all'' = PBool True)
     else if scope = ''OS'' then
       Inr (py_eq (cfg_get selector ''distro'') (opt_pv distro)
            \<and> (cfg_get selector ''version'' = PNone \<or> py_eq (cfg_get selector ''version'') (opt_pv version)))
     else if scope = ''ROLE'' then
       (let role = cfg_get selector ''role'' in
        if \<not> truthy role then Inr False
        else py_in role (case map_of tags ''roles'' of None \<Rightarrow> PList [] | Some v \<Rightarrow> v))
     else if scope = ''ENVIRONMENT'' then
       (let env = cfg_get selector ''environment'' in Inr (env \<noteq> PNone \<and> py_eq (opt_pv category) env))
     else if scope = ''DATACENTER'' then
       (let dc = cfg_get selector ''datacenter'' in
        Inr (truthy dc \<and> py_eq (py_or (cfg_get facts ''datacenter'') (cfg_get tags ''datacenter'')) dc))
     else if scope = ''CLUSTER'' then
       (let cluster = cfg_get selector ''cluster'' in
        Inr (truthy cluster \<and> py_eq (py_or (cfg_get facts ''cluster'') (cfg_get tags ''cluster'')) cluster))
     else if scope = ''APPLICATION'' then
       (let app = cfg_get selector ''application'' in Inr (app \<noteq> PNone \<and> py_eq (opt_pv project) app))
     else Inr False)"

section \<open>Which rules may be remediated, and how\<close>

definition covering_policies :: "compliance \<Rightarrow> uuid \<Rightarrow> policy_set list" where
  "covering_policies cp rule_id = filter (\<lambda>p. rule_id \<in> set (ps_rules p) \<and> ps_is_enabled p) (cp_sets cp)"

definition policy_mode :: "policy_set \<Rightarrow> pv" where
  "policy_mode p = cfg_get (ps_remediation p) ''mode''"

definition is_monitor_only :: "compliance \<Rightarrow> uuid \<Rightarrow> bool" where
  "is_monitor_only cp rule_id =
    (covering_policies cp rule_id \<noteq> []
     \<and> list_all (\<lambda>p. policy_mode p = PStr ''MONITOR'') (covering_policies cp rule_id))"

definition find_automatic_policy :: "compliance \<Rightarrow> uuid \<Rightarrow> policy_set option" where
  "find_automatic_policy cp rule_id =
    sql_first (\<lambda>p. policy_mode p = PStr ''AUTOMATIC'') (covering_policies cp rule_id)"

definition domain_allowed :: "config \<Rightarrow> string \<Rightarrow> exn + bool" where
  "domain_allowed remediation domain =
    sum_bind (py_in (PStr domain) (py_or (cfg_get remediation ''forbidden'') (PList []))) (\<lambda>forbidden.
      if forbidden then Inr False
      else (let allowed = py_or (cfg_get remediation ''allowed'') (PList []) in
        if \<not> truthy allowed then Inr True else py_in (PStr domain) allowed))"

definition find_active_template :: "compliance \<Rightarrow> string \<Rightarrow> remediation_template option" where
  "find_active_template cp key =
    (case sort_key (\<lambda>t. - rt_version t) (filter (\<lambda>t. rt_key t = key) (cp_templates cp)) of
       [] \<Rightarrow> None | t # _ \<Rightarrow> Some t)"

fun find_open_window :: "remedy_world \<Rightarrow> time \<Rightarrow> agent \<Rightarrow> maintenance_window list \<Rightarrow> exn + maintenance_window option" where
  "find_open_window w now a [] = Inr None"
| "find_open_window w now a (win # wins) =
    (if \<not> is_window_open w win now then find_open_window w now a wins
     else (case agent_matches_window_scope (a_os_distro a) (a_os_version a) (a_tags a) (a_custom_facts a) None None win of
         Inl e \<Rightarrow> Inl e
       | Inr True \<Rightarrow> Inr (Some win)
       | Inr False \<Rightarrow> find_open_window w now a wins))"

definition enabled_windows :: "db \<Rightarrow> maintenance_window list" where
  "enabled_windows d = filter mw_is_enabled (windows d)"

text \<open>Nothing when the pair is eligible, otherwise the precondition that failed first.\<close>

definition eligible_for_automatic ::
    "remedy_world \<Rightarrow> compliance \<Rightarrow> time \<Rightarrow> uuid \<Rightarrow> compliance_rule \<Rightarrow> policy_set \<Rightarrow> db \<Rightarrow> exn + string option" where
  "eligible_for_automatic w cp now agent_id rule p d =
    sum_bind (domain_allowed (ps_remediation p) (cr_domain rule)) (\<lambda>allowed.
    if \<not> allowed then Inr (Some ''domain not in policy allowlist'')
    else (case find_active_template cp (cr_key rule) of
        None \<Rightarrow> Inr (Some ''no remediation template for this rule'')
      | Some t \<Rightarrow>
         if rt_rollback t = None \<or> rt_rollback t = Some [] then Inr (Some ''template has no rollback_body'')
         else (case sql_get a_id (agents d) agent_id of
             None \<Rightarrow> Inr (Some ''agent not found'')
           | Some a \<Rightarrow>
              sum_bind (find_open_window w now a (enabled_windows d)) (\<lambda>win.
                if win = None then Inr (Some ''no open maintenance window covers this agent'')
                else if list_ex (\<lambda>act. ra_agent act = agent_id \<and> ra_rule act = Some (cr_id rule)
                    \<and> list_ex (\<lambda>pl. p_id pl = ra_plan act \<and> p_status pl \<in> {P_EXECUTING, P_VERIFYING}) (plans d)) (actions d)
                then Inr (Some ''a plan is already executing/verifying for this agent+rule'')
                else Inr None))))"

definition plans_created_today :: "db \<Rightarrow> time \<Rightarrow> nat" where
  "plans_created_today d since =
    length (filter (\<lambda>p. p_trigger_type p = ''AUTOMATIC'' \<and> p_created_at p \<ge> since) (plans d))"

definition already_attempted_today :: "db \<Rightarrow> uuid \<Rightarrow> uuid \<Rightarrow> time \<Rightarrow> bool" where
  "already_attempted_today d agent_id rule_id since =
    list_ex (\<lambda>act. ra_agent act = agent_id \<and> ra_rule act = Some rule_id
      \<and> list_ex (\<lambda>p. p_id p = ra_plan act \<and> p_trigger_type p = ''AUTOMATIC'' \<and> p_created_at p \<ge> since) (plans d))
      (actions d)"

text \<open>The candidate pairs: of the failing evaluations without exception of an active rule, one per pair.\<close>

definition candidate_pairs :: "compliance \<Rightarrow> (uuid \<times> uuid) list" where
  "candidate_pairs cp =
    remdups (sort (map (\<lambda>e. (re_agent e, re_rule e))
      (filter (\<lambda>e. re_result e = ''FAIL'' \<and> re_exception e = None
          \<and> list_ex (\<lambda>r. cr_id r = re_rule e \<and> cr_status r = ''ACTIVE'') (cp_rules cp)) (cp_evaluations cp))))"

definition find_automatic_candidates :: "compliance \<Rightarrow> (uuid \<times> compliance_rule \<times> policy_set) list" where
  "find_automatic_candidates cp =
    List.map_filter (\<lambda>(agent_id, rule_id).
      case (find_automatic_policy cp rule_id, sql_get cr_id (cp_rules cp) rule_id) of
        (Some p, Some rule) \<Rightarrow> Some (agent_id, rule, p) | _ \<Rightarrow> None) (candidate_pairs cp)"

section \<open>Creating a plan\<close>

record action_create =
  ax_agent :: uuid
  ax_provider :: string
  ax_body :: string
  ax_rule :: "uuid option"
  ax_drift :: "uuid option"
  ax_rollback :: "string option"

record plan_create =
  pc_name :: string
  pc_trigger :: string
  pc_emergency :: bool
  pc_window :: "uuid option"
  pc_created_by :: "uuid option"
  pc_created_by_actor :: "string option"

definition new_plan :: "uuid \<Rightarrow> time \<Rightarrow> plan_create \<Rightarrow> remediation_plan" where
  "new_plan plan_id now args =
    \<lparr>p_id = plan_id, p_name = pc_name args, p_status = P_DRAFT, p_trigger_type = pc_trigger args,
     p_window = pc_window args, p_is_emergency = pc_emergency args, p_created_by = pc_created_by args,
     p_created_by_actor = pc_created_by_actor args, p_approved_by = None, p_approved_at = None, p_created_at = now\<rparr>"

definition new_action :: "(nat \<Rightarrow> uuid) \<Rightarrow> uuid \<Rightarrow> nat \<Rightarrow> action_create \<Rightarrow> remediation_action" where
  "new_action ids plan_id i a =
    \<lparr>ra_id = ids i, ra_plan = plan_id, ra_rule = ax_rule a, ra_drift = ax_drift a, ra_agent = ax_agent a,
     ra_provider = ax_provider a, ra_body = ax_body a, ra_rollback = ax_rollback a, ra_sequence = int i\<rparr>"

definition window_usable :: "db \<Rightarrow> uuid \<Rightarrow> bool" where
  "window_usable d i = (case sql_get mw_id (windows d) i of None \<Rightarrow> False | Some win \<Rightarrow> mw_is_enabled win)"

definition bad_window :: exn where
  "bad_window = HTTPException 409 ''Referenced maintenance window does not exist or is disabled''"

definition create_plan ::
    "remedy_world \<Rightarrow> compliance \<Rightarrow> time \<Rightarrow> plan_create \<Rightarrow> action_create list \<Rightarrow> session \<Rightarrow> (exn + uuid) \<times> session" where
  "create_plan w cp now args acts se =
    (let d = se_db se; plan_id = rw_new_plan w d in
     if acts = [] then (Inl (HTTPException 400 ''A remediation plan needs at least one action''), se)
     else (case sql_first (\<lambda>a. case ax_rule a of None \<Rightarrow> False | Some r \<Rightarrow> is_monitor_only cp r) acts of
         Some a \<Rightarrow> (Inl (HTTPException 409 ''remediation is disabled for it (plan U7)''), se)
       | None \<Rightarrow>
         if (case pc_window args of None \<Rightarrow> False | Some i \<Rightarrow> \<not> window_usable d i) then (Inl bad_window, se)
         else if list_ex (\<lambda>a. case ax_rule a of None \<Rightarrow> False | Some r \<Rightarrow> r \<notin> cr_id ` set (cp_rules cp)) acts
         then (Inl (DatabaseError ''remediation_actions_rule_id_fkey''), se)
         else (Inr plan_id, commit (se\<lparr>se_db := d\<lparr>plans := plans d @ [new_plan plan_id now args],
                 actions := actions d @ map2 (new_action (rw_new_action w d) plan_id) [0..<length acts] acts\<rparr>\<rparr>))))"

section \<open>Submitting, approving, dispatching\<close>

definition set_plan :: "uuid \<Rightarrow> (remediation_plan \<Rightarrow> remediation_plan) \<Rightarrow> session \<Rightarrow> session" where
  "set_plan plan_id f se = se\<lparr>se_db := (se_db se)\<lparr>plans := sql_modify p_id plan_id f (plans (se_db se))\<rparr>\<rparr>"

definition plan_not_found :: exn where "plan_not_found = HTTPException 404 ''Remediation plan not found''"

definition submit_plan :: "uuid \<Rightarrow> session \<Rightarrow> exn option \<times> session" where
  "submit_plan plan_id se =
    (case sql_get p_id (plans (se_db se)) plan_id of
       None \<Rightarrow> (Some plan_not_found, se)
     | Some p \<Rightarrow>
        if p_status p \<noteq> P_DRAFT then (Some (HTTPException 409 ''Cannot submit from status''), se)
        else (None, commit (set_plan plan_id (\<lambda>p. p\<lparr>p_status := P_PENDING_APPROVAL\<rparr>) se)))"

definition plan_actions :: "db \<Rightarrow> uuid \<Rightarrow> remediation_action list" where
  "plan_actions d plan_id = filter (\<lambda>a. ra_plan a = plan_id) (actions d)"

definition append_entry :: "config \<Rightarrow> string \<times> pv \<Rightarrow> config" where
  "append_entry d kv =
    dict_put d (fst kv, PList ((case map_of d (fst kv) of Some (PList xs) \<Rightarrow> xs | _ \<Rightarrow> []) @ [snd kv]))"

definition action_entry :: "int \<Rightarrow> string \<Rightarrow> string \<Rightarrow> pv" where
  "action_entry i provider body =
    PDict [(''sequence'', PInt i), (''provider'', PStr provider), (''rendered_body'', PStr body)]"

definition build_actions_payload :: "remediation_action list \<Rightarrow> config" where
  "build_actions_payload acts =
    foldl append_entry [] (map (\<lambda>a. (ra_agent a, action_entry (ra_sequence a) (ra_provider a) (ra_body a)))
      (sort_key ra_sequence acts))"

definition plan_job_args :: "string \<Rightarrow> string \<Rightarrow> remediation_plan \<Rightarrow> string option \<Rightarrow> string list \<Rightarrow> config \<Rightarrow> job_args" where
  "plan_job_args title operation p role agent_ids payload =
    \<lparr>n_name = title @ p_name p, n_type = ''COMPLIANCE_REMEDIATE'', n_targets = agent_targets agent_ids,
     n_params = [(''remediation_plan_id'', PStr (p_id p)), (''operation'', PStr operation), (''actions'', PDict payload)],
     n_scheduled_time = None, n_policy_id = None, n_created_by = None, n_requires_approval = False,
     n_skip_approval_gate = False, n_created_by_actor = None, n_actor_role = role\<rparr>"

definition agents_of :: "remediation_action list \<Rightarrow> string list" where
  "agents_of acts = sort (remdups (map ra_agent acts))"

definition as_conflict :: "exn \<Rightarrow> exn" where
  "as_conflict e = (case e of ValueError m \<Rightarrow> HTTPException 409 m | _ \<Rightarrow> e)"

definition drift_open :: "drift_status \<Rightarrow> bool" where
  "drift_open s = (s \<in> {D_OPEN, D_ACKNOWLEDGED, D_IN_REMEDIATION})"

definition link_job :: "uuid \<Rightarrow> uuid \<Rightarrow> db \<Rightarrow> db" where
  "link_job plan_id job_id d = d\<lparr>plan_jobs := plan_jobs d @ [\<lparr>rj_plan = plan_id, rj_job = job_id\<rparr>]\<rparr>"

definition start_executing :: "remediation_plan \<Rightarrow> remediation_action list \<Rightarrow> uuid \<Rightarrow> db \<Rightarrow> db" where
  "start_executing p acts job_id d =
    (let d1 = set_plan_status (p_id p) P_EXECUTING (link_job (p_id p) job_id d)
     in d1\<lparr>drifts := sql_update (\<lambda>e. Some (d_id e) \<in> ra_drift ` set acts \<and> drift_open (d_status e))
          (\<lambda>e. e\<lparr>d_status := D_IN_REMEDIATION\<rparr>) (drifts d1)\<rparr>)"

definition dispatch_plan ::
    "remedy_world \<Rightarrow> time \<Rightarrow> remediation_plan \<Rightarrow> string option \<Rightarrow> session \<Rightarrow> exn option \<times> session" where
  "dispatch_plan w now p role se =
    (let acts = plan_actions (se_db se) (p_id p) in
     case create_job_in (rw_sha256 w) (rw_new_job w (se_db se)) now
         (plan_job_args ''Remediation: '' ''APPLY'' p role (agents_of acts) (build_actions_payload acts)) se of
       Raised e se' \<Rightarrow> (Some (as_conflict e), se')
     | Dispatched j se' \<Rightarrow> (None, commit (se'\<lparr>se_db := start_executing p acts (j_id j) (se_db se')\<rparr>)))"

definition created_by_approver :: "remediation_plan \<Rightarrow> string option \<Rightarrow> bool" where
  "created_by_approver p actor_id =
    ((p_created_by_actor p \<noteq> None \<and> p_created_by_actor p \<noteq> Some [] \<and> p_created_by_actor p = actor_id)
     \<or> (p_created_by p \<noteq> None \<and> p_created_by p = safe_uuid actor_id))"

definition approve_plan ::
    "remedy_world \<Rightarrow> time \<Rightarrow> uuid \<Rightarrow> string option \<Rightarrow> string option \<Rightarrow> session \<Rightarrow> exn option \<times> session" where
  "approve_plan w now plan_id actor_id role se =
    (case sql_get p_id (plans (se_db se)) plan_id of
       None \<Rightarrow> (Some plan_not_found, se)
     | Some p \<Rightarrow>
        if p_status p \<noteq> P_PENDING_APPROVAL then (Some (HTTPException 409 ''Cannot approve from status''), se)
        else if created_by_approver p actor_id
        then (Some (HTTPException 403 ''You cannot approve a plan you created yourself''), se)
        else (let se1 = set_plan plan_id (\<lambda>p. p\<lparr>p_approved_by := safe_uuid actor_id, p_approved_at := Some now\<rparr>) se in
          case p_window p of
            None \<Rightarrow> dispatch_plan w now p role se1
          | Some i \<Rightarrow>
             (case sql_get mw_id (windows (se_db se1)) i of
                None \<Rightarrow> (Some bad_window, se1)
              | Some win \<Rightarrow>
                 if \<not> mw_is_enabled win then (Some bad_window, se1)
                 else if p_is_emergency p \<or> is_window_open w win now then dispatch_plan w now p role se1
                 else (None, commit (set_plan plan_id (\<lambda>p. p\<lparr>p_status := P_APPROVED\<rparr>) se1)))))"

section \<open>Preview and rollback\<close>

definition dry_run_plan :: "remedy_world \<Rightarrow> time \<Rightarrow> uuid \<Rightarrow> string option \<Rightarrow> session \<Rightarrow> exn option \<times> session" where
  "dry_run_plan w now plan_id role se =
    (case sql_get p_id (plans (se_db se)) plan_id of
       None \<Rightarrow> (Some plan_not_found, se)
     | Some p \<Rightarrow>
        (let acts = plan_actions (se_db se) plan_id in
         if acts = [] then (Some (HTTPException 409 ''Plan has no actions to dry-run''), se)
         else (case create_job_in (rw_sha256 w) (rw_new_job w (se_db se)) now
              (plan_job_args ''Remediation dry-run: '' ''DRY_RUN'' p role (agents_of acts) (build_actions_payload acts)) se of
             Raised e se' \<Rightarrow> (Some (as_conflict e), se')
           | Dispatched j se' \<Rightarrow> (None, commit (se'\<lparr>se_db := link_job plan_id (j_id j) (se_db se')\<rparr>)))))"

text \<open>The newest job of the plan that applied it.\<close>

definition latest_apply :: "db \<Rightarrow> uuid \<Rightarrow> job option" where
  "latest_apply d plan_id =
    sql_first (\<lambda>j. job_operation j = PStr ''APPLY'')
      (List.map_filter (\<lambda>l. sql_get j_id (jobs d) (rj_job l)) (newest_first d plan_id))"

definition completed_agents :: "db \<Rightarrow> uuid \<Rightarrow> uuid list" where
  "completed_agents d job_id =
    map r_agent (filter (\<lambda>r. r_job r = job_id \<and> r_status r = R_COMPLETED) (results d))"

definition rollback_actions :: "db \<Rightarrow> uuid \<Rightarrow> uuid \<Rightarrow> remediation_action list" where
  "rollback_actions d plan_id job_id =
    filter (\<lambda>a. ra_agent a \<in> set (completed_agents d job_id))
      (sort_key (\<lambda>a. - ra_sequence a) (filter (\<lambda>a. ra_rollback a \<noteq> None) (plan_actions d plan_id)))"

definition rollback_payload :: "remediation_action list \<Rightarrow> config" where
  "rollback_payload acts =
    foldl append_entry [] (map2 (\<lambda>i a. (ra_agent a, action_entry (int i) (ra_provider a) (the (ra_rollback a))))
      [0..<length acts] acts)"

definition rollback_plan :: "remedy_world \<Rightarrow> time \<Rightarrow> uuid \<Rightarrow> string option \<Rightarrow> session \<Rightarrow> exn option \<times> session" where
  "rollback_plan w now plan_id role se =
    (let d = se_db se in
     case sql_get p_id (plans d) plan_id of
       None \<Rightarrow> (Some plan_not_found, se)
     | Some p \<Rightarrow>
        if p_status p \<notin> {P_COMPLETED, P_FAILED} then (Some (HTTPException 409 ''Cannot rollback from status''), se)
        else (case latest_apply d plan_id of
            None \<Rightarrow> (Some (HTTPException 409 ''No APPLY job found for this plan''), se)
          | Some applied \<Rightarrow>
             (let acts = rollback_actions d plan_id (j_id applied) in
              if acts = [] then (Some (HTTPException 409 ''No completed reversible remediation actions''), se)
              else (case create_job_in (rw_sha256 w) (rw_new_job w d) now
                   (plan_job_args ''Remediation rollback: '' ''ROLLBACK'' p role (agents_of acts) (rollback_payload acts)) se of
                  Raised e se' \<Rightarrow> (Some (as_conflict e), se')
                | Dispatched j se' \<Rightarrow> (None, commit (se'\<lparr>se_db :=
                     set_plan_status plan_id P_EXECUTING (link_job plan_id (j_id j) (se_db se'))\<rparr>))))))"

end
