(* ===== verification/RemedyWorkers.thy ===== *)
theory RemedyWorkers
  imports Remediation
begin

text \<open>
  The two workers of remediation: the scheduler, which dispatches approved plans inside their window and
  drives the automatic mode (\<open>workers/remediation_scheduler.py\<close>), and the verifier, which decides applied
  plans by fresh rule evaluations (\<open>workers/remediation_verification.py\<close>).

  An exception that a handler catches is logged with the id of the plan; after a rollback that id is
  expired, so the handler itself raises and the tick ends.
\<close>

section \<open>Dispatching approved plans\<close>

fun all_in_scope :: "compliance \<Rightarrow> maintenance_window \<Rightarrow> agent list \<Rightarrow> exn + bool" where
  "all_in_scope cp win [] = Inr True"
| "all_in_scope cp win (a # as) =
    (case agent_matches_window_scope (a_os_distro a) (a_os_version a) (a_tags a) (a_custom_facts a)
         (Option.bind (a_category_id a) (map_of (cp_categories cp)))
         (Option.bind (a_project_id a) (map_of (cp_projects cp))) win of
       Inl e \<Rightarrow> Inl e
     | Inr True \<Rightarrow> all_in_scope cp win as
     | Inr False \<Rightarrow> Inr False)"

text \<open>The result of work inside a handler that only logs.\<close>

definition logged :: "exn option \<times> session \<Rightarrow> exn option \<times> session" where
  "logged r = (case r of
      (None, se) \<Rightarrow> (None, se)
    | (Some e, se) \<Rightarrow> (if se_expired se then Some expired_access else None, se))"

definition try_dispatch ::
    "remedy_world \<Rightarrow> compliance \<Rightarrow> time \<Rightarrow> remediation_plan \<Rightarrow> session \<Rightarrow> exn option \<times> session" where
  "try_dispatch w cp now p se =
    (let d = se_db se in
     if se_expired se then (Some expired_access, se)
     else (case p_window p of
         None \<Rightarrow> (None, se)
       | Some i \<Rightarrow>
         (case sql_get mw_id (windows d) i of
            None \<Rightarrow> (None, se)
          | Some win \<Rightarrow>
             if \<not> mw_is_enabled win \<or> \<not> is_window_open w win now then (None, se)
             else (let agent_ids = set (map ra_agent (plan_actions d (p_id p)));
                       found = filter (\<lambda>a. a_id a \<in> agent_ids) (agents d)
                   in if agent_ids = {} \<or> a_id ` set found \<noteq> agent_ids then (None, se)
                      else (case all_in_scope cp win found of
                          Inl e \<Rightarrow> (Some e, se)
                        | Inr False \<Rightarrow> (None, se)
                        | Inr True \<Rightarrow> logged (dispatch_plan w now p (Some SYSTEM_ROLE) se))))))"

fun dispatch_loop ::
    "remedy_world \<Rightarrow> compliance \<Rightarrow> time \<Rightarrow> remediation_plan list \<Rightarrow> session \<Rightarrow> exn option \<times> session" where
  "dispatch_loop w cp now [] se = (None, se)"
| "dispatch_loop w cp now (p # ps) se =
    (case try_dispatch w cp now p se of
       (None, se') \<Rightarrow> dispatch_loop w cp now ps se'
     | (Some e, se') \<Rightarrow> (Some e, se'))"

section \<open>The automatic mode\<close>

definition latest_dry_run_job :: "db \<Rightarrow> uuid \<Rightarrow> job option" where
  "latest_dry_run_job d plan_id =
    (case newest_first d plan_id of
       [] \<Rightarrow> None
     | l # _ \<Rightarrow>
        (case sql_get j_id (jobs d) (rj_job l) of
           None \<Rightarrow> None
         | Some j \<Rightarrow> if cfg_get (j_params j) ''operation'' = PStr ''DRY_RUN'' then Some j else None))"

definition DRY_RUN_DISPATCH_GRACE :: int where "DRY_RUN_DISPATCH_GRACE = 300 * 1000000"

definition fail_automatic_plan :: "uuid \<Rightarrow> session \<Rightarrow> session" where
  "fail_automatic_plan plan_id se = commit (set_plan plan_id (\<lambda>p. p\<lparr>p_status := P_FAILED\<rparr>) se)"

text \<open>The autopilot acts without an identity and with the system role.\<close>

definition submit_and_approve :: "remedy_world \<Rightarrow> time \<Rightarrow> uuid \<Rightarrow> session \<Rightarrow> exn option \<times> session" where
  "submit_and_approve w now plan_id se =
    (case submit_plan plan_id se of
       (None, se') \<Rightarrow> approve_plan w now plan_id None (Some SYSTEM_ROLE) se'
     | (Some e, se') \<Rightarrow> (Some e, se'))"

definition resolve_dry_run ::
    "remedy_world \<Rightarrow> time \<Rightarrow> remediation_plan \<Rightarrow> session \<Rightarrow> exn option \<times> session" where
  "resolve_dry_run w now p se =
    (if se_expired se then (Some expired_access, se)
     else (case latest_dry_run_job (se_db se) (p_id p) of
         None \<Rightarrow> (None, if now - p_created_at p > DRY_RUN_DISPATCH_GRACE then fail_automatic_plan (p_id p) se else se)
       | Some j \<Rightarrow>
          if \<not> job_terminal (j_status j) then (None, se)
          else if j_status j \<noteq> J_COMPLETED then (None, fail_automatic_plan (p_id p) se)
          else logged (submit_and_approve w now (p_id p) se)))"

fun resolve_loop :: "remedy_world \<Rightarrow> time \<Rightarrow> remediation_plan list \<Rightarrow> session \<Rightarrow> exn option \<times> session" where
  "resolve_loop w now [] se = (None, se)"
| "resolve_loop w now (p # ps) se =
    (case resolve_dry_run w now p se of
       (None, se') \<Rightarrow> resolve_loop w now ps se'
     | (Some e, se') \<Rightarrow> (Some e, se'))"

definition pending_automatic :: "db \<Rightarrow> remediation_plan list" where
  "pending_automatic d = filter (\<lambda>p. p_status p = P_DRAFT \<and> p_trigger_type p = ''AUTOMATIC'') (plans d)"

definition open_drift :: "db \<Rightarrow> uuid \<Rightarrow> string \<Rightarrow> uuid option" where
  "open_drift d agent_id domain =
    (case sort_key (\<lambda>e. - d_time e)
        (filter (\<lambda>e. d_agent e = agent_id \<and> d_domain e = domain \<and> drift_open (d_status e)) (drifts d)) of
       [] \<Rightarrow> None | e # _ \<Rightarrow> Some (d_id e))"

definition automatic_args :: "agent \<Rightarrow> compliance_rule \<Rightarrow> maintenance_window \<Rightarrow> plan_create" where
  "automatic_args a rule win =
    \<lparr>pc_name = ''Auto-remediate '' @ cr_key rule @ '' on '' @ (case a_hostname a of
         None \<Rightarrow> a_agent_id a | Some h \<Rightarrow> if h = [] then a_agent_id a else h),
     pc_trigger = ''AUTOMATIC'', pc_emergency = False, pc_window = Some (mw_id win), pc_created_by = None,
     pc_created_by_actor = None\<rparr>"

definition automatic_action :: "agent \<Rightarrow> compliance_rule \<Rightarrow> remediation_template \<Rightarrow> db \<Rightarrow> action_create" where
  "automatic_action a rule t d =
    \<lparr>ax_agent = a_id a, ax_provider = rt_provider t, ax_body = rt_body t, ax_rule = Some (cr_id rule),
     ax_drift = open_drift d (a_id a) (cr_domain rule), ax_rollback = rt_rollback t\<rparr>"

text \<open>The action is validated when it is built: a known provider and a body that is not empty.\<close>

definition create_automatic_plan ::
    "remedy_world \<Rightarrow> compliance \<Rightarrow> time \<Rightarrow> uuid \<Rightarrow> compliance_rule \<Rightarrow> session \<Rightarrow> exn option \<times> session" where
  "create_automatic_plan w cp now agent_id rule se =
    (let d = se_db se in
     case sql_get a_id (agents d) agent_id of
       None \<Rightarrow> (None, se)
     | Some a \<Rightarrow>
        (case find_open_window w now a (enabled_windows d) of
           Inl e \<Rightarrow> (Some e, se)
         | Inr None \<Rightarrow> (None, se)
         | Inr (Some win) \<Rightarrow>
            (case find_active_template cp (cr_key rule) of
               None \<Rightarrow> (None, se)
             | Some t \<Rightarrow>
                if rt_provider t \<notin> {''ansible'', ''shell'', ''python''} \<or> rt_body t = []
                then (Some (ValueError ''RemediationActionCreate''), se)
                else (case create_plan w cp now (automatic_args a rule win) [automatic_action a rule t d] se of
                    (Inl e, se') \<Rightarrow> (Some e, se')
                  | (Inr plan_id, se') \<Rightarrow> dry_run_plan w now plan_id (Some SYSTEM_ROLE) se'))))"

text \<open>The remaining count goes down for every attempt that raised nothing.\<close>

fun trigger_loop ::
    "remedy_world \<Rightarrow> compliance \<Rightarrow> time \<Rightarrow> time \<Rightarrow> int \<Rightarrow> (uuid \<times> compliance_rule \<times> policy_set) list \<Rightarrow> session
     \<Rightarrow> exn option \<times> session" where
  "trigger_loop w cp now since remaining [] se = (None, se)"
| "trigger_loop w cp now since remaining ((agent_id, rule, p) # cs) se =
    (if remaining \<le> 0 then (None, se)
     else if se_expired se then (Some expired_access, se)
     else if already_attempted_today (se_db se) agent_id (cr_id rule) since
     then trigger_loop w cp now since remaining cs se
     else (case eligible_for_automatic w cp now agent_id rule p (se_db se) of
         Inl e \<Rightarrow> (Some e, se)
       | Inr (Some reason) \<Rightarrow> trigger_loop w cp now since remaining cs se
       | Inr None \<Rightarrow>
          (case create_automatic_plan w cp now agent_id rule se of
             (None, se') \<Rightarrow> trigger_loop w cp now since (remaining - 1) cs se'
           | (Some e, se') \<Rightarrow>
              if se_expired se' then (Some expired_access, se') else trigger_loop w cp now since remaining cs se')))"

definition day :: int where "day = 86400000000"

definition day_start :: "time \<Rightarrow> time" where
  "day_start now = now - now mod day"

definition trigger_new_automatic_plans ::
    "remedy_world \<Rightarrow> compliance \<Rightarrow> int \<Rightarrow> time \<Rightarrow> session \<Rightarrow> exn option \<times> session" where
  "trigger_new_automatic_plans w cp cap now se =
    (let remaining = cap - int (plans_created_today (se_db se) (day_start now)) in
     if remaining \<le> 0 then (None, se)
     else trigger_loop w cp now (day_start now) remaining (find_automatic_candidates cp) se)"

definition tick_automatic :: "remedy_world \<Rightarrow> compliance \<Rightarrow> bool \<Rightarrow> int \<Rightarrow> time \<Rightarrow> session \<Rightarrow> exn option \<times> session" where
  "tick_automatic w cp enabled cap now se =
    (if \<not> enabled then (None, se)
     else (case resolve_loop w now (pending_automatic (se_db se)) se of
         (Some e, se') \<Rightarrow> (Some e, se')
       | (None, se') \<Rightarrow> trigger_new_automatic_plans w cp cap now se'))"

definition approved_with_window :: "db \<Rightarrow> remediation_plan list" where
  "approved_with_window d = filter (\<lambda>p. p_status p = P_APPROVED \<and> p_window p \<noteq> None) (plans d)"

definition remediation_tick :: "remedy_world \<Rightarrow> compliance \<Rightarrow> bool \<Rightarrow> int \<Rightarrow> time \<Rightarrow> db \<Rightarrow> exn option \<times> db" where
  "remediation_tick w cp enabled cap now d =
    (let (res, se) = (case dispatch_loop w cp now (approved_with_window d) (open_session d) of
         (Some e, se) \<Rightarrow> (Some e, se)
       | (None, se) \<Rightarrow> tick_automatic w cp enabled cap now se)
     in (res, se_saved se))"

section \<open>Verifying applied plans\<close>

definition VERIFICATION_TIMEOUT :: int where "VERIFICATION_TIMEOUT = 15 * 60 * 1000000"

definition latest_apply_job :: "db \<Rightarrow> uuid \<Rightarrow> job option" where
  "latest_apply_job d plan_id =
    (case newest_first d plan_id of
       [] \<Rightarrow> None
     | l # _ \<Rightarrow>
        (case sql_get j_id (jobs d) (rj_job l) of
           None \<Rightarrow> None
         | Some j \<Rightarrow> if job_operation j = PStr ''APPLY'' then Some j else None))"

definition latest_fresh_result :: "compliance \<Rightarrow> uuid \<Rightarrow> uuid \<Rightarrow> time \<Rightarrow> string option" where
  "latest_fresh_result cp agent_id rule_id since =
    (case sort_key (\<lambda>e. - re_time e)
        (filter (\<lambda>e. re_agent e = agent_id \<and> re_rule e = rule_id \<and> re_time e > since) (cp_evaluations cp)) of
       [] \<Rightarrow> None | e # _ \<Rightarrow> Some (re_result e))"

definition verified_pairs :: "db \<Rightarrow> uuid \<Rightarrow> (uuid \<times> uuid) list" where
  "verified_pairs d plan_id =
    remdups (List.map_filter (\<lambda>a. map_option (\<lambda>r. (ra_agent a, r)) (ra_rule a)) (plan_actions d plan_id))"

definition rule_domain :: "compliance \<Rightarrow> uuid \<Rightarrow> string option" where
  "rule_domain cp rule_id = map_option cr_domain (sql_get cr_id (cp_rules cp) rule_id)"

definition resolve_related_drift :: "time \<Rightarrow> compliance \<Rightarrow> (uuid \<times> uuid) list \<Rightarrow> db \<Rightarrow> db" where
  "resolve_related_drift now cp pairs d =
    d\<lparr>drifts := fold (\<lambda>(agent_id, rule_id). sql_update
        (\<lambda>e. d_agent e = agent_id \<and> drift_open (d_status e) \<and> rule_domain cp rule_id = Some (d_domain e))
        (\<lambda>e. e\<lparr>d_status := D_RESOLVED, d_resolved_at := Some now\<rparr>)) pairs (drifts d)\<rparr>"

definition verify_plan :: "compliance \<Rightarrow> time \<Rightarrow> remediation_plan \<Rightarrow> db \<Rightarrow> db" where
  "verify_plan cp now p d =
    (case latest_apply_job d (p_id p) of
       None \<Rightarrow> d
     | Some j \<Rightarrow>
        (case j_completed_at j of
           None \<Rightarrow> d
         | Some finished \<Rightarrow>
            (let pairs = verified_pairs d (p_id p);
                 verdicts = map (\<lambda>(a, r). latest_fresh_result cp a r finished) pairs
             in if pairs = [] then set_plan_status (p_id p) P_COMPLETED d
                else if list_all (\<lambda>v. v = Some ''PASS'') verdicts
                then resolve_related_drift now cp pairs (set_plan_status (p_id p) P_COMPLETED d)
                else if list_ex (\<lambda>v. v = Some ''FAIL'') verdicts
                then revert_drift_to_open now (p_id p) (set_plan_status (p_id p) P_FAILED d)
                else if now - finished > VERIFICATION_TIMEOUT
                then revert_drift_to_open now (p_id p) (set_plan_status (p_id p) P_FAILED d)
                else d)))"

definition verification_tick :: "compliance \<Rightarrow> time \<Rightarrow> db \<Rightarrow> db" where
  "verification_tick cp now d =
    fold (verify_plan cp now) (filter (\<lambda>p. p_status p = P_VERIFYING) (plans d)) d"

end
