(* ===== verification/RemedyLaws.thy ===== *)
theory RemedyLaws
  imports RemedyWorkers JobLaws
begin

text \<open>
  What the remediation engine guarantees: nothing is applied for a plan that was not cleared, whatever the
  order of requests, worker ticks and reports; what a rollback undoes; and the gaps (a plan with the
  automatic trigger is approved by nobody, a preview hides the job that applied a plan).
\<close>

section \<open>Cleared plans\<close>

definition past_approval :: "plan_status \<Rightarrow> bool" where
  "past_approval s = (s \<in> {P_APPROVED, P_EXECUTING, P_VERIFYING, P_COMPLETED, P_ROLLED_BACK})"

text \<open>Approvals on record: the plan and the identity of the approver.\<close>

type_synonym approvals = "(uuid \<times> string option) list"

definition cleared :: "approvals \<Rightarrow> remediation_plan \<Rightarrow> bool" where
  "cleared L p = (p_trigger_type p = ''AUTOMATIC''
     \<or> (\<exists>actor. (p_id p, actor) \<in> set L \<and> \<not> created_by_approver p actor))"

definition plan_core :: "remediation_plan \<Rightarrow> remediation_plan" where
  "plan_core p = p\<lparr>p_status := P_DRAFT, p_approved_by := None, p_approved_at := None\<rparr>"

lemma plan_core_fields:
  assumes "plan_core r = plan_core p"
  shows "p_id r = p_id p" "p_trigger_type r = p_trigger_type p" "created_by_approver r = created_by_approver p"
  using assms by (cases p; cases r; simp add: plan_core_def created_by_approver_def fun_eq_iff)+

lemma plan_core_simps [simp]:
  "plan_core (p\<lparr>p_status := s\<rparr>) = plan_core p"
  "plan_core (p\<lparr>p_approved_by := u, p_approved_at := t\<rparr>) = plan_core p"
  by (simp_all add: plan_core_def)

lemma cleared_core: "plan_core r = plan_core p \<Longrightarrow> cleared L r = cleared L p"
  using plan_core_fields [of r p] by (simp add: cleared_def)

lemma cleared_mono: "cleared L p \<Longrightarrow> set L \<subseteq> set L' \<Longrightarrow> cleared L' p"
  by (auto simp: cleared_def)

definition applies :: "db \<Rightarrow> remediation_job \<Rightarrow> bool" where
  "applies d l = (\<exists>j. sql_get j_id (jobs d) (rj_job l) = Some j \<and> job_operation j \<noteq> PStr ''DRY_RUN'')"

definition link_ok :: "approvals \<Rightarrow> db \<Rightarrow> remediation_job \<Rightarrow> bool" where
  "link_ok L d l = (rj_job l \<in> j_id ` set (jobs d)
     \<and> (\<exists>p \<in> set (plans d). p_id p = rj_plan l \<and> (applies d l \<longrightarrow> cleared L p)))"

definition remedy_inv :: "approvals \<Rightarrow> db \<Rightarrow> bool" where
  "remedy_inv L d =
    (distinct (map p_id (plans d)) \<and> (\<forall>p \<in> set (plans d). past_approval (p_status p) \<longrightarrow> cleared L p)
     \<and> (\<forall>l \<in> set (plan_jobs d). link_ok L d l))"

definition plans_grow :: "db \<Rightarrow> db \<Rightarrow> bool" where
  "plans_grow a b = (\<forall>p \<in> set (plans a). \<exists>r \<in> set (plans b). plan_core r = plan_core p)"

lemma plans_grow_refl [simp]: "plans_grow d d"
  by (auto simp: plans_grow_def)

lemma plans_growD: "plans_grow a b \<Longrightarrow> p \<in> set (plans a) \<Longrightarrow> \<exists>r \<in> set (plans b). plan_core r = plan_core p"
  by (simp add: plans_grow_def)

lemma plans_grow_trans:
  assumes "plans_grow a b" and "plans_grow b c"
  shows "plans_grow a c"
  unfolding plans_grow_def
proof
  fix p
  assume "p \<in> set (plans a)"
  from plans_growD [OF assms(1) this] obtain r where "r \<in> set (plans b)" and r: "plan_core r = plan_core p" by blast
  from plans_growD [OF assms(2) this(1)] show "\<exists>s \<in> set (plans c). plan_core s = plan_core p" unfolding r by blast
qed

lemma same_row:
  assumes "distinct (map p_id (plans d))" and "p \<in> set (plans d)" and "r \<in> set (plans d)" and "p_id p = p_id r"
  shows "p = r"
proof -
  have "Some p = Some r"
    using sql_get_distinct [OF assms(1,2)] sql_get_distinct [OF assms(1,3)] unfolding assms(4) by (rule trans [OF sym])
  then show ?thesis by simp
qed

text \<open>A row of an earlier state, seen from a later one.\<close>

lemma cleared_later:
  assumes "remedy_inv L d'" and "plans_grow d d'" and "p \<in> set (plans d)" and "cleared L p"
    and "r \<in> set (plans d')" and "p_id r = p_id p"
  shows "cleared L r"
proof -
  from plans_growD [OF assms(2,3)] obtain p' where p': "p' \<in> set (plans d')" "plan_core p' = plan_core p" by blast
  then have "p_id p' = p_id r" using plan_core_fields(1) [of p' p] assms(6) by simp
  with same_row [of d' p' r] assms(1,5) p'(1) have "r = p'" by (simp add: remedy_inv_def)
  with cleared_core [OF p'(2)] assms(4) show ?thesis by simp
qed

lemma row_later:
  assumes "plans_grow d d'" and "p \<in> set (plans d)"
  shows "\<exists>r \<in> set (plans d'). p_id r = p_id p"
proof -
  from plans_growD [OF assms] obtain r where "r \<in> set (plans d')" and "plan_core r = plan_core p" by blast
  from this(1) plan_core_fields(1) [OF this(2)] show ?thesis by blast
qed

section \<open>The shape of every change\<close>

lemma remedy_change:
  assumes inv: "remedy_inv L d" and log: "set L \<subseteq> set L'"
    and plans: "plans d' = sql_modify p_id i f (plans d)" and core: "\<And>p. plan_core (f p) = plan_core p"
    and past: "\<And>p. p \<in> set (plans d) \<Longrightarrow> p_id p = i \<Longrightarrow> past_approval (p_status (f p)) \<Longrightarrow> cleared L' p"
    and jobs: "jobs d' = jobs d @ js" and links: "plan_jobs d' = plan_jobs d @ ls"
    and new: "\<And>l. l \<in> set ls \<Longrightarrow> rj_job l \<in> j_id ` set (jobs d') \<and> rj_plan l \<in> p_id ` set (plans d)
      \<and> (applies d' l \<longrightarrow> (\<forall>p \<in> set (plans d). p_id p = rj_plan l \<longrightarrow> cleared L' p))"
  shows "remedy_inv L' d' \<and> plans_grow d d'"
proof
  have id: "p_id (f p) = p_id p" for p using plan_core_fields(1) [OF core] .
  have ids: "map p_id (plans d') = map p_id (plans d)"
    unfolding plans sql_modify_def by (rule map_key_sql_update) (simp add: id)
  have rows: "\<exists>r \<in> set (plans d'). plan_core r = plan_core p" if "p \<in> set (plans d)" for p
  proof -
    have "(if p_id p = i then f p else p) \<in> set (plans d')"
      using that by (auto simp: plans sql_modify_def in_set_sql_update)
    then show ?thesis by (rule bexI [rotated]) (simp add: core)
  qed
  have back_row: "\<exists>p \<in> set (plans d). r = (if p_id p = i then f p else p)" if "r \<in> set (plans d')" for r
    using that by (auto simp: plans sql_modify_def in_set_sql_update)
  show "plans_grow d d'" using rows by (simp add: plans_grow_def)
  have later: "cleared L' r" if "p \<in> set (plans d)" "cleared L' p" "r \<in> set (plans d')" "plan_core r = plan_core p" for p r
    using that cleared_core by blast
  have "cleared L' r" if "r \<in> set (plans d')" "past_approval (p_status r)" for r
  proof -
    from back_row [OF that(1)] obtain p where p: "p \<in> set (plans d)" "r = (if p_id p = i then f p else p)" by blast
    show ?thesis
    proof (cases "p_id p = i")
      case True
      with p past that(2) cleared_core [OF core] show ?thesis by simp
    next
      case False
      with p that(2) inv cleared_mono [OF _ log] show ?thesis by (simp add: remedy_inv_def)
    qed
  qed
  moreover have "link_ok L' d' l" if "l \<in> set (plan_jobs d')" for l
  proof (cases "l \<in> set (plan_jobs d)")
    case True
    with inv obtain p where job: "rj_job l \<in> j_id ` set (jobs d)" and p: "p \<in> set (plans d)" "p_id p = rj_plan l"
      "applies d l \<longrightarrow> cleared L p" by (auto simp: remedy_inv_def link_ok_def)
    from job have "sql_get j_id (jobs d) (rj_job l) \<noteq> None" by (simp add: sql_get_None_iff)
    then have "applies d' l = applies d l" by (auto simp: applies_def jobs sql_get_append)
    moreover from rows [OF p(1)] obtain r where "r \<in> set (plans d')" "plan_core r = plan_core p" by blast
    moreover from this have "p_id r = rj_plan l" using plan_core_fields(1) [of r p] p(2) by simp
    moreover from \<open>plan_core r = plan_core p\<close> have "cleared L p \<longrightarrow> cleared L' r"
      using cleared_mono [OF _ log] cleared_core by blast
    moreover from job have "rj_job l \<in> j_id ` set (jobs d')" by (auto simp: jobs)
    ultimately show ?thesis using p(3) unfolding link_ok_def by blast
  next
    case False
    with that links have "l \<in> set ls" by simp
    note n = new [OF this]
    then obtain p where p: "p \<in> set (plans d)" "p_id p = rj_plan l" by auto
    from rows [OF p(1)] obtain r where "r \<in> set (plans d')" "plan_core r = plan_core p" by blast
    moreover from this have "p_id r = rj_plan l" using plan_core_fields(1) [of r p] p(2) by simp
    moreover from \<open>plan_core r = plan_core p\<close> have "cleared L' p \<longrightarrow> cleared L' r" using cleared_core by blast
    ultimately show ?thesis using n p unfolding link_ok_def by blast
  qed
  ultimately show "remedy_inv L' d'" using inv ids by (simp add: remedy_inv_def)
qed

text \<open>Changes of columns the invariant does not read.\<close>

lemma remedy_inv_cong:
  assumes "plans d' = plans d" and "plan_jobs d' = plan_jobs d" and "jobs d' = jobs d"
  shows "remedy_inv L d' = remedy_inv L d" and "plans_grow x d' = plans_grow x d"
  by (simp_all add: remedy_inv_def link_ok_def applies_def plans_grow_def assms)

section \<open>Sessions\<close>

definition remedy_session :: "approvals \<Rightarrow> db \<Rightarrow> session \<Rightarrow> bool" where
  "remedy_session L d se =
    (remedy_inv L (se_db se) \<and> remedy_inv L (se_saved se) \<and> plans_grow d (se_db se) \<and> plans_grow d (se_saved se))"

lemma remedy_session_open: "remedy_inv L d \<Longrightarrow> remedy_session L d (open_session d)"
  by (simp add: remedy_session_def open_session_def)

lemma remedy_session_commit:
  "remedy_inv L x \<Longrightarrow> plans_grow d x \<Longrightarrow> remedy_session L d (commit (se\<lparr>se_db := x\<rparr>))"
  by (simp add: remedy_session_def commit_def)

lemma remedy_session_rollback: "remedy_session L d se \<Longrightarrow> remedy_session L d (rollback se)"
  by (simp add: remedy_session_def rollback_def)

lemma create_job_in_Raised: "create_job_in sha i now args se = Raised e se' \<Longrightarrow> se' = se \<or> se' = rollback se"
  by (auto simp: create_job_in_def split: sum.splits prod.splits if_splits)

lemma create_job_in_Dispatched:
  assumes "create_job_in sha i now args se = Dispatched j se'"
  shows "j_id j = i \<and> j_params j = n_params args \<and> j_created_at j = now
    \<and> (\<exists>rs. se' = commit (se\<lparr>se_db := (se_db se)\<lparr>jobs := jobs (se_db se) @ [j], results := results (se_db se) @ rs\<rparr>\<rparr>))"
proof -
  from assms obtain d where c: "create_job sha i now args (se_db se) = Inr (j, d)" and se': "se' = commit (se\<lparr>se_db := d\<rparr>)"
    by (auto simp: create_job_in_def split: sum.splits prod.splits if_splits)
  from create_job_Inr [OF c] show ?thesis by (auto simp: se')
qed

text \<open>The three jobs of a plan: created, linked, and the plan moved by \<open>f\<close>.\<close>

lemma plan_job_session:
  assumes sess: "remedy_session L d se"
    and job: "create_job_in sha i now args se = Dispatched j se'"
    and plans: "plans x = sql_modify p_id pid f (plans (se_db se'))" and core: "\<And>p. plan_core (f p) = plan_core p"
    and past: "\<And>p. p \<in> set (plans (se_db se)) \<Longrightarrow> p_id p = pid \<Longrightarrow> past_approval (p_status (f p)) \<Longrightarrow> cleared L p"
    and jobs: "jobs x = jobs (se_db se')" and links: "plan_jobs x = plan_jobs (se_db se') @ [\<lparr>rj_plan = pid, rj_job = i\<rparr>]"
    and row: "pid \<in> p_id ` set (plans (se_db se))"
    and ok: "(i \<notin> j_id ` set (jobs (se_db se)) \<and> cfg_get (n_params args) ''operation'' = PStr ''DRY_RUN'')
      \<or> (\<forall>p \<in> set (plans (se_db se)). p_id p = pid \<longrightarrow> cleared L p)"
  shows "remedy_session L d (commit (se'\<lparr>se_db := x\<rparr>))"
proof -
  note c = create_job_in_Dispatched [OF job]
  then have frame: "plans (se_db se') = plans (se_db se)" "plan_jobs (se_db se') = plan_jobs (se_db se)"
    "jobs (se_db se') = jobs (se_db se) @ [j]" by (auto simp: commit_def)
  from sess have inv: "remedy_inv L (se_db se)" and grow: "plans_grow d (se_db se)" by (simp_all add: remedy_session_def)
  have "applies x \<lparr>rj_plan = pid, rj_job = i\<rparr> \<longrightarrow> (\<forall>p \<in> set (plans (se_db se)). p_id p = pid \<longrightarrow> cleared L p)"
  proof (cases "\<forall>p \<in> set (plans (se_db se)). p_id p = pid \<longrightarrow> cleared L p")
    case False
    with ok have "i \<notin> j_id ` set (jobs (se_db se))" and dry: "cfg_get (n_params args) ''operation'' = PStr ''DRY_RUN''" by blast+
    then have "sql_get j_id (jobs x) i = Some j"
      using c by (simp add: jobs frame sql_get_append sql_get_None_iff [symmetric]) (simp add: sql_get_def)
    with c dry show ?thesis by (auto simp: applies_def job_operation_def cfg_get_def split: option.splits)
  qed simp
  moreover have "i \<in> j_id ` set (jobs x)" using c by (simp add: jobs frame)
  ultimately have "remedy_inv L x \<and> plans_grow (se_db se) x"
    using row by (intro remedy_change [OF inv subset_refl plans [unfolded frame] core past, where js = "[j]"])
      (auto simp: jobs frame links)
  then show ?thesis using plans_grow_trans [OF grow] by (intro remedy_session_commit) auto
qed

section \<open>Every operation keeps the invariant\<close>

definition fresh_ids :: "remedy_world \<Rightarrow> bool" where
  "fresh_ids w = (\<forall>x. rw_new_job w x \<notin> j_id ` set (jobs x) \<and> rw_new_plan w x \<notin> p_id ` set (plans x))"

lemma set_plan_session:
  assumes sess: "remedy_session L d se" and core: "\<And>p. plan_core (f p) = plan_core p"
    and past: "\<And>p. p \<in> set (plans (se_db se)) \<Longrightarrow> p_id p = i \<Longrightarrow> past_approval (p_status (f p)) \<Longrightarrow> cleared L p"
  shows "remedy_session L d (set_plan i f se)" and "remedy_session L d (commit (set_plan i f se))"
proof -
  from sess have inv: "remedy_inv L (se_db se)" and grow: "plans_grow d (se_db se)" by (simp_all add: remedy_session_def)
  let ?x = "(se_db se)\<lparr>plans := sql_modify p_id i f (plans (se_db se))\<rparr>"
  have "remedy_inv L ?x \<and> plans_grow (se_db se) ?x"
    by (rule remedy_change [OF inv subset_refl _ core past, where js = "[]" and ls = "[]"]) simp_all
  with sess plans_grow_trans [OF grow] show "remedy_session L d (set_plan i f se)"
    and "remedy_session L d (commit (set_plan i f se))"
    by (simp_all add: remedy_session_def set_plan_def commit_def)
qed

lemma create_plan_session:
  assumes sess: "remedy_session L d se" and fresh: "fresh_ids w"
    and cre: "create_plan w cp now args acts se = (r, se')"
  shows "remedy_session L d se'"
proof (cases r)
  case (Inl e)
  with cre have "se' = se" by (auto simp: create_plan_def Let_def split: option.splits if_splits)
  with sess show ?thesis by simp
next
  case (Inr i)
  let ?p = "new_plan i now args"
  from sess have inv: "remedy_inv L (se_db se)" and grow: "plans_grow d (se_db se)" by (simp_all add: remedy_session_def)
  from cre Inr obtain as where i: "i = rw_new_plan w (se_db se)"
    and se': "se' = commit (se\<lparr>se_db := (se_db se)\<lparr>plans := plans (se_db se) @ [?p], actions := as\<rparr>\<rparr>)"
    by (auto simp: create_plan_def Let_def split: option.splits if_splits)
  let ?x = "(se_db se)\<lparr>plans := plans (se_db se) @ [?p], actions := as\<rparr>"
  have "p_id ?p = i" "p_status ?p = P_DRAFT" by (simp_all add: new_plan_def)
  moreover have "i \<notin> p_id ` set (plans (se_db se))" using fresh i by (simp add: fresh_ids_def)
  moreover have "link_ok L ?x l" if "link_ok L (se_db se) l" for l
    using that by (auto simp: link_ok_def applies_def)
  ultimately have "remedy_inv L ?x" using inv by (auto simp: remedy_inv_def past_approval_def)
  moreover have "plans_grow (se_db se) ?x" by (auto simp: plans_grow_def)
  ultimately show ?thesis unfolding se' using plans_grow_trans [OF grow] by (intro remedy_session_commit) auto
qed

lemma submit_plan_session:
  assumes sess: "remedy_session L d se" and sub: "submit_plan i se = (r, se')"
  shows "remedy_session L d se'"
proof (cases "r = None")
  case True
  with sub have "se' = commit (set_plan i (\<lambda>p. p\<lparr>p_status := P_PENDING_APPROVAL\<rparr>) se)"
    by (auto simp: submit_plan_def split: option.splits if_splits)
  then show ?thesis
    using set_plan_session(2) [OF sess, of "\<lambda>p. p\<lparr>p_status := P_PENDING_APPROVAL\<rparr>" i] by (simp add: past_approval_def)
next
  case False
  with sub have "se' = se" by (auto simp: submit_plan_def split: option.splits if_splits)
  with sess show ?thesis by simp
qed

lemma start_executing_frame:
  "plans (start_executing p acts i x) = sql_modify p_id (p_id p) (\<lambda>p. p\<lparr>p_status := P_EXECUTING\<rparr>) (plans x)"
  "jobs (start_executing p acts i x) = jobs x"
  "plan_jobs (start_executing p acts i x) = plan_jobs x @ [\<lparr>rj_plan = p_id p, rj_job = i\<rparr>]"
  by (simp_all add: start_executing_def set_plan_status_def link_job_def Let_def)

lemma dispatch_plan_session:
  assumes sess: "remedy_session L d se" and row: "p_id p \<in> p_id ` set (plans (se_db se))"
    and ok: "\<forall>x \<in> set (plans (se_db se)). p_id x = p_id p \<longrightarrow> cleared L x"
    and dis: "dispatch_plan w now p role se = (r, se')"
  shows "remedy_session L d se'"
proof -
  from dis consider e s where "create_job_in (rw_sha256 w) (rw_new_job w (se_db se)) now
         (plan_job_args ''Remediation: '' ''APPLY'' p role (agents_of (plan_actions (se_db se) (p_id p)))
           (build_actions_payload (plan_actions (se_db se) (p_id p)))) se = Raised e s" "se' = s"
    | j s where "create_job_in (rw_sha256 w) (rw_new_job w (se_db se)) now
         (plan_job_args ''Remediation: '' ''APPLY'' p role (agents_of (plan_actions (se_db se) (p_id p)))
           (build_actions_payload (plan_actions (se_db se) (p_id p)))) se = Dispatched j s"
       "se' = commit (s\<lparr>se_db := start_executing p (plan_actions (se_db se) (p_id p)) (j_id j) (se_db s)\<rparr>)"
    by (auto simp: dispatch_plan_def Let_def split: dispatch_result.splits)
  then show ?thesis
  proof cases
    case 1
    with create_job_in_Raised [OF 1(1)] sess remedy_session_rollback [OF sess] show ?thesis by auto
  next
    case 2
    have id: "j_id j = rw_new_job w (se_db se)" using create_job_in_Dispatched [OF 2(1)] by simp
    show ?thesis unfolding 2(2)
      by (rule plan_job_session [OF sess 2(1), where pid = "p_id p" and f = "\<lambda>p. p\<lparr>p_status := P_EXECUTING\<rparr>"])
        (use row ok in \<open>simp_all add: start_executing_frame id\<close>)
  qed
qed

lemma approve_plan_session:
  assumes sess: "remedy_session L d se" and log: "set L \<subseteq> set L'"
    and ok: "\<And>p. p \<in> set (plans (se_db se)) \<Longrightarrow> p_id p = i \<Longrightarrow> p_status p = P_PENDING_APPROVAL \<Longrightarrow>
      \<not> created_by_approver p actor \<Longrightarrow> cleared L' p"
    and app: "approve_plan w now i actor role se = (r, se')"
  shows "remedy_session L' d se'"
proof -
  have mono: "remedy_inv L' x" if "remedy_inv L x" for x
    using that cleared_mono [OF _ log] by (fastforce simp: remedy_inv_def link_ok_def)
  with sess have sess': "remedy_session L' d se" by (simp add: remedy_session_def)
  show ?thesis
  proof (cases "\<exists>p. sql_get p_id (plans (se_db se)) i = Some p \<and> p_status p = P_PENDING_APPROVAL \<and> \<not> created_by_approver p actor")
    case False
    with app have "se' = se" by (auto simp: approve_plan_def split: option.splits if_splits)
    with sess' show ?thesis by simp
  next
    case True
    then obtain p where get: "sql_get p_id (plans (se_db se)) i = Some p"
      and pending: "p_status p = P_PENDING_APPROVAL" "\<not> created_by_approver p actor" by blast
    from sql_get_SomeD [OF get] have p: "p \<in> set (plans (se_db se))" "p_id p = i" by simp_all
    from ok [OF p pending] have clear: "cleared L' p" .
    have dist: "distinct (map p_id (plans (se_db se)))" using sess by (simp add: remedy_session_def remedy_inv_def)
    have only: "x = p" if "x \<in> set (plans (se_db se))" "p_id x = i" for x
      using same_row [OF dist that(1) p(1)] that(2) p(2) by simp
    let ?mark = "\<lambda>p. p\<lparr>p_approved_by := safe_uuid actor, p_approved_at := Some now\<rparr>"
    let ?se1 = "set_plan i ?mark se"
    have one: "remedy_session L' d ?se1"
      by (rule set_plan_session(1) [OF sess' plan_core_simps(2)]) (use only clear in blast)
    have rows1: "\<exists>y \<in> set (plans (se_db se)). x = (if p_id y = i then ?mark y else y)" if "x \<in> set (plans (se_db ?se1))" for x
      using that by (auto simp: set_plan_def sql_modify_def in_set_sql_update)
    have clear1: "\<forall>x \<in> set (plans (se_db ?se1)). p_id x = i \<longrightarrow> cleared L' x"
    proof (intro ballI impI)
      fix x
      assume x: "x \<in> set (plans (se_db ?se1))" "p_id x = i"
      from rows1 [OF x(1)] obtain y where y: "y \<in> set (plans (se_db se))" "x = (if p_id y = i then ?mark y else y)" by blast
      with x(2) have "p_id y = i" by (auto split: if_splits)
      with only [OF y(1)] y(2) have "x = ?mark p" by simp
      with clear cleared_core [OF plan_core_simps(2)] show "cleared L' x" by simp
    qed
    have "?mark p \<in> set (plans (se_db ?se1))" using p by (auto simp: set_plan_def sql_modify_def in_set_sql_update)
    then have "p_id (?mark p) \<in> p_id ` set (plans (se_db ?se1))" by (rule imageI)
    then have row1: "p_id p \<in> p_id ` set (plans (se_db ?se1))" by simp
    have dispatched: "remedy_session L' d x" if "dispatch_plan w now p role ?se1 = (r, x)" for x r
      using dispatch_plan_session [OF one row1 _ that] clear1 p(2) by simp
    have approved: "remedy_session L' d (commit (set_plan i (\<lambda>p. p\<lparr>p_status := P_APPROVED\<rparr>) ?se1))"
      by (rule set_plan_session(2) [OF one plan_core_simps(1)]) (use clear1 in blast)
    from app get pending show ?thesis
      using dispatched approved one
      by (auto simp: approve_plan_def Let_def split: option.splits if_splits)
  qed
qed

lemma dry_run_plan_session:
  assumes sess: "remedy_session L d se" and fresh: "fresh_ids w" and dry: "dry_run_plan w now i role se = (r, se')"
  shows "remedy_session L d se'"
proof (cases "\<exists>p acts j s. sql_get p_id (plans (se_db se)) i = Some p \<and> acts = plan_actions (se_db se) i \<and>
    create_job_in (rw_sha256 w) (rw_new_job w (se_db se)) now
      (plan_job_args ''Remediation dry-run: '' ''DRY_RUN'' p role (agents_of acts) (build_actions_payload acts)) se
      = Dispatched j s \<and> se' = commit (s\<lparr>se_db := link_job i (j_id j) (se_db s)\<rparr>)")
  case False
  with dry have "se' = se \<or> se' = rollback se"
    by (auto simp: dry_run_plan_def Let_def split: option.splits if_splits dispatch_result.splits dest: create_job_in_Raised)
  with sess remedy_session_rollback [OF sess] show ?thesis by auto
next
  case True
  then obtain p acts j s where get: "sql_get p_id (plans (se_db se)) i = Some p"
    and job: "create_job_in (rw_sha256 w) (rw_new_job w (se_db se)) now
      (plan_job_args ''Remediation dry-run: '' ''DRY_RUN'' p role (agents_of acts) (build_actions_payload acts)) se
      = Dispatched j s" and se': "se' = commit (s\<lparr>se_db := link_job i (j_id j) (se_db s)\<rparr>)" by blast
  have id: "j_id j = rw_new_job w (se_db se)" using create_job_in_Dispatched [OF job] by simp
  have row: "i \<in> p_id ` set (plans (se_db se))" using sql_get_SomeD [OF get] by auto
  have same: "sql_modify p_id i (\<lambda>p. p) ps = ps" for ps by (induction ps) (simp_all add: sql_modify_def)
  have keep: "past_approval (p_status x) \<Longrightarrow> x \<in> set (plans (se_db se)) \<Longrightarrow> cleared L x" for x
    using sess by (simp add: remedy_session_def remedy_inv_def)
  show ?thesis unfolding se'
    by (rule plan_job_session [OF sess job, where pid = i and f = "\<lambda>p. p"])
      (use row fresh keep in \<open>simp_all add: link_job_def id same fresh_ids_def plan_job_args_def cfg_get_def\<close>)
qed

lemma linked_job_cleared:
  assumes inv: "remedy_inv L d" and link: "l \<in> set (plan_jobs d)" and job: "sql_get j_id (jobs d) (rj_job l) = Some j"
    and op: "job_operation j \<noteq> PStr ''DRY_RUN''" and p: "p \<in> set (plans d)" "p_id p = rj_plan l"
  shows "cleared L p"
proof -
  from inv link obtain r where r: "r \<in> set (plans d)" "p_id r = rj_plan l" "applies d l \<longrightarrow> cleared L r"
    by (auto simp: remedy_inv_def link_ok_def)
  have "applies d l" using job op by (auto simp: applies_def)
  moreover have "p = r" using same_row [of d p r] inv p r by (simp add: remedy_inv_def)
  ultimately show ?thesis using r(3) by simp
qed

lemma newest_first_links: "l \<in> set (newest_first d i) \<Longrightarrow> l \<in> set (plan_jobs d) \<and> rj_plan l = i"
  by (simp add: newest_first_def)

lemma latest_apply_cleared:
  assumes "remedy_inv L d" and "latest_apply d i = Some j" and "p \<in> set (plans d)" and "p_id p = i"
  shows "cleared L p"
proof -
  from assms(2) have "j \<in> set (List.map_filter (\<lambda>l. sql_get j_id (jobs d) (rj_job l)) (newest_first d i))"
    and op: "job_operation j = PStr ''APPLY''" by (auto simp: latest_apply_def dest: sql_first_SomeD)
  then obtain l where "l \<in> set (newest_first d i)" and job: "sql_get j_id (jobs d) (rj_job l) = Some j"
    by (auto simp: map_filter_def)
  with newest_first_links have "l \<in> set (plan_jobs d)" "rj_plan l = i" by blast+
  with linked_job_cleared [OF assms(1) _ job] op assms(3,4) show ?thesis by simp
qed

lemma rollback_plan_session:
  assumes sess: "remedy_session L d se" and roll: "rollback_plan w now i role se = (r, se')"
  shows "remedy_session L d se'"
proof (cases "\<exists>p applied args j s. sql_get p_id (plans (se_db se)) i = Some p \<and> latest_apply (se_db se) i = Some applied
    \<and> create_job_in (rw_sha256 w) (rw_new_job w (se_db se)) now args se = Dispatched j s
    \<and> se' = commit (s\<lparr>se_db := set_plan_status i P_EXECUTING (link_job i (j_id j) (se_db s))\<rparr>)")
  case False
  with roll have "se' = se \<or> se' = rollback se"
    by (auto simp: rollback_plan_def Let_def split: option.splits if_splits dispatch_result.splits dest: create_job_in_Raised)
  with sess remedy_session_rollback [OF sess] show ?thesis by auto
next
  case True
  then obtain p applied args j s where get: "sql_get p_id (plans (se_db se)) i = Some p"
    and app: "latest_apply (se_db se) i = Some applied"
    and job: "create_job_in (rw_sha256 w) (rw_new_job w (se_db se)) now args se = Dispatched j s"
    and se': "se' = commit (s\<lparr>se_db := set_plan_status i P_EXECUTING (link_job i (j_id j) (se_db s))\<rparr>)" by blast
  have id: "j_id j = rw_new_job w (se_db se)" using create_job_in_Dispatched [OF job] by simp
  have inv: "remedy_inv L (se_db se)" using sess by (simp add: remedy_session_def)
  have clear: "cleared L x" if "x \<in> set (plans (se_db se))" "p_id x = i" for x
    using latest_apply_cleared [OF inv app] that by blast
  show ?thesis unfolding se'
    by (rule plan_job_session [OF sess job, where pid = i and f = "\<lambda>p. p\<lparr>p_status := P_EXECUTING\<rparr>"])
      (use sql_get_SomeD [OF get] clear in \<open>auto simp: link_job_def set_plan_status_def id\<close>)
qed

section \<open>The workers keep the invariant\<close>

text \<open>A plan that was loaded when the tick began.\<close>

lemma loaded_plan:
  assumes "remedy_session L d se" and "p \<in> set (plans d)" and "cleared L p"
  shows "p_id p \<in> p_id ` set (plans (se_db se))"
    and "\<forall>x \<in> set (plans (se_db se)). p_id x = p_id p \<longrightarrow> cleared L x"
proof -
  from assms(1) have inv: "remedy_inv L (se_db se)" and grow: "plans_grow d (se_db se)" by (simp_all add: remedy_session_def)
  from row_later [OF grow assms(2)] show "p_id p \<in> p_id ` set (plans (se_db se))" by (metis imageI)
  show "\<forall>x \<in> set (plans (se_db se)). p_id x = p_id p \<longrightarrow> cleared L x"
    using cleared_later [OF inv grow assms(2,3)] by blast
qed

lemma logged_session: "logged (r, se) = (r', se') \<Longrightarrow> se' = se"
  by (auto simp: logged_def split: option.splits if_splits)

lemma dispatch_loop_session:
  "remedy_session L d se \<Longrightarrow> \<forall>p \<in> set ps. p \<in> set (plans d) \<and> cleared L p \<Longrightarrow>
     dispatch_loop w cp now ps se = (r, se') \<Longrightarrow> remedy_session L d se'"
proof (induction ps arbitrary: se)
  case Nil
  then show ?case by simp
next
  case (Cons p ps)
  obtain r1 se1 where one: "try_dispatch w cp now p se = (r1, se1)" by fastforce
  have "remedy_session L d se1"
  proof (cases "se1 = se")
    case True
    with Cons.prems(1) show ?thesis by simp
  next
    case False
    with one obtain r2 where "logged (dispatch_plan w now p (Some SYSTEM_ROLE) se) = (r2, se1)"
      by (auto simp: try_dispatch_def Let_def split: option.splits if_splits sum.splits bool.splits)
    then obtain r3 where "dispatch_plan w now p (Some SYSTEM_ROLE) se = (r3, se1)"
      by (cases "dispatch_plan w now p (Some SYSTEM_ROLE) se") (auto dest: logged_session)
    with dispatch_plan_session [OF Cons.prems(1)] loaded_plan [OF Cons.prems(1)] Cons.prems(2) show ?thesis
      by (metis list.set_intros(1))
  qed
  with Cons one show ?case by (auto split: option.splits)
qed

lemma resolve_loop_session:
  "remedy_session L d se \<Longrightarrow> \<forall>p \<in> set ps. p \<in> set (plans d) \<and> p_trigger_type p = ''AUTOMATIC'' \<Longrightarrow>
     resolve_loop w now ps se = (r, se') \<Longrightarrow> remedy_session L d se'"
proof (induction ps arbitrary: se)
  case Nil
  then show ?case by simp
next
  case (Cons p ps)
  note sess = Cons.prems(1)
  from Cons.prems(2) have p: "p \<in> set (plans d)" and clear: "cleared L p" by (simp_all add: cleared_def)
  obtain r1 se1 where one: "resolve_dry_run w now p se = (r1, se1)" by fastforce
  have failed: "remedy_session L d (fail_automatic_plan (p_id p) se)"
    unfolding fail_automatic_plan_def
    by (rule set_plan_session(2) [OF sess]) (simp_all add: past_approval_def)
  have approved: "remedy_session L d x" if sa: "submit_and_approve w now (p_id p) se = (y, x)" for x y
  proof -
    obtain r2 se2 where sub: "submit_plan (p_id p) se = (r2, se2)" by fastforce
    note mid = submit_plan_session [OF sess sub]
    show ?thesis
    proof (cases r2)
      case (Some e)
      with sa sub mid show ?thesis by (simp add: submit_and_approve_def)
    next
      case None
      with sa sub have app: "approve_plan w now (p_id p) None (Some SYSTEM_ROLE) se2 = (y, x)"
        by (simp add: submit_and_approve_def)
      show ?thesis
        by (rule approve_plan_session [OF mid subset_refl _ app]) (use loaded_plan(2) [OF mid p clear] in blast)
    qed
  qed
  have "remedy_session L d se1"
  proof (cases "se1 = se \<or> se1 = fail_automatic_plan (p_id p) se")
    case True
    with sess failed show ?thesis by auto
  next
    case False
    with one have "logged (submit_and_approve w now (p_id p) se) = (r1, se1)"
      by (auto simp: resolve_dry_run_def split: option.splits if_splits)
    with approved show ?thesis
      by (cases "submit_and_approve w now (p_id p) se") (auto dest: logged_session)
  qed
  with Cons one show ?case by (auto split: option.splits)
qed

lemma create_automatic_plan_session:
  assumes sess: "remedy_session L d se" and fresh: "fresh_ids w"
    and cre: "create_automatic_plan w cp now agent_id rule se = (r, se')"
  shows "remedy_session L d se'"
proof (cases "se' = se")
  case True
  with sess show ?thesis by simp
next
  case False
  with cre obtain args acts r1 se1 where one: "create_plan w cp now args acts se = (r1, se1)"
    and rest: "se' = se1 \<or> (\<exists>i. dry_run_plan w now i (Some SYSTEM_ROLE) se1 = (r, se'))"
    by (auto simp: create_automatic_plan_def Let_def split: option.splits sum.splits if_splits prod.splits) blast+
  note mid = create_plan_session [OF sess fresh one]
  from rest mid dry_run_plan_session [OF mid fresh] show ?thesis by blast
qed

lemma trigger_loop_session:
  assumes fresh: "fresh_ids w"
  shows "remedy_session L d se \<Longrightarrow> trigger_loop w cp now since remaining cs se = (r, se') \<Longrightarrow> remedy_session L d se'"
proof (induction cs arbitrary: se remaining)
  case Nil
  then show ?case by simp
next
  case (Cons c cs)
  obtain agent_id rule p where c: "c = (agent_id, rule, p)" by (cases c)
  obtain r1 se1 where one: "create_automatic_plan w cp now agent_id rule se = (r1, se1)" by fastforce
  note mid = create_automatic_plan_session [OF Cons.prems(1) fresh one]
  from Cons.prems(2) one Cons.IH [OF Cons.prems(1)] Cons.IH [OF mid] Cons.prems(1) mid show ?case
    by (auto simp: c split: if_splits sum.splits option.splits)
qed

lemma dispatch_plan_synced:
  assumes "se_saved se = se_db se" and "dispatch_plan w now p role se = (r, se')"
  shows "se_saved se' = se_db se'"
  using assms
  by (auto simp: dispatch_plan_def Let_def commit_def rollback_def split: dispatch_result.splits dest: create_job_in_Raised)

lemma try_dispatch_synced:
  assumes "se_saved se = se_db se" and "try_dispatch w cp now p se = (r, se')"
  shows "se_saved se' = se_db se'"
proof (cases "se' = se")
  case True
  with assms(1) show ?thesis by simp
next
  case False
  with assms(2) obtain r2 where "logged (dispatch_plan w now p (Some SYSTEM_ROLE) se) = (r2, se')"
    by (auto simp: try_dispatch_def Let_def split: option.splits if_splits sum.splits bool.splits)
  then obtain r3 where "dispatch_plan w now p (Some SYSTEM_ROLE) se = (r3, se')"
    by (cases "dispatch_plan w now p (Some SYSTEM_ROLE) se") (auto dest: logged_session)
  with dispatch_plan_synced [OF assms(1)] show ?thesis by blast
qed

lemma dispatch_loop_synced:
  "se_saved se = se_db se \<Longrightarrow> dispatch_loop w cp now ps se = (r, se') \<Longrightarrow> se_saved se' = se_db se'"
proof (induction ps arbitrary: se)
  case Nil
  then show ?case by simp
next
  case (Cons p ps)
  obtain r1 se1 where one: "try_dispatch w cp now p se = (r1, se1)" by fastforce
  from try_dispatch_synced [OF Cons.prems(1) one] Cons one show ?case by (auto split: option.splits)
qed

lemma remediation_tick_inv:
  assumes inv: "remedy_inv L d" and fresh: "fresh_ids w" and tick: "remediation_tick w cp enabled cap now d = (r, d')"
  shows "remedy_inv L d'"
proof -
  obtain r1 se1 where one: "dispatch_loop w cp now (approved_with_window d) (open_session d) = (r1, se1)" by fastforce
  have "\<forall>p \<in> set (approved_with_window d). p \<in> set (plans d) \<and> cleared L p"
    using inv by (auto simp: approved_with_window_def remedy_inv_def past_approval_def)
  from dispatch_loop_session [OF remedy_session_open [OF inv] this one] have s1: "remedy_session L d se1" .
  have "se_saved se1 = se_db se1" by (rule dispatch_loop_synced [OF _ one]) (simp add: open_session_def)
  with s1 have s1': "remedy_session L (se_db se1) se1" by (simp add: remedy_session_def)
  have automatic: "remedy_inv L (se_saved x)" if t: "tick_automatic w cp enabled cap now se1 = (y, x)" for x y
  proof (cases enabled)
    case False
    with t s1 show ?thesis by (simp add: tick_automatic_def remedy_session_def)
  next
    case True
    obtain r2 se2 where two: "resolve_loop w now (pending_automatic (se_db se1)) se1 = (r2, se2)" by fastforce
    have s2: "remedy_session L (se_db se1) se2"
      by (rule resolve_loop_session [OF s1' _ two]) (simp add: pending_automatic_def)
    with True t two trigger_loop_session [OF fresh s2] show ?thesis
      by (auto simp: tick_automatic_def trigger_new_automatic_plans_def Let_def remedy_session_def
          split: option.splits if_splits)
  qed
  from tick one show ?thesis
    using s1 automatic by (auto simp: remediation_tick_def remedy_session_def split: option.splits prod.splits)
qed

lemma set_plan_status_inv:
  assumes "remedy_inv L d" and "\<And>p. p \<in> set (plans d) \<Longrightarrow> p_id p = i \<Longrightarrow> past_approval s \<Longrightarrow> cleared L p"
  shows "remedy_inv L (set_plan_status i s d) \<and> plans_grow d (set_plan_status i s d)"
  by (rule remedy_change [OF assms(1) subset_refl, where js = "[]" and ls = "[]" and i = i and f = "\<lambda>p. p\<lparr>p_status := s\<rparr>"])
    (use assms(2) in \<open>simp_all add: set_plan_status_def\<close>)

lemma revert_drift_plans:
  "plans (revert_drift_to_open now i d) = plans d" "plan_jobs (revert_drift_to_open now i d) = plan_jobs d"
  "jobs (revert_drift_to_open now i d) = jobs d"
  by (simp_all add: revert_drift_to_open_def Let_def)

lemma revert_drift_inv [simp]: "remedy_inv L (revert_drift_to_open now i d) = remedy_inv L d"
  "plans_grow x (revert_drift_to_open now i d) = plans_grow x d"
  by (rule remedy_inv_cong; simp add: revert_drift_plans)+

lemma resolve_drift_inv [simp]: "remedy_inv L (resolve_related_drift now cp ps d) = remedy_inv L d"
  "plans_grow x (resolve_related_drift now cp ps d) = plans_grow x d"
  by (rule remedy_inv_cong; simp add: resolve_related_drift_def)+

lemma verify_plan_inv:
  assumes inv: "remedy_inv L d" and grow: "plans_grow d0 d" and p: "p \<in> set (plans d0)" "cleared L p"
  shows "remedy_inv L (verify_plan cp now p d) \<and> plans_grow d0 (verify_plan cp now p d)"
proof -
  have status: "remedy_inv L (set_plan_status (p_id p) s d) \<and> plans_grow d0 (set_plan_status (p_id p) s d)" for s
    using set_plan_status_inv [OF inv, of "p_id p" s] cleared_later [OF inv grow p] plans_grow_trans [OF grow] by blast
  then show ?thesis
    using inv grow by (simp add: verify_plan_def Let_def split: option.split)
qed

lemma verification_tick_inv:
  assumes inv: "remedy_inv L d"
  shows "remedy_inv L (verification_tick cp now d)"
proof -
  have "remedy_inv L (fold (verify_plan cp now) ps x)" if "remedy_inv L x" "plans_grow d x"
    "\<forall>p \<in> set ps. p \<in> set (plans d) \<and> cleared L p" for ps x
    using that
  proof (induction ps arbitrary: x)
    case Nil
    then show ?case by simp
  next
    case (Cons p ps)
    with verify_plan_inv [OF Cons.prems(1,2), of p] show ?case by simp
  qed
  note loop = this [OF inv plans_grow_refl]
  have "\<forall>p \<in> set (filter (\<lambda>p. p_status p = P_VERIFYING) (plans d)). p \<in> set (plans d) \<and> cleared L p"
    using inv by (simp add: remedy_inv_def past_approval_def)
  then show ?thesis unfolding verification_tick_def by (rule loop)
qed

lemma sync_plan_inv:
  assumes inv: "remedy_inv L d" and row: "sql_get j_id (jobs d) i = Some j"
    and sync: "sync_remediation_plan now j d = Inr d'"
  shows "remedy_inv L d'"
proof (cases "d' = d")
  case True
  with inv show ?thesis by simp
next
  case False
  with sync obtain pid l ls s where first: "newest_first d pid = l # ls" "rj_job l = j_id j"
    and op: "job_operation j \<noteq> PStr ''DRY_RUN''"
    and d': "d' = set_plan_status pid s d \<or> d' = revert_drift_to_open now pid (set_plan_status pid s d)"
    by (auto simp: sync_remediation_plan_def Let_def sum_bind_Inr_iff split: if_splits list.splits)
  from first newest_first_links [of l d pid] have link: "l \<in> set (plan_jobs d)" "rj_plan l = pid" by simp_all
  have "j_id j = i" using sql_get_SomeD [OF row] by simp
  with row first(2) have "sql_get j_id (jobs d) (rj_job l) = Some j" by simp
  with linked_job_cleared [OF inv link(1) _ op] link(2)
  have "remedy_inv L (set_plan_status pid s d)" by (simp add: set_plan_status_inv [OF inv])
  with d' show ?thesis by auto
qed

section \<open>Reachable states\<close>

text \<open>The log holds the approval calls that took their plan out of PENDING_APPROVAL.\<close>

definition log_plan :: "db \<Rightarrow> db \<Rightarrow> uuid \<Rightarrow> string option \<Rightarrow> approvals \<Rightarrow> approvals" where
  "log_plan d d' i actor L =
    (case (sql_get p_id (plans d) i, sql_get p_id (plans d') i) of
       (Some p, Some p') \<Rightarrow>
          if p_status p = P_PENDING_APPROVAL \<and> past_approval (p_status p') then (i, actor) # L else L
     | _ \<Rightarrow> L)"

inductive remedy_step :: "remedy_world \<Rightarrow> compliance \<Rightarrow> db \<times> approvals \<Rightarrow> db \<times> approvals \<Rightarrow> bool" for w cp where
  create: "create_plan w cp now args acts (open_session d) = (r, se) \<Longrightarrow> remedy_step w cp (d, L) (se_saved se, L)"
| submit: "submit_plan i (open_session d) = (r, se) \<Longrightarrow> remedy_step w cp (d, L) (se_saved se, L)"
| approve: "approve_plan w now i actor role (open_session d) = (r, se) \<Longrightarrow>
     remedy_step w cp (d, L) (se_saved se, log_plan d (se_saved se) i actor L)"
| dry_run: "dry_run_plan w now i role (open_session d) = (r, se) \<Longrightarrow> remedy_step w cp (d, L) (se_saved se, L)"
| rollback: "rollback_plan w now i role (open_session d) = (r, se) \<Longrightarrow> remedy_step w cp (d, L) (se_saved se, L)"
| tick: "remediation_tick w cp enabled cap now d = (r, d') \<Longrightarrow> remedy_step w cp (d, L) (d', L)"
| verify: "remedy_step w cp (d, L) (verification_tick cp now d, L)"
| report: "sql_get j_id (jobs d) i = Some j \<Longrightarrow> sync_remediation_plan now j d = Inr d' \<Longrightarrow>
     remedy_step w cp (d, L) (d', L)"
| environment: "plans d' = plans d \<Longrightarrow> plan_jobs d' = plan_jobs d \<Longrightarrow>
     (\<And>i j. sql_get j_id (jobs d) i = Some j \<Longrightarrow>
        \<exists>j'. sql_get j_id (jobs d') i = Some j' \<and> job_operation j' = job_operation j) \<Longrightarrow>
     remedy_step w cp (d, L) (d', L)"

lemma approve_plan_cases:
  assumes "approve_plan w now i actor role (open_session d) = (r, se)"
  shows "se_saved se = d \<or> (\<exists>p p'. sql_get p_id (plans d) i = Some p \<and> p_status p = P_PENDING_APPROVAL
    \<and> sql_get p_id (plans (se_saved se)) i = Some p' \<and> past_approval (p_status p'))"
proof (cases "\<exists>p. sql_get p_id (plans d) i = Some p \<and> p_status p = P_PENDING_APPROVAL \<and> \<not> created_by_approver p actor")
  case False
  with assms have "se = open_session d" by (auto simp: approve_plan_def open_session_def split: option.splits if_splits)
  then show ?thesis by (simp add: open_session_def)
next
  case True
  then obtain p where get: "sql_get p_id (plans d) i = Some p"
    and pending: "p_status p = P_PENDING_APPROVAL" "\<not> created_by_approver p actor" by blast
  have id: "p_id p = i" using sql_get_SomeD [OF get] by simp
  let ?se1 = "set_plan i (\<lambda>p. p\<lparr>p_approved_by := safe_uuid actor, p_approved_at := Some now\<rparr>) (open_session d)"
  have saved1: "se_saved ?se1 = d" by (simp add: set_plan_def open_session_def)
  have get1: "\<exists>p1. sql_get p_id (plans (se_db ?se1)) i = Some p1"
    using plan_table.get_modify [of "\<lambda>p. p\<lparr>p_approved_by := safe_uuid actor, p_approved_at := Some now\<rparr>" i "plans d" i] get
    by (simp add: set_plan_def open_session_def)
  have dispatched: "se_saved x = d \<or> (\<exists>p'. sql_get p_id (plans (se_saved x)) i = Some p' \<and> past_approval (p_status p'))"
    if dis: "dispatch_plan w now p role ?se1 = (y, x)" for x y
  proof (cases "y = None")
    case False
    with dis have "x = ?se1 \<or> x = rollback ?se1"
      by (auto simp: dispatch_plan_def Let_def split: dispatch_result.splits dest: create_job_in_Raised)
    with saved1 show ?thesis by (auto simp: rollback_def)
  next
    case True
    let ?args = "plan_job_args ''Remediation: '' ''APPLY'' p role (agents_of (plan_actions (se_db ?se1) (p_id p)))
      (build_actions_payload (plan_actions (se_db ?se1) (p_id p)))"
    show ?thesis
    proof (cases "create_job_in (rw_sha256 w) (rw_new_job w (se_db ?se1)) now ?args ?se1")
      case (Raised e s)
      with dis True show ?thesis by (simp add: dispatch_plan_def Let_def)
    next
      case (Dispatched j s)
      with dis have x: "se_saved x = start_executing p (plan_actions (se_db ?se1) (p_id p)) (j_id j) (se_db s)"
        by (auto simp: dispatch_plan_def Let_def commit_def)
      from create_job_in_Dispatched [OF Dispatched] have "plans (se_db s) = plans (se_db ?se1)" by (auto simp: commit_def)
      with get1 x plan_table.get_modify [of "\<lambda>p. p\<lparr>p_status := P_EXECUTING\<rparr>" i "plans (se_db ?se1)" i] show ?thesis
        by (auto simp: start_executing_frame id past_approval_def)
    qed
  qed
  have approved: "\<exists>p'. sql_get p_id (plans (se_saved (commit (set_plan i (\<lambda>p. p\<lparr>p_status := P_APPROVED\<rparr>) ?se1)))) i = Some p'
      \<and> past_approval (p_status p')"
    using get1 plan_table.get_modify [of "\<lambda>p. p\<lparr>p_status := P_APPROVED\<rparr>" i "plans (se_db ?se1)" i]
    by (auto simp: commit_def set_plan_def past_approval_def)
  from assms get pending have "dispatch_plan w now p role ?se1 = (r, se) \<or> se = ?se1
      \<or> se = commit (set_plan i (\<lambda>p. p\<lparr>p_status := P_APPROVED\<rparr>) ?se1)"
    by (auto simp: approve_plan_def Let_def open_session_def split: option.splits if_splits)
  with dispatched approved saved1 get pending(1) show ?thesis by metis
qed

lemma remedy_step_inv:
  assumes "remedy_step w cp s s'" and "fresh_ids w" and "remedy_inv (snd s) (fst s)"
  shows "remedy_inv (snd s') (fst s')"
  using assms
proof (induction rule: remedy_step.induct)
  case (create now args acts d r se L)
  then show ?case using create_plan_session [OF remedy_session_open] by (simp add: remedy_session_def)
next
  case (submit i d r se L)
  then show ?case using submit_plan_session [OF remedy_session_open] by (simp add: remedy_session_def)
next
  case (approve now i actor role d r se L)
  then have inv: "remedy_inv L d" by simp
  from approve_plan_cases [OF approve(1)] show ?case
  proof (elim disjE exE conjE)
    assume same: "se_saved se = d"
    then have "log_plan d (se_saved se) i actor L = L" by (auto simp: log_plan_def past_approval_def split: option.split)
    with inv same show ?case by simp
  next
    fix p p'
    assume "sql_get p_id (plans d) i = Some p" "p_status p = P_PENDING_APPROVAL"
      "sql_get p_id (plans (se_saved se)) i = Some p'" "past_approval (p_status p')"
    then have log: "log_plan d (se_saved se) i actor L = (i, actor) # L" by (simp add: log_plan_def)
    have "remedy_session ((i, actor) # L) d se"
      by (rule approve_plan_session [OF remedy_session_open [OF inv] _ _ approve(1)]) (auto simp: cleared_def)
    with log show ?case by (simp add: remedy_session_def)
  qed
next
  case (dry_run now i role d r se L)
  then show ?case using dry_run_plan_session [OF remedy_session_open] by (simp add: remedy_session_def)
next
  case (rollback now i role d r se L)
  then show ?case using rollback_plan_session [OF remedy_session_open] by (simp add: remedy_session_def)
next
  case (tick enabled cap now d r d' L)
  then show ?case using remediation_tick_inv by simp
next
  case (verify d L now)
  then show ?case using verification_tick_inv by simp
next
  case (report d i j now d' L)
  then show ?case using sync_plan_inv by simp
next
  case (environment d' d L)
  then have inv: "remedy_inv L d" by simp
  have "link_ok L d' l" if "link_ok L d l" for l
  proof -
    from that have "sql_get j_id (jobs d) (rj_job l) \<noteq> None" by (simp add: link_ok_def sql_get_None_iff)
    then obtain j where j: "sql_get j_id (jobs d) (rj_job l) = Some j" by blast
    from environment(3) [OF this] obtain j' where j': "sql_get j_id (jobs d') (rj_job l) = Some j'"
      "job_operation j' = job_operation j" by blast
    from j'(1) have "rj_job l \<in> j_id ` set (jobs d')"
      using sql_get_None_iff [of j_id "jobs d'" "rj_job l"] by simp
    with that j j' environment(1) show ?thesis by (simp add: link_ok_def applies_def)
  qed
  with inv environment(1,2) show ?case by (simp add: remedy_inv_def)
qed

lemma remedy_reach_inv:
  "(remedy_step w cp)\<^sup>*\<^sup>* s s' \<Longrightarrow> fresh_ids w \<Longrightarrow> remedy_inv (snd s) (fst s) \<Longrightarrow> remedy_inv (snd s') (fst s')"
  by (induction rule: rtranclp_induct) (auto dest: remedy_step_inv)

end
