(* ===== verification/RemedyProps.thy ===== *)
theory RemedyProps
  imports RemedyLaws
begin

text \<open>
  The properties of the remediation engine, with a small plan on which each is shown to apply.
\<close>

section \<open>A sample plan\<close>

definition fresh_text :: "string list \<Rightarrow> string" where
  "fresh_text xs = replicate (Suc (sum_list (map length xs))) (CHR ''x'')"

lemma fresh_text: "fresh_text xs \<notin> set xs"
proof
  assume "fresh_text xs \<in> set xs"
  then have "length (fresh_text xs) \<le> sum_list (map length xs)" by (intro member_le_sum_list) auto
  then show False by (simp add: fresh_text_def)
qed

lemma fresh_text_image: "fresh_text (map f xs) \<notin> f ` set xs"
  using fresh_text [of "map f xs"] by simp

definition toy_remedy :: remedy_world where
  "toy_remedy = \<lparr>rw_sha256 = (\<lambda>s. s), rw_wall = (\<lambda>_ t. Some t), rw_cron_prev = (\<lambda>_ t. Some (t - 7200000000)),
     rw_new_job = (\<lambda>d. fresh_text (map j_id (jobs d))), rw_new_plan = (\<lambda>d. fresh_text (map p_id (plans d))),
     rw_new_action = (\<lambda>_ i. show_nat i)\<rparr>"

lemma toy_remedy_fresh: "fresh_ids toy_remedy"
  by (simp add: fresh_ids_def toy_remedy_def fresh_text_image)

definition toy_compliance :: compliance where
  "toy_compliance = \<lparr>cp_rules = [], cp_sets = [], cp_templates = [], cp_evaluations = [], cp_categories = [],
     cp_projects = []\<rparr>"

definition toy_window :: maintenance_window where
  "toy_window = \<lparr>mw_id = ''win'', mw_scope_type = ''GLOBAL'', mw_scope_selector = [], mw_cron_expr = Some ''0 3 * * *'',
     mw_duration_minutes = 60, mw_timezone = ''UTC'', mw_is_enabled = True\<rparr>"

definition toy_fix :: "string \<Rightarrow> string \<Rightarrow> action_create" where
  "toy_fix body undo = \<lparr>ax_agent = toy_agent_pk, ax_provider = ''shell'', ax_body = body, ax_rule = None, ax_drift = None,
     ax_rollback = Some undo\<rparr>"

definition toy_request :: "string \<Rightarrow> uuid option \<Rightarrow> plan_create" where
  "toy_request trigger win = \<lparr>pc_name = ''fix'', pc_trigger = trigger, pc_emergency = False, pc_window = win,
     pc_created_by = None, pc_created_by_actor = Some ''alice''\<rparr>"

definition toy_fleet :: db where
  "toy_fleet = empty_db\<lparr>agents := [toy_agent], windows := [toy_window]\<rparr>"

definition toy_drafted :: "string \<Rightarrow> uuid option \<Rightarrow> (exn + uuid) \<times> session" where
  "toy_drafted trigger win = create_plan toy_remedy toy_compliance 5 (toy_request trigger win)
     [toy_fix ''one'' ''undo one'', toy_fix ''two'' ''undo two''] (open_session toy_fleet)"

definition toy_draft :: "string \<Rightarrow> uuid option \<Rightarrow> db" where
  "toy_draft trigger win = se_saved (snd (toy_drafted trigger win))"

definition toy_submitted :: db where
  "toy_submitted = se_saved (snd (submit_plan ''x'' (open_session (toy_draft ''MANUAL'' None))))"

definition toy_applied :: db where
  "toy_applied = se_saved (snd (approve_plan toy_remedy 6 ''x'' (Some ''bob'') (Some ''ADMIN'') (open_session toy_submitted)))"

definition toy_applied_ok :: "db \<Rightarrow> db \<Rightarrow> bool" where
  "toy_applied_ok d d' =
    ((case sql_get p_id (plans d) ''x'' of Some p \<Rightarrow> p_status p = P_PENDING_APPROVAL | None \<Rightarrow> False)
     \<and> (case sql_get p_id (plans d') ''x'' of
          Some p \<Rightarrow> p_status p = P_EXECUTING \<and> p_trigger_type p = ''MANUAL'' | None \<Rightarrow> False))"

lemma toy_applied_ok: "toy_applied_ok toy_submitted toy_applied"
  by code_simp


definition toy_approvals :: approvals where "toy_approvals = [(''x'', Some ''bob'')]"

lemma toy_applied_reach: "(remedy_step toy_remedy toy_compliance)\<^sup>*\<^sup>* (toy_fleet, []) (toy_applied, toy_approvals)"
proof -
  have one: "remedy_step toy_remedy toy_compliance (toy_fleet, []) (toy_draft ''MANUAL'' None, [])"
    unfolding toy_draft_def
    by (rule remedy_step.create [where r = "fst (toy_drafted ''MANUAL'' None)"]) (simp add: toy_drafted_def)
  have two: "remedy_step toy_remedy toy_compliance (toy_draft ''MANUAL'' None, []) (toy_submitted, [])"
    unfolding toy_submitted_def by (rule remedy_step.submit [OF surjective_pairing])
  have three: "remedy_step toy_remedy toy_compliance (toy_submitted, [])
      (toy_applied, log_plan toy_submitted toy_applied ''x'' (Some ''bob'') [])"
    unfolding toy_applied_def by (rule remedy_step.approve [OF surjective_pairing])
  have "log_plan toy_submitted toy_applied ''x'' (Some ''bob'') [] = toy_approvals"
    using toy_applied_ok
    by (auto simp: log_plan_def toy_approvals_def toy_applied_ok_def past_approval_def split: option.splits)
  with three have "remedy_step toy_remedy toy_compliance (toy_submitted, []) (toy_applied, toy_approvals)" by simp
  note steps = one two this
  show ?thesis
    by (rule converse_rtranclp_into_rtranclp, rule steps(1), rule converse_rtranclp_into_rtranclp, rule steps(2),
        rule r_into_rtranclp, rule steps(3))
qed

section \<open>Nothing is applied without clearance\<close>

text \<open>C4. Nothing is applied unapproved: whatever sequence of requests, scheduler and verifier ticks, reports
  and changes by others led here, a plan that is past its approval, or that has a job which really applies
  or rolls back something, either is an automatic plan or was approved by someone who did not create it.\<close>

theorem nothing_applied_unapproved:
  assumes "fresh_ids w" and "plans d = []" and "plan_jobs d = []" and "(remedy_step w cp)\<^sup>*\<^sup>* (d, []) (d', L)"
    and "p \<in> set (plans d')"
    and "past_approval (p_status p) \<or> (\<exists>l \<in> set (plan_jobs d'). rj_plan l = p_id p \<and> applies d' l)"
  shows "p_trigger_type p = ''AUTOMATIC''
    \<or> (\<exists>actor. (p_id p, actor) \<in> set L \<and> \<not> created_by_approver p actor)"
proof -
  have "remedy_inv [] d" using assms(2,3) by (simp add: remedy_inv_def)
  with remedy_reach_inv [OF assms(4,1)] have inv: "remedy_inv L d'" by simp
  have "cleared L p"
  proof (cases "past_approval (p_status p)")
    case True
    with inv assms(5) show ?thesis by (simp add: remedy_inv_def)
  next
    case False
    with assms(6) obtain l where l: "l \<in> set (plan_jobs d')" "rj_plan l = p_id p" "applies d' l" by blast
    from l(3) obtain j where "sql_get j_id (jobs d') (rj_job l) = Some j" "job_operation j \<noteq> PStr ''DRY_RUN''"
      by (auto simp: applies_def)
    with linked_job_cleared [OF inv l(1)] assms(5) l(2) show ?thesis by simp
  qed
  then show ?thesis by (simp add: cleared_def)
qed

theorem nothing_applied_unapproved_witness:
  "\<exists>p \<in> set (plans toy_applied). p_status p = P_EXECUTING
     \<and> (\<exists>actor. (p_id p, actor) \<in> set toy_approvals \<and> \<not> created_by_approver p actor)"
proof -
  from toy_applied_ok obtain p where get: "sql_get p_id (plans toy_applied) ''x'' = Some p"
    and p: "p_status p = P_EXECUTING" "p_trigger_type p = ''MANUAL''"
    by (auto simp: toy_applied_ok_def split: option.splits)
  have "plans toy_fleet = []" "plan_jobs toy_fleet = []" by (simp_all add: toy_fleet_def empty_db_def)
  note applied = nothing_applied_unapproved [OF toy_remedy_fresh this toy_applied_reach]
  have row: "p \<in> set (plans toy_applied)" using sql_get_SomeD [OF get] by simp
  moreover have "past_approval (p_status p)" using p(1) by (simp add: past_approval_def)
  ultimately have "\<exists>actor. (p_id p, actor) \<in> set toy_approvals \<and> \<not> created_by_approver p actor"
    using applied [of p] p(2) by simp
  with row p(1) show ?thesis by blast
qed

text \<open>The automatic mode approves what a user drafted: a draft with the automatic trigger, whoever created
  it, becomes approved by nobody as soon as its preview has completed.\<close>

theorem autopilot_approves_user_plan:
  assumes "distinct (map p_id (plans d))" and "p \<in> set (pending_automatic d)"
    and "latest_dry_run_job d (p_id p) = Some j" and "j_status j = J_COMPLETED"
    and "p_window p = Some i" and "sql_get mw_id (windows d) i = Some win" and "mw_is_enabled win"
    and "\<not> is_window_open w win now" and "\<not> p_is_emergency p"
  shows "sql_get p_id (plans (se_saved (snd (resolve_dry_run w now p (open_session d))))) (p_id p) =
    Some (p\<lparr>p_status := P_APPROVED, p_approved_by := None, p_approved_at := Some now\<rparr>)"
proof -
  from assms(2) have p: "p \<in> set (plans d)" "p_status p = P_DRAFT" by (simp_all add: pending_automatic_def)
  from sql_get_distinct [OF assms(1) p(1)] have get: "sql_get p_id (plans d) (p_id p) = Some p" .
  let ?s = "\<lambda>p. p\<lparr>p_status := P_PENDING_APPROVAL\<rparr>"
  let ?a = "\<lambda>p. p\<lparr>p_approved_by := None, p_approved_at := Some now\<rparr>"
  let ?f = "\<lambda>p. p\<lparr>p_status := P_APPROVED\<rparr>"
  have rows: "sql_get p_id (sql_modify p_id (p_id p) ?s (plans d)) (p_id p) = Some (?s p)"
    using plan_table.get_modify_same [of ?s "p_id p" "plans d"] get by simp
  have rows2: "sql_get p_id (sql_modify p_id (p_id p) ?f (sql_modify p_id (p_id p) ?a (sql_modify p_id (p_id p) ?s (plans d))))
      (p_id p) = Some (?f (?a (?s p)))"
    using get by (simp add: plan_table.get_modify_same)
  have nobody: "\<not> created_by_approver (?s p) None"
    by (auto simp: created_by_approver_def safe_uuid_def)
  show ?thesis
    using assms(3-9) get p(2) rows rows2 nobody
    by (simp add: resolve_dry_run_def open_session_def submit_and_approve_def submit_plan_def approve_plan_def set_plan_def
        commit_def logged_def job_terminal_def safe_uuid_def Let_def)
qed

definition toy_previewed :: db where
  "toy_previewed = (let d = se_saved (snd (dry_run_plan toy_remedy 6 ''x'' (Some ''ADMIN'')
       (open_session (toy_draft ''AUTOMATIC'' (Some ''win'')))))
     in d\<lparr>jobs := map (\<lambda>j. j\<lparr>j_status := J_COMPLETED\<rparr>) (jobs d)\<rparr>)"

definition toy_previewed_ok :: "db \<Rightarrow> bool" where
  "toy_previewed_ok d =
    (distinct (map p_id (plans d))
     \<and> (case pending_automatic d of
          [p] \<Rightarrow> p_window p = Some ''win'' \<and> \<not> p_is_emergency p \<and> p_created_by_actor p = Some ''alice''
            \<and> (case latest_dry_run_job d (p_id p) of Some j \<Rightarrow> j_status j = J_COMPLETED | None \<Rightarrow> False)
        | _ \<Rightarrow> False)
     \<and> (case sql_get mw_id (windows d) ''win'' of
          Some win \<Rightarrow> mw_is_enabled win \<and> \<not> is_window_open toy_remedy win 9 | None \<Rightarrow> False))"

lemma toy_previewed_ok: "toy_previewed_ok toy_previewed"
  by code_simp

theorem autopilot_approves_user_plan_witness:
  "\<exists>p \<in> set (plans toy_previewed). p_created_by_actor p = Some ''alice''
     \<and> sql_get p_id (plans (se_saved (snd (resolve_dry_run toy_remedy 9 p (open_session toy_previewed))))) (p_id p) =
         Some (p\<lparr>p_status := P_APPROVED, p_approved_by := None, p_approved_at := Some 9\<rparr>)"
proof -
  from toy_previewed_ok obtain p j win where p: "p \<in> set (pending_automatic toy_previewed)"
    and "p_window p = Some ''win''" "\<not> p_is_emergency p" "p_created_by_actor p = Some ''alice''"
    and "latest_dry_run_job toy_previewed (p_id p) = Some j" "j_status j = J_COMPLETED"
    and "sql_get mw_id (windows toy_previewed) ''win'' = Some win" "mw_is_enabled win" "\<not> is_window_open toy_remedy win 9"
    and "distinct (map p_id (plans toy_previewed))"
    by (auto simp: toy_previewed_ok_def split: list.splits option.splits)
  moreover from p have "p \<in> set (plans toy_previewed)" by (simp add: pending_automatic_def)
  ultimately show ?thesis using autopilot_approves_user_plan by blast
qed


section \<open>What a rollback undoes\<close>

definition entries_for :: "config \<Rightarrow> string \<Rightarrow> pv list" where
  "entries_for m a = (case map_of m a of Some (PList xs) \<Rightarrow> xs | _ \<Rightarrow> [])"

definition entry_body :: "pv \<Rightarrow> pv" where
  "entry_body e = (case e of PDict d \<Rightarrow> cfg_get d ''rendered_body'' | _ \<Rightarrow> PNone)"

text \<open>What a remediation job has one agent run, in order.\<close>

definition job_bodies :: "job \<Rightarrow> uuid \<Rightarrow> pv list" where
  "job_bodies j a = (case cfg_get (j_params j) ''actions'' of PDict m \<Rightarrow> map entry_body (entries_for m a) | _ \<Rightarrow> [])"

lemma entries_for_append:
  "entries_for (append_entry m kv) a = entries_for m a @ (if fst kv = a then [snd kv] else [])"
  by (simp add: entries_for_def append_entry_def map_of_dict_put split: option.split pv.split)

lemma entries_for_grouped:
  "entries_for (foldl append_entry m kvs) a = entries_for m a @ map snd (filter (\<lambda>kv. fst kv = a) kvs)"
  by (induction kvs arbitrary: m) (simp_all add: entries_for_append)

lemma entry_body_action: "entry_body (action_entry i provider body) = PStr body"
  by (simp add: entry_body_def action_entry_def cfg_get_def)

lemma apply_bodies:
  "map entry_body (entries_for (build_actions_payload acts) a) =
     map (\<lambda>x. PStr (ra_body x)) (filter (\<lambda>x. ra_agent x = a) (sort_key ra_sequence acts))"
  by (simp add: build_actions_payload_def entries_for_grouped filter_map o_def entry_body_action)
     (simp add: entries_for_def)

lemma rollback_bodies:
  "map entry_body (entries_for (rollback_payload acts) a) =
     map (\<lambda>x. PStr (the (ra_rollback x))) (filter (\<lambda>x. ra_agent x = a) acts)"
proof -
  have "map (\<lambda>x. entry_body (snd x)) (filter (\<lambda>kv. fst kv = a)
      (map2 (\<lambda>i a. (ra_agent a, action_entry (int i) (ra_provider a) (the (ra_rollback a)))) is acts))
    = map (\<lambda>x. PStr (the (ra_rollback x))) (filter (\<lambda>x. ra_agent x = a) acts)" if "length is = length acts" for "is"
    using that by (induction "is" acts rule: list_induct2) (simp_all add: entry_body_action)
  from this [of "[0..<length acts]"] show ?thesis by (simp add: rollback_payload_def entries_for_grouped o_def) (simp add: entries_for_def)
qed

lemma sort_key_reversed:
  fixes f :: "'a \<Rightarrow> int"
  assumes "distinct (map f xs)"
  shows "sort_key (\<lambda>x. - f x) xs = rev (sort_key f xs)"
proof (rule map_sorted_distinct_set_unique [where f = "\<lambda>x. - f x"])
  have dist: "distinct (map f (sort_key f xs))" "distinct (map f (sort_key (\<lambda>x. - f x) xs))"
    using assms by (simp_all add: distinct_map)
  show "inj_on (\<lambda>x. - f x) (set (sort_key (\<lambda>x. - f x) xs) \<union> set (rev (sort_key f xs)))"
    using assms by (simp add: distinct_map inj_on_def)
  show "sorted (map (\<lambda>x. - f x) (rev (sort_key f xs)))"
    using sorted_sort_key [of f xs] by (simp add: sorted_wrt_map sorted_wrt_rev)
  show "distinct (map (\<lambda>x. - f x) (sort_key (\<lambda>x. - f x) xs))" "distinct (map (\<lambda>x. - f x) (rev (sort_key f xs)))"
    using assms by (simp_all add: distinct_map inj_on_def)
qed simp_all

text \<open>A rollback undoes what was applied, backwards: the job it creates has each agent that completed the
  newest application run the rollback bodies of its reversible actions in the reverse of the order in which
  they were applied, and the other agents nothing.\<close>

theorem rollback_reverses_apply:
  assumes "rollback_plan w now i role se = (None, se')"
    and "distinct (map ra_sequence (plan_actions (se_db se) i))"
  shows "\<exists>applied j. latest_apply (se_db se) i = Some applied \<and> jobs (se_saved se') = jobs (se_db se) @ [j]
    \<and> job_operation j = PStr ''ROLLBACK''
    \<and> (\<forall>a. job_bodies j a =
        (if a \<in> set (completed_agents (se_db se) (j_id applied))
         then map (\<lambda>x. PStr (the (ra_rollback x)))
           (rev (filter (\<lambda>x. ra_agent x = a \<and> ra_rollback x \<noteq> None)
              (sort_key ra_sequence (plan_actions (se_db se) i))))
         else []))"
proof -
  from assms(1) obtain p applied j s where app: "latest_apply (se_db se) i = Some applied"
    and job: "create_job_in (rw_sha256 w) (rw_new_job w (se_db se)) now
      (plan_job_args ''Remediation rollback: '' ''ROLLBACK'' p role
        (agents_of (rollback_actions (se_db se) i (j_id applied)))
        (rollback_payload (rollback_actions (se_db se) i (j_id applied)))) se = Dispatched j s"
    and se': "se' = commit (s\<lparr>se_db := set_plan_status i P_EXECUTING (link_job i (j_id j) (se_db s))\<rparr>)"
    by (auto simp: rollback_plan_def Let_def split: option.splits if_splits dispatch_result.splits)
  note c = create_job_in_Dispatched [OF job]
  let ?acts = "plan_actions (se_db se) i"
  have "distinct (map ra_sequence (filter (\<lambda>a. ra_rollback a \<noteq> None) ?acts))"
    using assms(2) by (simp add: distinct_map inj_on_def)
  from sort_key_reversed [OF this]
  have order: "rollback_actions (se_db se) i (j_id applied) =
      filter (\<lambda>a. ra_agent a \<in> set (completed_agents (se_db se) (j_id applied)))
        (rev (filter (\<lambda>a. ra_rollback a \<noteq> None) (sort_key ra_sequence ?acts)))"
    by (simp add: rollback_actions_def filter_sort)
  have "job_bodies j a = map (\<lambda>x. PStr (the (ra_rollback x)))
      (filter (\<lambda>x. ra_agent x = a) (rollback_actions (se_db se) i (j_id applied)))" for a
    using c rollback_bodies [of _ a] by (simp add: job_bodies_def plan_job_args_def cfg_get_def)
  moreover have "filter (\<lambda>x. ra_agent x = a) (rollback_actions (se_db se) i (j_id applied)) =
      (if a \<in> set (completed_agents (se_db se) (j_id applied))
       then rev (filter (\<lambda>x. ra_agent x = a \<and> ra_rollback x \<noteq> None) (sort_key ra_sequence ?acts)) else [])" for a
    by (auto simp: order rev_filter filter_empty_conv intro!: arg_cong [where f = rev] filter_cong)
  moreover have "jobs (se_saved se') = jobs (se_db se) @ [j]"
    using c by (auto simp: se' commit_def set_plan_status_def link_job_def)
  moreover have "job_operation j = PStr ''ROLLBACK''" using c by (simp add: job_operation_def plan_job_args_def)
  ultimately show ?thesis using app by fastforce
qed


definition toy_plan_id :: uuid where "toy_plan_id = ''33333333-3333-3333-3333-333333333333''"

definition toy_plan :: "plan_status \<Rightarrow> remediation_plan" where
  "toy_plan s = (new_plan toy_plan_id 3 (toy_request ''MANUAL'' None))\<lparr>p_status := s\<rparr>"

definition toy_apply_job :: "job_status \<Rightarrow> job" where
  "toy_apply_job s = toy_job\<lparr>j_type := ''COMPLIANCE_REMEDIATE'', j_status := s, j_created_at := 4,
     j_params := [(''remediation_plan_id'', PStr toy_plan_id), (''operation'', PStr ''APPLY''), (''actions'', PDict [])]\<rparr>"

text \<open>The plan with two actions after the job that applied it has ended.\<close>

definition toy_ran :: "plan_status \<Rightarrow> db" where
  "toy_ran s = toy_fleet\<lparr>plans := [toy_plan s],
     actions := map2 (new_action show_nat toy_plan_id) [0, 1] [toy_fix ''one'' ''undo one'', toy_fix ''two'' ''undo two''],
     jobs := [toy_apply_job J_COMPLETED], plan_jobs := [\<lparr>rj_plan = toy_plan_id, rj_job = toy_job_id\<rparr>],
     results := [(pending_result toy_job_id toy_agent_pk)\<lparr>r_status := R_COMPLETED\<rparr>]\<rparr>"

definition toy_completed :: db where "toy_completed = toy_ran P_COMPLETED"

definition toy_rolled_back :: "exn option \<times> session" where
  "toy_rolled_back = rollback_plan toy_remedy 7 toy_plan_id (Some ''ADMIN'') (open_session toy_completed)"

definition toy_rollback_ok :: bool where
  "toy_rollback_ok =
    (let acts = plan_actions toy_completed toy_plan_id in
     fst toy_rolled_back = None \<and> distinct (map ra_sequence acts)
     \<and> (case latest_apply toy_completed toy_plan_id of
          Some j \<Rightarrow> toy_agent_pk \<in> set (completed_agents toy_completed (j_id j)) | None \<Rightarrow> False)
     \<and> map (\<lambda>x. PStr (the (ra_rollback x)))
         (rev (filter (\<lambda>x. ra_agent x = toy_agent_pk \<and> ra_rollback x \<noteq> None) (sort_key ra_sequence acts)))
       = [PStr ''undo two'', PStr ''undo one''])"

lemma toy_rollback_ok: toy_rollback_ok
  by code_simp

theorem rollback_reverses_apply_witness:
  "\<exists>j. j \<in> set (jobs (se_saved (snd toy_rolled_back)))
     \<and> job_bodies j toy_agent_pk = [PStr ''undo two'', PStr ''undo one'']"
proof -
  have "rollback_plan toy_remedy 7 toy_plan_id (Some ''ADMIN'') (open_session toy_completed) = (None, snd toy_rolled_back)"
    using toy_rollback_ok by (simp add: toy_rollback_ok_def Let_def prod_eq_iff flip: toy_rolled_back_def)
  note rolled = rollback_reverses_apply [OF this, unfolded open_session_def session.simps]
  have "distinct (map ra_sequence (plan_actions toy_completed toy_plan_id))" using toy_rollback_ok by (simp add: toy_rollback_ok_def Let_def)
  from rolled [OF this] obtain applied j
    where "latest_apply toy_completed toy_plan_id = Some applied"
      and "jobs (se_saved (snd toy_rolled_back)) = jobs toy_completed @ [j]"
      and "job_bodies j toy_agent_pk = (if toy_agent_pk \<in> set (completed_agents toy_completed (j_id applied))
         then map (\<lambda>x. PStr (the (ra_rollback x)))
           (rev (filter (\<lambda>x. ra_agent x = toy_agent_pk \<and> ra_rollback x \<noteq> None)
              (sort_key ra_sequence (plan_actions toy_completed toy_plan_id)))) else [])"
    by blast
  with toy_rollback_ok show ?thesis by (auto simp: toy_rollback_ok_def Let_def)
qed

section \<open>A preview hides the application\<close>

lemma newest_first_snoc:
  assumes get: "sql_get j_id (jobs d) (rj_job l) = Some j" and plan: "rj_plan l = i"
    and links: "plan_jobs d = ls @ [l]"
    and older: "\<forall>k \<in> set ls. \<forall>x. rj_plan k = i \<longrightarrow> sql_get j_id (jobs d) (rj_job k) = Some x \<longrightarrow>
      k = l \<or> j_created_at x < j_created_at j"
  shows "\<exists>rest. newest_first d i = l # rest"
proof -
  let ?key = "\<lambda>l. case sql_get j_id (jobs d) (rj_job l) of Some j \<Rightarrow> - j_created_at j | None \<Rightarrow> 0"
  have sorted: "sorted (map ?key (newest_first d i))" unfolding newest_first_def by (rule sorted_sort_key)
  have l: "l \<in> set (newest_first d i)" using get plan links by (simp add: newest_first_def)
  then obtain k rest where first: "newest_first d i = k # rest" by (cases "newest_first d i") simp_all
  have "k \<in> set (newest_first d i)" by (simp add: first)
  then have "k \<in> set (plan_jobs d)" and k: "rj_plan k = i" "sql_get j_id (jobs d) (rj_job k) \<noteq> None"
    by (simp_all add: newest_first_def)
  with links have "k \<in> set ls \<or> k = l" by auto
  have "?key k \<le> ?key l" using sorted l by (auto simp: first)
  moreover from k obtain x where x: "sql_get j_id (jobs d) (rj_job k) = Some x" by blast
  ultimately have "j_created_at j \<le> j_created_at x" using \<open>?key k \<le> ?key l\<close> get by simp
  with older k(1) x \<open>k \<in> set ls \<or> k = l\<close> have "k = l" by fastforce
  with first show ?thesis by blast
qed

lemma dry_run_plan_effect:
  assumes "dry_run_plan w now i role se = (None, se')"
  shows "\<exists>j rs. j_id j = rw_new_job w (se_db se) \<and> j_created_at j = now \<and> job_operation j = PStr ''DRY_RUN''
    \<and> se_saved se' = (se_db se)\<lparr>jobs := jobs (se_db se) @ [j], results := results (se_db se) @ rs,
         plan_jobs := plan_jobs (se_db se) @ [\<lparr>rj_plan = i, rj_job = j_id j\<rparr>]\<rparr>"
proof -
  from assms obtain p acts j s where job: "create_job_in (rw_sha256 w) (rw_new_job w (se_db se)) now
      (plan_job_args ''Remediation dry-run: '' ''DRY_RUN'' p role (agents_of acts) (build_actions_payload acts)) se
      = Dispatched j s" and se': "se' = commit (s\<lparr>se_db := link_job i (j_id j) (se_db s)\<rparr>)"
    by (auto simp: dry_run_plan_def Let_def split: option.splits if_splits dispatch_result.splits)
  note c = create_job_in_Dispatched [OF job]
  then obtain rs where s: "s = commit (se\<lparr>se_db := (se_db se)\<lparr>jobs := jobs (se_db se) @ [j], results := results (se_db se) @ rs\<rparr>\<rparr>)"
    by blast
  from c have "job_operation j = PStr ''DRY_RUN''" by (simp add: job_operation_def plan_job_args_def)
  with c show ?thesis by (intro exI [of _ j] exI [of _ rs]) (simp add: se' s commit_def link_job_def)
qed

text \<open>A preview hides the application: once a preview has been requested for a plan whose application is
  under way, no report for any earlier job of the plan is taken up, so the plan stays as it is.\<close>

theorem dry_run_hides_apply:
  assumes "fresh_ids w" and "dry_run_plan w now i role se = (None, se')"
    and "\<forall>x \<in> set (jobs (se_db se)). j_created_at x < now" and "j_id j \<in> j_id ` set (jobs (se_db se))"
    and "parse_uuid (cfg_get (j_params j) ''remediation_plan_id'') = Inr i"
  shows "sync_remediation_plan t j (se_saved se') = Inr (se_saved se')"
proof -
  from dry_run_plan_effect [OF assms(2)] obtain x rs where x: "j_id x = rw_new_job w (se_db se)" "j_created_at x = now"
    and d': "se_saved se' = (se_db se)\<lparr>jobs := jobs (se_db se) @ [x], results := results (se_db se) @ rs,
      plan_jobs := plan_jobs (se_db se) @ [\<lparr>rj_plan = i, rj_job = j_id x\<rparr>]\<rparr>" by blast
  have fresh: "j_id x \<notin> j_id ` set (jobs (se_db se))" using assms(1) x(1) by (simp add: fresh_ids_def)
  have old: "sql_get j_id (jobs (se_db se)) k = Some y \<Longrightarrow> j_created_at y < now" for k y
    using assms(3) sql_get_SomeD by fastforce
  let ?l = "\<lparr>rj_plan = i, rj_job = j_id x\<rparr>"
  have "\<exists>rest. newest_first (se_saved se') i = ?l # rest"
  proof (rule newest_first_snoc)
    show get: "sql_get j_id (jobs (se_saved se')) (rj_job ?l) = Some x"
      using fresh by (simp add: d' sql_get_append sql_get_None_iff [symmetric]) (simp add: sql_get_def)
    show "\<forall>k \<in> set (plan_jobs (se_db se)). \<forall>y. rj_plan k = i \<longrightarrow> sql_get j_id (jobs (se_saved se')) (rj_job k) = Some y
        \<longrightarrow> k = ?l \<or> j_created_at y < j_created_at x"
    proof (intro ballI allI impI)
      fix k :: remediation_job and y
      assume plan: "rj_plan k = i" and y: "sql_get j_id (jobs (se_saved se')) (rj_job k) = Some y"
      show "k = ?l \<or> j_created_at y < j_created_at x"
      proof (cases "rj_job k = j_id x")
        case True
        with plan show ?thesis by (cases k) simp
      next
        case False
        with y have "sql_get j_id (jobs (se_db se)) (rj_job k) = Some y"
          by (simp add: d' sql_get_append sql_get_def [of _ "[x]"] split: option.splits)
        with old x(2) show ?thesis by simp
      qed
    qed
  qed (simp_all add: d')
  moreover have "j_id j \<noteq> j_id x" using assms(4) fresh by auto
  ultimately show ?thesis using assms(5) by (auto simp: sync_remediation_plan_def Let_def sum_bind_def)
qed


definition toy_peeked :: "exn option \<times> session" where
  "toy_peeked = dry_run_plan toy_remedy 7 toy_plan_id (Some ''ADMIN'') (open_session (toy_ran P_EXECUTING))"

lemma toy_peeked_ok: "fst toy_peeked = None"
  by code_simp

theorem dry_run_hides_apply_witness:
  "sync_remediation_plan 8 (toy_apply_job J_COMPLETED) (se_saved (snd toy_peeked)) = Inr (se_saved (snd toy_peeked))"
proof -
  have "dry_run_plan toy_remedy 7 toy_plan_id (Some ''ADMIN'') (open_session (toy_ran P_EXECUTING)) = (None, snd toy_peeked)"
    using toy_peeked_ok by (simp add: prod_eq_iff flip: toy_peeked_def)
  moreover have "\<forall>x \<in> set (jobs (se_db (open_session (toy_ran P_EXECUTING)))). j_created_at x < 7"
    by (simp add: open_session_def toy_ran_def toy_apply_job_def)
  moreover have "j_id (toy_apply_job J_COMPLETED) \<in> j_id ` set (jobs (se_db (open_session (toy_ran P_EXECUTING))))"
    by (simp add: open_session_def toy_ran_def)
  moreover have "parse_uuid (cfg_get (j_params (toy_apply_job J_COMPLETED)) ''remediation_plan_id'') = Inr toy_plan_id"
    by code_simp
  ultimately show ?thesis by (rule dry_run_hides_apply [OF toy_remedy_fresh])
qed

end
