(* ===== verification/RemedyDaily.thy ===== *)
theory RemedyDaily
  imports RemedyProps
begin

text \<open>
  What the automatic mode creates in a day.
\<close>

section \<open>One attempt a day\<close>

text \<open>The automatic plans of a day that act on a rule on an agent.\<close>

definition attempts :: "db \<Rightarrow> time \<Rightarrow> uuid \<Rightarrow> uuid \<Rightarrow> remediation_plan list" where
  "attempts d since agent_id rule_id =
    filter (\<lambda>p. p_trigger_type p = ''AUTOMATIC'' \<and> since \<le> p_created_at p
      \<and> list_ex (\<lambda>act. ra_plan act = p_id p \<and> ra_agent act = agent_id \<and> ra_rule act = Some rule_id) (actions d)) (plans d)"

lemma already_attempted_iff: "already_attempted_today d agent_id rule_id since \<longleftrightarrow> attempts d since agent_id rule_id \<noteq> []"
  unfolding already_attempted_today_def attempts_def list_ex_iff filter_empty_conv by (metis (no_types, lifting))

definition actions_refer :: "db \<Rightarrow> bool" where
  "actions_refer d = list_all (\<lambda>act. ra_plan act \<in> p_id ` set (plans d)) (actions d)"

lemma attempts_cong:
  "plans d' = plans d \<Longrightarrow> actions d' = actions d \<Longrightarrow> attempts d' = attempts d \<and> actions_refer d' = actions_refer d"
  by (simp add: attempts_def actions_refer_def fun_eq_iff)

lemma attempts_new_plan:
  assumes "actions_refer d" and "p_id p \<notin> p_id ` set (plans d)" and "ra_plan act = p_id p"
  shows "attempts (d\<lparr>plans := plans d @ [p], actions := actions d @ [act]\<rparr>) since a r = attempts d since a r
    @ (if p_trigger_type p = ''AUTOMATIC'' \<and> since \<le> p_created_at p \<and> ra_agent act = a \<and> ra_rule act = Some r then [p] else [])"
proof -
  have "p_id x \<noteq> p_id p" if "x \<in> set (plans d)" for x using assms(2) that by (metis imageI)
  moreover have "ra_plan x \<noteq> p_id p" if "x \<in> set (actions d)" for x
    using assms(1,2) that unfolding actions_refer_def list_all_iff by metis
  ultimately show ?thesis
    using assms(3) by (auto simp: attempts_def list_ex_iff intro!: filter_cong; metis)
qed

lemma dry_run_plan_frame:
  assumes "se_saved se = se_db se" and "dry_run_plan w now i role se = (r, se')"
  shows "plans (se_db se') = plans (se_db se) \<and> actions (se_db se') = actions (se_db se) \<and> se_saved se' = se_db se'"
  using assms
  by (auto simp: dry_run_plan_def Let_def commit_def rollback_def link_job_def
      split: option.splits if_splits dispatch_result.splits dest!: create_job_in_Raised create_job_in_Dispatched)

lemma create_plan_one:
  assumes "create_plan w cp now args [act] se = (Inr i, se')"
  shows "i = rw_new_plan w (se_db se) \<and> se' = commit (se\<lparr>se_db := (se_db se)\<lparr>plans := plans (se_db se) @ [new_plan i now args],
    actions := actions (se_db se) @ [new_action (rw_new_action w (se_db se)) i 0 act]\<rparr>\<rparr>)"
  using assms by (auto simp: create_plan_def Let_def split: option.splits if_splits)

lemma create_automatic_plan_attempts:
  assumes fresh: "fresh_ids w" and sync: "se_saved se = se_db se" and ref: "actions_refer (se_db se)"
    and none: "attempts (se_db se) since agent_id (cr_id rule) = []"
    and cre: "create_automatic_plan w cp now agent_id rule se = (r, se')"
  shows "se_saved se' = se_db se' \<and> actions_refer (se_db se')
    \<and> (\<forall>a i. length (attempts (se_db se') since a i) \<le> max 1 (length (attempts (se_db se) since a i)))"
proof (cases "se' = se")
  case True
  with sync ref show ?thesis by simp
next
  case False
  from cre False obtain a win t r1 se1 where a: "sql_get a_id (agents (se_db se)) agent_id = Some a"
    and one: "create_plan w cp now (automatic_args a rule win) [automatic_action a rule t (se_db se)] se = (r1, se1)"
    and rest: "(case r1 of Inl e \<Rightarrow> (Some e, se1) | Inr i \<Rightarrow> dry_run_plan w now i (Some SYSTEM_ROLE) se1) = (r, se')"
    by (auto simp: create_automatic_plan_def Let_def split: option.splits sum.splits if_splits prod.splits)
  show ?thesis
  proof (cases r1)
    case (Inl e)
    with one have "se1 = se" by (auto simp: create_plan_def Let_def split: option.splits if_splits)
    with rest Inl False show ?thesis by simp
  next
    case (Inr i)
    let ?p = "new_plan i now (automatic_args a rule win)"
    let ?act = "new_action (rw_new_action w (se_db se)) i 0 (automatic_action a rule t (se_db se))"
    let ?d = "(se_db se)\<lparr>plans := plans (se_db se) @ [?p], actions := actions (se_db se) @ [?act]\<rparr>"
    from create_plan_one [OF one [unfolded Inr]] have i: "i = rw_new_plan w (se_db se)"
      and se1: "se_db se1 = ?d" "se_saved se1 = ?d" by (simp_all add: commit_def)
    have id: "p_id ?p = i" "ra_plan ?act = i" "ra_agent ?act = agent_id" "ra_rule ?act = Some (cr_id rule)"
      using sql_get_SomeD [OF a] by (simp_all add: new_plan_def new_action_def automatic_action_def)
    have new: "p_id ?p \<notin> p_id ` set (plans (se_db se))" unfolding id(1) using fresh i by (simp add: fresh_ids_def)
    have "length (attempts ?d since x y) \<le> max 1 (length (attempts (se_db se) since x y))" for x y
      using none by (auto simp: attempts_new_plan [OF ref new] id)
    moreover have "actions_refer ?d" using ref id by (auto simp: actions_refer_def list_all_iff)
    moreover from rest Inr have dry: "dry_run_plan w now i (Some SYSTEM_ROLE) se1 = (r, se')" by simp
    moreover have "se_saved se1 = se_db se1" by (simp add: se1)
    note frame = dry_run_plan_frame [OF this dry]
    moreover from frame have "attempts (se_db se') = attempts ?d \<and> actions_refer (se_db se') = actions_refer ?d"
      by (intro attempts_cong) (simp_all add: se1)
    ultimately show ?thesis by simp
  qed
qed

lemma trigger_loop_attempts:
  assumes fresh: "fresh_ids w"
  shows "se_saved se = se_db se \<Longrightarrow> actions_refer (se_db se) \<Longrightarrow>
    trigger_loop w cp now since remaining cs se = (r, se') \<Longrightarrow>
    length (attempts (se_saved se') since a i) \<le> max 1 (length (attempts (se_db se) since a i))"
proof (induction cs arbitrary: se remaining)
  case Nil
  then show ?case by auto
next
  case (Cons c cs)
  obtain agent_id rule p where c: "c = (agent_id, rule, p)" by (cases c)
  obtain r1 se1 where one: "create_automatic_plan w cp now agent_id rule se = (r1, se1)" by fastforce
  note skip = Cons.IH [OF Cons.prems(1,2)]
  show ?case
  proof (cases "already_attempted_today (se_db se) agent_id (cr_id rule) since")
    case True
    with Cons.prems skip show ?thesis by (auto simp: c split: if_splits)
  next
    case False
    then have "attempts (se_db se) since agent_id (cr_id rule) = []" by (simp add: already_attempted_iff)
    from create_automatic_plan_attempts [OF fresh Cons.prems(1,2) this one]
    have mid: "se_saved se1 = se_db se1" "actions_refer (se_db se1)"
      "length (attempts (se_db se1) since a i) \<le> max 1 (length (attempts (se_db se) since a i))" by blast+
    have step: "length (attempts (se_saved se') since a i) \<le> max 1 (length (attempts (se_db se) since a i))"
      if "trigger_loop w cp now since n cs se1 = (r, se')" for n
      using Cons.IH [OF mid(1,2) that] mid(3) by simp
    from Cons.prems(3) False one show ?thesis
      using skip step mid(1,3) Cons.prems(1)
      by (auto simp: c split: if_splits sum.splits option.splits)
  qed
qed

text \<open>One attempt a day: however often it runs, the automatic mode creates at most one plan a day for a rule
  on an agent, whatever became of the earlier attempts.\<close>

theorem one_attempt_per_day:
  assumes "fresh_ids w" and "actions_refer d"
    and "trigger_new_automatic_plans w cp cap now (open_session d) = (r, se')"
  shows "length (attempts (se_saved se') (day_start now) a i) \<le> max 1 (length (attempts d (day_start now) a i))"
proof (cases "cap - int (plans_created_today d (day_start now)) \<le> 0")
  case True
  with assms(3) show ?thesis by (auto simp: trigger_new_automatic_plans_def open_session_def Let_def)
next
  case False
  with assms(3) have "trigger_loop w cp now (day_start now) (cap - int (plans_created_today d (day_start now)))
      (find_automatic_candidates cp) (open_session d) = (r, se')"
    by (simp add: trigger_new_automatic_plans_def open_session_def Let_def)
  from trigger_loop_attempts [OF assms(1) _ _ this] assms(2) show ?thesis by (simp add: open_session_def)
qed


definition toy_rule :: compliance_rule where
  "toy_rule = \<lparr>cr_id = ''r'', cr_key = ''ssh-root'', cr_domain = ''ssh'', cr_status = ''ACTIVE''\<rparr>"

definition toy_failing :: compliance where
  "toy_failing = \<lparr>cp_rules = [toy_rule],
     cp_sets = [\<lparr>ps_id = ''s'', ps_is_enabled = True, ps_remediation = [(''mode'', PStr ''AUTOMATIC'')], ps_rules = [''r'']\<rparr>],
     cp_templates = [\<lparr>rt_key = ''ssh-root'', rt_version = 1, rt_provider = ''shell'', rt_body = ''fix'',
       rt_rollback = Some ''undo''\<rparr>],
     cp_evaluations = [\<lparr>re_agent = toy_agent_pk, re_rule = ''r'', re_time = 1, re_result = ''FAIL'', re_exception = None\<rparr>],
     cp_categories = [], cp_projects = []\<rparr>"

definition toy_nightly :: remedy_world where
  "toy_nightly = toy_remedy\<lparr>rw_cron_prev := \<lambda>_ t. Some t\<rparr>"

definition toy_day :: "exn option \<times> session" where
  "toy_day = trigger_new_automatic_plans toy_nightly toy_failing 5 9 (open_session toy_fleet)"

lemma toy_day_ok: "attempts (se_saved (snd toy_day)) (day_start 9) toy_agent_pk ''r'' \<noteq> []"
  by code_simp

theorem one_attempt_per_day_witness:
  "length (attempts (se_saved (snd toy_day)) (day_start 9) toy_agent_pk ''r'') = 1"
proof -
  have "fresh_ids toy_nightly" using toy_remedy_fresh by (simp add: toy_nightly_def fresh_ids_def)
  moreover have "actions_refer toy_fleet" by (simp add: actions_refer_def toy_fleet_def empty_db_def)
  moreover have "attempts toy_fleet since a i = []" for since a i
    by (simp add: attempts_def toy_fleet_def empty_db_def)
  moreover have "trigger_new_automatic_plans toy_nightly toy_failing 5 9 (open_session toy_fleet) = (fst toy_day, snd toy_day)"
    by (simp add: toy_day_def)
  ultimately have "length (attempts (se_saved (snd toy_day)) (day_start 9) toy_agent_pk ''r'') \<le> 1"
    using one_attempt_per_day [of toy_nightly toy_fleet toy_failing 5 9 "fst toy_day" "snd toy_day" toy_agent_pk "''r''"] by simp
  with toy_day_ok show ?thesis by (cases "attempts (se_saved (snd toy_day)) (day_start 9) toy_agent_pk ''r''") simp_all
qed

end
