(* ===== verification/Redis.thy ===== *)
theory Redis
  imports Store
begin

text \<open>
  The cache as its clients use it (\<open>cache.py\<close>): counters, sorted sets and short locks with a time to live.
  Every helper swallows the errors of an unreachable server and returns its default, so an outage is a flag
  of the state. A key is gone from the instant its time to live ends.
\<close>

record redis =
  rd_up :: bool
  rd_counters :: "string \<Rightarrow> (int \<times> time) option"
  rd_zsets :: "string \<Rightarrow> ((string \<times> time) list \<times> time option) option"
  rd_locks :: "string \<Rightarrow> time option"
  rd_values :: "string \<Rightarrow> (pv \<times> time option) option"
  rd_sets :: "string \<Rightarrow> string list"

definition empty_redis :: redis where
  "empty_redis = \<lparr>rd_up = True, rd_counters = (\<lambda>_. None), rd_zsets = (\<lambda>_. None), rd_locks = (\<lambda>_. None),
     rd_values = (\<lambda>_. None), rd_sets = (\<lambda>_. [])\<rparr>"

definition seconds :: "int \<Rightarrow> time" where "seconds s = s * 1000000"

section \<open>Counters\<close>

definition counter_value :: "time \<Rightarrow> string \<Rightarrow> redis \<Rightarrow> int" where
  "counter_value now key r = (case rd_counters r key of Some (v, e) \<Rightarrow> if e \<le> now then 0 else v | None \<Rightarrow> 0)"

definition incr_checked :: "time \<Rightarrow> string \<Rightarrow> int \<Rightarrow> int \<Rightarrow> redis \<Rightarrow> int option \<times> redis" where
  "incr_checked now key ttl amount r =
    (if \<not> rd_up r then (None, r)
     else (let v = counter_value now key r + amount
           in (Some v, r\<lparr>rd_counters := (rd_counters r)(key := Some (v, now + seconds ttl))\<rparr>)))"

definition incr :: "time \<Rightarrow> string \<Rightarrow> int \<Rightarrow> redis \<Rightarrow> int \<times> redis" where
  "incr now key ttl r = (case incr_checked now key ttl 1 r of (None, r') \<Rightarrow> (0, r') | (Some v, r') \<Rightarrow> (v, r'))"

definition invalidate :: "string \<Rightarrow> redis \<Rightarrow> redis" where
  "invalidate key r =
    (if \<not> rd_up r then r
     else r\<lparr>rd_counters := (rd_counters r)(key := None), rd_zsets := (rd_zsets r)(key := None),
            rd_locks := (rd_locks r)(key := None), rd_values := (rd_values r)(key := None),
            rd_sets := (rd_sets r)(key := [])\<rparr>)"

section \<open>Values and plain sets\<close>

text \<open>The operations on plain sets let the error of an unreachable server through, as \<open>None\<close> here.\<close>

definition get_cached :: "time \<Rightarrow> string \<Rightarrow> redis \<Rightarrow> pv option" where
  "get_cached now key r =
    (if \<not> rd_up r then None
     else (case rd_values r key of
         None \<Rightarrow> None
       | Some (v, None) \<Rightarrow> Some v
       | Some (v, Some e) \<Rightarrow> if e \<le> now then None else Some v))"

definition set_cached :: "time \<Rightarrow> string \<Rightarrow> pv \<Rightarrow> int option \<Rightarrow> redis \<Rightarrow> redis" where
  "set_cached now key v ttl r =
    (if \<not> rd_up r then r
     else r\<lparr>rd_values := (rd_values r)(key := Some (v, map_option (\<lambda>t. now + seconds t) ttl))\<rparr>)"

definition sadd :: "string \<Rightarrow> string \<Rightarrow> redis \<Rightarrow> redis option" where
  "sadd key member r =
    (if \<not> rd_up r then None else Some (r\<lparr>rd_sets := (rd_sets r)(key := List.insert member (rd_sets r key))\<rparr>))"

definition srem :: "string \<Rightarrow> string \<Rightarrow> redis \<Rightarrow> (bool \<times> redis) option" where
  "srem key member r =
    (if \<not> rd_up r then None
     else Some (member \<in> set (rd_sets r key), r\<lparr>rd_sets := (rd_sets r)(key := removeAll member (rd_sets r key))\<rparr>))"

definition sismember :: "string \<Rightarrow> string \<Rightarrow> redis \<Rightarrow> bool option" where
  "sismember key member r = (if \<not> rd_up r then None else Some (member \<in> set (rd_sets r key)))"

section \<open>Sorted sets\<close>

text \<open>The members of a key with their scores, and when the key expires.\<close>

definition zset :: "time \<Rightarrow> string \<Rightarrow> redis \<Rightarrow> (string \<times> time) list \<times> time option" where
  "zset now key r =
    (case rd_zsets r key of
       None \<Rightarrow> ([], None)
     | Some (ms, None) \<Rightarrow> (ms, None)
     | Some (ms, Some e) \<Rightarrow> if e \<le> now then ([], None) else (ms, Some e))"

definition zadd :: "time \<Rightarrow> string \<Rightarrow> string \<Rightarrow> time \<Rightarrow> redis \<Rightarrow> redis" where
  "zadd now key member score r =
    (if \<not> rd_up r then r
     else (case zset now key r of (ms, e) \<Rightarrow>
       r\<lparr>rd_zsets := (rd_zsets r)(key := Some (filter (\<lambda>m. fst m \<noteq> member) ms @ [(member, score)], e))\<rparr>))"

definition expire :: "time \<Rightarrow> string \<Rightarrow> int \<Rightarrow> redis \<Rightarrow> redis" where
  "expire now key ttl r =
    (if \<not> rd_up r then r
     else (case zset now key r of (ms, e) \<Rightarrow>
       if ms = [] then r
       else r\<lparr>rd_zsets := (rd_zsets r)(key := Some (ms, Some (now + seconds ttl)))\<rparr>))"

definition zrangebyscore :: "time \<Rightarrow> string \<Rightarrow> time \<Rightarrow> time \<Rightarrow> redis \<Rightarrow> string list" where
  "zrangebyscore now key lo hi r =
    (if \<not> rd_up r then []
     else map fst (sort_key snd (sort_key fst (filter (\<lambda>m. lo \<le> snd m \<and> snd m \<le> hi) (fst (zset now key r))))))"

definition zrem :: "time \<Rightarrow> string \<Rightarrow> string \<Rightarrow> redis \<Rightarrow> redis" where
  "zrem now key member r =
    (if \<not> rd_up r then r
     else (case zset now key r of (ms, e) \<Rightarrow>
       r\<lparr>rd_zsets := (rd_zsets r)(key := Some (filter (\<lambda>m. fst m \<noteq> member) ms, e))\<rparr>))"

section \<open>Locks\<close>

definition set_nx :: "time \<Rightarrow> string \<Rightarrow> int \<Rightarrow> redis \<Rightarrow> bool \<times> redis" where
  "set_nx now key ttl r =
    (if \<not> rd_up r then (False, r)
     else (case rd_locks r key of
         Some e \<Rightarrow> if e \<le> now then (True, r\<lparr>rd_locks := (rd_locks r)(key := Some (now + seconds ttl))\<rparr>) else (False, r)
       | None \<Rightarrow> (True, r\<lparr>rd_locks := (rd_locks r)(key := Some (now + seconds ttl))\<rparr>)))"

section \<open>Laws\<close>

lemma zset_subset: "m \<in> set (fst (zset now key r)) \<Longrightarrow> \<exists>ms e. rd_zsets r key = Some (ms, e) \<and> m \<in> set ms"
  by (auto simp: zset_def split: option.splits if_splits)

lemma zrangebyscore_iff:
  "m \<in> set (zrangebyscore now key lo hi r) \<longleftrightarrow>
     rd_up r \<and> (\<exists>t. (m, t) \<in> set (fst (zset now key r)) \<and> lo \<le> t \<and> t \<le> hi)"
  by (force simp: zrangebyscore_def)

end
