(* ===== verification/Signals.thy ===== *)
theory Signals
  imports Redis
begin

text \<open>
  Signals: the detectors (\<open>signals/detectors.py\<close>), the upsert and the recovery of a signal
  (\<open>signals/service.py\<close>, \<open>events/fingerprint.py\<close>), the worker that turns one normalized event into signals
  (\<open>workers/signal_processor.py\<close>) and the routes that resolve or suppress one
  (\<open>api/v1/routers/signals.py\<close>). The messages that are published are returned; occurrences in ClickHouse,
  metrics and the topology node of a host are left out. SHA-256 and new row ids are parameters.
\<close>

section \<open>Rows, events and messages\<close>

record signal =
  sg_id :: uuid
  sg_tenant :: string
  sg_type :: string
  sg_severity :: string
  sg_status :: string
  sg_host :: "uuid option"
  sg_service :: "string option"
  sg_fingerprint :: string
  sg_count :: nat
  sg_first_seen :: time
  sg_last_seen :: time
  sg_metadata :: config

text \<open>A value of a payload: a number, or any other JSON value.\<close>

datatype sample = Num rat | Val pv

record event =
  ev_type :: "string option"
  ev_host :: "string option"
  ev_service :: "string option"
  ev_payload :: "(string \<times> sample) list"
  ev_tenant :: string
  ev_time :: "time option"

record detected =
  dt_type :: string
  dt_severity :: string
  dt_host :: "string option"
  dt_service :: "string option"
  dt_resource :: "string option"
  dt_value :: rat
  dt_metadata :: config

record signal_msg =
  sm_tenant :: "string option"
  sm_type :: "string option"
  sm_severity :: "string option"
  sm_host :: "string option"
  sm_fingerprint :: string

datatype signal_event = Signal_detected signal_msg | Signal_resolved signal_msg

section \<open>Fingerprints\<close>

definition text_or :: "string option \<Rightarrow> string" where
  "text_or s = (case s of None \<Rightarrow> [] | Some t \<Rightarrow> t)"

definition fingerprint :: "(string \<Rightarrow> string) \<Rightarrow> string \<Rightarrow> string option \<Rightarrow> string \<Rightarrow> string option \<Rightarrow> string" where
  "fingerprint sha tenant host ty resource =
    (let res = (if text_or resource \<noteq> [] then text_or resource else text_or host)
     in take 32 (sha (join ''|'' (filter (\<lambda>p. p \<noteq> []) [tenant, text_or host, ty, res]))))"

section \<open>Detectors\<close>

definition SUSTAIN_SAMPLES :: int where "SUSTAIN_SAMPLES = 2"
definition SUSTAIN_WINDOW_SEC :: int where "SUSTAIN_WINDOW_SEC = 600"

definition sample_number :: "sample \<Rightarrow> rat option" where
  "sample_number v = (case v of
      Num r \<Rightarrow> Some r
    | Val (PInt i) \<Rightarrow> Some (of_int i)
    | Val (PBool b) \<Rightarrow> Some (if b then 1 else 0)
    | _ \<Rightarrow> None)"

definition metric_signal :: "string \<Rightarrow> string option \<Rightarrow> rat \<Rightarrow> detected" where
  "metric_signal ty host v = \<lparr>dt_type = ty, dt_severity = ''HIGH'', dt_host = host, dt_service = None,
     dt_resource = None, dt_value = v, dt_metadata = []\<rparr>"

definition METRIC_RULES :: "(string \<times> string \<times> rat \<times> int) list" where
  "METRIC_RULES = [(''cpu'', ''cpu.high'', 90, SUSTAIN_SAMPLES), (''memory'', ''memory.high'', 90, SUSTAIN_SAMPLES),
     (''disk'', ''disk.usage.high'', 90, 1)]"

fun detect_rules ::
    "time \<Rightarrow> event \<Rightarrow> (string \<times> string \<times> rat \<times> int) list \<Rightarrow> redis \<Rightarrow> (exn + detected list) \<times> redis" where
  "detect_rules now ev [] r = (Inr [], r)"
| "detect_rules now ev ((key, ty, threshold, sustain) # rules) r =
    (let counter = ''sig:thr:'' @ ev_tenant ev @ '':'' @ text_or (ev_host ev) @ '':'' @ key;
         rest = (\<lambda>found r. case detect_rules now ev rules r of
            (Inl e, r') \<Rightarrow> (Inl e, r') | (Inr ds, r') \<Rightarrow> (Inr (found @ ds), r'))
     in case map_of (ev_payload ev) key of
          None \<Rightarrow> rest [] r
        | Some (Val PNone) \<Rightarrow> rest [] r
        | Some v \<Rightarrow>
           (case sample_number v of
              None \<Rightarrow> (Inl (TypeError ''not supported between instances''), r)
            | Some n \<Rightarrow>
               if n < threshold then rest [] (invalidate counter r)
               else if sustain \<le> 1 then rest [metric_signal ty (ev_host ev) n] r
               else (case incr now counter SUSTAIN_WINDOW_SEC r of
                   (count, r') \<Rightarrow>
                     if count = 0 then rest [] r'
                     else if count \<ge> sustain then rest [metric_signal ty (ev_host ev) n] r'
                     else rest [] r')))"

definition detect_metric_samples :: "time \<Rightarrow> event \<Rightarrow> redis \<Rightarrow> (exn + detected list) \<times> redis" where
  "detect_metric_samples now ev r =
    (if text_or (ev_host ev) = [] then (Inr [], r) else detect_rules now ev METRIC_RULES r)"

definition detect_host_unreachable :: "event \<Rightarrow> detected" where
  "detect_host_unreachable ev = \<lparr>dt_type = ''host.unreachable'', dt_severity = ''CRITICAL'', dt_host = ev_host ev,
     dt_service = None, dt_resource = None, dt_value = 0, dt_metadata = []\<rparr>"

definition detect_job_failed :: "event \<Rightarrow> detected" where
  "detect_job_failed ev = \<lparr>dt_type = ''job.failed'', dt_severity = ''HIGH'', dt_host = ev_host ev,
     dt_service = ev_service ev, dt_resource = ev_service ev, dt_value = 0,
     dt_metadata = [(''job_id'', case map_of (ev_payload ev) ''job_id'' of Some (Val v) \<Rightarrow> v | _ \<Rightarrow> PNone)]\<rparr>"

section \<open>Upserting and resolving\<close>

definition severity_rank :: "string \<Rightarrow> nat" where
  "severity_rank s = (if s = ''LOW'' then 1 else if s = ''MEDIUM'' then 2 else if s = ''HIGH'' then 3
     else if s = ''CRITICAL'' then 4 else 0)"

definition signal_json :: "signal \<Rightarrow> signal_msg" where
  "signal_json s = \<lparr>sm_tenant = Some (sg_tenant s), sm_type = Some (sg_type s), sm_severity = Some (sg_severity s),
     sm_host = sg_host s, sm_fingerprint = sg_fingerprint s\<rparr>"

definition new_signal :: "uuid \<Rightarrow> time \<Rightarrow> string \<Rightarrow> string \<Rightarrow> detected \<Rightarrow> signal" where
  "new_signal i now tenant fp dt =
    \<lparr>sg_id = i, sg_tenant = tenant, sg_type = dt_type dt, sg_severity = dt_severity dt, sg_status = ''OPEN'',
     sg_host = safe_uuid (dt_host dt), sg_service = dt_service dt, sg_fingerprint = fp, sg_count = 1,
     sg_first_seen = now, sg_last_seen = now, sg_metadata = dt_metadata dt\<rparr>"

text \<open>The conflict target is the tenant and the fingerprint.\<close>

definition sg_key :: "signal \<Rightarrow> string \<times> string" where
  "sg_key s = (sg_tenant s, sg_fingerprint s)"

definition occur :: "time \<Rightarrow> detected \<Rightarrow> signal \<Rightarrow> signal" where
  "occur now dt s = s\<lparr>sg_count := sg_count s + 1, sg_last_seen := now, sg_status := ''OPEN'',
     sg_severity := (if severity_rank (dt_severity dt) > severity_rank (sg_severity s) then dt_severity dt
                     else sg_severity s)\<rparr>"

definition upsert_signal ::
    "(string \<Rightarrow> string) \<Rightarrow> uuid \<Rightarrow> time \<Rightarrow> string \<Rightarrow> detected \<Rightarrow> signal list \<Rightarrow> signal \<times> signal list" where
  "upsert_signal sha i now tenant dt sigs =
    (let fp = fingerprint sha tenant (dt_host dt) (dt_type dt) (dt_resource dt) in
     case sql_get sg_key sigs (tenant, fp) of
       None \<Rightarrow> (new_signal i now tenant fp dt, sigs @ [new_signal i now tenant fp dt])
     | Some s \<Rightarrow> (occur now dt s, sql_modify sg_key (tenant, fp) (occur now dt) sigs))"

definition resolve_by_fingerprint ::
    "(string \<Rightarrow> string) \<Rightarrow> string \<Rightarrow> string option \<Rightarrow> string \<Rightarrow> time option \<Rightarrow> signal list
     \<Rightarrow> signal_event list \<times> signal list" where
  "resolve_by_fingerprint sha tenant host ty event_ts sigs =
    (let fp = fingerprint sha tenant host ty None in
     case sql_first (\<lambda>s. sg_tenant s = tenant \<and> sg_fingerprint s = fp \<and> sg_status s = ''OPEN'') sigs of
       None \<Rightarrow> ([], sigs)
     | Some s \<Rightarrow>
        if (case event_ts of None \<Rightarrow> False | Some t \<Rightarrow> t < sg_last_seen s) then ([], sigs)
        else ([Signal_resolved (signal_json s)],
              sql_modify sg_id (sg_id s) (\<lambda>s. s\<lparr>sg_status := ''RESOLVED''\<rparr>) sigs))"

fun upsert_all ::
    "(string \<Rightarrow> string) \<Rightarrow> (signal list \<Rightarrow> uuid) \<Rightarrow> time \<Rightarrow> string \<Rightarrow> detected list \<Rightarrow> signal list
     \<Rightarrow> signal_event list \<times> signal list" where
  "upsert_all sha ids now tenant [] sigs = ([], sigs)"
| "upsert_all sha ids now tenant (dt # dts) sigs =
    (case upsert_signal sha (ids sigs) now tenant dt sigs of
       (row, sigs') \<Rightarrow> (case upsert_all sha ids now tenant dts sigs' of
          (out, sigs'') \<Rightarrow> (Signal_detected (signal_json row) # out, sigs'')))"

definition process_event ::
    "(string \<Rightarrow> string) \<Rightarrow> (signal list \<Rightarrow> uuid) \<Rightarrow> time \<Rightarrow> event \<Rightarrow> redis \<Rightarrow> signal list
     \<Rightarrow> signal_event list \<times> redis \<times> signal list" where
  "process_event sha ids now ev r sigs =
    (let tenant = ev_tenant ev in
     if ev_type ev = Some ''host.heartbeat.ok'' then
       (case resolve_by_fingerprint sha tenant (ev_host ev) ''host.unreachable'' (ev_time ev) sigs of
          (out, sigs') \<Rightarrow> (out, r, sigs'))
     else if ev_type ev = Some ''metric.sample'' then
       (case detect_metric_samples now ev r of
          (Inl e, r') \<Rightarrow> ([], r', sigs)
        | (Inr dts, r') \<Rightarrow> (case upsert_all sha ids now tenant dts sigs of (out, sigs') \<Rightarrow> (out, r', sigs')))
     else if ev_type ev = Some ''host.unreachable'' then
       (case upsert_all sha ids now tenant [detect_host_unreachable ev] sigs of (out, sigs') \<Rightarrow> (out, r, sigs'))
     else if ev_type ev = Some ''job.failed'' then
       (case upsert_all sha ids now tenant [detect_job_failed ev] sigs of (out, sigs') \<Rightarrow> (out, r, sigs'))
     else ([], r, sigs))"

section \<open>The routes\<close>

text \<open>The message of a resolution by hand carries the fingerprint and the id only.\<close>

definition resolve_signal :: "uuid \<Rightarrow> signal list \<Rightarrow> exn + (signal_event \<times> signal list)" where
  "resolve_signal i sigs =
    (case sql_get sg_id sigs i of
       None \<Rightarrow> Inl (HTTPException 404 ''Signal not found'')
     | Some s \<Rightarrow>
        if sg_tenant s \<noteq> ''default'' then Inl (HTTPException 404 ''Signal not found'')
        else Inr (Signal_resolved \<lparr>sm_tenant = None, sm_type = None, sm_severity = None, sm_host = None,
                    sm_fingerprint = sg_fingerprint s\<rparr>,
                  sql_modify sg_id i (\<lambda>s. s\<lparr>sg_status := ''RESOLVED''\<rparr>) sigs))"

definition suppress_signal :: "uuid \<Rightarrow> signal list \<Rightarrow> exn + signal list" where
  "suppress_signal i sigs =
    (case sql_get sg_id sigs i of
       None \<Rightarrow> Inl (HTTPException 404 ''Signal not found'')
     | Some s \<Rightarrow>
        if sg_tenant s \<noteq> ''default'' then Inl (HTTPException 404 ''Signal not found'')
        else Inr (sql_modify sg_id i (\<lambda>s. s\<lparr>sg_status := ''SUPPRESSED''\<rparr>) sigs))"

end
