(* ===== verification/SignalLaws.thy ===== *)
theory SignalLaws
  imports Signals
begin

text \<open>
  The signals stay deduplicated: one row for a tenant and fingerprint, whose severity and count only grow,
  whatever events the worker processes.
\<close>

definition signal_grows :: "signal \<Rightarrow> signal \<Rightarrow> bool" where
  "signal_grows s s' = (sg_id s' = sg_id s \<and> sg_key s' = sg_key s
     \<and> severity_rank (sg_severity s) \<le> severity_rank (sg_severity s') \<and> sg_count s \<le> sg_count s')"

definition signals_grow :: "signal list \<Rightarrow> signal list \<Rightarrow> bool" where
  "signals_grow sigs sigs' = (distinct (map sg_key sigs) \<longrightarrow>
     distinct (map sg_key sigs') \<and> (\<forall>s \<in> set sigs. \<exists>s' \<in> set sigs'. signal_grows s s'))"

lemma signal_grows_refl [simp]: "signal_grows s s"
  by (simp add: signal_grows_def)

lemma signal_grows_trans: "signal_grows s t \<Longrightarrow> signal_grows t u \<Longrightarrow> signal_grows s u"
  by (auto simp: signal_grows_def)

lemma signals_grow_refl [simp]: "signals_grow sigs sigs"
  unfolding signals_grow_def using signal_grows_refl by blast

lemma signals_grow_trans: "signals_grow a b \<Longrightarrow> signals_grow b c \<Longrightarrow> signals_grow a c"
  unfolding signals_grow_def using signal_grows_trans by blast

lemma signals_grow_update:
  assumes "\<And>s. signal_grows s (f s)"
  shows "signals_grow sigs (sql_update p f sigs)"
proof -
  have "map sg_key (sql_update p f sigs) = map sg_key sigs"
    using assms by (auto simp: sql_update_def signal_grows_def)
  moreover have "\<exists>s' \<in> set (sql_update p f sigs). signal_grows s s'" if "s \<in> set sigs" for s
    using that assms [of s] by (intro bexI [of _ "if p s then f s else s"]) (auto simp: in_set_sql_update)
  ultimately show ?thesis by (simp add: signals_grow_def)
qed

lemma signals_grow_append: "sg_key s \<notin> sg_key ` set sigs \<Longrightarrow> signals_grow sigs (sigs @ [s])"
  unfolding signals_grow_def by (simp, blast intro: signal_grows_refl)

lemma upsert_signal_grows: "upsert_signal sha i now tenant dt sigs = (row, sigs') \<Longrightarrow> signals_grow sigs sigs'"
proof (cases "sql_get sg_key sigs (tenant, fingerprint sha tenant (dt_host dt) (dt_type dt) (dt_resource dt))")
  case None
  assume "upsert_signal sha i now tenant dt sigs = (row, sigs')"
  from this [symmetric] None have "sigs' = sigs @ [new_signal i now tenant (fingerprint sha tenant (dt_host dt) (dt_type dt) (dt_resource dt)) dt]"
    by (simp add: upsert_signal_def Let_def)
  with None show ?thesis
    by (simp add: signals_grow_append sql_get_None_iff new_signal_def sg_key_def)
next
  case (Some s)
  assume "upsert_signal sha i now tenant dt sigs = (row, sigs')"
  with Some have "sigs' = sql_modify sg_key (tenant, fingerprint sha tenant (dt_host dt) (dt_type dt) (dt_resource dt)) (occur now dt) sigs"
    by (simp add: upsert_signal_def Let_def)
  moreover have "signal_grows s (occur now dt s)" for s by (simp add: signal_grows_def occur_def sg_key_def)
  ultimately show ?thesis by (simp add: sql_modify_def signals_grow_update)
qed

lemma upsert_all_grows: "upsert_all sha ids now tenant dts sigs = (out, sigs') \<Longrightarrow> signals_grow sigs sigs'"
proof (induction dts arbitrary: sigs out)
  case Nil
  then show ?case by simp
next
  case (Cons dt dts)
  then show ?case by (auto split: prod.splits intro: signals_grow_trans upsert_signal_grows)
qed

lemma resolve_by_fingerprint_grows:
  "resolve_by_fingerprint sha tenant host ty ts sigs = (out, sigs') \<Longrightarrow> signals_grow sigs sigs'"
proof -
  assume "resolve_by_fingerprint sha tenant host ty ts sigs = (out, sigs')"
  then have "sigs' = sigs \<or> (\<exists>i. sigs' = sql_modify sg_id i (\<lambda>s. s\<lparr>sg_status := ''RESOLVED''\<rparr>) sigs)"
    by (auto simp: resolve_by_fingerprint_def Let_def split: option.splits if_splits)
  then show ?thesis
    by (auto simp: sql_modify_def signals_grow_update signal_grows_def sg_key_def)
qed

text \<open>Whatever event the signal worker processes, there stays one row for a tenant and fingerprint, no row is
  lost or changes its identity, and its severity and its count never drop.\<close>

theorem signals_stay_deduplicated:
  assumes "process_event sha ids now ev r sigs = (out, r', sigs')" and "distinct (map sg_key sigs)"
  shows "distinct (map sg_key sigs') \<and> (\<forall>s \<in> set sigs. \<exists>s' \<in> set sigs'. sg_id s' = sg_id s \<and> sg_key s' = sg_key s
    \<and> severity_rank (sg_severity s) \<le> severity_rank (sg_severity s') \<and> sg_count s \<le> sg_count s')"
proof -
  have "signals_grow sigs sigs'"
    using assms(1)
    by (auto simp: process_event_def Let_def split: prod.splits sum.splits if_splits
        dest: upsert_all_grows upsert_signal_grows resolve_by_fingerprint_grows)
  with assms(2) show ?thesis by (simp add: signals_grow_def signal_grows_def)
qed

definition toy_unreachable :: event where
  "toy_unreachable = \<lparr>ev_type = Some ''host.unreachable'', ev_host = None, ev_service = None, ev_payload = [],
     ev_tenant = ''default'', ev_time = None\<rparr>"

theorem signals_stay_deduplicated_witness:
  "\<exists>s. snd (snd (process_event (\<lambda>s. s) (\<lambda>_. ''s2'') 9 toy_unreachable empty_redis
     (snd (snd (process_event (\<lambda>s. s) (\<lambda>_. ''s1'') 5 toy_unreachable empty_redis []))))) = [s] \<and> sg_count s = 2
   \<and> sg_id s = ''s1''"
proof -
  let ?step = "\<lambda>i t sigs. process_event (\<lambda>s. s) (\<lambda>_. i) t toy_unreachable empty_redis sigs"
  let ?s1 = "snd (snd (?step ''s1'' 5 []))" and ?s2 = "snd (snd (?step ''s2'' 9 (snd (snd (?step ''s1'' 5 [])))))"
  have shape: "map sg_id ?s1 = [''s1'']" "map sg_count ?s2 = [2]" by code_simp+
  then have "distinct (map sg_key ?s1)" by (cases ?s1) auto
  from signals_stay_deduplicated [OF _ this, of "\<lambda>s. s" "\<lambda>_. ''s2''" 9 toy_unreachable empty_redis] shape(1)
  have "\<exists>s' \<in> set ?s2. sg_id s' = ''s1''" by (cases ?s1) (auto simp: prod_eq_iff)
  with shape(2) show ?thesis by (cases ?s2) auto
qed

end
