(* ===== verification/Correlation.thy ===== *)
theory Correlation
  imports Signals
begin

text \<open>
  The correlation of signals into incident candidates (\<open>correlation/evaluator.py\<close>,
  \<open>correlation/suppression.py\<close>, the default rules of \<open>correlation/rules.py\<close>, the validators of
  \<open>signals/schemas.py\<close>, the handlers of \<open>workers/correlation_worker.py\<close>). A rule keeps one sorted set per
  group: the signal types seen, each with the time it was last seen. Times are microseconds here and
  milliseconds in the code. The snapshot of enabled rules is an argument.
\<close>

section \<open>Rules\<close>

record correlation_rule =
  ru_id :: uuid
  ru_tenant :: string
  ru_window_seconds :: int
  ru_group_by :: "string list"
  ru_conditions :: "(string \<times> int) list"
  ru_threshold :: int
  ru_incident_type :: string
  ru_incident_severity :: string
  ru_suppressions :: "pv list"

record candidate =
  ca_rule :: correlation_rule
  ca_group_key :: string
  ca_host :: string
  ca_types :: "string list"
  ca_score :: int
  ca_root :: string

section \<open>Suppression windows\<close>

definition DAYS :: "string list" where
  "DAYS = [''Mon'', ''Tue'', ''Wed'', ''Thu'', ''Fri'', ''Sat'', ''Sun'']"

fun position :: "'a \<Rightarrow> 'a list \<Rightarrow> nat option" where
  "position x [] = None"
| "position x (y # ys) = (if x = y then Some 0 else map_option Suc (position x ys))"

definition before :: "char \<Rightarrow> string \<Rightarrow> string" where "before c s = takeWhile (\<lambda>x. x \<noteq> c) s"
definition after :: "char \<Rightarrow> string \<Rightarrow> string" where "after c s = drop 1 (dropWhile (\<lambda>x. x \<noteq> c) s)"

text \<open>Nothing for a malformed point: each exception it raises is one its callers catch.\<close>

definition parse_point :: "pv \<Rightarrow> int option" where
  "parse_point v =
    (case v of
       PStr s \<Rightarrow>
         (let hh_mm = after (CHR '' '') s in
          if CHR '' '' \<notin> set s \<or> CHR '':'' \<notin> set hh_mm \<or> CHR '':'' \<in> set (after (CHR '':'') hh_mm) then None
          else (case (position (before (CHR '' '') s) DAYS, py_int (PStr (before (CHR '':'') hh_mm)),
                  py_int (PStr (after (CHR '':'') hh_mm))) of
              (Some day, Inr hours, Inr minutes) \<Rightarrow> Some (int day * 1440 + hours * 60 + minutes)
            | _ \<Rightarrow> None))
     | _ \<Rightarrow> None)"

definition window_points :: "pv \<Rightarrow> (int \<times> int) option" where
  "window_points w =
    (case w of
       PDict d \<Rightarrow>
         (case (Option.bind (map_of d ''from'') parse_point, Option.bind (map_of d ''to'') parse_point) of
            (Some a, Some b) \<Rightarrow> Some (a, b) | _ \<Rightarrow> None)
     | _ \<Rightarrow> None)"

text \<open>The epoch was a Thursday.\<close>

definition minute_of_week :: "time \<Rightarrow> int" where
  "minute_of_week now = (now div 60000000 + 3 * 1440) mod 10080"

definition in_window :: "int \<Rightarrow> int \<times> int \<Rightarrow> bool" where
  "in_window m w = (if fst w \<le> snd w then fst w \<le> m \<and> m \<le> snd w else m \<ge> fst w \<or> m \<le> snd w)"

definition is_suppressed :: "pv list \<Rightarrow> time \<Rightarrow> bool" where
  "is_suppressed suppressions now =
    list_ex (\<lambda>w. case window_points w of None \<Rightarrow> False | Some p \<Rightarrow> in_window (minute_of_week now) p) suppressions"

section \<open>The evaluator\<close>

definition group_key :: "(string \<Rightarrow> string) \<Rightarrow> correlation_rule \<Rightarrow> string \<Rightarrow> string \<Rightarrow> string" where
  "group_key sha rule tenant host =
    take 32 (sha (join ''|'' ([ru_id rule, tenant] @ map (\<lambda>k. if k = ''host_id'' then host else []) (ru_group_by rule))))"

text \<open>The weight of a type: its conditions add up.\<close>

definition type_weight :: "correlation_rule \<Rightarrow> string \<Rightarrow> int" where
  "type_weight rule ty = sum_list (map snd (filter (\<lambda>c. fst c = ty) (ru_conditions rule)))"

definition has_type :: "correlation_rule \<Rightarrow> string \<Rightarrow> bool" where
  "has_type rule ty = (ty \<in> fst ` set (ru_conditions rule))"

definition window_key :: "correlation_rule \<Rightarrow> string \<Rightarrow> string" where
  "window_key rule gk = ''corr:'' @ ru_id rule @ '':'' @ gk"

definition lock_key :: "correlation_rule \<Rightarrow> string \<Rightarrow> string" where
  "lock_key rule gk = ''lock:corr:'' @ ru_id rule @ '':'' @ gk"

definition LOCK_TTL_SEC :: int where "LOCK_TTL_SEC = 5"

text \<open>\<open>max\<close> returns the first of the heaviest.\<close>

definition heaviest :: "correlation_rule \<Rightarrow> string list \<Rightarrow> string" where
  "heaviest rule tys = hd (sort_key (\<lambda>t. - type_weight rule t) tys)"

definition open_candidate :: "correlation_rule \<Rightarrow> string \<Rightarrow> string \<Rightarrow> string list \<Rightarrow> int \<Rightarrow> string \<Rightarrow> candidate" where
  "open_candidate rule gk host tys score first =
    \<lparr>ca_rule = rule, ca_group_key = gk, ca_host = host, ca_types = tys, ca_score = score, ca_root = first\<rparr>"

definition eval_rule ::
    "(string \<Rightarrow> string) \<Rightarrow> time \<Rightarrow> string \<Rightarrow> bool \<Rightarrow> correlation_rule \<Rightarrow> string \<Rightarrow> string \<Rightarrow> string option \<Rightarrow> redis
     \<Rightarrow> candidate option \<times> redis" where
  "eval_rule sha now tenant healthy rule ty host severity r =
    (if \<not> has_type rule ty then (None, r)
     else if is_suppressed (ru_suppressions rule) now then (None, r)
     else (let gk = group_key sha rule tenant host in
       if \<not> healthy then
         (if severity \<in> {Some ''HIGH'', Some ''CRITICAL''}
          then (Some (open_candidate rule gk host [ty] (ru_threshold rule) ty), r) else (None, r))
       else (let key = window_key rule gk;
                 r1 = expire now key (ru_window_seconds rule) (zadd now key ty now r);
                 tys = sort (remdups (zrangebyscore now key (now - seconds (ru_window_seconds rule)) now r1));
                 score = sum_list (map (type_weight rule) tys)
             in if score < ru_threshold rule then (None, r1)
                else (case set_nx now (lock_key rule gk) LOCK_TTL_SEC r1 of
                    (False, r2) \<Rightarrow> (None, r2)
                  | (True, r2) \<Rightarrow> (Some (open_candidate rule gk host tys score (heaviest rule tys)), r2)))))"

fun eval_rules ::
    "(string \<Rightarrow> string) \<Rightarrow> time \<Rightarrow> string \<Rightarrow> bool \<Rightarrow> correlation_rule list \<Rightarrow> string \<Rightarrow> string \<Rightarrow> string option \<Rightarrow> redis
     \<Rightarrow> candidate list \<times> redis" where
  "eval_rules sha now tenant healthy [] ty host severity r = ([], r)"
| "eval_rules sha now tenant healthy (rule # rules) ty host severity r =
    (case eval_rule sha now tenant healthy rule ty host severity r of
       (c, r1) \<Rightarrow> (case eval_rules sha now tenant healthy rules ty host severity r1 of
          (cs, r2) \<Rightarrow> ((case c of None \<Rightarrow> cs | Some x \<Rightarrow> x # cs), r2)))"

definition msg_tenant :: "signal_msg \<Rightarrow> string" where
  "msg_tenant m = (if text_or (sm_tenant m) = [] then ''default'' else text_or (sm_tenant m))"

text \<open>A message without a type matches no rule.\<close>

definition on_signal ::
    "(string \<Rightarrow> string) \<Rightarrow> time \<Rightarrow> correlation_rule list \<Rightarrow> signal_msg \<Rightarrow> redis \<Rightarrow> candidate list \<times> redis" where
  "on_signal sha now rules m r =
    (case sm_type m of
       None \<Rightarrow> ([], r)
     | Some ty \<Rightarrow> eval_rules sha now (msg_tenant m) (rd_up r) rules ty (text_or (sm_host m)) (sm_severity m) r)"

definition forget_type ::
    "(string \<Rightarrow> string) \<Rightarrow> time \<Rightarrow> string \<Rightarrow> string \<Rightarrow> string \<Rightarrow> correlation_rule \<Rightarrow> redis \<Rightarrow> redis" where
  "forget_type sha now tenant ty host rule r =
    (if has_type rule ty then zrem now (window_key rule (group_key sha rule tenant host)) ty r else r)"

definition on_signal_resolved ::
    "(string \<Rightarrow> string) \<Rightarrow> time \<Rightarrow> correlation_rule list \<Rightarrow> signal_msg \<Rightarrow> redis \<Rightarrow> redis" where
  "on_signal_resolved sha now rules m r =
    (case sm_type m of
       None \<Rightarrow> r
     | Some ty \<Rightarrow> fold (forget_type sha now (msg_tenant m) ty (text_or (sm_host m))) rules r)"

section \<open>The default rules and the validators\<close>

definition default_rules :: "(string \<times> (uuid \<Rightarrow> correlation_rule)) list" where
  "default_rules =
    [(''host_down'', \<lambda>i. \<lparr>ru_id = i, ru_tenant = ''default'', ru_window_seconds = 300, ru_group_by = [''host_id''],
        ru_conditions = [(''host.unreachable'', 100)], ru_threshold = 100, ru_incident_type = ''host_down'',
        ru_incident_severity = ''CRITICAL'', ru_suppressions = []\<rparr>),
     (''host_resource_exhaustion'', \<lambda>i. \<lparr>ru_id = i, ru_tenant = ''default'', ru_window_seconds = 300,
        ru_group_by = [''host_id''],
        ru_conditions = [(''cpu.high'', 30), (''memory.high'', 30), (''disk.usage.high'', 30)], ru_threshold = 50,
        ru_incident_type = ''host_resource_exhaustion'', ru_incident_severity = ''HIGH'', ru_suppressions = []\<rparr>)]"

definition exhaustion_rule :: "uuid \<Rightarrow> correlation_rule" where
  "exhaustion_rule i = snd (default_rules ! 1) i"

definition rule_accepted :: "correlation_rule \<Rightarrow> bool" where
  "rule_accepted rule =
    (30 \<le> ru_window_seconds rule \<and> ru_window_seconds rule \<le> 3600 \<and> ru_threshold rule > 0
     \<and> list_all (\<lambda>k. k = ''host_id'') (ru_group_by rule)
     \<and> list_all (\<lambda>w. window_points w \<noteq> None) (ru_suppressions rule)
     \<and> ru_conditions rule \<noteq> [] \<and> list_all (\<lambda>c. fst c \<noteq> [] \<and> snd c > 0) (ru_conditions rule))"

end
