(* ===== verification/CorrelationLaws.thy ===== *)
theory CorrelationLaws
  imports Correlation
begin

text \<open>
  What the correlation guarantees: a candidate counts only types that were really seen for its group inside
  its window, each once; suppression windows are intervals of a week that wraps; and where signals that an
  operator resolved or suppressed still count.
\<close>

section \<open>What the sorted sets record\<close>

definition recorded :: "redis \<Rightarrow> string \<Rightarrow> (string \<times> time) set" where
  "recorded r key = (case rd_zsets r key of None \<Rightarrow> {} | Some (ms, e) \<Rightarrow> set ms)"

lemma zset_recorded: "set (fst (zset now key r)) \<subseteq> recorded r key"
  by (auto simp: zset_def recorded_def split: option.splits if_splits)

lemma recorded_zadd: "recorded (zadd now key ty t r) k \<subseteq> (if k = key then insert (ty, t) (recorded r k) else recorded r k)"
  using zset_recorded [of now key r] by (auto simp: zadd_def recorded_def split: prod.splits)

lemma recorded_expire: "recorded (expire now key ttl r) k \<subseteq> recorded r k"
  using zset_recorded [of now key r] by (auto simp: expire_def recorded_def split: prod.splits)

lemma recorded_zrem: "recorded (zrem now key ty r) k \<subseteq> recorded r k"
  using zset_recorded [of now key r] by (auto simp: zrem_def recorded_def split: prod.splits)

lemma recorded_set_nx: "set_nx now key ttl r = (b, r') \<Longrightarrow> recorded r' = recorded r"
  by (auto simp: set_nx_def recorded_def fun_eq_iff split: if_splits option.splits)

lemma recorded_up [simp]: "recorded (r\<lparr>rd_up := b\<rparr>) = recorded r"
  by (simp add: recorded_def fun_eq_iff)

section \<open>Histories of messages\<close>

datatype pulse =
    Detect time bool "correlation_rule list" signal_msg
  | Resolve time bool "correlation_rule list" signal_msg

definition group_window :: "(string \<Rightarrow> string) \<Rightarrow> correlation_rule \<Rightarrow> signal_msg \<Rightarrow> string" where
  "group_window sha rule m = window_key rule (group_key sha rule (msg_tenant m) (text_or (sm_host m)))"

definition absorb :: "(string \<Rightarrow> string) \<Rightarrow> pulse \<Rightarrow> redis \<Rightarrow> redis" where
  "absorb sha p r =
    (case p of
       Detect now up rules m \<Rightarrow> snd (on_signal sha now rules m (r\<lparr>rd_up := up\<rparr>))
     | Resolve now up rules m \<Rightarrow> on_signal_resolved sha now rules m (r\<lparr>rd_up := up\<rparr>))"

text \<open>A detection of a type at a time that belongs to the sorted set of a key.\<close>

definition seen :: "(string \<Rightarrow> string) \<Rightarrow> pulse set \<Rightarrow> string \<Rightarrow> (string \<times> time) set" where
  "seen sha ps key = {(ty, t). \<exists>up rules m rule. Detect t up rules m \<in> ps \<and> sm_type m = Some ty
     \<and> rule \<in> set rules \<and> group_window sha rule m = key}"

lemma seen_insert: "seen sha (insert p ps) key = seen sha {p} key \<union> seen sha ps key"
  unfolding seen_def by blast

lemma seen_one: "sm_type m = Some ty \<Longrightarrow>
    seen sha {Detect now up rules m} key = (if \<exists>x \<in> set rules. key = group_window sha x m then {(ty, now)} else {})"
  by (auto simp: seen_def)

lemma seen_mono: "ps \<subseteq> qs \<Longrightarrow> seen sha ps key \<subseteq> seen sha qs key"
  by (auto simp: seen_def)

lemma eval_rule_recorded:
  assumes "eval_rule sha now (msg_tenant m) h rule ty (text_or (sm_host m)) sev r = (c, r')"
  shows "recorded r' k \<subseteq> recorded r k \<union> (if k = group_window sha rule m then {(ty, now)} else {})"
proof (cases "h \<and> has_type rule ty \<and> \<not> is_suppressed (ru_suppressions rule) now")
  case False
  with assms have "r' = r" by (auto simp: eval_rule_def Let_def split: if_splits)
  then show ?thesis by simp
next
  case True
  let ?key = "group_window sha rule m"
  let ?r1 = "expire now ?key (ru_window_seconds rule) (zadd now ?key ty now r)"
  have "recorded r' = recorded ?r1"
    using assms True recorded_set_nx
    by (auto simp: eval_rule_def Let_def group_window_def split: if_splits prod.splits bool.splits)
  with recorded_expire [of now ?key "ru_window_seconds rule" "zadd now ?key ty now r" k] recorded_zadd [of now ?key ty now r k]
  show ?thesis by (auto split: if_splits)
qed

lemma eval_rules_recorded:
  "eval_rules sha now (msg_tenant m) h rules ty (text_or (sm_host m)) sev r = (cs, r') \<Longrightarrow>
     recorded r' k \<subseteq> recorded r k \<union> (if \<exists>rule \<in> set rules. k = group_window sha rule m then {(ty, now)} else {})"
proof (induction rules arbitrary: r cs r')
  case Nil
  then show ?case by simp
next
  case (Cons rule rules)
  obtain c r1 where one: "eval_rule sha now (msg_tenant m) h rule ty (text_or (sm_host m)) sev r = (c, r1)" by fastforce
  obtain cs2 r2 where two: "eval_rules sha now (msg_tenant m) h rules ty (text_or (sm_host m)) sev r1 = (cs2, r2)" by fastforce
  from Cons.prems one two have "r' = r2" by simp
  with eval_rule_recorded [OF one, of k] Cons.IH [OF two] show ?case by (auto split: if_splits)
qed

lemma forget_types_recorded: "recorded (fold (forget_type sha now tenant ty host) rules r) k \<subseteq> recorded r k"
proof (induction rules arbitrary: r)
  case Nil
  then show ?case by simp
next
  case (Cons rule rules)
  have "recorded (forget_type sha now tenant ty host rule r) k \<subseteq> recorded r k"
    using recorded_zrem by (simp add: forget_type_def)
  with Cons [of "forget_type sha now tenant ty host rule r"] show ?case by auto
qed

lemma absorb_recorded: "recorded (absorb sha p r) k \<subseteq> recorded r k \<union> seen sha {p} k"
proof (cases p)
  case (Resolve now up rules m)
  then show ?thesis using forget_types_recorded
    by (fastforce simp: absorb_def on_signal_resolved_def split: option.splits)
next
  case (Detect now up rules m)
  show ?thesis
  proof (cases "sm_type m")
    case None
    with Detect show ?thesis by (simp add: absorb_def on_signal_def)
  next
    case (Some ty)
    obtain cs r' where "eval_rules sha now (msg_tenant m) up rules ty (text_or (sm_host m)) (sm_severity m) (r\<lparr>rd_up := up\<rparr>) = (cs, r')"
      by fastforce
    from eval_rules_recorded [OF this, of k] this Detect Some show ?thesis
      by (auto simp: absorb_def on_signal_def seen_def split: if_splits)
  qed
qed

lemma history_recorded:
  assumes "\<And>key. recorded r0 key = {}"
  shows "recorded (fold (absorb sha) ps r0) k \<subseteq> seen sha (set ps) k"
proof (induction ps rule: rev_induct)
  case Nil
  then show ?case by (simp add: assms)
next
  case (snoc p ps)
  from absorb_recorded [of sha p "fold (absorb sha) ps r0" k] snoc
    seen_mono [of "set ps" "set (ps @ [p])" sha k] seen_mono [of "{p}" "set (ps @ [p])" sha k]
  show ?case by auto
qed

section \<open>Candidates\<close>

lemma eval_rule_candidate:
  assumes "eval_rule sha now (msg_tenant m) h rule ty (text_or (sm_host m)) sev r = (Some c, r')" and "h = rd_up r"
  shows "ca_rule c = rule \<and> distinct (ca_types c) \<and> has_type rule ty \<and> \<not> is_suppressed (ru_suppressions rule) now
    \<and> (h \<longrightarrow> ca_score c = sum_list (map (type_weight rule) (ca_types c)) \<and> ru_threshold rule \<le> ca_score c)
    \<and> (\<not> h \<longrightarrow> ca_types c = [ty] \<and> sev \<in> {Some ''HIGH'', Some ''CRITICAL''})
    \<and> (\<forall>x \<in> set (ca_types c). (\<not> h \<and> x = ty) \<or>
        (\<exists>t. now - seconds (ru_window_seconds rule) \<le> t \<and> t \<le> now
           \<and> ((x, t) = (ty, now) \<or> (x, t) \<in> recorded r (group_window sha rule m))))"
proof (cases h)
  case False
  with assms show ?thesis
    by (auto simp: eval_rule_def Let_def open_candidate_def split: if_splits)
next
  case True
  let ?key = "group_window sha rule m"
  let ?r1 = "expire now ?key (ru_window_seconds rule) (zadd now ?key ty now r)"
  let ?lo = "now - seconds (ru_window_seconds rule)"
  let ?tys = "sort (remdups (zrangebyscore now ?key ?lo now ?r1))"
  from assms(1) True have guards: "has_type rule ty" "\<not> is_suppressed (ru_suppressions rule) now"
    by (auto simp: eval_rule_def split: if_splits)
  from assms(1) True guards have c: "ca_rule c = rule" "ca_types c = ?tys"
      "ca_score c = sum_list (map (type_weight rule) ?tys)" "ru_threshold rule \<le> ca_score c"
    by (auto simp: eval_rule_def Let_def open_candidate_def group_window_def split: if_splits prod.splits bool.splits)
  have "\<exists>t. ?lo \<le> t \<and> t \<le> now \<and> ((x, t) = (ty, now) \<or> (x, t) \<in> recorded r ?key)" if "x \<in> set (ca_types c)" for x
  proof -
    from that c(2) obtain t where t: "(x, t) \<in> set (fst (zset now ?key ?r1))" "?lo \<le> t" "t \<le> now"
      by (auto simp: zrangebyscore_iff)
    with zset_recorded [of now ?key ?r1] recorded_expire [of now ?key "ru_window_seconds rule" "zadd now ?key ty now r" ?key]
      recorded_zadd [of now ?key ty now r ?key] have "(x, t) \<in> insert (ty, now) (recorded r ?key)" by auto
    with t show ?thesis by blast
  qed
  with True guards c show ?thesis by simp
qed

lemma eval_rules_candidate:
  "eval_rules sha now (msg_tenant m) h rules ty (text_or (sm_host m)) sev r = (cs, r') \<Longrightarrow> c \<in> set cs \<Longrightarrow> h = rd_up r \<Longrightarrow>
     \<exists>rule \<in> set rules. \<exists>r1 r2. eval_rule sha now (msg_tenant m) h rule ty (text_or (sm_host m)) sev r1 = (Some c, r2)
       \<and> rd_up r1 = h
       \<and> (\<forall>k. recorded r1 k \<subseteq> recorded r k \<union> (if \<exists>x \<in> set rules. k = group_window sha x m then {(ty, now)} else {}))"
proof (induction rules arbitrary: r cs r')
  case Nil
  then show ?case by simp
next
  case (Cons rule rules)
  obtain d r1 where one: "eval_rule sha now (msg_tenant m) h rule ty (text_or (sm_host m)) sev r = (d, r1)" by fastforce
  obtain cs2 r2 where two: "eval_rules sha now (msg_tenant m) h rules ty (text_or (sm_host m)) sev r1 = (cs2, r2)" by fastforce
  have up: "rd_up r1 = rd_up r"
    using one by (auto simp: eval_rule_def Let_def set_nx_def expire_def zadd_def
        split: if_splits prod.splits bool.splits option.splits)
  show ?case
  proof (cases "d = Some c")
    case True
    with one Cons.prems(3) show ?thesis by auto
  next
    case False
    with Cons.prems one two have "c \<in> set cs2" by (auto split: option.splits)
    from Cons.IH [OF two this] Cons.prems(3) up obtain x ra rb where x: "x \<in> set rules"
      "eval_rule sha now (msg_tenant m) h x ty (text_or (sm_host m)) sev ra = (Some c, rb)" "rd_up ra = h"
      "\<forall>k. recorded ra k \<subseteq> recorded r1 k \<union> (if \<exists>x \<in> set rules. k = group_window sha x m then {(ty, now)} else {})" by auto
    have "recorded ra k \<subseteq> recorded r k \<union> (if \<exists>y \<in> set (rule # rules). k = group_window sha y m then {(ty, now)} else {})" for k
      using x(4) [rule_format, of k] eval_rule_recorded [OF one, of k] by (auto split: if_splits)
    with x show ?thesis by (meson list.set_intros(2))
  qed
qed


definition toy_signal :: "string \<Rightarrow> signal_msg" where
  "toy_signal ty = \<lparr>sm_tenant = None, sm_type = Some ty, sm_severity = Some ''HIGH'', sm_host = Some ''h'', sm_fingerprint = []\<rparr>"

definition toy_history :: "pulse list" where
  "toy_history = [Detect 1000000 True [exhaustion_rule ''e''] (toy_signal ''cpu.high'')]"

definition toy_fired :: "candidate list \<times> redis" where
  "toy_fired = on_signal (\<lambda>s. s) 9000000 [exhaustion_rule ''e''] (toy_signal ''memory.high'')
     ((fold (absorb (\<lambda>s. s)) toy_history empty_redis)\<lparr>rd_up := True\<rparr>)"

lemma toy_fired_types: "map ca_types (fst toy_fired) = [[''cpu.high'', ''memory.high'']]"
  by code_simp


text \<open>One busy metric is no incident: while the cache works, the default resource rule fires only when at least
  two of its three metrics have been seen.\<close>

theorem exhaustion_needs_two_metrics:
  assumes "on_signal sha now rules m r = (cs, r')" and "c \<in> set cs" and "rd_up r" and "ca_rule c = exhaustion_rule i"
  shows "2 \<le> card (set (ca_types c) \<inter> {''cpu.high'', ''memory.high'', ''disk.usage.high''})"
proof -
  let ?w = "type_weight (exhaustion_rule i)"
  let ?metrics = "{''cpu.high'', ''memory.high'', ''disk.usage.high''}"
  from assms(1,2) obtain ty where "eval_rules sha now (msg_tenant m) (rd_up r) rules ty (text_or (sm_host m)) (sm_severity m) r = (cs, r')"
    by (auto simp: on_signal_def split: option.splits)
  from eval_rules_candidate [OF this assms(2) refl] obtain rule ra rb
    where "eval_rule sha now (msg_tenant m) (rd_up r) rule ty (text_or (sm_host m)) (sm_severity m) ra = (Some c, rb)"
      and up: "rd_up ra = rd_up r" by blast
  note c = eval_rule_candidate [OF this(1) up [symmetric]]
  from c assms(3,4) have dist: "distinct (ca_types c)" and score: "ca_score c = sum_list (map ?w (ca_types c))"
    and "ru_threshold (exhaustion_rule i) \<le> ca_score c" by simp_all
  then have fifty: "50 \<le> sum_list (map ?w (ca_types c))" by (simp add: exhaustion_rule_def default_rules_def)
  have w: "?w x = (if x \<in> ?metrics then 30 else 0)" for x
    by (simp add: type_weight_def exhaustion_rule_def default_rules_def)
  have "sum_list (map ?w tys) = 30 * int (card (set tys \<inter> ?metrics))" if "distinct tys" for tys
    using that by (induction tys) (auto simp: w)
  from this [OF dist] fifty show ?thesis by simp
qed

theorem exhaustion_needs_two_metrics_witness:
  "\<exists>c \<in> set (fst toy_fired). 2 \<le> card (set (ca_types c) \<inter> {''cpu.high'', ''memory.high'', ''disk.usage.high''})"
proof -
  from toy_fired_types obtain c where c: "c \<in> set (fst toy_fired)" by auto
  have "map ca_rule (fst toy_fired) = [exhaustion_rule ''e'']" by code_simp
  with c have "ca_rule c = exhaustion_rule ''e''" by (cases "fst toy_fired") auto
  from exhaustion_needs_two_metrics [OF surjective_pairing [of "toy_fired", unfolded toy_fired_def] c [unfolded toy_fired_def] _ this] c
  show ?thesis by auto
qed

section \<open>Suppression windows\<close>

text \<open>A suppression window is an interval of the week that may wrap: with both points inside the week, it
  covers a moment exactly when going forward from its start one meets the moment no later than its end.\<close>

theorem suppression_window_is_cyclic:
  assumes "parse_point f = Some a" and "parse_point t = Some b"
    and "0 \<le> a" "a < 10080" and "0 \<le> b" "b < 10080"
  shows "is_suppressed [PDict [(''from'', f), (''to'', t)]] now =
    ((minute_of_week now - a) mod 10080 \<le> (b - a) mod 10080)"
proof -
  let ?m = "minute_of_week now"
  have m: "0 \<le> ?m" "?m < 10080" by (simp_all add: minute_of_week_def)
  have low: "(x - a) mod 10080 = (if a \<le> x then x - a else x - a + 10080)" if "0 \<le> x" "x < 10080" for x
  proof (cases "a \<le> x")
    case True
    with that assms(3) show ?thesis by (simp add: mod_pos_pos_trivial)
  next
    case False
    have "(x - a) mod 10080 = (x - a + 10080) mod 10080" by simp
    also have "\<dots> = x - a + 10080" using False that assms(4) by (intro mod_pos_pos_trivial) linarith+
    finally show ?thesis using False by simp
  qed
  have "is_suppressed [PDict [(''from'', f), (''to'', t)]] now = in_window ?m (a, b)"
    using assms(1,2) by (simp add: is_suppressed_def window_points_def)
  also have "\<dots> = ((?m - a) mod 10080 \<le> (b - a) mod 10080)"
    using m assms(3-6) by (auto simp: in_window_def low)
  finally show ?thesis .
qed

theorem suppression_window_is_cyclic_witness:
  "is_suppressed [PDict [(''from'', PStr ''Fri 22:00''), (''to'', PStr ''Mon 06:00'')]] now =
    ((minute_of_week now - 7080) mod 10080 \<le> (360 - 7080) mod 10080)"
proof -
  have "parse_point (PStr ''Fri 22:00'') = Some 7080" "parse_point (PStr ''Mon 06:00'') = Some 360" by code_simp+
  from suppression_window_is_cyclic [OF this] show ?thesis by simp
qed

section \<open>Signals closed by hand\<close>

text \<open>A signal resolved by hand keeps counting: the message its route publishes names neither type nor host,
  so the correlation forgets nothing when it receives it.\<close>

theorem hand_resolution_not_forgotten:
  assumes "resolve_signal i sigs = Inr (Signal_resolved m, sigs')"
  shows "on_signal_resolved sha now rules m r = r"
  using assms by (auto simp: resolve_signal_def on_signal_resolved_def split: option.splits if_splits)

text \<open>Suppressing a signal does not last: its next occurrence opens it again and is published, so it is
  correlated like any other.\<close>

theorem suppression_does_not_last:
  assumes "suppress_signal i sigs = Inr sigs'" and "sql_get sg_id sigs i = Some s"
    and "upsert_signal sha j now (sg_tenant s) dt sigs' = (row, sigs'')"
    and "fingerprint sha (sg_tenant s) (dt_host dt) (dt_type dt) (dt_resource dt) = sg_fingerprint s"
  shows "sg_status row = ''OPEN'' \<and> row \<in> set sigs''"
proof -
  from assms(1,2) have sigs': "sigs' = sql_modify sg_id i (\<lambda>s. s\<lparr>sg_status := ''SUPPRESSED''\<rparr>) sigs"
    by (auto simp: suppress_signal_def split: if_splits)
  from sql_get_SomeD [OF assms(2)] have s: "s \<in> set sigs" "sg_id s = i" by simp_all
  then have "s\<lparr>sg_status := ''SUPPRESSED''\<rparr> \<in> set sigs'"
    by (auto simp: sigs' sql_modify_def in_set_sql_update)
  then have "sg_key (s\<lparr>sg_status := ''SUPPRESSED''\<rparr>) \<in> sg_key ` set sigs'" by (rule imageI)
  then have "sql_get sg_key sigs' (sg_tenant s, sg_fingerprint s) \<noteq> None"
    unfolding sql_get_None_iff by (simp add: sg_key_def)
  then obtain x where x: "sql_get sg_key sigs' (sg_tenant s, sg_fingerprint s) = Some x" by blast
  with assms(3,4) have row: "row = occur now dt x"
    and sigs'': "sigs'' = sql_modify sg_key (sg_tenant s, sg_fingerprint s) (occur now dt) sigs'"
    by (auto simp: upsert_signal_def Let_def)
  from sql_get_SomeD [OF x] have "row \<in> set sigs''"
    by (auto simp: row sigs'' sql_modify_def in_set_sql_update)
  then show ?thesis by (simp add: row occur_def)
qed


definition toy_detected :: detected where
  "toy_detected = \<lparr>dt_type = ''cpu.high'', dt_severity = ''HIGH'', dt_host = None, dt_service = None, dt_resource = None,
     dt_value = 95, dt_metadata = []\<rparr>"

definition toy_cpu_signal :: signal where
  "toy_cpu_signal = new_signal ''s1'' 1 ''default'' (fingerprint (\<lambda>s. s) ''default'' None ''cpu.high'' None) toy_detected"

theorem hand_resolution_not_forgotten_witness:
  "on_signal_resolved (\<lambda>s. s) 5 [exhaustion_rule ''e'']
     \<lparr>sm_tenant = None, sm_type = None, sm_severity = None, sm_host = None, sm_fingerprint = ''default|cpu.high''\<rparr> (snd toy_fired)
   = snd toy_fired"
proof -
  have "resolve_signal ''s1'' [toy_cpu_signal] = Inr (Signal_resolved \<lparr>sm_tenant = None, sm_type = None,
      sm_severity = None, sm_host = None, sm_fingerprint = ''default|cpu.high''\<rparr>,
      [toy_cpu_signal\<lparr>sg_status := ''RESOLVED''\<rparr>])" by code_simp
  from hand_resolution_not_forgotten [OF this] show ?thesis .
qed

theorem suppression_does_not_last_witness:
  "sg_status (fst (upsert_signal (\<lambda>s. s) ''s2'' 9 ''default'' toy_detected [toy_cpu_signal\<lparr>sg_status := ''SUPPRESSED''\<rparr>]))
     = ''OPEN''"
proof -
  have "suppress_signal ''s1'' [toy_cpu_signal] = Inr [toy_cpu_signal\<lparr>sg_status := ''SUPPRESSED''\<rparr>]" by code_simp
  moreover have "sql_get sg_id [toy_cpu_signal] ''s1'' = Some toy_cpu_signal" by code_simp
  moreover have "sg_tenant toy_cpu_signal = ''default''" by code_simp
  moreover have "fingerprint (\<lambda>s. s) ''default'' (dt_host toy_detected) (dt_type toy_detected) (dt_resource toy_detected)
      = sg_fingerprint toy_cpu_signal" by code_simp
  ultimately show ?thesis
    using suppression_does_not_last [of "''s1''" "[toy_cpu_signal]" _ toy_cpu_signal "\<lambda>s. s" "''s2''" 9 toy_detected]
    by (metis prod.collapse)
qed

end
