(* ===== verification/Incidents.thy ===== *)
theory Incidents
  imports Alerts Correlation
begin

text \<open>
  Incidents (\<open>incidents/lifecycle.py\<close>, \<open>incidents/service.py\<close>, \<open>incidents/timeline.py\<close>): opening one from a
  candidate or attaching to the open one of its group, the transitions with the alert they close, the
  automatic resolution, and the sweep and the handlers of \<open>workers/incident_worker.py\<close>. The column that ties
  an alert to its incident is a list of pairs. Evidence in ClickHouse and the published events are left out;
  new row ids, SHA-256 and the clock are parameters. Each operation is one transaction.
\<close>

section \<open>Lifecycle\<close>

datatype incident_status = I_OPEN | I_ACKNOWLEDGED | I_IN_PROGRESS | I_RESOLVED | I_CLOSED

definition status_text :: "incident_status \<Rightarrow> string" where
  "status_text s = (case s of I_OPEN \<Rightarrow> ''OPEN'' | I_ACKNOWLEDGED \<Rightarrow> ''ACKNOWLEDGED'' | I_IN_PROGRESS \<Rightarrow> ''IN_PROGRESS''
     | I_RESOLVED \<Rightarrow> ''RESOLVED'' | I_CLOSED \<Rightarrow> ''CLOSED'')"

definition TRANSITIONS :: "incident_status \<Rightarrow> incident_status list" where
  "TRANSITIONS s = (case s of
      I_OPEN \<Rightarrow> [I_ACKNOWLEDGED, I_IN_PROGRESS, I_RESOLVED]
    | I_ACKNOWLEDGED \<Rightarrow> [I_IN_PROGRESS, I_RESOLVED]
    | I_IN_PROGRESS \<Rightarrow> [I_RESOLVED]
    | I_RESOLVED \<Rightarrow> [I_CLOSED, I_OPEN]
    | I_CLOSED \<Rightarrow> [])"

definition legal_transition :: "incident_status \<Rightarrow> incident_status \<Rightarrow> bool" where
  "legal_transition s t = (t \<in> set (TRANSITIONS s))"

definition assert_legal :: "incident_status \<Rightarrow> incident_status \<Rightarrow> exn option" where
  "assert_legal s t =
    (if legal_transition s t then None
     else Some (ValueError (''cannot transition incident '' @ status_text s @ '' -> '' @ status_text t)))"

interpretation incident_machine: status_machine legal_transition "\<lambda>s. s = I_CLOSED"
  by unfold_locales (simp add: legal_transition_def TRANSITIONS_def)

definition incident_open :: "incident_status \<Rightarrow> bool" where
  "incident_open s = (s \<in> {I_OPEN, I_ACKNOWLEDGED, I_IN_PROGRESS})"

section \<open>Rows\<close>

record incident =
  in_id :: uuid
  in_tenant :: string
  in_title :: string
  in_type :: string
  in_severity :: string
  in_status :: incident_status
  in_root_signal :: "uuid option"
  in_confidence :: rat
  in_group_key :: "string option"
  in_rule :: "uuid option"
  in_updated_at :: time
  in_resolved_at :: "time option"
  in_acknowledged_at :: "time option"

record timeline_entry =
  te_incident :: uuid
  te_kind :: string
  te_message :: string
  te_by :: "string option"

record obs =
  ob_db :: db
  ob_cache :: redis
  ob_signals :: "signal list"
  ob_incidents :: "incident list"
  ob_links :: "(uuid \<times> uuid) list"
  ob_timeline :: "timeline_entry list"
  ob_alert_incident :: "(uuid \<times> uuid) list"

definition add_entry :: "uuid \<Rightarrow> string \<Rightarrow> string \<Rightarrow> string option \<Rightarrow> obs \<Rightarrow> obs" where
  "add_entry i label msg who ob =
    ob\<lparr>ob_timeline := ob_timeline ob @ [\<lparr>te_incident = i, te_kind = label, te_message = msg, te_by = who\<rparr>]\<rparr>"

section \<open>Opening an incident\<close>

definition resolve_member_signals :: "(string \<Rightarrow> string) \<Rightarrow> candidate \<Rightarrow> string \<Rightarrow> obs \<Rightarrow> signal list" where
  "resolve_member_signals sha c tenant ob =
    (let host = (if ca_host c = [] then None else Some (ca_host c));
         match = (case safe_uuid host of
             Some u \<Rightarrow> (\<lambda>s. sg_host s = Some u \<and> sg_type s \<in> set (ca_types c))
           | None \<Rightarrow> (\<lambda>s. sg_fingerprint s \<in> set (map (\<lambda>t. fingerprint sha tenant host t None) (ca_types c))))
     in filter (\<lambda>s. sg_tenant s = tenant \<and> match s \<and> sg_status s \<noteq> ''RESOLVED'') (ob_signals ob))"

text \<open>Linking does nothing for a pair that is there already.\<close>

definition link_signal :: "uuid \<Rightarrow> signal \<Rightarrow> obs \<Rightarrow> obs" where
  "link_signal i s ob =
    (if (i, sg_id s) \<in> set (ob_links ob) then ob else ob\<lparr>ob_links := ob_links ob @ [(i, sg_id s)]\<rparr>)"

definition attach_to_existing :: "incident \<Rightarrow> candidate \<Rightarrow> signal list \<Rightarrow> obs \<Rightarrow> obs" where
  "attach_to_existing inc c sigs ob =
    add_entry (in_id inc) ''signal''
      (''additional signal: '' @ ca_root c @ '' (score '' @ show_int (ca_score c) @ '')'') None
      (fold (link_signal (in_id inc)) sigs ob)"

definition open_of_group :: "string \<Rightarrow> string \<Rightarrow> incident \<Rightarrow> bool" where
  "open_of_group tenant gk inc =
    (in_tenant inc = tenant \<and> in_group_key inc = Some gk \<and> incident_open (in_status inc))"

definition incident_confidence :: "candidate \<Rightarrow> rat" where
  "incident_confidence c =
    (let thr = ru_threshold (ca_rule c)
     in if thr = 0 then 0 else min 1 (of_int (ca_score c) / of_int thr))"

text \<open>\<open>str.title\<close> on the type with its underscores replaced.\<close>

fun title_case :: "bool \<Rightarrow> string \<Rightarrow> string" where
  "title_case start [] = []"
| "title_case start (c # cs) =
    (if is_lower c \<or> is_upper c then (if start then to_upper c else to_lower c) # title_case False cs
     else c # title_case True cs)"

definition incident_title :: "candidate \<Rightarrow> string" where
  "incident_title c =
    title_case True (map (\<lambda>x. if x = CHR ''_'' then CHR '' '' else x) (ru_incident_type (ca_rule c)))
      @ '': '' @ (if ca_host c = [] then ''fleet'' else ca_host c)"

definition root_signal :: "candidate \<Rightarrow> signal list \<Rightarrow> uuid option" where
  "root_signal c sigs =
    (case sql_first (\<lambda>s. sg_type s = ca_root c) sigs of
       Some s \<Rightarrow> Some (sg_id s)
     | None \<Rightarrow> (case sigs of [] \<Rightarrow> None | s # _ \<Rightarrow> Some (sg_id s)))"

definition new_incident :: "uuid \<Rightarrow> time \<Rightarrow> candidate \<Rightarrow> string \<Rightarrow> signal list \<Rightarrow> incident" where
  "new_incident i now c tenant sigs =
    \<lparr>in_id = i, in_tenant = tenant, in_title = incident_title c, in_type = ru_incident_type (ca_rule c),
     in_severity = ru_incident_severity (ca_rule c), in_status = I_OPEN, in_root_signal = root_signal c sigs,
     in_confidence = incident_confidence c, in_group_key = Some (ca_group_key c), in_rule = Some (ru_id (ca_rule c)),
     in_updated_at = now, in_resolved_at = None, in_acknowledged_at = None\<rparr>"

text \<open>The alert of a new incident; the insertion of one that is active already does nothing.\<close>

definition raise_alert :: "uuid \<Rightarrow> uuid \<Rightarrow> candidate \<Rightarrow> signal list \<Rightarrow> obs \<Rightarrow> exn + obs" where
  "raise_alert i alert_id c sigs ob =
    (case create_alert alert_id (''Incident: '' @ incident_title c)
         (''Correlated incident opened from '' @ show_nat (length sigs) @ '' signal(s)'')
         (ru_incident_severity (ca_rule c))
         (safe_uuid (Some (if ca_host c = [] then ''fleet'' else ca_host c)))
         (Some (map to_upper (ru_incident_type (ca_rule c)))) (ob_db ob) of
       Inl e \<Rightarrow> Inl e
     | Inr (None, d) \<Rightarrow> Inr (ob\<lparr>ob_db := d\<rparr>)
     | Inr (Some al, d) \<Rightarrow> Inr (ob\<lparr>ob_db := d, ob_alert_incident := ob_alert_incident ob @ [(al_id al, i)]\<rparr>))"

text \<open>The insertion after the search found nothing. The partial unique index refuses it when another
  transaction has opened the group meanwhile; then the winner is attached to.\<close>

definition insert_incident ::
    "time \<Rightarrow> uuid \<Rightarrow> uuid \<Rightarrow> candidate \<Rightarrow> string \<Rightarrow> signal list \<Rightarrow> obs \<Rightarrow> exn + obs" where
  "insert_incident now i alert_id c tenant sigs ob =
    (case filter (open_of_group tenant (ca_group_key c)) (ob_incidents ob) of
       winner # _ \<Rightarrow> Inr (attach_to_existing winner c sigs ob)
     | [] \<Rightarrow>
        (let ob1 = ob\<lparr>ob_incidents := ob_incidents ob @ [new_incident i now c tenant sigs],
                     ob_links := ob_links ob @ map (\<lambda>s. (i, sg_id s)) sigs\<rparr>;
             ob2 = add_entry i ''created''
               (''opened from '' @ ru_incident_type (ca_rule c) @ '' (score '' @ show_int (ca_score c) @ '')'') None ob1;
             ob3 = fold (\<lambda>s. add_entry i ''signal'' (''contributing signal: '' @ sg_type s) None) sigs ob2
         in raise_alert i alert_id c sigs ob3))"

definition open_from_candidate ::
    "(string \<Rightarrow> string) \<Rightarrow> time \<Rightarrow> uuid \<Rightarrow> uuid \<Rightarrow> candidate \<Rightarrow> string \<Rightarrow> obs \<Rightarrow> exn + obs" where
  "open_from_candidate sha now i alert_id c tenant ob =
    (let ob0 = ob\<lparr>ob_cache := snd (set_nx now (''lock:inc:'' @ ca_group_key c) 10 (ob_cache ob))\<rparr>;
         sigs = resolve_member_signals sha c tenant ob0
     in sum_bind (sql_one (open_of_group tenant (ca_group_key c)) (ob_incidents ob0)) (\<lambda>existing.
          case existing of
            Some inc \<Rightarrow> Inr (attach_to_existing inc c sigs ob0)
          | None \<Rightarrow> insert_incident now i alert_id c tenant sigs ob0))"

section \<open>Transitions\<close>

definition move_incident :: "time \<Rightarrow> incident_status \<Rightarrow> incident \<Rightarrow> incident" where
  "move_incident now target inc =
    inc\<lparr>in_status := target, in_updated_at := now,
        in_acknowledged_at := (if target = I_ACKNOWLEDGED then Some now else in_acknowledged_at inc),
        in_resolved_at := (if target = I_RESOLVED then Some now else if target = I_OPEN then None
                           else in_resolved_at inc)\<rparr>"

definition resolve_alerts_of :: "time \<Rightarrow> uuid \<Rightarrow> obs \<Rightarrow> obs" where
  "resolve_alerts_of now i ob =
    ob\<lparr>ob_db := (ob_db ob)\<lparr>alerts := sql_update
        (\<lambda>al. map_of (ob_alert_incident ob) (al_id al) = Some i \<and> al_status al \<noteq> ''RESOLVED'')
        (\<lambda>al. al\<lparr>al_status := ''RESOLVED'', al_resolved_at := Some now\<rparr>) (alerts (ob_db ob))\<rparr>\<rparr>"

text \<open>A reopening that would give a group a second open incident is refused by the unique index.\<close>

definition transition_incident :: "time \<Rightarrow> uuid \<Rightarrow> incident_status \<Rightarrow> string option \<Rightarrow> obs \<Rightarrow> exn + obs" where
  "transition_incident now i target actor ob =
    (case sql_get in_id (ob_incidents ob) i of
       None \<Rightarrow> Inl (ValueError (''incident '' @ i @ '' not found''))
     | Some inc \<Rightarrow>
        (case assert_legal (in_status inc) target of
           Some e \<Rightarrow> Inl e
         | None \<Rightarrow>
            if incident_open target
               \<and> list_ex (\<lambda>x. in_id x \<noteq> i \<and> (\<exists>gk \<in> set_option (in_group_key inc). open_of_group (in_tenant inc) gk x))
                   (ob_incidents ob)
            then Inl (DatabaseError ''uq_incident_open_group'')
            else (let ob1 = ob\<lparr>ob_incidents := sql_modify in_id i (move_incident now target) (ob_incidents ob)\<rparr>;
                      ob2 = (if target = I_RESOLVED then resolve_alerts_of now i ob1 else ob1)
                  in Inr (add_entry i (if target = I_OPEN then ''REOPENED'' else ''transition'') (status_text target)
                       (if actor = Some [] then None else actor) ob2))))"

definition ack_incident :: "time \<Rightarrow> uuid \<Rightarrow> string option \<Rightarrow> obs \<Rightarrow> exn + obs" where
  "ack_incident now i actor ob = transition_incident now i I_ACKNOWLEDGED actor ob"

definition resolve_incident :: "time \<Rightarrow> uuid \<Rightarrow> string option \<Rightarrow> obs \<Rightarrow> exn + obs" where
  "resolve_incident now i actor ob = transition_incident now i I_RESOLVED actor ob"

definition reopen_incident :: "time \<Rightarrow> uuid \<Rightarrow> string option \<Rightarrow> obs \<Rightarrow> exn + obs" where
  "reopen_incident now i actor ob = transition_incident now i I_OPEN actor ob"

section \<open>Automatic resolution\<close>

definition INCIDENT_AUTO_RESOLVE_QUIET_SEC :: int where "INCIDENT_AUTO_RESOLVE_QUIET_SEC = 600"

definition linked_signals :: "uuid \<Rightarrow> obs \<Rightarrow> signal list" where
  "linked_signals i ob = filter (\<lambda>s. (i, sg_id s) \<in> set (ob_links ob)) (ob_signals ob)"

definition signal_quiet :: "time \<Rightarrow> signal \<Rightarrow> bool" where
  "signal_quiet now s =
    (sg_status s \<in> {''RESOLVED'', ''SUPPRESSED''} \<and> now - sg_last_seen s \<ge> seconds INCIDENT_AUTO_RESOLVE_QUIET_SEC)"

definition maybe_auto_resolve :: "time \<Rightarrow> uuid \<Rightarrow> obs \<Rightarrow> exn + (bool \<times> obs)" where
  "maybe_auto_resolve now i ob =
    (case sql_get in_id (ob_incidents ob) i of
       None \<Rightarrow> Inl (ValueError (''incident '' @ i @ '' not found''))
     | Some inc \<Rightarrow>
        if in_status inc \<in> {I_RESOLVED, I_CLOSED} then Inr (False, ob)
        else if \<not> list_ex (\<lambda>l. fst l = i) (ob_links ob) then Inr (False, ob)
        else if \<not> list_all (signal_quiet now) (linked_signals i ob) then Inr (False, ob)
        else sum_bind (transition_incident now i I_RESOLVED None ob) (\<lambda>ob'.
          Inr (True, add_entry i ''note'' ''auto-resolved: all linked signals quiet'' None ob')))"

definition SWEEP_BATCH :: nat where "SWEEP_BATCH = 1000"

definition sweep_ids :: "obs \<Rightarrow> uuid list" where
  "sweep_ids ob = take SWEEP_BATCH
    (map in_id (sort_key in_updated_at (filter (\<lambda>x. incident_open (in_status x)) (ob_incidents ob))))"

text \<open>A failure is logged, rolled back and does not stop the sweep.\<close>

definition try_auto_resolve :: "time \<Rightarrow> uuid \<Rightarrow> obs \<Rightarrow> obs" where
  "try_auto_resolve now i ob = (case maybe_auto_resolve now i ob of Inl e \<Rightarrow> ob | Inr (b, ob') \<Rightarrow> ob')"

definition incident_sweep :: "time \<Rightarrow> obs \<Rightarrow> obs" where
  "incident_sweep now ob = fold (try_auto_resolve now) (sweep_ids ob) ob"

text \<open>The watcher of resolved signals stops at the first failure.\<close>

fun auto_resolve_all :: "time \<Rightarrow> uuid list \<Rightarrow> obs \<Rightarrow> obs" where
  "auto_resolve_all now [] ob = ob"
| "auto_resolve_all now (i # is) ob =
    (case maybe_auto_resolve now i ob of Inl e \<Rightarrow> ob | Inr (b, ob') \<Rightarrow> auto_resolve_all now is ob')"

definition handle_signal_resolved :: "time \<Rightarrow> string \<Rightarrow> obs \<Rightarrow> obs" where
  "handle_signal_resolved now fp ob =
    (if fp = [] then ob
     else (case sql_one (\<lambda>s. sg_fingerprint s = fp) (ob_signals ob) of
         Inr (Some s) \<Rightarrow> auto_resolve_all now (map fst (filter (\<lambda>l. snd l = sg_id s) (ob_links ob))) ob
       | _ \<Rightarrow> ob))"

section \<open>The correlation worker\<close>

text \<open>The first candidate that fails ends the message; what was committed before stays.\<close>

fun open_all ::
    "(string \<Rightarrow> string) \<Rightarrow> time \<Rightarrow> (obs \<Rightarrow> uuid) \<Rightarrow> (obs \<Rightarrow> uuid) \<Rightarrow> candidate list \<Rightarrow> obs \<Rightarrow> obs" where
  "open_all sha now ids aids [] ob = ob"
| "open_all sha now ids aids (c # cs) ob =
    (case open_from_candidate sha now (ids ob) (aids ob) c (ru_tenant (ca_rule c)) ob of
       Inl e \<Rightarrow> ob\<lparr>ob_cache := snd (set_nx now (''lock:inc:'' @ ca_group_key c) 10 (ob_cache ob))\<rparr>
     | Inr ob' \<Rightarrow> open_all sha now ids aids cs ob')"

definition handle_signal ::
    "(string \<Rightarrow> string) \<Rightarrow> time \<Rightarrow> (obs \<Rightarrow> uuid) \<Rightarrow> (obs \<Rightarrow> uuid) \<Rightarrow> correlation_rule list \<Rightarrow> signal_msg \<Rightarrow> obs \<Rightarrow> obs" where
  "handle_signal sha now ids aids rules m ob =
    (case on_signal sha now rules m (ob_cache ob) of
       (cs, r) \<Rightarrow> open_all sha now ids aids cs (ob\<lparr>ob_cache := r\<rparr>))"

definition handle_resolved ::
    "(string \<Rightarrow> string) \<Rightarrow> time \<Rightarrow> correlation_rule list \<Rightarrow> signal_msg \<Rightarrow> obs \<Rightarrow> obs" where
  "handle_resolved sha now rules m ob = ob\<lparr>ob_cache := on_signal_resolved sha now rules m (ob_cache ob)\<rparr>"

text \<open>The signal worker on one event.\<close>

definition observe ::
    "(string \<Rightarrow> string) \<Rightarrow> (signal list \<Rightarrow> uuid) \<Rightarrow> time \<Rightarrow> event \<Rightarrow> obs \<Rightarrow> signal_event list \<times> obs" where
  "observe sha ids now ev ob =
    (case process_event sha ids now ev (ob_cache ob) (ob_signals ob) of
       (out, r, sigs) \<Rightarrow> (out, ob\<lparr>ob_cache := r, ob_signals := sigs\<rparr>))"

end
