(* ===== verification/IncidentLaws.thy ===== *)
theory IncidentLaws
  imports Incidents
begin

text \<open>
  What the incidents guarantee, whatever the order of signals, messages, sweeps and operators: one open
  incident for a group, and only the transitions of the lifecycle; what the automatic resolution does; and
  that signals stay deduplicated.
\<close>

section \<open>What an operation does to the incidents\<close>

definition group_slot :: "incident \<Rightarrow> string \<times> string option" where
  "group_slot x = (in_tenant x, in_group_key x)"

definition holds_slot :: "incident \<Rightarrow> bool" where
  "holds_slot x = (incident_open (in_status x) \<and> in_group_key x \<noteq> None)"

definition incidents_ok :: "incident list \<Rightarrow> bool" where
  "incidents_ok xs =
    (distinct (map in_id xs) \<and> distinct (map group_slot (filter holds_slot xs))
     \<and> (\<forall>x \<in> set xs. (in_status x = I_RESOLVED \<longrightarrow> in_resolved_at x \<noteq> None)
          \<and> (in_status x = I_OPEN \<longrightarrow> in_resolved_at x = None)))"

text \<open>What never changes in an incident.\<close>

definition incident_core :: "incident \<Rightarrow> incident" where
  "incident_core x = x\<lparr>in_status := I_OPEN, in_updated_at := 0, in_resolved_at := None, in_acknowledged_at := None\<rparr>"

definition incident_evolves :: "incident \<Rightarrow> incident \<Rightarrow> bool" where
  "incident_evolves x y = (incident_core y = incident_core x \<and> legal_transition\<^sup>*\<^sup>* (in_status x) (in_status y))"

definition incidents_evolve :: "incident list \<Rightarrow> incident list \<Rightarrow> bool" where
  "incidents_evolve xs ys = (\<forall>x \<in> set xs. \<exists>y \<in> set ys. incident_evolves x y)"

lemma incident_core_fields:
  assumes "incident_core y = incident_core x"
  shows "in_id y = in_id x" "in_tenant y = in_tenant x" "in_group_key y = in_group_key x" "in_type y = in_type x"
    "in_severity y = in_severity x" "in_root_signal y = in_root_signal x"
  using assms by (cases x; cases y; simp add: incident_core_def)+

lemma incident_core_move [simp]: "incident_core (move_incident now t x) = incident_core x"
  by (simp add: incident_core_def move_incident_def)

lemma incident_evolves_refl [simp]: "incident_evolves x x"
  by (simp add: incident_evolves_def)

lemma incident_evolves_trans: "incident_evolves x y \<Longrightarrow> incident_evolves y z \<Longrightarrow> incident_evolves x z"
  by (auto simp: incident_evolves_def)

lemma incidents_evolve_refl [simp]: "incidents_evolve xs xs"
  using incident_evolves_refl unfolding incidents_evolve_def by blast

lemma incidents_evolveD: "incidents_evolve xs ys \<Longrightarrow> x \<in> set xs \<Longrightarrow> \<exists>y \<in> set ys. incident_evolves x y"
  by (simp add: incidents_evolve_def)

lemma incidents_evolve_trans:
  assumes "incidents_evolve xs ys" and "incidents_evolve ys zs"
  shows "incidents_evolve xs zs"
  unfolding incidents_evolve_def
proof
  fix x
  assume "x \<in> set xs"
  with incidents_evolveD [OF assms(1)] obtain y where "y \<in> set ys" "incident_evolves x y" by blast
  with incidents_evolveD [OF assms(2)] obtain z where "z \<in> set zs" "incident_evolves y z" by blast
  with \<open>incident_evolves x y\<close> incident_evolves_trans show "\<exists>z \<in> set zs. incident_evolves x z" by blast
qed

text \<open>An operation on the incidents that keeps what they promise.\<close>

definition good_change :: "incident list \<Rightarrow> incident list \<Rightarrow> bool" where
  "good_change xs ys = (incidents_ok xs \<longrightarrow> incidents_ok ys \<and> incidents_evolve xs ys)"

lemma good_change_refl [simp]: "good_change xs xs"
  by (simp add: good_change_def)

lemma good_change_trans: "good_change xs ys \<Longrightarrow> good_change ys zs \<Longrightarrow> good_change xs zs"
  using incidents_evolve_trans by (auto simp: good_change_def)

lemma good_change_append:
  assumes "in_id x \<notin> in_id ` set xs" and "in_status x = I_OPEN" and "in_resolved_at x = None"
    and "\<forall>y \<in> set xs. holds_slot y \<longrightarrow> holds_slot x \<longrightarrow> group_slot y \<noteq> group_slot x"
  shows "good_change xs (xs @ [x])"
  using assms by (auto simp: good_change_def incidents_ok_def incidents_evolve_def) (metis imageI incident_evolves_refl)+

lemma sql_modify_single:
  assumes "distinct (map key xs)" and "x \<in> set xs"
  shows "\<exists>as bs. xs = as @ x # bs \<and> sql_modify key (key x) f xs = as @ f x # bs"
proof -
  from assms(2) obtain as bs where xs: "xs = as @ x # bs" by (auto simp: in_set_conv_decomp)
  have "sql_modify key (key x) f ys = ys" if "\<forall>y \<in> set ys. key y \<noteq> key x" for ys
    using that by (induction ys) (auto simp: sql_modify_def)
  moreover have "\<forall>y \<in> set as. key y \<noteq> key x" "\<forall>y \<in> set bs. key y \<noteq> key x"
    using assms(1) by (auto simp: xs) (metis imageI)+
  ultimately have "sql_modify key (key x) f xs = as @ f x # bs"
    by (simp add: xs sql_modify_def sql_update_def)
  with xs show ?thesis by blast
qed

lemma good_change_move:
  assumes get: "sql_get in_id xs i = Some x" and legal: "legal_transition (in_status x) t"
    and slot: "incident_open t \<Longrightarrow> in_group_key x \<noteq> None \<Longrightarrow>
      \<forall>y \<in> set xs. in_id y \<noteq> i \<longrightarrow> holds_slot y \<longrightarrow> group_slot y \<noteq> group_slot x"
  shows "good_change xs (sql_modify in_id i (move_incident now t) xs)"
  unfolding good_change_def
proof
  assume ok: "incidents_ok xs"
  from sql_get_SomeD [OF get] have x: "x \<in> set xs" "in_id x = i" by simp_all
  from ok have "distinct (map in_id xs)" by (simp add: incidents_ok_def)
  from sql_modify_single [OF this x(1), of "move_incident now t", unfolded x(2)]
  obtain as bs where xs: "xs = as @ x # bs"
    and ys: "sql_modify in_id i (move_incident now t) xs = as @ move_incident now t x # bs" by blast
  let ?y = "move_incident now t x"
  have core: "in_id ?y = in_id x" "group_slot ?y = group_slot x" "in_group_key ?y = in_group_key x"
    by (simp_all add: move_incident_def group_slot_def)
  have status: "in_status ?y = t" by (simp add: move_incident_def)
  have others: "in_id y \<noteq> i" if "y \<in> set as \<union> set bs" for y
    using ok x(2) that by (auto simp: incidents_ok_def xs image_iff)
  have "distinct (map group_slot (filter holds_slot (as @ ?y # bs)))"
  proof (cases "holds_slot ?y")
    case False
    with ok show ?thesis by (auto simp: incidents_ok_def xs split: if_splits)
  next
    case True
    then have "incident_open t" "in_group_key x \<noteq> None" by (simp_all add: holds_slot_def status core)
    with slot others have "\<forall>y \<in> set as \<union> set bs. holds_slot y \<longrightarrow> group_slot y \<noteq> group_slot x"
      by (auto simp: xs)
    with True ok show ?thesis by (auto simp: incidents_ok_def xs core image_iff split: if_splits)
  qed
  moreover have "distinct (map in_id (as @ ?y # bs))" using ok by (simp add: incidents_ok_def xs core)
  moreover have "(in_status ?y = I_RESOLVED \<longrightarrow> in_resolved_at ?y \<noteq> None) \<and> (in_status ?y = I_OPEN \<longrightarrow> in_resolved_at ?y = None)"
    by (simp add: move_incident_def)
  ultimately have "incidents_ok (as @ ?y # bs)" using ok by (auto simp: incidents_ok_def xs)
  moreover have "incident_evolves x ?y" using legal by (auto simp: incident_evolves_def status)
  then have "incidents_evolve xs (as @ ?y # bs)"
    unfolding incidents_evolve_def xs by (simp, blast intro: incident_evolves_refl)
  ultimately show "incidents_ok (sql_modify in_id i (move_incident now t) xs)
      \<and> incidents_evolve xs (sql_modify in_id i (move_incident now t) xs)" by (simp add: ys)
qed

section \<open>The operations\<close>

lemma incidents_frame [simp]:
  "ob_incidents (add_entry i l m w ob) = ob_incidents ob"
  "ob_incidents (link_signal i s ob) = ob_incidents ob"
  "ob_incidents (resolve_alerts_of now i ob) = ob_incidents ob"
  by (simp_all add: add_entry_def link_signal_def resolve_alerts_of_def)

lemma incidents_fold_links [simp]: "ob_incidents (fold (link_signal i) ss ob) = ob_incidents ob"
  by (induction ss arbitrary: ob) simp_all

lemma incidents_fold_entries [simp]: "ob_incidents (fold (\<lambda>s. add_entry i l (m s) w) ss ob) = ob_incidents ob"
  by (induction ss arbitrary: ob) simp_all

lemma incidents_attach [simp]: "ob_incidents (attach_to_existing inc c ss ob) = ob_incidents ob"
  by (simp add: attach_to_existing_def)

lemma incidents_raise: "raise_alert i a c ss ob = Inr ob' \<Longrightarrow> ob_incidents ob' = ob_incidents ob"
  by (auto simp: raise_alert_def split: sum.splits prod.splits option.splits)

lemma insert_incident_good:
  assumes "insert_incident now i a c tenant ss ob = Inr ob'" and "i \<notin> in_id ` set (ob_incidents ob)"
  shows "good_change (ob_incidents ob) (ob_incidents ob')"
proof (cases "filter (open_of_group tenant (ca_group_key c)) (ob_incidents ob)")
  case (Cons w ws)
  with assms(1) have "ob' = attach_to_existing w c ss ob" by (simp add: insert_incident_def)
  then show ?thesis by simp
next
  case Nil
  from assms(1) Nil have "ob_incidents ob' = ob_incidents ob @ [new_incident i now c tenant ss]"
    by (auto simp: insert_incident_def Let_def dest!: incidents_raise)
  moreover have "good_change (ob_incidents ob) (ob_incidents ob @ [new_incident i now c tenant ss])"
    using assms(2) Nil
    by (intro good_change_append) (auto simp: new_incident_def filter_empty_conv open_of_group_def holds_slot_def group_slot_def)
  ultimately show ?thesis by simp
qed

lemma open_from_candidate_good:
  assumes "open_from_candidate sha now i a c tenant ob = Inr ob'" and "i \<notin> in_id ` set (ob_incidents ob)"
  shows "good_change (ob_incidents ob) (ob_incidents ob')"
  using assms insert_incident_good
  by (fastforce simp: open_from_candidate_def Let_def sum_bind_Inr_iff split: option.splits)

lemma transition_incident_good:
  assumes "transition_incident now i t actor ob = Inr ob'"
  shows "good_change (ob_incidents ob) (ob_incidents ob')"
proof -
  from assms obtain x where get: "sql_get in_id (ob_incidents ob) i = Some x" and legal: "legal_transition (in_status x) t"
    and free: "\<not> (incident_open t
               \<and> list_ex (\<lambda>y. in_id y \<noteq> i \<and> (\<exists>gk \<in> set_option (in_group_key x). open_of_group (in_tenant x) gk y))
                   (ob_incidents ob))"
    and ob': "ob_incidents ob' = sql_modify in_id i (move_incident now t) (ob_incidents ob)"
    by (auto simp: transition_incident_def Let_def assert_legal_def split: option.splits if_splits)
  show ?thesis unfolding ob'
    by (rule good_change_move [OF get legal])
      (use free in \<open>auto simp: list_ex_iff open_of_group_def holds_slot_def group_slot_def\<close>)
qed

lemma maybe_auto_resolve_good:
  "maybe_auto_resolve now i ob = Inr (b, ob') \<Longrightarrow> good_change (ob_incidents ob) (ob_incidents ob')"
  using transition_incident_good
  by (fastforce simp: maybe_auto_resolve_def sum_bind_Inr_iff split: option.splits if_splits)

lemma incident_sweep_good: "good_change (ob_incidents ob) (ob_incidents (incident_sweep now ob))"
proof -
  have "good_change (ob_incidents ob) (ob_incidents (fold (try_auto_resolve now) is ob))" for "is"
  proof (induction "is" arbitrary: ob)
    case Nil
    then show ?case by simp
  next
    case (Cons i "is")
    have "good_change (ob_incidents ob) (ob_incidents (try_auto_resolve now i ob))"
      using maybe_auto_resolve_good by (auto simp: try_auto_resolve_def split: sum.splits)
    from good_change_trans [OF this Cons] show ?case by simp
  qed
  then show ?thesis by (simp add: incident_sweep_def)
qed

lemma auto_resolve_all_good: "good_change (ob_incidents ob) (ob_incidents (auto_resolve_all now is ob))"
proof (induction "is" arbitrary: ob)
  case Nil
  then show ?case by simp
next
  case (Cons i "is")
  then show ?case using maybe_auto_resolve_good good_change_trans by (fastforce split: sum.splits prod.splits)
qed

lemma handle_signal_resolved_good: "good_change (ob_incidents ob) (ob_incidents (handle_signal_resolved now fp ob))"
  by (auto simp: handle_signal_resolved_def auto_resolve_all_good split: sum.splits option.splits)

lemma open_all_good:
  assumes "\<And>ob. ids ob \<notin> in_id ` set (ob_incidents ob)"
  shows "good_change (ob_incidents ob) (ob_incidents (open_all sha now ids aids cs ob))"
proof (induction cs arbitrary: ob)
  case Nil
  then show ?case by simp
next
  case (Cons c cs)
  then show ?case
    using open_from_candidate_good [OF _ assms] good_change_trans by (fastforce split: sum.splits)
qed

section \<open>Reachable states\<close>

text \<open>Identifiers of new incidents are new; the late insertion is the one of a transaction whose search came
  before another transaction's commit; the environment may change everything but the incidents.\<close>

inductive obs_step :: "(string \<Rightarrow> string) \<Rightarrow> obs \<Rightarrow> obs \<Rightarrow> bool" for sha where
  observe: "observe sha sids now ev ob = (out, ob') \<Longrightarrow> obs_step sha ob ob'"
| detect: "(\<And>ob. ids ob \<notin> in_id ` set (ob_incidents ob)) \<Longrightarrow> obs_step sha ob (handle_signal sha now ids aids rules m ob)"
| forget: "obs_step sha ob (handle_resolved sha now rules m ob)"
| watch: "obs_step sha ob (handle_signal_resolved now fp ob)"
| sweep: "obs_step sha ob (incident_sweep now ob)"
| act: "transition_incident now i t actor ob = Inr ob' \<Longrightarrow> t \<in> {I_ACKNOWLEDGED, I_RESOLVED, I_OPEN} \<Longrightarrow> obs_step sha ob ob'"
| late: "i \<notin> in_id ` set (ob_incidents ob) \<Longrightarrow> insert_incident now i a c tenant ss ob = Inr ob' \<Longrightarrow> obs_step sha ob ob'"
| environment: "ob_incidents ob' = ob_incidents ob \<Longrightarrow> obs_step sha ob ob'"

lemma obs_step_good: "obs_step sha ob ob' \<Longrightarrow> good_change (ob_incidents ob) (ob_incidents ob')"
proof (induction rule: obs_step.induct)
  case (observe sids now ev ob out ob')
  then have "ob_incidents ob' = ob_incidents ob" by (auto simp: Incidents.observe_def split: prod.splits)
  then show ?case by simp
next
  case (detect ids ob now aids rules m)
  obtain cs r where "on_signal sha now rules m (ob_cache ob) = (cs, r)" by fastforce
  with open_all_good [OF detect, of "ob\<lparr>ob_cache := r\<rparr>"] show ?case by (simp add: handle_signal_def)
qed (simp_all add: handle_resolved_def handle_signal_resolved_good incident_sweep_good transition_incident_good insert_incident_good)

lemma obs_reach_good: "(obs_step sha)\<^sup>*\<^sup>* ob ob' \<Longrightarrow> good_change (ob_incidents ob) (ob_incidents ob')"
  by (induction rule: rtranclp_induct) (auto intro: good_change_trans obs_step_good)

section \<open>One open incident for a group\<close>

lemma incidents_ok_reachable:
  assumes "(obs_step sha)\<^sup>*\<^sup>* ob ob'" and "ob_incidents ob = []"
  shows "incidents_ok (ob_incidents ob')"
proof -
  have "incidents_ok (ob_incidents ob)" by (simp add: assms(2) incidents_ok_def)
  with obs_reach_good [OF assms(1)] show ?thesis by (simp add: good_change_def)
qed

lemma incidents_ok_slot_unique:
  assumes "incidents_ok xs" and "x \<in> set xs" "y \<in> set xs" and "holds_slot x" "holds_slot y"
    and "group_slot x = group_slot y"
  shows "x = y"
  using assms inj_onD [of group_slot "set (filter holds_slot xs)" x y] by (simp add: incidents_ok_def distinct_map)

section \<open>The occupied groups\<close>

text \<open>What the incidents table is for the correlation: which incident holds which group.\<close>

definition slots :: "incident list \<Rightarrow> string \<times> string option \<Rightarrow> uuid option" where
  "slots xs k = map_option in_id (sql_first (\<lambda>x. holds_slot x \<and> group_slot x = k) xs)"

lemma option_eqI: "(\<And>j. a = Some j \<longleftrightarrow> b = Some j) \<Longrightarrow> a = b"
  by (cases a; cases b) auto

lemma slots_iff:
  assumes "incidents_ok xs"
  shows "slots xs k = Some i \<longleftrightarrow> (\<exists>x \<in> set xs. holds_slot x \<and> group_slot x = k \<and> in_id x = i)"
proof
  assume "slots xs k = Some i"
  then show "\<exists>x \<in> set xs. holds_slot x \<and> group_slot x = k \<and> in_id x = i"
    by (auto simp: slots_def dest!: sql_first_SomeD)
next
  assume "\<exists>x \<in> set xs. holds_slot x \<and> group_slot x = k \<and> in_id x = i"
  then obtain x where x: "x \<in> set xs" "holds_slot x" "group_slot x = k" "in_id x = i" by blast
  then obtain y where y: "sql_first (\<lambda>x. holds_slot x \<and> group_slot x = k) xs = Some y"
    by (cases "sql_first (\<lambda>x. holds_slot x \<and> group_slot x = k) xs") (auto simp: sql_first_None_iff)
  from sql_first_SomeD [OF y] x incidents_ok_slot_unique [OF assms] have "x = y" by simp
  with x(4) y show "slots xs k = Some i" by (simp add: slots_def)
qed

lemma slots_append:
  "slots (xs @ [x]) k = (case slots xs k of Some i \<Rightarrow> Some i
     | None \<Rightarrow> if holds_slot x \<and> group_slot x = k then Some (in_id x) else None)"
  by (induction xs) (auto simp: slots_def split: option.splits)

lemma open_of_group_slot: "open_of_group tenant gk x = (holds_slot x \<and> group_slot x = (tenant, Some gk))"
  by (auto simp: open_of_group_def holds_slot_def group_slot_def)

lemma slots_None_iff: "slots xs (tenant, Some gk) = None \<longleftrightarrow> filter (open_of_group tenant gk) xs = []"
  by (simp add: slots_def sql_first_None_iff filter_empty_conv open_of_group_slot)

lemma slots_insert_incident:
  assumes "insert_incident now i a c tenant ss ob = Inr ob'"
  shows "slots (ob_incidents ob') = (slots (ob_incidents ob))((tenant, Some (ca_group_key c)) :=
    Some (case slots (ob_incidents ob) (tenant, Some (ca_group_key c)) of None \<Rightarrow> i | Some j \<Rightarrow> j))"
proof (cases "filter (open_of_group tenant (ca_group_key c)) (ob_incidents ob)")
  case (Cons w ws)
  then obtain j where "slots (ob_incidents ob) (tenant, Some (ca_group_key c)) = Some j"
    using slots_None_iff [of "ob_incidents ob" tenant "ca_group_key c"] by (metis list.distinct(1) option.exhaust)
  moreover from assms Cons have "ob' = attach_to_existing w c ss ob" by (simp add: insert_incident_def)
  ultimately show ?thesis by (auto simp: fun_upd_idem)
next
  case Nil
  with assms have "ob_incidents ob' = ob_incidents ob @ [new_incident i now c tenant ss]"
    by (auto simp: insert_incident_def Let_def dest!: incidents_raise)
  moreover have "holds_slot (new_incident i now c tenant ss)" "in_id (new_incident i now c tenant ss) = i"
    "group_slot (new_incident i now c tenant ss) = (tenant, Some (ca_group_key c))"
    by (simp_all add: new_incident_def holds_slot_def incident_open_def group_slot_def)
  moreover have "slots (ob_incidents ob) (tenant, Some (ca_group_key c)) = None" using Nil by (simp add: slots_None_iff)
  ultimately show ?thesis by (auto simp: slots_append fun_eq_iff split: option.split)
qed

lemma slots_open_from_candidate:
  assumes "open_from_candidate sha now i a c tenant ob = Inr ob'"
  shows "slots (ob_incidents ob') = (slots (ob_incidents ob))((tenant, Some (ca_group_key c)) :=
    Some (case slots (ob_incidents ob) (tenant, Some (ca_group_key c)) of None \<Rightarrow> i | Some j \<Rightarrow> j))"
proof -
  let ?ob = "ob\<lparr>ob_cache := snd (set_nx now (''lock:inc:'' @ ca_group_key c) 10 (ob_cache ob))\<rparr>"
  from assms consider (found) x where "sql_one (open_of_group tenant (ca_group_key c)) (ob_incidents ob) = Inr (Some x)"
      "ob_incidents ob' = ob_incidents ob"
    | (new) "insert_incident now i a c tenant (resolve_member_signals sha c tenant ?ob) ?ob = Inr ob'"
    by (auto simp: open_from_candidate_def Let_def sum_bind_Inr_iff split: option.splits)
  then show ?thesis
  proof cases
    case found
    from sql_one_SomeD [OF found(1)]
    have "slots (ob_incidents ob) (tenant, Some (ca_group_key c)) \<noteq> None"
      by (auto simp: slots_None_iff filter_empty_conv)
    with found(2) show ?thesis by (auto simp: fun_upd_idem)
  next
    case new
    from slots_insert_incident [OF this] show ?thesis by simp
  qed
qed

lemma slots_move:
  assumes ok: "incidents_ok xs" "incidents_ok (sql_modify in_id i (move_incident now t) xs)"
    and get: "sql_get in_id xs i = Some x"
  shows "slots (sql_modify in_id i (move_incident now t) xs) k = Some j \<longleftrightarrow>
    (if j = i then incident_open t \<and> in_group_key x \<noteq> None \<and> group_slot x = k else slots xs k = Some j)"
proof -
  from sql_get_SomeD [OF get] have x: "x \<in> set xs" "in_id x = i" by simp_all
  have unique: "y = x" if "y \<in> set xs" "in_id y = i" for y
    using ok(1) x that by (auto simp: incidents_ok_def distinct_map dest: inj_onD)
  have "slots (sql_modify in_id i (move_incident now t) xs) k = Some j \<longleftrightarrow>
      (\<exists>y \<in> set xs. (if in_id y = i then incident_open t \<and> in_group_key y \<noteq> None else holds_slot y)
         \<and> group_slot y = k \<and> in_id y = j)" (is "_ \<longleftrightarrow> ?ex")
    unfolding slots_iff [OF ok(2)] unfolding sql_modify_def sql_update_def set_map bex_simps
    by (intro bex_cong refl) (simp add: move_incident_def group_slot_def holds_slot_def)
  also have "?ex \<longleftrightarrow> (if j = i then incident_open t \<and> in_group_key x \<noteq> None \<and> group_slot x = k else slots xs k = Some j)"
  proof (cases "j = i")
    case True
    have at: "in_id y = i \<longleftrightarrow> y = x" if "y \<in> set xs" for y using unique [OF that] x(2) by blast
    have "?ex \<longleftrightarrow> (\<exists>y \<in> set xs. y = x \<and> incident_open t \<and> in_group_key y \<noteq> None \<and> group_slot y = k)"
      unfolding True by (intro bex_cong refl) (simp add: at)
    with x(1) True show ?thesis by simp
  next
    case False
    then show ?thesis unfolding slots_iff [OF ok(1)] by (simp, intro bex_cong refl) auto
  qed
  finally show ?thesis .
qed

lemma slots_transition:
  assumes ok: "incidents_ok (ob_incidents ob)" and tr: "transition_incident now i t actor ob = Inr ob'"
    and get: "sql_get in_id (ob_incidents ob) i = Some x"
  shows "slots (ob_incidents ob') =
    (if in_group_key x = None then slots (ob_incidents ob)
     else if incident_open t then (slots (ob_incidents ob))(group_slot x \<mapsto> i)
     else if incident_open (in_status x) then (slots (ob_incidents ob))(group_slot x := None)
     else slots (ob_incidents ob))"
proof -
  let ?xs = "ob_incidents ob" and ?ys = "sql_modify in_id i (move_incident now t) (ob_incidents ob)"
  from tr get have ob': "ob_incidents ob' = ?ys"
    and free: "\<not> (incident_open t
        \<and> list_ex (\<lambda>y. in_id y \<noteq> i \<and> (\<exists>gk \<in> set_option (in_group_key x). open_of_group (in_tenant x) gk y)) ?xs)"
    by (auto simp: transition_incident_def Let_def split: option.splits if_splits)
  from transition_incident_good [OF tr] ok ob' have ok': "incidents_ok ?ys" by (simp add: good_change_def)
  note iff = slots_iff [OF ok] and iff' = slots_move [OF ok ok' get]
  from sql_get_SomeD [OF get] have x: "x \<in> set ?xs" "in_id x = i" by simp_all
  have unique: "y = x" if "y \<in> set ?xs" "in_id y = i" for y
    using ok x that by (auto simp: incidents_ok_def distinct_map dest: inj_onD)
  have mine: "slots ?xs k = Some i \<longleftrightarrow> holds_slot x \<and> group_slot x = k" for k
    unfolding iff by (metis unique x)
  have alone: "j = i" if "slots ?xs (group_slot x) = Some j" "incident_open t" "in_group_key x \<noteq> None" for j
    using that free unfolding iff by (auto simp: list_ex_iff open_of_group_slot group_slot_def)
  have same: "j = i" if "slots ?xs (group_slot x) = Some j" "holds_slot x" for j
    using that mine [of "group_slot x"] by simp
  show ?thesis unfolding ob'
  proof (rule ext)
    fix k
    let ?m = "if in_group_key x = None then slots ?xs
       else if incident_open t then (slots ?xs)(group_slot x \<mapsto> i)
       else if incident_open (in_status x) then (slots ?xs)(group_slot x := None) else slots ?xs"
    have "slots ?ys k = Some j \<longleftrightarrow> ?m k = Some j" for j
    proof (cases "k = group_slot x")
      case False
      with mine [of k] iff' [of k j] show ?thesis by auto
    next
      case True
      note at = iff' [of k j] mine [of k] True
      consider (none) "in_group_key x = None" | (claim) "in_group_key x \<noteq> None" "incident_open t"
        | (release) "in_group_key x \<noteq> None" "\<not> incident_open t" "incident_open (in_status x)"
        | (stay) "in_group_key x \<noteq> None" "\<not> incident_open t" "\<not> incident_open (in_status x)" by blast
      then show ?thesis
      proof cases
        case none
        then have "\<not> holds_slot x" by (simp add: holds_slot_def)
        with at none show ?thesis by auto
      next
        case claim
        with alone [of j] at show ?thesis by auto
      next
        case release
        then have "holds_slot x" by (simp add: holds_slot_def)
        with same [of j] at release show ?thesis by auto
      next
        case stay
        then have "\<not> holds_slot x" by (simp add: holds_slot_def)
        with at stay show ?thesis by auto
      qed
    qed
    then show "slots ?ys k = ?m k" by (rule option_eqI)
  qed
qed

end
