(* ===== verification/IncidentProps.thy ===== *)
theory IncidentProps
  imports IncidentLaws CorrelationLaws
begin

text \<open>
  What the incidents promise: one open incident for a group, the lifecycle, the table as the map of the occupied
  groups, and what the automatic resolution and its sweep decide.
\<close>

section \<open>Automatic resolution\<close>

definition auto_resolvable :: "time \<Rightarrow> obs \<Rightarrow> incident \<Rightarrow> bool" where
  "auto_resolvable now ob x =
    (incident_open (in_status x) \<and> list_ex (\<lambda>l. fst l = in_id x) (ob_links ob)
     \<and> list_all (signal_quiet now) (linked_signals (in_id x) ob))"

lemma incident_open_iff: "incident_open s \<longleftrightarrow> s \<notin> {I_RESOLVED, I_CLOSED}"
  by (cases s) (simp_all add: incident_open_def)

lemma open_can_resolve: "incident_open s \<Longrightarrow> legal_transition s I_RESOLVED"
  by (cases s) (simp_all add: incident_open_def legal_transition_def TRANSITIONS_def)

lemma resolve_transition:
  assumes "sql_get in_id (ob_incidents ob) i = Some x" and "incident_open (in_status x)"
  shows "transition_incident now i I_RESOLVED None ob = Inr (add_entry i ''transition'' ''RESOLVED'' None
    (resolve_alerts_of now i (ob\<lparr>ob_incidents := sql_modify in_id i (move_incident now I_RESOLVED) (ob_incidents ob)\<rparr>)))"
  using assms open_can_resolve [OF assms(2)]
  by (simp add: transition_incident_def assert_legal_def status_text_def incident_open_def)

lemma maybe_auto_resolve_eq:
  assumes "sql_get in_id (ob_incidents ob) i = Some x"
  shows "maybe_auto_resolve now i ob = Inr (if auto_resolvable now ob x
     then (True, add_entry i ''note'' ''auto-resolved: all linked signals quiet'' None (add_entry i ''transition'' ''RESOLVED'' None
       (resolve_alerts_of now i (ob\<lparr>ob_incidents := sql_modify in_id i (move_incident now I_RESOLVED) (ob_incidents ob)\<rparr>))))
     else (False, ob))"
proof -
  from sql_get_SomeD [OF assms] have "in_id x = i" by simp
  with assms resolve_transition [OF assms]
  show ?thesis by (auto simp: maybe_auto_resolve_def auto_resolvable_def incident_open_iff)
qed

lemma try_auto_resolve_frame [simp]:
  "ob_links (try_auto_resolve now i ob) = ob_links ob"
  "ob_signals (try_auto_resolve now i ob) = ob_signals ob"
proof -
  have "ob_links (try_auto_resolve now i ob) = ob_links ob \<and> ob_signals (try_auto_resolve now i ob) = ob_signals ob"
  proof (cases "sql_get in_id (ob_incidents ob) i")
    case None
    then show ?thesis by (simp add: try_auto_resolve_def maybe_auto_resolve_def)
  next
    case (Some x)
    then show ?thesis
      by (simp add: try_auto_resolve_def maybe_auto_resolve_eq add_entry_def resolve_alerts_of_def)
  qed
  then show "ob_links (try_auto_resolve now i ob) = ob_links ob"
    "ob_signals (try_auto_resolve now i ob) = ob_signals ob" by simp_all
qed

lemma auto_resolvable_cong:
  "ob_links ob = ob_links ob' \<Longrightarrow> ob_signals ob = ob_signals ob' \<Longrightarrow> auto_resolvable now ob x = auto_resolvable now ob' x"
  by (simp add: auto_resolvable_def linked_signals_def)

lemma try_auto_resolve_incidents:
  assumes "distinct (map in_id (ob_incidents ob))"
  shows "ob_incidents (try_auto_resolve now i ob) =
    map (\<lambda>x. if in_id x = i \<and> auto_resolvable now ob x then move_incident now I_RESOLVED x else x) (ob_incidents ob)"
proof (cases "sql_get in_id (ob_incidents ob) i")
  case None
  then have "i \<notin> in_id ` set (ob_incidents ob)" by (simp add: sql_get_None_iff)
  then have "map (\<lambda>x. if in_id x = i \<and> auto_resolvable now ob x then move_incident now I_RESOLVED x else x) (ob_incidents ob)
      = ob_incidents ob" by (intro map_idI) auto
  with None show ?thesis by (simp add: try_auto_resolve_def maybe_auto_resolve_def)
next
  case (Some x)
  from sql_get_SomeD [OF Some] have x: "x \<in> set (ob_incidents ob)" "in_id x = i" by simp_all
  have "y = x" if "y \<in> set (ob_incidents ob)" "in_id y = i" for y
    using assms x that by (auto simp: distinct_map dest: inj_onD)
  then have at: "(in_id y = i \<and> auto_resolvable now ob y) = (in_id y = i \<and> auto_resolvable now ob x)"
    if "y \<in> set (ob_incidents ob)" for y using that by blast
  have "ob_incidents (try_auto_resolve now i ob) =
      (if auto_resolvable now ob x then sql_modify in_id i (move_incident now I_RESOLVED) (ob_incidents ob) else ob_incidents ob)"
    by (simp add: try_auto_resolve_def maybe_auto_resolve_eq [OF Some])
  also have "\<dots> = map (\<lambda>y. if in_id y = i \<and> auto_resolvable now ob x then move_incident now I_RESOLVED y else y) (ob_incidents ob)"
    by (simp add: sql_modify_def sql_update_def)
  also have "\<dots> = map (\<lambda>y. if in_id y = i \<and> auto_resolvable now ob y then move_incident now I_RESOLVED y else y) (ob_incidents ob)"
    by (rule map_cong) (simp_all only: at)
  finally show ?thesis .
qed

lemma resolved_not_resolvable [simp]: "\<not> auto_resolvable now ob (move_incident now' I_RESOLVED x)"
  by (simp add: auto_resolvable_def move_incident_def incident_open_def)

lemma in_id_move [simp]: "in_id (move_incident now t x) = in_id x"
  by (simp add: move_incident_def)

lemma fold_auto_resolve_incidents:
  assumes "distinct (map in_id (ob_incidents ob))"
  shows "ob_incidents (fold (try_auto_resolve now) is ob) =
    map (\<lambda>x. if in_id x \<in> set is \<and> auto_resolvable now ob x then move_incident now I_RESOLVED x else x) (ob_incidents ob)"
  using assms
proof (induction "is" arbitrary: ob)
  case Nil
  then show ?case by simp
next
  case (Cons i "is")
  note one = try_auto_resolve_incidents [OF Cons.prems, of now i]
  have same: "auto_resolvable now (try_auto_resolve now i ob) x = auto_resolvable now ob x" for x
    by (rule auto_resolvable_cong) simp_all
  have "map in_id (ob_incidents (try_auto_resolve now i ob)) = map in_id (ob_incidents ob)"
    unfolding one by simp
  with Cons.prems have "distinct (map in_id (ob_incidents (try_auto_resolve now i ob)))" by (simp only:)
  from Cons.IH [OF this] show ?case by (auto simp: one same)
qed

lemma sweep_takes_all:
  assumes "length (filter (\<lambda>x. incident_open (in_status x)) (ob_incidents ob)) \<le> SWEEP_BATCH"
  shows "set (sweep_ids ob) = in_id ` {x \<in> set (ob_incidents ob). incident_open (in_status x)}"
  using assms by (simp add: sweep_ids_def)

lemma incident_sweep_eq:
  assumes "incidents_ok (ob_incidents ob)"
    and "length (filter (\<lambda>x. incident_open (in_status x)) (ob_incidents ob)) \<le> SWEEP_BATCH"
  shows "ob_incidents (incident_sweep now ob) =
    map (\<lambda>x. if auto_resolvable now ob x then move_incident now I_RESOLVED x else x) (ob_incidents ob)"
proof -
  from assms(1) have "distinct (map in_id (ob_incidents ob))" by (simp add: incidents_ok_def)
  note fold_auto_resolve_incidents [OF this, of now "sweep_ids ob"]
  moreover have "in_id x \<in> set (sweep_ids ob) \<and> auto_resolvable now ob x \<longleftrightarrow> auto_resolvable now ob x"
    if "x \<in> set (ob_incidents ob)" for x
    using that unfolding sweep_takes_all [OF assms(2)] by (auto simp: auto_resolvable_def)
  ultimately show ?thesis unfolding incident_sweep_def by (simp cong: map_cong)
qed

section \<open>A group that opens an incident\<close>

definition toy_candidate :: candidate where
  "toy_candidate = \<lparr>ca_rule = exhaustion_rule ''e'', ca_group_key = ''g'', ca_host = [],
     ca_types = [''cpu.high'', ''memory.high''], ca_score = 60, ca_root = ''cpu.high''\<rparr>"

definition toy_quiet_signal :: signal where
  "toy_quiet_signal = toy_cpu_signal\<lparr>sg_status := ''RESOLVED''\<rparr>"

definition toy_watch :: obs where
  "toy_watch = \<lparr>ob_db = empty_db, ob_cache = empty_redis, ob_signals = [toy_quiet_signal], ob_incidents = [],
     ob_links = [], ob_timeline = [], ob_alert_incident = []\<rparr>"

definition toy_incident :: incident where
  "toy_incident = new_incident ''i1'' 2 toy_candidate ''default'' [toy_quiet_signal]"

definition toy_opened :: obs where
  "toy_opened = (case insert_incident 2 ''i1'' ''a1'' toy_candidate ''default'' [toy_quiet_signal] toy_watch of
     Inr ob \<Rightarrow> ob | Inl e \<Rightarrow> toy_watch)"

lemma toy_insert: "insert_incident 2 ''i1'' ''a1'' toy_candidate ''default'' [toy_quiet_signal] toy_watch = Inr toy_opened"
proof -
  have "safe_uuid (Some ''fleet'') = None" by code_simp
  then show ?thesis
    by (simp add: toy_opened_def insert_incident_def toy_watch_def raise_alert_def create_alert_def toy_candidate_def
        add_entry_def empty_db_def Let_def)
qed

lemma toy_opened_fields:
  "ob_incidents toy_opened = [toy_incident]" "ob_links toy_opened = [(''i1'', ''s1'')]"
  "ob_signals toy_opened = [toy_quiet_signal]"
proof -
  have "safe_uuid (Some ''fleet'') = None" by code_simp
  moreover have "sg_id toy_quiet_signal = ''s1''" by code_simp
  ultimately show "ob_incidents toy_opened = [toy_incident]" "ob_links toy_opened = [(''i1'', ''s1'')]"
    "ob_signals toy_opened = [toy_quiet_signal]"
    by (simp_all add: toy_opened_def insert_incident_def toy_watch_def raise_alert_def create_alert_def toy_candidate_def
        add_entry_def empty_db_def Let_def toy_incident_def)
qed

lemma toy_incident_fields [simp]:
  "in_id toy_incident = ''i1''" "in_status toy_incident = I_OPEN" "in_tenant toy_incident = ''default''"
  "in_group_key toy_incident = Some ''g''"
  by (simp_all add: toy_incident_def new_incident_def toy_candidate_def)

lemma toy_reachable: "(obs_step sha)\<^sup>*\<^sup>* toy_watch toy_opened" "ob_incidents toy_watch = []"
proof -
  show "ob_incidents toy_watch = []" by (simp add: toy_watch_def)
  then show "(obs_step sha)\<^sup>*\<^sup>* toy_watch toy_opened"
    by (intro r_into_rtranclp obs_step.late [OF _ toy_insert]) simp
qed

lemma toy_resolvable: "auto_resolvable 700000000 toy_opened toy_incident"
proof -
  have "signal_quiet 700000000 toy_quiet_signal" by code_simp
  moreover have "sg_id toy_quiet_signal = ''s1''" by code_simp
  ultimately show ?thesis by (simp add: auto_resolvable_def linked_signals_def toy_opened_fields incident_open_def)
qed

section \<open>What the incidents promise\<close>

text \<open>C8. In every reachable state, whatever the workers, the operators and racing transactions did, two open
  incidents of one group of one tenant are the same incident.\<close>

theorem one_open_incident_per_group:
  assumes "(obs_step sha)\<^sup>*\<^sup>* ob ob'" and "ob_incidents ob = []"
    and "x \<in> set (ob_incidents ob')" "y \<in> set (ob_incidents ob')"
    and "incident_open (in_status x)" "incident_open (in_status y)"
    and "in_tenant x = in_tenant y" "in_group_key x = Some gk" "in_group_key y = Some gk"
  shows "x = y"
  by (rule incidents_ok_slot_unique [OF incidents_ok_reachable [OF assms(1,2)] assms(3,4)])
    (use assms(5-) in \<open>simp_all add: holds_slot_def group_slot_def\<close>)

theorem one_open_incident_per_group_witness:
  "\<not> (\<exists>x y. x \<in> set (ob_incidents toy_opened) \<and> y \<in> set (ob_incidents toy_opened) \<and> x \<noteq> y)"
proof -
  have "x = y" if "x \<in> set (ob_incidents toy_opened)" "y \<in> set (ob_incidents toy_opened)" for x y
    by (rule one_open_incident_per_group [OF toy_reachable that, of "''g''"])
      (use that in \<open>auto simp: toy_opened_fields incident_open_def\<close>)
  then show ?thesis by blast
qed

lemma closed_is_final: "legal_transition\<^sup>*\<^sup>* I_CLOSED s \<Longrightarrow> s = I_CLOSED"
  by (induction rule: rtranclp_induct) (simp_all add: legal_transition_def TRANSITIONS_def)

text \<open>C10. From one reachable moment to a later one an incident keeps its tenant, group, type, severity and root
  cause, its status moves along legal transitions only and never leaves CLOSED; a resolved incident says since
  when, and an open one does not.\<close>

theorem incidents_follow_lifecycle:
  assumes "(obs_step sha)\<^sup>*\<^sup>* ob ob1" and "ob_incidents ob = []" and "(obs_step sha)\<^sup>*\<^sup>* ob1 ob2"
    and "x \<in> set (ob_incidents ob1)"
  shows "\<exists>y \<in> set (ob_incidents ob2). in_id y = in_id x \<and> in_tenant y = in_tenant x \<and> in_group_key y = in_group_key x
    \<and> in_type y = in_type x \<and> in_severity y = in_severity x \<and> in_root_signal y = in_root_signal x
    \<and> legal_transition\<^sup>*\<^sup>* (in_status x) (in_status y) \<and> (in_status x = I_CLOSED \<longrightarrow> in_status y = I_CLOSED)
    \<and> (in_status y = I_RESOLVED \<longrightarrow> in_resolved_at y \<noteq> None) \<and> (in_status y = I_OPEN \<longrightarrow> in_resolved_at y = None)"
proof -
  from obs_reach_good [OF assms(3)] incidents_ok_reachable [OF assms(1,2)]
  have ok: "incidents_ok (ob_incidents ob2)" and ev: "incidents_evolve (ob_incidents ob1) (ob_incidents ob2)"
    by (simp_all add: good_change_def)
  from incidents_evolveD [OF ev assms(4)] obtain y where y: "y \<in> set (ob_incidents ob2)" "incident_evolves x y" by blast
  then have "legal_transition\<^sup>*\<^sup>* (in_status x) (in_status y)" and core: "incident_core y = incident_core x"
    by (simp_all add: incident_evolves_def)
  moreover from this(1) have "in_status x = I_CLOSED \<longrightarrow> in_status y = I_CLOSED" using closed_is_final by auto
  moreover have "(in_status y = I_RESOLVED \<longrightarrow> in_resolved_at y \<noteq> None) \<and> (in_status y = I_OPEN \<longrightarrow> in_resolved_at y = None)"
    using ok y(1) by (simp add: incidents_ok_def)
  ultimately show ?thesis using incident_core_fields [OF core] y(1) by (intro bexI [of _ y] conjI) simp_all
qed

theorem incidents_follow_lifecycle_witness:
  "\<exists>y \<in> set (ob_incidents toy_opened). in_id y = ''i1'' \<and> (in_status y = I_OPEN \<longrightarrow> in_resolved_at y = None)"
proof -
  have "toy_incident \<in> set (ob_incidents toy_opened)" by (simp add: toy_opened_fields)
  from incidents_follow_lifecycle [OF toy_reachable rtranclp.rtrancl_refl this] show ?thesis
    by (simp add: toy_opened_fields)
qed

text \<open>For the correlation the incidents are the map of the occupied groups: opening a candidate claims its
  group unless some incident holds it, and a transition releases the group, keeps it or claims it again according
  to the status it ends in.\<close>

theorem incidents_refine_slots:
  assumes "(obs_step sha)\<^sup>*\<^sup>* ob0 ob" and "ob_incidents ob0 = []"
    and "open_from_candidate sha now i a c tenant ob = Inr ob1"
    and "transition_incident now j t actor ob = Inr ob2" and "sql_get in_id (ob_incidents ob) j = Some x"
  shows "slots (ob_incidents ob1) = (slots (ob_incidents ob))((tenant, Some (ca_group_key c)) :=
      Some (case slots (ob_incidents ob) (tenant, Some (ca_group_key c)) of None \<Rightarrow> i | Some j \<Rightarrow> j))
    \<and> slots (ob_incidents ob2) =
      (if in_group_key x = None then slots (ob_incidents ob)
       else if incident_open t then (slots (ob_incidents ob))(group_slot x \<mapsto> j)
       else if incident_open (in_status x) then (slots (ob_incidents ob))(group_slot x := None)
       else slots (ob_incidents ob))"
  using slots_open_from_candidate [OF assms(3)]
    slots_transition [OF incidents_ok_reachable [OF assms(1,2)] assms(4,5)] by (rule conjI)

theorem incidents_refine_slots_witness:
  "\<exists>ob2. resolve_incident 3 ''i1'' None toy_opened = Inr ob2 \<and> slots (ob_incidents ob2) (''default'', Some ''g'') = None"
proof -
  have get: "sql_get in_id (ob_incidents toy_opened) ''i1'' = Some toy_incident"
    by (simp add: toy_opened_fields sql_get_def)
  then obtain ob2 where ob2: "transition_incident 3 ''i1'' I_RESOLVED None toy_opened = Inr ob2"
    using resolve_transition [OF get] by (simp add: incident_open_def)
  have one: "sql_one (open_of_group ''default'' (ca_group_key toy_candidate)) (ob_incidents toy_opened) = Inr (Some toy_incident)"
    by (simp add: toy_opened_fields sql_one_def open_of_group_def incident_open_def toy_candidate_def)
  then obtain ob1 where "open_from_candidate (\<lambda>s. s) 3 ''i2'' ''a2'' toy_candidate ''default'' toy_opened = Inr ob1"
    by (simp add: open_from_candidate_def Let_def sum_bind_def)
  from incidents_refine_slots [OF toy_reachable this ob2 get] ob2 show ?thesis
    by (auto simp: resolve_incident_def group_slot_def incident_open_def)
qed

text \<open>C9. While at most a thousand incidents are open, one sweep resolves exactly the open incidents that have
  signals and whose signals have all been quiet long enough; the others it leaves as they are.\<close>

theorem sweep_resolves_the_quiet:
  assumes "(obs_step sha)\<^sup>*\<^sup>* ob0 ob" and "ob_incidents ob0 = []"
    and "length (filter (\<lambda>x. incident_open (in_status x)) (ob_incidents ob)) \<le> SWEEP_BATCH"
  shows "ob_incidents (incident_sweep now ob) =
    map (\<lambda>x. if incident_open (in_status x) \<and> list_ex (\<lambda>l. fst l = in_id x) (ob_links ob)
                \<and> list_all (signal_quiet now) (linked_signals (in_id x) ob)
             then move_incident now I_RESOLVED x else x) (ob_incidents ob)"
  using incident_sweep_eq [OF incidents_ok_reachable [OF assms(1,2)] assms(3)] unfolding auto_resolvable_def .

theorem sweep_resolves_the_quiet_witness:
  "map in_status (ob_incidents (incident_sweep 700000000 toy_opened)) = [I_RESOLVED]"
  using sweep_resolves_the_quiet [OF toy_reachable, of 700000000] toy_resolvable
  by (simp add: toy_opened_fields SWEEP_BATCH_def auto_resolvable_def move_incident_def)

end
