(* ===== verification/PolicyDoc.thy ===== *)
theory PolicyDoc
  imports Capability
begin

text \<open>
  Documents of agent policies (\<open>services/agent_policy_compiler.py\<close>): from YAML text to the normalized
  mapping, its canonical form and hash. The YAML reader, SHA-256 and the signature are parameters. A mapping
  is changed in place by the code; here the changed mapping is returned. Numbers are integers, keys are text.
\<close>

definition ALLOWED_API_VERSIONS :: "string list" where
  "ALLOWED_API_VERSIONS = [''lokilinux.io/v1'']"

definition MAX_PAYLOAD_BYTES :: nat where "MAX_PAYLOAD_BYTES = 1024 * 1024"

definition HEARTBEAT_INTERVAL_BOUNDS :: "int \<times> int" where "HEARTBEAT_INTERVAL_BOUNDS = (10, 300)"
definition HEALTH_INTERVAL_BOUNDS :: "int \<times> int" where "HEALTH_INTERVAL_BOUNDS = (10, 3600)"

text \<open>In alphabetical order, as the normalization lists them.\<close>

definition KNOWN_COLLECTORS :: "string list" where
  "KNOWN_COLLECTORS = [''auditd'', ''certificates'', ''cron'', ''dns'', ''docker'', ''file_integrity'', ''firewall'',
     ''kernel'', ''mounts'', ''network'', ''packages'', ''processes'', ''services'', ''sshd'', ''sysctl'',
     ''time_sync'', ''updates'', ''users'']"

definition SPEC_FIELDS :: "string list" where
  "SPEC_FIELDS = [''collectors'', ''heartbeat'', ''health'', ''signals'', ''services'', ''logs'', ''limits'',
     ''buffer'', ''compliance'', ''otel'']"

definition RESERVED_SECTIONS :: "string list" where
  "RESERVED_SECTIONS = [''signals'', ''services'', ''logs'', ''limits'', ''buffer'', ''compliance'', ''otel'']"

section \<open>Parsing\<close>

definition parse_policy_yaml :: "(string \<Rightarrow> pv option) \<Rightarrow> string \<Rightarrow> exn + config" where
  "parse_policy_yaml yaml_load src =
    (if strip src = [] then Inl (ValueError ''empty document'')
     else if utf8_length src > MAX_PAYLOAD_BYTES then Inl (ValueError ''payload exceeds 1048576 bytes'')
     else (case yaml_load src of
         None \<Rightarrow> Inl (ValueError ''invalid YAML'')
       | Some (PDict d) \<Rightarrow> Inr d
       | Some _ \<Rightarrow> Inl (ValueError ''document must be a mapping'')))"

section \<open>Validation and normalization\<close>

definition unknown_fields :: "config \<Rightarrow> string list \<Rightarrow> bool" where
  "unknown_fields m allowed = list_ex (\<lambda>e. fst e \<notin> set allowed) m"

definition reject_unknown :: "config \<Rightarrow> string list \<Rightarrow> string \<Rightarrow> exn + unit" where
  "reject_unknown m allowed loc =
    (if unknown_fields m allowed then Inl (ValueError (loc @ '': unknown field(s)'')) else Inr ())"

definition clamp_int :: "pv \<Rightarrow> int \<times> int \<Rightarrow> string \<Rightarrow> exn + int" where
  "clamp_int v bounds loc =
    (case v of
       PInt i \<Rightarrow> Inr (max (fst bounds) (min (snd bounds) i))
     | _ \<Rightarrow> Inl (ValueError (loc @ '': must be an integer'')))"

definition get_default :: "config \<Rightarrow> string \<Rightarrow> pv \<Rightarrow> pv" where
  "get_default d k v = (case map_of d k of None \<Rightarrow> v | Some w \<Rightarrow> w)"

definition dict_del :: "config \<Rightarrow> string \<Rightarrow> config" where
  "dict_del d k = filter (\<lambda>e. fst e \<noteq> k) d"

fun check_collectors :: "config \<Rightarrow> exn + unit" where
  "check_collectors [] = Inr ()"
| "check_collectors ((name, cfg) # rest) =
    (if name \<notin> set KNOWN_COLLECTORS then Inl (ValueError ''spec.collectors: unknown collector'')
     else (case cfg of
         PDict m \<Rightarrow>
          (case get_default m ''enabled'' (PBool True) of
             PBool b \<Rightarrow> sum_bind (reject_unknown m [''enabled''] (''spec.collectors.'' @ name)) (\<lambda>_. check_collectors rest)
           | _ \<Rightarrow> Inl (ValueError (''spec.collectors.'' @ name @ ''.enabled: must be boolean'')))
       | _ \<Rightarrow> Inl (ValueError (''spec.collectors.'' @ name @ '': must be a mapping''))))"

text \<open>Every known collector that is not listed is listed as disabled, before the others.\<close>

definition deny_by_default :: "config \<Rightarrow> config" where
  "deny_by_default collectors =
    map (\<lambda>c. (c, PDict [(''enabled'', PBool False)])) (filter (\<lambda>c. c \<notin> fst ` set collectors) KNOWN_COLLECTORS) @ collectors"

definition normal_section :: "config \<Rightarrow> string \<Rightarrow> string \<Rightarrow> int \<Rightarrow> int \<times> int \<Rightarrow> exn + config" where
  "normal_section sp name field default_value bounds =
    (case py_or (cfg_get sp name) (PDict []) of
       PDict m \<Rightarrow>
         sum_bind (reject_unknown m [field] (''spec.'' @ name)) (\<lambda>_.
         sum_bind (clamp_int (get_default m field (PInt default_value)) bounds (''spec.'' @ name @ ''.'' @ field)) (\<lambda>i.
           Inr (dict_put sp (name, PDict (dict_put m (field, PInt i))))))
     | _ \<Rightarrow> Inl (ValueError (''spec.'' @ name @ '': must be a mapping'')))"

fun check_reserved :: "string list \<Rightarrow> config \<Rightarrow> exn + config" where
  "check_reserved [] sp = Inr sp"
| "check_reserved (r # rs) sp =
    (if cfg_get sp r = PNone \<or> cfg_get sp r = PDict [] then check_reserved rs (dict_del sp r)
     else (case cfg_get sp r of
         PDict m \<Rightarrow> if list_ex (\<lambda>e. truthy (snd e)) m then Inl (ValueError (''spec.'' @ r @ '': accept empty mapping only''))
                   else check_reserved rs sp
       | _ \<Rightarrow> check_reserved rs sp))"

definition doc_name :: "config \<Rightarrow> string option" where
  "doc_name doc =
    (case cfg_get doc ''metadata'' of PDict m \<Rightarrow> Some (pystr (get_default m ''name'' (PStr []))) | _ \<Rightarrow> None)"

definition normal_spec :: "config \<Rightarrow> exn + config" where
  "normal_spec sp =
    sum_bind (reject_unknown sp SPEC_FIELDS ''spec'') (\<lambda>_.
      case (if cfg_get sp ''collectors'' = PNone then PDict [] else cfg_get sp ''collectors'') of
        PDict cs \<Rightarrow>
          sum_bind (check_collectors cs) (\<lambda>_.
          sum_bind (normal_section (dict_put sp (''collectors'', PDict (deny_by_default cs)))
              ''heartbeat'' ''interval_seconds'' 60 HEARTBEAT_INTERVAL_BOUNDS) (\<lambda>spec1.
          sum_bind (normal_section spec1 ''health'' ''collect_interval_seconds'' 30 HEALTH_INTERVAL_BOUNDS) (\<lambda>spec2.
            check_reserved RESERVED_SECTIONS spec2)))
      | _ \<Rightarrow> Inl (ValueError ''spec.collectors: must be a mapping of collector name -> config''))"

definition validate_policy :: "config \<Rightarrow> exn + config" where
  "validate_policy doc =
    (case cfg_get doc ''apiVersion'' of
       PList _ \<Rightarrow> Inl (TypeError ''unhashable type'')
     | PDict _ \<Rightarrow> Inl (TypeError ''unhashable type'')
     | v \<Rightarrow>
        if v \<notin> PStr ` set ALLOWED_API_VERSIONS then Inl (ValueError ''apiVersion: unsupported'')
        else if cfg_get doc ''kind'' \<noteq> PStr ''AgentPolicy'' then Inl (ValueError ''kind: must be AgentPolicy'')
        else if (case doc_name doc of None \<Rightarrow> True | Some n \<Rightarrow> strip n = [])
          then Inl (ValueError ''metadata.name: required non-empty string'')
        else (case (if cfg_get doc ''spec'' = PNone then PDict [] else cfg_get doc ''spec'') of
            PDict s \<Rightarrow> sum_bind (normal_spec s) (\<lambda>s'. Inr (dict_put doc (''spec'', PDict s')))
          | _ \<Rightarrow> Inl (ValueError ''spec: must be a mapping'')))"

definition policy_hash :: "(string \<Rightarrow> string) \<Rightarrow> config \<Rightarrow> string" where
  "policy_hash sha doc = sha (canonical_json (PDict doc))"

definition sign_policy :: "(string \<Rightarrow> string) \<Rightarrow> config \<Rightarrow> string" where
  "sign_policy sign doc = sign (canonical_json (PDict doc))"

end
