(* ===== verification/PolicyDocLaws.thy ===== *)
theory PolicyDocLaws
  imports PolicyDoc
begin

text \<open>
  What a validated policy document looks like, that validating it again changes nothing, and that the
  normalization neither switches a collector on nor off.
\<close>

section \<open>Well-formed documents\<close>

definition collector_ok :: "pv \<Rightarrow> bool" where
  "collector_ok v = (case v of
      PDict m \<Rightarrow> \<not> unknown_fields m [''enabled'']
        \<and> get_default m ''enabled'' (PBool True) \<in> {PBool True, PBool False}
    | _ \<Rightarrow> False)"

definition collectors_ok :: "config \<Rightarrow> bool" where
  "collectors_ok cs = (fst ` set cs = set KNOWN_COLLECTORS \<and> list_all (\<lambda>e. collector_ok (snd e)) cs)"

definition interval_ok :: "string \<Rightarrow> int \<times> int \<Rightarrow> pv \<Rightarrow> bool" where
  "interval_ok field bounds v = (case v of
      PDict m \<Rightarrow> \<not> unknown_fields m [field]
        \<and> (case map_of m field of Some (PInt i) \<Rightarrow> fst bounds \<le> i \<and> i \<le> snd bounds | _ \<Rightarrow> False)
    | _ \<Rightarrow> False)"

definition reserved_ok :: "config \<Rightarrow> string \<Rightarrow> bool" where
  "reserved_ok s r = (case map_of s r of
      None \<Rightarrow> True
    | Some PNone \<Rightarrow> False
    | Some (PDict m) \<Rightarrow> m \<noteq> [] \<and> \<not> list_ex (\<lambda>e. truthy (snd e)) m
    | _ \<Rightarrow> True)"

definition spec_ok :: "config \<Rightarrow> bool" where
  "spec_ok s = (\<not> unknown_fields s SPEC_FIELDS
     \<and> (case cfg_get s ''collectors'' of PDict cs \<Rightarrow> collectors_ok cs | _ \<Rightarrow> False)
     \<and> interval_ok ''interval_seconds'' HEARTBEAT_INTERVAL_BOUNDS (cfg_get s ''heartbeat'')
     \<and> interval_ok ''collect_interval_seconds'' HEALTH_INTERVAL_BOUNDS (cfg_get s ''health'')
     \<and> list_all (reserved_ok s) RESERVED_SECTIONS)"

definition policy_doc_ok :: "config \<Rightarrow> bool" where
  "policy_doc_ok d =
    (cfg_get d ''apiVersion'' \<in> PStr ` set ALLOWED_API_VERSIONS \<and> cfg_get d ''kind'' = PStr ''AgentPolicy''
     \<and> (case doc_name d of None \<Rightarrow> False | Some n \<Rightarrow> strip n \<noteq> [])
     \<and> (case cfg_get d ''spec'' of PDict s \<Rightarrow> spec_ok s | _ \<Rightarrow> False))"

definition collector_on :: "config \<Rightarrow> string \<Rightarrow> bool" where
  "collector_on d c = (case cfg_get d ''spec'' of
      PDict s \<Rightarrow> (case cfg_get s ''collectors'' of
          PDict cs \<Rightarrow> (case map_of cs c of Some (PDict m) \<Rightarrow> get_default m ''enabled'' (PBool True) = PBool True | _ \<Rightarrow> False)
        | _ \<Rightarrow> False)
    | _ \<Rightarrow> False)"

section \<open>Dictionaries\<close>

lemma map_of_dict_del: "map_of (dict_del d k) j = (if j = k then None else map_of d j)"
  by (induction d) (auto simp: dict_del_def)

lemma keys_dict_put: "fst ` set (dict_put d kv) = insert (fst kv) (fst ` set d)"
  by (induction d) auto

lemma dict_put_same: "map_of d k = Some v \<Longrightarrow> dict_put d (k, v) = d"
  by (induction d) (auto split: if_splits)

lemma dict_del_absent: "map_of d k = None \<Longrightarrow> dict_del d k = d"
  by (induction d) (auto simp: dict_del_def split: if_splits)

lemma cfg_get_dict_put: "cfg_get (dict_put d (k, v)) j = (if j = k then v else cfg_get d j)"
  by (simp add: cfg_get_def map_of_dict_put)

lemma cfg_get_dict_del: "cfg_get (dict_del d k) j = (if j = k then PNone else cfg_get d j)"
  by (simp add: cfg_get_def map_of_dict_del)

lemma unknown_fields_iff: "unknown_fields d ks \<longleftrightarrow> \<not> fst ` set d \<subseteq> set ks"
  by (auto simp: unknown_fields_def list_ex_iff)

lemma unknown_fields_put_known:
  "\<not> unknown_fields d ks \<Longrightarrow> k \<in> set ks \<Longrightarrow> \<not> unknown_fields (dict_put d (k, v)) ks"
  by (simp add: unknown_fields_iff keys_dict_put)

lemma unknown_fields_del: "\<not> unknown_fields d ks \<Longrightarrow> \<not> unknown_fields (dict_del d k) ks"
  by (auto simp: unknown_fields_def dict_del_def list_ex_iff)

section \<open>The parts of the specification\<close>

lemma check_collectors_iff:
  "check_collectors cs = Inr () \<longleftrightarrow> list_all (\<lambda>e. fst e \<in> set KNOWN_COLLECTORS \<and> collector_ok (snd e)) cs"
proof (induction cs)
  case Nil
  then show ?case by simp
next
  case (Cons e cs)
  obtain name v where e: "e = (name, v)" by fastforce
  show ?case
  proof (cases v)
    case (PDict m)
    have "is_b \<in> {PBool True, PBool False} \<longleftrightarrow> (\<exists>b. is_b = PBool b)" for is_b
      by (cases is_b) auto
    with Cons PDict e show ?thesis
      by (auto simp: collector_ok_def reject_unknown_def split: pv.splits)
  qed (simp_all add: e collector_ok_def)
qed

lemma deny_by_default_keys:
  "fst ` set cs \<subseteq> set KNOWN_COLLECTORS \<Longrightarrow> fst ` set (deny_by_default cs) = set KNOWN_COLLECTORS"
proof -
  have "fst ` set (deny_by_default cs) = {c \<in> set KNOWN_COLLECTORS. c \<notin> fst ` set cs} \<union> fst ` set cs"
    by (simp add: deny_by_default_def image_Un image_image)
  then show "fst ` set cs \<subseteq> set KNOWN_COLLECTORS \<Longrightarrow> ?thesis" by blast
qed

lemma deny_by_default_ok:
  assumes "check_collectors cs = Inr ()"
  shows "collectors_ok (deny_by_default cs)"
proof -
  from assms have ok: "\<forall>e \<in> set cs. fst e \<in> set KNOWN_COLLECTORS \<and> collector_ok (snd e)"
    unfolding check_collectors_iff by (simp add: list_all_iff)
  have "collector_ok (PDict [(''enabled'', PBool False)])"
    by (simp add: collector_ok_def unknown_fields_def get_default_def)
  with ok have "\<forall>e \<in> set (deny_by_default cs). collector_ok (snd e)"
    by (auto simp: deny_by_default_def)
  moreover from ok have "fst ` set (deny_by_default cs) = set KNOWN_COLLECTORS"
    by (intro deny_by_default_keys) auto
  ultimately show ?thesis by (simp add: collectors_ok_def list_all_iff)
qed

lemma deny_by_default_same: "collectors_ok cs \<Longrightarrow> deny_by_default cs = cs"
  by (simp add: collectors_ok_def deny_by_default_def filter_empty_conv)

lemma collectors_ok_check: "collectors_ok cs \<Longrightarrow> check_collectors cs = Inr ()"
  unfolding check_collectors_iff by (auto simp: collectors_ok_def list_all_iff)

lemma map_of_deny_by_default:
  "map_of (deny_by_default cs) c = (case map_of cs c of
     Some v \<Rightarrow> Some v
   | None \<Rightarrow> if c \<in> set KNOWN_COLLECTORS then Some (PDict [(''enabled'', PBool False)]) else None)"
proof -
  have at: "map_of (map (\<lambda>c. (c, v)) ks) c = (if c \<in> set ks then Some v else None)" for ks and v :: pv
    by (induction ks) auto
  show ?thesis
  proof (cases "map_of cs c")
    case None
    then have "c \<notin> fst ` set cs" by (simp add: map_of_eq_None_iff)
    with None show ?thesis by (simp add: deny_by_default_def map_add_def at)
  next
    case (Some v)
    then have "c \<in> fst ` set cs" by (metis map_of_eq_None_iff option.distinct(1))
    with Some show ?thesis by (simp add: deny_by_default_def map_add_def at)
  qed
qed

lemma normal_section_Inr:
  assumes "normal_section sp name field dflt bounds = Inr sp'" and "fst bounds \<le> snd bounds"
  shows "\<exists>v. sp' = dict_put sp (name, v) \<and> interval_ok field bounds v"
proof -
  from assms(1) obtain m i where m: "\<not> unknown_fields m [field]"
      and i: "clamp_int (get_default m field (PInt dflt)) bounds (''spec.'' @ name @ ''.'' @ field) = Inr i"
      and sp': "sp' = dict_put sp (name, PDict (dict_put m (field, PInt i)))"
    by (auto simp: normal_section_def reject_unknown_def sum_bind_Inr_iff split: pv.splits if_splits)
  from i assms(2) have "fst bounds \<le> i \<and> i \<le> snd bounds"
    by (auto simp: clamp_int_def split: pv.splits)
  with unknown_fields_put_known [OF m, of field "PInt i"]
  have "interval_ok field bounds (PDict (dict_put m (field, PInt i)))"
    by (simp add: interval_ok_def map_of_dict_put)
  with sp' show ?thesis by blast
qed

lemma normal_section_same:
  assumes "interval_ok field bounds (cfg_get sp name)"
  shows "normal_section sp name field dflt bounds = Inr sp"
proof -
  from assms obtain m where sp: "cfg_get sp name = PDict m"
    by (cases "cfg_get sp name") (simp_all add: interval_ok_def)
  with assms obtain i where m: "\<not> unknown_fields m [field]"
      "map_of m field = Some (PInt i)" and i: "fst bounds \<le> i" "i \<le> snd bounds"
    by (simp add: interval_ok_def split: option.splits pv.splits)
  then have "m \<noteq> []" by auto
  moreover from sp have "map_of sp name = Some (PDict m)" by (auto simp: cfg_get_def split: option.splits)
  ultimately show ?thesis using sp m i
    by (simp add: normal_section_def py_or_def reject_unknown_def get_default_def clamp_int_def dict_put_same)
qed

lemma check_reserved_Inr:
  assumes "check_reserved rs sp = Inr sp'"
  shows "list_all (reserved_ok sp') rs \<and> (\<forall>k. k \<notin> set rs \<longrightarrow> map_of sp' k = map_of sp k)
    \<and> (\<forall>k. reserved_ok sp k \<longrightarrow> reserved_ok sp' k) \<and> fst ` set sp' \<subseteq> fst ` set sp"
  using assms
proof (induction rs arbitrary: sp)
  case Nil
  then show ?case by simp
next
  case (Cons r rs)
  show ?case
  proof (cases "cfg_get sp r = PNone \<or> cfg_get sp r = PDict []")
    case True
    with Cons.prems have "check_reserved rs (dict_del sp r) = Inr sp'" by simp
    note IH = Cons.IH [OF this]
    have "reserved_ok (dict_del sp r) r" by (simp add: reserved_ok_def map_of_dict_del)
    moreover have "fst ` set (dict_del sp r) \<subseteq> fst ` set sp" by (auto simp: dict_del_def)
    moreover have "reserved_ok sp k \<longrightarrow> reserved_ok (dict_del sp r) k" for k
      by (simp add: reserved_ok_def map_of_dict_del)
    ultimately show ?thesis using IH subset_trans [of "fst ` set sp'" "fst ` set (dict_del sp r)" "fst ` set sp"]
      by (simp add: map_of_dict_del)
  next
    case False
    with Cons.prems have rest: "check_reserved rs sp = Inr sp'"
      and r: "reserved_ok sp r"
      by (auto simp: reserved_ok_def cfg_get_def split: pv.splits option.splits if_splits)
    from Cons.IH [OF rest] r show ?thesis by auto
  qed
qed

lemma check_reserved_same: "list_all (reserved_ok sp) rs \<Longrightarrow> check_reserved rs sp = Inr sp"
proof (induction rs)
  case Nil
  then show ?case by simp
next
  case (Cons r rs)
  then show ?case
    by (cases "map_of sp r") (auto simp: reserved_ok_def cfg_get_def dict_del_absent split: pv.splits)
qed

section \<open>Whole documents\<close>

lemma SPEC_FIELDS_reserved: "set RESERVED_SECTIONS \<subseteq> set SPEC_FIELDS"
  "''collectors'' \<in> set SPEC_FIELDS" "''heartbeat'' \<in> set SPEC_FIELDS" "''health'' \<in> set SPEC_FIELDS"
  "''collectors'' \<notin> set RESERVED_SECTIONS" "''heartbeat'' \<notin> set RESERVED_SECTIONS" "''health'' \<notin> set RESERVED_SECTIONS"
  by (simp_all add: SPEC_FIELDS_def RESERVED_SECTIONS_def)

lemma normal_spec_Inr:
  assumes "normal_spec sp = Inr s"
  shows "spec_ok s \<and> (\<exists>cs. (cfg_get sp ''collectors'' = PDict cs \<or> cfg_get sp ''collectors'' = PNone \<and> cs = [])
     \<and> cfg_get s ''collectors'' = PDict (deny_by_default cs))"
proof -
  from assms obtain cs s1 s2 where known: "\<not> unknown_fields sp SPEC_FIELDS"
      and cs: "cfg_get sp ''collectors'' = PDict cs \<or> cfg_get sp ''collectors'' = PNone \<and> cs = []"
      and check: "check_collectors cs = Inr ()"
      and s1: "normal_section (dict_put sp (''collectors'', PDict (deny_by_default cs))) ''heartbeat'' ''interval_seconds''
         60 HEARTBEAT_INTERVAL_BOUNDS = Inr s1"
      and s2: "normal_section s1 ''health'' ''collect_interval_seconds'' 30 HEALTH_INTERVAL_BOUNDS = Inr s2"
      and s: "check_reserved RESERVED_SECTIONS s2 = Inr s"
    by (auto simp: normal_spec_def reject_unknown_def sum_bind_Inr_iff split: pv.splits if_splits)
  have b: "fst HEARTBEAT_INTERVAL_BOUNDS \<le> snd HEARTBEAT_INTERVAL_BOUNDS"
    "fst HEALTH_INTERVAL_BOUNDS \<le> snd HEALTH_INTERVAL_BOUNDS"
    by (simp_all add: HEARTBEAT_INTERVAL_BOUNDS_def HEALTH_INTERVAL_BOUNDS_def)
  from normal_section_Inr [OF s1 b(1)] obtain v1 where
    v1: "s1 = dict_put (dict_put sp (''collectors'', PDict (deny_by_default cs))) (''heartbeat'', v1)"
      "interval_ok ''interval_seconds'' HEARTBEAT_INTERVAL_BOUNDS v1" by blast
  from normal_section_Inr [OF s2 b(2)] obtain v2 where v2: "s2 = dict_put s1 (''health'', v2)"
      "interval_ok ''collect_interval_seconds'' HEALTH_INTERVAL_BOUNDS v2" by blast
  note R = check_reserved_Inr [OF s]
  have same: "cfg_get s k = cfg_get s2 k" if "k \<notin> set RESERVED_SECTIONS" for k
    using R that by (simp add: cfg_get_def)
  have get: "cfg_get s ''collectors'' = PDict (deny_by_default cs)" "cfg_get s ''heartbeat'' = v1" "cfg_get s ''health'' = v2"
    using same SPEC_FIELDS_reserved by (simp_all add: v1 v2 cfg_get_dict_put)
  have "\<not> unknown_fields s2 SPEC_FIELDS"
    unfolding v1 v2 using known SPEC_FIELDS_reserved by (intro unknown_fields_put_known)
  with R have "\<not> unknown_fields s SPEC_FIELDS" unfolding unknown_fields_iff by (meson subset_trans)
  with R get v1(2) v2(2) deny_by_default_ok [OF check] have "spec_ok s" by (simp add: spec_ok_def)
  with cs get show ?thesis by blast
qed

lemma spec_ok_same:
  assumes "spec_ok s"
  shows "normal_spec s = Inr s"
proof -
  from assms obtain cs where cs: "cfg_get s ''collectors'' = PDict cs" "collectors_ok cs"
    by (auto simp: spec_ok_def split: pv.splits)
  then have "map_of s ''collectors'' = Some (PDict cs)" by (auto simp: cfg_get_def split: option.splits)
  with cs have "dict_put s (''collectors'', PDict (deny_by_default cs)) = s"
    by (simp add: deny_by_default_same dict_put_same)
  with assms cs collectors_ok_check [OF cs(2)] show ?thesis
    by (simp add: normal_spec_def spec_ok_def reject_unknown_def normal_section_same check_reserved_same)
qed

lemma policy_doc_ok_same:
  assumes "policy_doc_ok d"
  shows "validate_policy d = Inr d"
proof -
  from assms obtain s where s: "cfg_get d ''spec'' = PDict s" "spec_ok s"
    by (auto simp: policy_doc_ok_def split: pv.splits)
  then have "map_of d ''spec'' = Some (PDict s)" by (auto simp: cfg_get_def split: option.splits)
  then have "dict_put d (''spec'', PDict s) = d" by (rule dict_put_same)
  with assms s show ?thesis
    by (auto simp: validate_policy_def policy_doc_ok_def spec_ok_same ALLOWED_API_VERSIONS_def split: option.splits)
qed

lemma validate_policy_Inr:
  assumes "validate_policy doc = Inr d"
  shows "policy_doc_ok d \<and> (\<forall>c. collector_on d c = collector_on doc c)"
proof -
  from assms obtain s0 s where head: "cfg_get doc ''apiVersion'' \<in> PStr ` set ALLOWED_API_VERSIONS"
      "cfg_get doc ''kind'' = PStr ''AgentPolicy''" "case doc_name doc of None \<Rightarrow> False | Some n \<Rightarrow> strip n \<noteq> []"
      and s0: "cfg_get doc ''spec'' = PDict s0 \<or> cfg_get doc ''spec'' = PNone \<and> s0 = []"
      and s: "normal_spec s0 = Inr s" and d: "d = dict_put doc (''spec'', PDict s)"
    by (auto simp: validate_policy_def sum_bind_Inr_iff split: pv.splits option.splits if_splits)
  from normal_spec_Inr [OF s] obtain cs where ok: "spec_ok s"
      and cs: "cfg_get s0 ''collectors'' = PDict cs \<or> cfg_get s0 ''collectors'' = PNone \<and> cs = []"
      "cfg_get s ''collectors'' = PDict (deny_by_default cs)" by blast
  have "policy_doc_ok d" using head ok by (simp add: d policy_doc_ok_def doc_name_def cfg_get_dict_put)
  moreover have "collector_on d c = collector_on doc c" for c
  proof -
    have "collector_on d c = (case map_of cs c of Some (PDict m) \<Rightarrow> get_default m ''enabled'' (PBool True) = PBool True | _ \<Rightarrow> False)"
      using cs(2) by (auto simp: collector_on_def d cfg_get_dict_put map_of_deny_by_default get_default_def
          split: option.splits)
    also have "\<dots> = collector_on doc c"
      using s0 cs(1) by (auto simp: collector_on_def cfg_get_def split: option.splits)
    finally show ?thesis .
  qed
  ultimately show ?thesis by blast
qed

text \<open>C19. A validated policy names every known collector and no other, with a boolean switch, keeps both
  intervals inside their bounds and its reserved sections without content; validating it again changes
  nothing; and no collector is switched on or off that the document did not switch.\<close>

theorem validated_policy_well_formed:
  assumes "validate_policy doc = Inr d"
  shows "policy_doc_ok d \<and> validate_policy d = Inr d \<and> (\<forall>c. collector_on d c = collector_on doc c)"
  using validate_policy_Inr [OF assms] policy_doc_ok_same by blast

definition toy_policy_doc :: config where
  "toy_policy_doc = [(''apiVersion'', PStr ''lokilinux.io/v1''), (''kind'', PStr ''AgentPolicy''),
     (''metadata'', PDict [(''name'', PStr ''demo'')]),
     (''spec'', PDict [(''collectors'', PDict [(''sshd'', PDict [])]),
                      (''heartbeat'', PDict [(''interval_seconds'', PInt 5)]), (''logs'', PDict [])])]"

definition toy_policy_normal :: config where
  "toy_policy_normal = (case validate_policy toy_policy_doc of Inr d \<Rightarrow> d | Inl e \<Rightarrow> [])"

lemma toy_policy_validated: "validate_policy toy_policy_doc = Inr toy_policy_normal"
proof -
  have "is_ok (validate_policy toy_policy_doc)" by code_simp
  then show ?thesis by (cases "validate_policy toy_policy_doc") (simp_all add: toy_policy_normal_def)
qed

theorem validated_policy_well_formed_witness:
  "policy_doc_ok toy_policy_normal \<and> validate_policy toy_policy_normal = Inr toy_policy_normal
   \<and> collector_on toy_policy_normal ''sshd'' \<and> \<not> collector_on toy_policy_normal ''auditd''"
proof -
  have "collector_on toy_policy_doc ''sshd''" "\<not> collector_on toy_policy_doc ''auditd''" by code_simp+
  with validated_policy_well_formed [OF toy_policy_validated] show ?thesis by simp
qed

end
