(* ===== verification/AgentPolicies.thy ===== *)
theory AgentPolicies
  imports PolicyDoc Store
begin

text \<open>
  Agent policies (\<open>services/agent_policies.py\<close>) and their delivery over the heartbeat
  (\<open>services/agent_policy_service.py\<close>): drafts and versions, publication with hash and signature, assignment,
  deployment, the envelope an agent is offered and the report it sends back. The policy columns of an agent's
  row are a row of their own. Routes commit on success and roll back on an exception, so an operation is a
  value or an exception. Row ids, the clock, YAML, SHA-256 and the signature are parameters.
\<close>

section \<open>Rows\<close>

datatype policy_status = GP_DRAFT | GP_ACTIVE | GP_ARCHIVED
datatype version_status = GV_DRAFT | GV_PUBLISHED
datatype deployment_status = GD_PENDING | GD_DELIVERED | GD_APPLIED | GD_FAILED | GD_ROLLED_BACK
datatype agent_policy_status = PA_IDLE | PA_SYNCING | PA_PENDING | PA_FAILED

record agent_policy =
  gp_id :: uuid
  gp_name :: string
  gp_description :: string
  gp_status :: policy_status
  gp_current :: "nat option"

record policy_version =
  gv_id :: uuid
  gv_policy :: uuid
  gv_number :: nat
  gv_payload :: config
  gv_hash :: string
  gv_signature :: string
  gv_key_id :: string
  gv_status :: version_status

record policy_assignment =
  ga_id :: uuid
  ga_policy :: uuid
  ga_version :: "uuid option"
  ga_scope_type :: string
  ga_scope_ref :: "uuid option"
  ga_enabled :: bool

record policy_deployment =
  gd_id :: uuid
  gd_assignment :: uuid
  gd_agent :: uuid
  gd_version :: uuid
  gd_status :: deployment_status
  gd_error :: "string option"
  gd_started :: time
  gd_finished :: "time option"

record policy_agent =
  pa_id :: uuid
  pa_agent_id :: string
  pa_active :: bool
  pa_group :: "uuid option"
  pa_desired :: "uuid option"
  pa_current :: "uuid option"
  pa_status :: agent_policy_status
  pa_error :: "string option"
  pa_updated :: "time option"

record agent_group =
  gr_id :: uuid
  gr_name :: string

record policy_audit =
  au_action :: string
  au_kind :: string
  au_resource :: "uuid option"
  au_old :: "nat option"
  au_new :: "nat option"

record policy_store =
  ps_policies :: "agent_policy list"
  ps_versions :: "policy_version list"
  ps_assignments :: "policy_assignment list"
  ps_deployments :: "policy_deployment list"
  ps_agents :: "policy_agent list"
  ps_groups :: "agent_group list"
  ps_audit :: "policy_audit list"

definition empty_policies :: policy_store where
  "empty_policies = \<lparr>ps_policies = [], ps_versions = [], ps_assignments = [], ps_deployments = [], ps_agents = [],
     ps_groups = [], ps_audit = []\<rparr>"

definition audit_policy :: "string \<Rightarrow> string \<Rightarrow> uuid option \<Rightarrow> nat option \<Rightarrow> nat option \<Rightarrow> policy_store \<Rightarrow> policy_store" where
  "audit_policy action what rid old new st =
    st\<lparr>ps_audit := ps_audit st @ [\<lparr>au_action = action, au_kind = what, au_resource = rid, au_old = old, au_new = new\<rparr>]\<rparr>"

definition get_policy :: "uuid \<Rightarrow> policy_store \<Rightarrow> exn + agent_policy" where
  "get_policy pid st = (case sql_get gp_id (ps_policies st) pid of
      None \<Rightarrow> Inl (HTTPException 404 ''Policy not found'') | Some p \<Rightarrow> Inr p)"

section \<open>Documents with the name of their policy\<close>

definition rename_doc :: "string \<Rightarrow> config \<Rightarrow> config" where
  "rename_doc name doc =
    (let m = (case cfg_get doc ''metadata'' of PDict m \<Rightarrow> m | _ \<Rightarrow> [])
     in dict_put doc (''metadata'', PDict (dict_put m (''name'', PStr name))))"

definition doc_name_value :: "config \<Rightarrow> pv" where
  "doc_name_value doc = (case cfg_get doc ''metadata'' of PDict m \<Rightarrow> cfg_get m ''name'' | _ \<Rightarrow> PNone)"

definition named_doc :: "(string \<Rightarrow> pv option) \<Rightarrow> string \<Rightarrow> string \<Rightarrow> exn + config" where
  "named_doc yaml_load src name =
    sum_bind (parse_policy_yaml yaml_load src) (\<lambda>raw.
    sum_bind (validate_policy raw) (\<lambda>doc.
      if doc_name_value doc = PStr name then Inr doc else validate_policy (rename_doc name doc)))"

definition skeleton_doc :: "string \<Rightarrow> exn + config" where
  "skeleton_doc name = validate_policy
     [(''apiVersion'', PStr ''lokilinux.io/v1''), (''kind'', PStr ''AgentPolicy''),
      (''metadata'', PDict [(''name'', PStr name)])]"

definition draft_version :: "(string \<Rightarrow> string) \<Rightarrow> uuid \<Rightarrow> uuid \<Rightarrow> nat \<Rightarrow> config \<Rightarrow> policy_version" where
  "draft_version sha vid pid n doc =
    \<lparr>gv_id = vid, gv_policy = pid, gv_number = n, gv_payload = doc, gv_hash = policy_hash sha doc,
     gv_signature = [], gv_key_id = ''policy-signing-v1'', gv_status = GV_DRAFT\<rparr>"

section \<open>Policies and versions\<close>

definition create_policy ::
    "(string \<Rightarrow> pv option) \<Rightarrow> (string \<Rightarrow> string) \<Rightarrow> uuid \<Rightarrow> uuid \<Rightarrow> string \<Rightarrow> string \<Rightarrow> string
     \<Rightarrow> policy_store \<Rightarrow> exn + policy_store" where
  "create_policy yaml_load sha pid vid name description src st =
    sum_bind (sql_one (\<lambda>p. gp_name p = name) (ps_policies st)) (\<lambda>existing.
      if existing \<noteq> None then Inl (HTTPException 409 ''Policy already exists'')
      else sum_bind (if strip src \<noteq> [] then named_doc yaml_load src name else skeleton_doc name) (\<lambda>doc.
        Inr (audit_policy ''create'' ''agent_policy'' (Some pid) None (Some 1)
          (st\<lparr>ps_policies := ps_policies st @
                [\<lparr>gp_id = pid, gp_name = name, gp_description = description, gp_status = GP_DRAFT, gp_current = None\<rparr>],
             ps_versions := ps_versions st @ [draft_version sha vid pid 1 doc]\<rparr>))))"

definition describe_policy :: "uuid \<Rightarrow> string option \<Rightarrow> policy_store \<Rightarrow> policy_store" where
  "describe_policy pid description st =
    (case description of None \<Rightarrow> st
     | Some t \<Rightarrow> st\<lparr>ps_policies := sql_modify gp_id pid (\<lambda>p. p\<lparr>gp_description := t\<rparr>) (ps_policies st)\<rparr>)"

definition update_policy ::
    "(string \<Rightarrow> pv option) \<Rightarrow> (string \<Rightarrow> string) \<Rightarrow> uuid \<Rightarrow> string option \<Rightarrow> string option
     \<Rightarrow> policy_store \<Rightarrow> exn + policy_store" where
  "update_policy yaml_load sha pid description src st =
    sum_bind (get_policy pid st) (\<lambda>p.
    sum_bind
      (case src of
         None \<Rightarrow> Inr (describe_policy pid description st)
       | Some t \<Rightarrow>
          if strip t = [] then Inr (describe_policy pid description st)
          else if gp_status p \<noteq> GP_DRAFT
          then Inl (HTTPException 409 ''Published policies are immutable'')
          else sum_bind (named_doc yaml_load t (gp_name p)) (\<lambda>doc.
            sum_bind (sql_one (\<lambda>v. gv_policy v = pid \<and> gv_number v = 1 \<and> gv_status v = GV_DRAFT) (ps_versions st)) (\<lambda>draft.
              case draft of
                None \<Rightarrow> Inl (HTTPException 409 ''No editable draft version'')
              | Some v \<Rightarrow> (let st1 = describe_policy pid description st in
                  Inr (st1\<lparr>ps_versions := sql_modify gv_id (gv_id v)
                    (\<lambda>v. v\<lparr>gv_payload := doc, gv_hash := policy_hash sha doc\<rparr>) (ps_versions st1)\<rparr>)))))
      (\<lambda>st'. Inr (audit_policy ''update'' ''agent_policy'' (Some pid) None None st')))"

text \<open>The rows that refer to a deleted policy go with it; agents lose their reference to its versions.\<close>

definition drop_policy :: "uuid \<Rightarrow> policy_store \<Rightarrow> policy_store" where
  "drop_policy pid st =
    (let gone = gv_id ` set (filter (\<lambda>v. gv_policy v = pid) (ps_versions st));
         loose = ga_id ` set (filter (\<lambda>a. ga_policy a = pid) (ps_assignments st));
         unset = (\<lambda>x. case x of None \<Rightarrow> None | Some v \<Rightarrow> if v \<in> gone then None else Some v)
     in st\<lparr>ps_policies := filter (\<lambda>p. gp_id p \<noteq> pid) (ps_policies st),
           ps_versions := filter (\<lambda>v. gv_policy v \<noteq> pid) (ps_versions st),
           ps_assignments := filter (\<lambda>a. ga_policy a \<noteq> pid \<and> (\<forall>v \<in> set_option (ga_version a). v \<notin> gone)) (ps_assignments st),
           ps_deployments := filter (\<lambda>d. gd_version d \<notin> gone \<and> gd_assignment d \<notin> loose) (ps_deployments st),
           ps_agents := map (\<lambda>a. a\<lparr>pa_desired := unset (pa_desired a), pa_current := unset (pa_current a)\<rparr>) (ps_agents st)\<rparr>)"

definition delete_policy :: "uuid \<Rightarrow> policy_store \<Rightarrow> exn + policy_store" where
  "delete_policy pid st =
    sum_bind (get_policy pid st) (\<lambda>p.
      if list_ex (\<lambda>a. ga_policy a = pid \<and> ga_enabled a) (ps_assignments st)
      then Inl (HTTPException 409 ''Policy has active assignments'')
      else if gp_status p \<noteq> GP_ARCHIVED
      then Inr (audit_policy ''update'' ''agent_policy'' (Some pid) None None
        (st\<lparr>ps_policies := sql_modify gp_id pid (\<lambda>p. p\<lparr>gp_status := GP_ARCHIVED\<rparr>) (ps_policies st)\<rparr>))
      else Inr (drop_policy pid st))"

text \<open>A version is looked up by its id alone.\<close>

definition get_policy_version :: "string \<Rightarrow> policy_store \<Rightarrow> exn + policy_version" where
  "get_policy_version vid st =
    (if vid = [] then Inl (HTTPException 404 ''Version not found'')
     else (case uuid_parse vid of
         None \<Rightarrow> Inl (ValueError ''badly formed hexadecimal UUID string'')
       | Some u \<Rightarrow> (case sql_get gv_id (ps_versions st) u of
           None \<Rightarrow> Inl (HTTPException 404 ''Version not found'')
         | Some v \<Rightarrow> Inr v)))"

definition latest_number :: "uuid \<Rightarrow> policy_store \<Rightarrow> nat" where
  "latest_number pid st = fold max (map gv_number (filter (\<lambda>v. gv_policy v = pid) (ps_versions st))) 0"

definition create_policy_version ::
    "(string \<Rightarrow> pv option) \<Rightarrow> (string \<Rightarrow> string) \<Rightarrow> uuid \<Rightarrow> uuid \<Rightarrow> string \<Rightarrow> policy_store \<Rightarrow> exn + policy_store" where
  "create_policy_version yaml_load sha vid pid src st =
    sum_bind (get_policy pid st) (\<lambda>p.
    sum_bind (named_doc yaml_load src (gp_name p)) (\<lambda>doc.
      (let n = latest_number pid st + 1 in
       Inr (audit_policy ''update'' ''agent_policy'' (Some pid) None (Some n)
         (st\<lparr>ps_versions := ps_versions st @ [draft_version sha vid pid n doc]\<rparr>)))))"

definition publish_policy_version :: "(string \<Rightarrow> string) \<Rightarrow> uuid \<Rightarrow> string \<Rightarrow> policy_store \<Rightarrow> exn + policy_store" where
  "publish_policy_version sign pid vid st =
    sum_bind (get_policy pid st) (\<lambda>p.
    sum_bind (get_policy_version vid st) (\<lambda>v.
      if gv_status v = GV_PUBLISHED then Inl (HTTPException 409 ''Already published (immutable)'')
      else Inr (audit_policy ''publish'' ''agent_policy'' (Some pid) (gp_current p) (Some (gv_number v))
        (st\<lparr>ps_versions := sql_modify gv_id (gv_id v)
              (\<lambda>v. v\<lparr>gv_signature := sign_policy sign (gv_payload v), gv_status := GV_PUBLISHED\<rparr>) (ps_versions st),
           ps_policies := sql_modify gp_id pid
              (\<lambda>p. p\<lparr>gp_status := GP_ACTIVE, gp_current := Some (gv_number v)\<rparr>) (ps_policies st)\<rparr>))))"

definition template_number :: "agent_policy \<Rightarrow> nat" where
  "template_number p = (case gp_current p of None \<Rightarrow> 1 | Some n \<Rightarrow> if n = 0 then 1 else n)"

definition policy_from_template ::
    "(string \<Rightarrow> pv option) \<Rightarrow> (string \<Rightarrow> string) \<Rightarrow> uuid \<Rightarrow> uuid \<Rightarrow> string \<Rightarrow> string \<Rightarrow> policy_store \<Rightarrow> exn + policy_store" where
  "policy_from_template yaml_load sha pid vid key name st =
    sum_bind (sql_one (\<lambda>p. gp_name p = key) (ps_policies st)) (\<lambda>template.
      case template of
        None \<Rightarrow> Inl (HTTPException 404 ''Template not found'')
      | Some t \<Rightarrow>
          sum_bind (create_policy yaml_load sha pid vid name (''Cloned from '' @ key @ ''.'') [] st) (\<lambda>st1.
          sum_bind (sql_one (\<lambda>v. gv_policy v = gp_id t \<and> gv_number v = template_number t) (ps_versions st1)) (\<lambda>src.
            case src of
              None \<Rightarrow> Inr st1
            | Some s \<Rightarrow>
                sum_bind (validate_policy (rename_doc name (gv_payload s))) (\<lambda>doc.
                  Inr (st1\<lparr>ps_versions := sql_modify gv_id vid
                    (\<lambda>v. v\<lparr>gv_payload := doc, gv_hash := policy_hash sha doc\<rparr>) (ps_versions st1)\<rparr>)))))"

section \<open>Assignments and deployments\<close>

definition parse_ref :: "string option \<Rightarrow> exn + uuid option" where
  "parse_ref r = (case r of
      None \<Rightarrow> Inr None
    | Some t \<Rightarrow> if t = [] then Inr None
        else (case uuid_parse t of None \<Rightarrow> Inl (ValueError ''badly formed hexadecimal UUID string'') | Some u \<Rightarrow> Inr (Some u)))"

definition create_assignment ::
    "uuid \<Rightarrow> uuid \<Rightarrow> string \<Rightarrow> string option \<Rightarrow> string option \<Rightarrow> bool \<Rightarrow> policy_store \<Rightarrow> exn + policy_store" where
  "create_assignment aid pid scope ref vid enabled st =
    sum_bind (get_policy pid st) (\<lambda>p.
      if scope \<notin> {''AGENT'', ''GROUP'', ''TENANT''} then Inl (HTTPException 422 ''Invalid scope_type'')
      else sum_bind
        (if vid \<in> {None, Some []} then Inr None
         else sum_bind (get_policy_version (the vid) st) (\<lambda>v.
           if gv_status v \<noteq> GV_PUBLISHED then Inl (HTTPException 409 ''Only published versions are deployable'')
           else Inr (Some (gv_id v))))
        (\<lambda>version. sum_bind (parse_ref ref) (\<lambda>r.
          Inr (audit_policy ''assign'' ''agent_policy_assignment'' None None None
            (st\<lparr>ps_assignments := ps_assignments st @
               [\<lparr>ga_id = aid, ga_policy = pid, ga_version = version, ga_scope_type = scope, ga_scope_ref = r,
                 ga_enabled = enabled\<rparr>]\<rparr>)))))"

definition disable_assignment :: "uuid \<Rightarrow> policy_store \<Rightarrow> exn + policy_store" where
  "disable_assignment aid st =
    (case sql_get ga_id (ps_assignments st) aid of
       None \<Rightarrow> Inl (HTTPException 404 ''Assignment not found'')
     | Some a \<Rightarrow> Inr (st\<lparr>ps_assignments := sql_modify ga_id aid (\<lambda>a. a\<lparr>ga_enabled := False\<rparr>) (ps_assignments st)\<rparr>))"

text \<open>The agents of a scope: a type other than GROUP and AGENT means every active agent.\<close>

definition agents_in_scope :: "string \<Rightarrow> string option \<Rightarrow> policy_agent list \<Rightarrow> exn + policy_agent list" where
  "agents_in_scope scope ref rows =
    (let active = filter pa_active rows in
     if scope = ''GROUP'' then
       (if ref \<in> {None, Some []} then Inl (HTTPException 422 ''scope_ref required for GROUP scope'')
        else sum_bind (parse_ref ref) (\<lambda>g. Inr (filter (\<lambda>a. pa_group a = g) active)))
     else if scope = ''AGENT'' then
       (case ref of
          None \<Rightarrow> Inl (TypeError ''one of the hex, bytes, bytes_le, fields, or int arguments must be given'')
        | Some t \<Rightarrow> (case uuid_parse t of
              None \<Rightarrow> Inl (ValueError ''badly formed hexadecimal UUID string'')
            | Some u \<Rightarrow> Inr (filter (\<lambda>a. pa_id a = u) active)))
     else Inr active)"

definition new_deployment :: "uuid \<Rightarrow> uuid \<Rightarrow> uuid \<Rightarrow> uuid \<Rightarrow> time \<Rightarrow> policy_deployment" where
  "new_deployment did aid agent vid now =
    \<lparr>gd_id = did, gd_assignment = aid, gd_agent = agent, gd_version = vid, gd_status = GD_PENDING,
     gd_error = None, gd_started = now, gd_finished = None\<rparr>"

text \<open>One agent of a fan-out: its deployment, the desired version on its row, the audit entry.\<close>

definition deploy_to ::
    "time \<Rightarrow> (uuid \<Rightarrow> uuid) \<Rightarrow> uuid \<Rightarrow> uuid \<Rightarrow> nat option \<Rightarrow> policy_agent \<Rightarrow> policy_store \<Rightarrow> policy_store" where
  "deploy_to now dids aid vid n a st =
    audit_policy ''deploy'' ''agent_policy_deployment'' (Some (dids (pa_id a))) None n
      (st\<lparr>ps_deployments := ps_deployments st @ [new_deployment (dids (pa_id a)) aid (pa_id a) vid now],
         ps_agents := sql_update (\<lambda>r. pa_agent_id r = pa_agent_id a)
           (\<lambda>r. r\<lparr>pa_desired := Some vid, pa_status := PA_PENDING\<rparr>) (ps_agents st)\<rparr>)"

definition deploy_policy ::
    "time \<Rightarrow> uuid \<Rightarrow> (uuid \<Rightarrow> uuid) \<Rightarrow> uuid \<Rightarrow> string \<Rightarrow> string option \<Rightarrow> policy_store
     \<Rightarrow> exn + (policy_agent list \<times> policy_store)" where
  "deploy_policy now aid dids pid scope ref st =
    sum_bind (get_policy pid st) (\<lambda>p.
    sum_bind (parse_ref ref) (\<lambda>r.
    sum_bind (sql_one (\<lambda>v. gv_policy v = pid \<and> Some (gv_number v) = gp_current p \<and> gv_status v = GV_PUBLISHED)
                (ps_versions st)) (\<lambda>found.
      case found of
        None \<Rightarrow> Inl (HTTPException 409 ''Policy has no published current version'')
      | Some v \<Rightarrow>
          sum_bind (agents_in_scope scope ref (ps_agents st)) (\<lambda>targets.
            if targets = [] then Inl (HTTPException 409 ''No matching agents for deployment'')
            else Inr (targets, fold (deploy_to now dids aid (gv_id v) (gp_current p)) targets
              (st\<lparr>ps_assignments := ps_assignments st @
                 [\<lparr>ga_id = aid, ga_policy = pid, ga_version = None, ga_scope_type = scope, ga_scope_ref = r,
                   ga_enabled = True\<rparr>]\<rparr>))))))"

text \<open>The query of the target version calls a method of the coroutine instead of its result, so as soon as the
  agent has a desired version the call ends in an \<open>AttributeError\<close>; what follows is never reached.\<close>

definition rollback_agent :: "uuid \<Rightarrow> nat \<Rightarrow> policy_store \<Rightarrow> exn + policy_store" where
  "rollback_agent aid to_version st =
    (case sql_get pa_id (ps_agents st) aid of
       None \<Rightarrow> Inl (HTTPException 404 ''Agent not found'')
     | Some a \<Rightarrow>
        (case Option.bind (pa_desired a) (sql_get gv_id (ps_versions st)) of
           Some v \<Rightarrow> Inl (AttributeError ''coroutine object has no attribute scalar_one_or_none'')
         | None \<Rightarrow> Inl (HTTPException 404 ''Published version not found for this agent's policy'')))"

definition create_agent_group :: "uuid \<Rightarrow> string \<Rightarrow> policy_store \<Rightarrow> exn + policy_store" where
  "create_agent_group gid name st =
    sum_bind (sql_one (\<lambda>g. gr_name g = name) (ps_groups st)) (\<lambda>existing.
      if existing \<noteq> None then Inl (HTTPException 409 ''Group already exists'')
      else Inr (audit_policy ''create'' ''agent_group'' (Some gid) None None
        (st\<lparr>ps_groups := ps_groups st @ [\<lparr>gr_id = gid, gr_name = name\<rparr>]\<rparr>)))"

section \<open>Delivery over the heartbeat\<close>

record policy_envelope =
  en_deployment :: uuid
  en_policy :: uuid
  en_version :: nat
  en_hash :: string
  en_signature :: string
  en_key_id :: string
  en_payload :: string

definition unsettled :: "policy_deployment \<Rightarrow> bool" where
  "unsettled d = (gd_status d \<in> {GD_PENDING, GD_DELIVERED})"

definition newest_deployments :: "policy_deployment list \<Rightarrow> policy_deployment list" where
  "newest_deployments ds = sort_key (\<lambda>d. - gd_started d) ds"

definition offered_deployment :: "uuid \<Rightarrow> policy_store \<Rightarrow> policy_deployment option" where
  "offered_deployment agent st =
    (case newest_deployments (filter (\<lambda>d. gd_agent d = agent \<and> unsettled d) (ps_deployments st)) of
       [] \<Rightarrow> None | d # _ \<Rightarrow> Some d)"

definition set_policy_agent :: "uuid \<Rightarrow> (policy_agent \<Rightarrow> policy_agent) \<Rightarrow> policy_store \<Rightarrow> policy_store" where
  "set_policy_agent agent f st = st\<lparr>ps_agents := sql_modify pa_id agent f (ps_agents st)\<rparr>"

definition set_deployment :: "uuid \<Rightarrow> (policy_deployment \<Rightarrow> policy_deployment) \<Rightarrow> policy_store \<Rightarrow> policy_store" where
  "set_deployment did f st = st\<lparr>ps_deployments := sql_modify gd_id did f (ps_deployments st)\<rparr>"

definition pending_policy_envelope :: "uuid \<Rightarrow> policy_store \<Rightarrow> policy_envelope option \<times> policy_store" where
  "pending_policy_envelope agent st =
    (case offered_deployment agent st of
       None \<Rightarrow> (None, st)
     | Some d \<Rightarrow>
        (case sql_get gv_id (ps_versions st) (gd_version d) of
           None \<Rightarrow> (None, st)
         | Some v \<Rightarrow>
            if gv_signature v = [] then (None, st)
            else (Some \<lparr>en_deployment = gd_id d, en_policy = gv_policy v, en_version = gv_number v, en_hash = gv_hash v,
                    en_signature = gv_signature v, en_key_id = gv_key_id v,
                    en_payload = canonical_json (PDict (gv_payload v))\<rparr>,
                  set_policy_agent agent (\<lambda>a. a\<lparr>pa_status := PA_SYNCING\<rparr>)
                    (set_deployment (gd_id d) (\<lambda>d. d\<lparr>gd_status := GD_DELIVERED\<rparr>) st))))"

text \<open>The deployment a report is about, among the five newest of the agent: the one it names, else the newest
  delivered one.\<close>

definition reported_deployment :: "uuid \<Rightarrow> config \<Rightarrow> policy_store \<Rightarrow> policy_deployment option" where
  "reported_deployment agent report st =
    (let named = pystr (py_or (get_default report ''deployment_id'' (PStr [])) (PStr []));
         recent = take 5 (newest_deployments (filter (\<lambda>d. gd_agent d = agent) (ps_deployments st)))
     in case sql_first (\<lambda>d. named \<noteq> [] \<and> gd_id d = named) recent of
          Some d \<Rightarrow> Some d
        | None \<Rightarrow> sql_first (\<lambda>d. gd_status d = GD_DELIVERED) recent)"

definition apply_policy_report :: "time \<Rightarrow> uuid \<Rightarrow> config \<Rightarrow> policy_store \<Rightarrow> policy_store" where
  "apply_policy_report now agent report st =
    (let result = pystr (get_default report ''result'' (PStr [])) in
     if result \<notin> {''applied'', ''failed''} then st
     else (case reported_deployment agent report st of
         None \<Rightarrow> st
       | Some d \<Rightarrow>
          if result = ''applied'' then
            (let st1 = set_deployment (gd_id d) (\<lambda>d. d\<lparr>gd_status := GD_APPLIED, gd_finished := Some now\<rparr>) st;
                 st2 = set_policy_agent agent (\<lambda>a. a\<lparr>pa_current := Some (gd_version d), pa_status := PA_IDLE,
                         pa_error := None, pa_updated := Some now\<rparr>) st1
             in st2\<lparr>ps_deployments := sql_update
                  (\<lambda>x. gd_agent x = agent \<and> unsettled x \<and> gd_version x = gd_version d \<and> gd_id x \<noteq> gd_id d)
                  (\<lambda>x. x\<lparr>gd_status := GD_APPLIED, gd_finished := Some now\<rparr>) (ps_deployments st2)\<rparr>)
          else
            (let err = take 500 (pystr (get_default report ''error'' (PStr []))) in
             set_policy_agent agent (\<lambda>a. a\<lparr>pa_status := PA_FAILED, pa_error := Some err, pa_desired := pa_current a\<rparr>)
               (set_deployment (gd_id d) (\<lambda>d. d\<lparr>gd_status := GD_FAILED, gd_error := Some err, gd_finished := Some now\<rparr>) st))))"

text \<open>The policy part of a heartbeat: the report of the last cycle, then the envelope of an open deployment.\<close>

definition heartbeat_policy :: "time \<Rightarrow> uuid \<Rightarrow> pv \<Rightarrow> policy_store \<Rightarrow> policy_envelope option \<times> policy_store" where
  "heartbeat_policy now agent report st =
    pending_policy_envelope agent
      (case report of
         PDict r \<Rightarrow> if truthy (cfg_get r ''policy_id'') then apply_policy_report now agent r st else st
       | _ \<Rightarrow> st)"

end
