(* ===== verification/AgentPolicyLaws.thy ===== *)
theory AgentPolicyLaws
  imports AgentPolicies PolicyDocLaws
begin

text \<open>
  What agent policies guarantee over every interleaving of operators and heartbeats: versions are hashed, valid
  and, once published, signed and frozen; what an agent is offered; what a deployment does to the agents; and
  how superseded deployments come back.
\<close>

section \<open>The step relation\<close>

text \<open>New row ids are new. The environment enrolls and changes agents and their rows.\<close>

inductive policy_step ::
    "(string \<Rightarrow> pv option) \<Rightarrow> (string \<Rightarrow> string) \<Rightarrow> (string \<Rightarrow> string) \<Rightarrow> policy_store \<Rightarrow> policy_store \<Rightarrow> bool"
  for yaml_load sha sign where
  create: "create_policy yaml_load sha pid vid name description src st = Inr st' \<Longrightarrow> vid \<notin> gv_id ` set (ps_versions st)
    \<Longrightarrow> policy_step yaml_load sha sign st st'"
| update: "update_policy yaml_load sha pid description src' st = Inr st' \<Longrightarrow> policy_step yaml_load sha sign st st'"
| delete: "delete_policy pid st = Inr st' \<Longrightarrow> policy_step yaml_load sha sign st st'"
| version: "create_policy_version yaml_load sha vid pid src st = Inr st' \<Longrightarrow> vid \<notin> gv_id ` set (ps_versions st)
    \<Longrightarrow> policy_step yaml_load sha sign st st'"
| publish: "publish_policy_version sign pid v st = Inr st' \<Longrightarrow> policy_step yaml_load sha sign st st'"
| template: "policy_from_template yaml_load sha pid vid key name st = Inr st' \<Longrightarrow> vid \<notin> gv_id ` set (ps_versions st)
    \<Longrightarrow> policy_step yaml_load sha sign st st'"
| assign: "create_assignment aid pid scope ref v' enabled st = Inr st' \<Longrightarrow> policy_step yaml_load sha sign st st'"
| disable: "disable_assignment aid st = Inr st' \<Longrightarrow> policy_step yaml_load sha sign st st'"
| deploy: "deploy_policy now aid dids pid scope ref st = Inr (targets, st') \<Longrightarrow> policy_step yaml_load sha sign st st'"
| group: "create_agent_group gid name st = Inr st' \<Longrightarrow> policy_step yaml_load sha sign st st'"
| heartbeat: "heartbeat_policy now agent report st = (e, st') \<Longrightarrow> policy_step yaml_load sha sign st st'"
| environment: "ps_versions st' = ps_versions st \<Longrightarrow> ps_policies st' = ps_policies st \<Longrightarrow> policy_step yaml_load sha sign st st'"

section \<open>Sound versions\<close>

definition version_sound :: "(string \<Rightarrow> string) \<Rightarrow> (string \<Rightarrow> string) \<Rightarrow> policy_version \<Rightarrow> bool" where
  "version_sound sha sign v =
    (gv_hash v = policy_hash sha (gv_payload v) \<and> policy_doc_ok (gv_payload v)
     \<and> gv_signature v = (if gv_status v = GV_PUBLISHED then sign_policy sign (gv_payload v) else []))"

definition versions_ok :: "(string \<Rightarrow> string) \<Rightarrow> (string \<Rightarrow> string) \<Rightarrow> policy_store \<Rightarrow> bool" where
  "versions_ok sha sign st =
    (distinct (map gv_id (ps_versions st)) \<and> (\<forall>v \<in> set (ps_versions st). version_sound sha sign v))"

definition keeps_versions :: "(string \<Rightarrow> string) \<Rightarrow> (string \<Rightarrow> string) \<Rightarrow> policy_store \<Rightarrow> policy_store \<Rightarrow> bool" where
  "keeps_versions sha sign st st' =
    (versions_ok sha sign st \<longrightarrow> versions_ok sha sign st' \<and>
      (\<forall>v \<in> set (ps_versions st). gv_status v = GV_PUBLISHED \<longrightarrow> gv_policy v \<in> gp_id ` set (ps_policies st')
         \<longrightarrow> v \<in> set (ps_versions st')))"

lemma keeps_same: "ps_versions st' = ps_versions st \<Longrightarrow> keeps_versions sha sign st st'"
  by (simp add: keeps_versions_def versions_ok_def)

lemma keeps_append:
  assumes "ps_versions st' = ps_versions st @ [draft_version sha vid pid n doc]" and "vid \<notin> gv_id ` set (ps_versions st)"
    and "policy_doc_ok doc"
  shows "keeps_versions sha sign st st'"
  using assms by (simp add: keeps_versions_def versions_ok_def version_sound_def draft_version_def)

lemma keeps_modify:
  assumes vs: "ps_versions st' = sql_modify gv_id i f (ps_versions st)"
    and f: "\<And>v. v \<in> set (ps_versions st) \<Longrightarrow> gv_id v = i \<Longrightarrow> version_sound sha sign v \<Longrightarrow>
      gv_status v = GV_DRAFT \<and> gv_id (f v) = i \<and> version_sound sha sign (f v)"
  shows "keeps_versions sha sign st st'"
  unfolding keeps_versions_def
proof
  assume ok: "versions_ok sha sign st"
  have "map gv_id (ps_versions st') = map gv_id (ps_versions st)"
    using f ok by (auto simp: vs sql_modify_def sql_update_def versions_ok_def)
  moreover have "\<forall>v \<in> set (ps_versions st'). version_sound sha sign v"
    using f ok by (auto simp: vs sql_modify_def in_set_sql_update versions_ok_def)
  moreover have "v \<in> set (ps_versions st')" if "v \<in> set (ps_versions st)" "gv_status v = GV_PUBLISHED" for v
  proof -
    from f [OF that(1)] that ok have "gv_id v \<noteq> i" by (auto simp: versions_ok_def)
    with that(1) show ?thesis by (auto simp: vs sql_modify_def in_set_sql_update)
  qed
  ultimately show "versions_ok sha sign st' \<and> (\<forall>v \<in> set (ps_versions st). gv_status v = GV_PUBLISHED \<longrightarrow>
      gv_policy v \<in> gp_id ` set (ps_policies st') \<longrightarrow> v \<in> set (ps_versions st'))"
    using ok by (simp add: versions_ok_def)
qed

section \<open>The operations\<close>

lemma audit_policy_frame [simp]:
  "ps_versions (audit_policy a k r m n st) = ps_versions st" "ps_policies (audit_policy a k r m n st) = ps_policies st"
  "ps_deployments (audit_policy a k r m n st) = ps_deployments st" "ps_agents (audit_policy a k r m n st) = ps_agents st"
  "ps_assignments (audit_policy a k r m n st) = ps_assignments st"
  by (simp_all add: audit_policy_def)

lemma describe_policy_frame [simp]: "ps_versions (describe_policy pid t st) = ps_versions st"
  by (simp add: describe_policy_def split: option.split)

lemma named_doc_ok: "named_doc yaml_load src name = Inr doc \<Longrightarrow> policy_doc_ok doc"
  using validate_policy_Inr by (auto simp: named_doc_def sum_bind_Inr_iff split: if_splits)

lemma skeleton_doc_ok: "skeleton_doc name = Inr doc \<Longrightarrow> policy_doc_ok doc"
  using validate_policy_Inr by (auto simp: skeleton_doc_def)

lemma create_policy_Inr:
  assumes "create_policy yaml_load sha pid vid name description src st = Inr st'"
  shows "\<exists>doc. policy_doc_ok doc \<and> ps_versions st' = ps_versions st @ [draft_version sha vid pid 1 doc]"
proof -
  from assms obtain doc where doc: "(if strip src \<noteq> [] then named_doc yaml_load src name else skeleton_doc name) = Inr doc"
    and st': "ps_versions st' = ps_versions st @ [draft_version sha vid pid 1 doc]"
    by (auto simp: create_policy_def sum_bind_Inr_iff split: if_split_asm)
  from doc have "policy_doc_ok doc" using named_doc_ok skeleton_doc_ok by (simp split: if_splits)
  with st' show ?thesis by blast
qed

lemma keeps_create:
  "create_policy yaml_load sha pid vid name description src st = Inr st' \<Longrightarrow> vid \<notin> gv_id ` set (ps_versions st) \<Longrightarrow>
   keeps_versions sha sign st st'"
  using keeps_append by (blast dest: create_policy_Inr)

lemma keeps_update:
  assumes "update_policy yaml_load sha pid description src st = Inr st'"
  shows "keeps_versions sha sign st st'"
proof -
  from assms consider (same) "ps_versions st' = ps_versions st"
    | (draft) v :: policy_version and p :: agent_policy and doc t where "named_doc yaml_load t (gp_name p) = Inr doc"
        "sql_one (\<lambda>v. gv_policy v = pid \<and> gv_number v = 1 \<and> gv_status v = GV_DRAFT) (ps_versions st) = Inr (Some v)"
        "ps_versions st' = sql_modify gv_id (gv_id v) (\<lambda>v. v\<lparr>gv_payload := doc, gv_hash := policy_hash sha doc\<rparr>) (ps_versions st)"
  proof (cases "src = None \<or> (\<exists>t. src = Some t \<and> strip t = [])")
    case True
    with assms have "ps_versions st' = ps_versions st" by (auto simp: update_policy_def sum_bind_Inr_iff)
    with same show ?thesis .
  next
    case False
    then obtain t where "src = Some t" "strip t \<noteq> []" by (cases src) auto
    note src = this
    from assms obtain p where p: "get_policy pid st = Inr p" by (auto simp: update_policy_def sum_bind_Inr_iff)
    from assms src p have status: "gp_status p = GP_DRAFT" by (auto simp: update_policy_def split: if_splits)
    from assms src p status obtain doc where doc: "named_doc yaml_load t (gp_name p) = Inr doc"
      by (cases "named_doc yaml_load t (gp_name p)") (simp_all add: update_policy_def)
    let ?one = "sql_one (\<lambda>v. gv_policy v = pid \<and> gv_number v = 1 \<and> gv_status v = GV_DRAFT) (ps_versions st)"
    from assms src p status doc obtain v where v: "?one = Inr (Some v)"
      by (cases ?one) (auto simp: update_policy_def split: option.splits)
    from assms src p status doc v show ?thesis
      by (intro draft [OF doc v]) (auto simp: update_policy_def Let_def)
  qed
  then show ?thesis
  proof cases
    case same
    then show ?thesis by (rule keeps_same)
  next
    case draft
    from sql_one_SomeD [OF draft(2)] have v: "v \<in> set (ps_versions st)" "gv_status v = GV_DRAFT" by simp_all
    show ?thesis unfolding keeps_versions_def
    proof
      assume ok: "versions_ok sha sign st"
      have "gv_status w = GV_DRAFT" if "w \<in> set (ps_versions st)" "gv_id w = gv_id v" for w
        using ok v that by (auto simp: versions_ok_def distinct_map dest: inj_onD)
      then have "keeps_versions sha sign st st'"
        by (intro keeps_modify [OF draft(3)]) (simp add: version_sound_def named_doc_ok [OF draft(1)])
      with ok show "versions_ok sha sign st' \<and> (\<forall>v \<in> set (ps_versions st). gv_status v = GV_PUBLISHED \<longrightarrow>
          gv_policy v \<in> gp_id ` set (ps_policies st') \<longrightarrow> v \<in> set (ps_versions st'))"
        by (simp add: keeps_versions_def)
    qed
  qed
qed

lemma keeps_drop: "keeps_versions sha sign st (drop_policy pid st)"
  by (auto simp: keeps_versions_def versions_ok_def drop_policy_def Let_def distinct_map intro: inj_on_subset)

lemma keeps_delete: "delete_policy pid st = Inr st' \<Longrightarrow> keeps_versions sha sign st st'"
  by (auto simp: delete_policy_def sum_bind_Inr_iff keeps_drop intro: keeps_same split: if_splits)

lemma keeps_version:
  "create_policy_version yaml_load sha vid pid src st = Inr st' \<Longrightarrow> vid \<notin> gv_id ` set (ps_versions st) \<Longrightarrow>
   keeps_versions sha sign st st'"
  by (auto simp: create_policy_version_def Let_def sum_bind_Inr_iff intro!: keeps_append named_doc_ok)

lemma get_policy_version_Inr:
  "get_policy_version vid st = Inr v \<Longrightarrow> v \<in> set (ps_versions st)"
  by (auto simp: get_policy_version_def split: option.splits if_splits dest: sql_get_SomeD)

lemma keeps_publish:
  assumes "publish_policy_version sign pid vid st = Inr st'"
  shows "keeps_versions sha sign st st'"
  unfolding keeps_versions_def
proof
  assume ok: "versions_ok sha sign st"
  from assms obtain v where v: "get_policy_version vid st = Inr v" "gv_status v \<noteq> GV_PUBLISHED"
      and vs: "ps_versions st' = sql_modify gv_id (gv_id v)
        (\<lambda>v. v\<lparr>gv_signature := sign_policy sign (gv_payload v), gv_status := GV_PUBLISHED\<rparr>) (ps_versions st)"
    by (auto simp: publish_policy_version_def sum_bind_Inr_iff split: if_splits)
  from v(2) have "gv_status v = GV_DRAFT" by (cases "gv_status v") simp_all
  then have "gv_status w = GV_DRAFT" if "w \<in> set (ps_versions st)" "gv_id w = gv_id v" for w
    using ok get_policy_version_Inr [OF v(1)] that by (auto simp: versions_ok_def distinct_map dest: inj_onD)
  then have "keeps_versions sha sign st st'"
    by (intro keeps_modify [OF vs]) (simp add: version_sound_def)
  with ok show "versions_ok sha sign st' \<and> (\<forall>v \<in> set (ps_versions st). gv_status v = GV_PUBLISHED \<longrightarrow>
      gv_policy v \<in> gp_id ` set (ps_policies st') \<longrightarrow> v \<in> set (ps_versions st'))"
    by (simp add: keeps_versions_def)
qed

lemma keeps_template:
  assumes "policy_from_template yaml_load sha pid vid key name st = Inr st'" and fresh: "vid \<notin> gv_id ` set (ps_versions st)"
  shows "keeps_versions sha sign st st'"
proof -
  from assms(1) obtain t where t: "sql_one (\<lambda>p. gp_name p = key) (ps_policies st) = Inr (Some t)"
    by (auto simp: policy_from_template_def sum_bind_Inr_iff split: option.splits)
  from assms(1) obtain st1 where create: "create_policy yaml_load sha pid vid name (''Cloned from '' @ key @ ''.'') [] st = Inr st1"
    by (auto simp: policy_from_template_def sum_bind_Inr_iff split: option.splits)
  let ?src = "sql_one (\<lambda>v. gv_policy v = gp_id t \<and> gv_number v = template_number t) (ps_versions st1)"
  from assms(1) obtain src where src: "?src = Inr src"
    by (cases ?src) (simp_all add: policy_from_template_def t create [simplified])
  have st': "st' = st1 \<or> (\<exists>doc s. validate_policy (rename_doc name (gv_payload (s :: policy_version))) = Inr doc \<and> st' = st1\<lparr>ps_versions :=
        sql_modify gv_id vid (\<lambda>v. v\<lparr>gv_payload := doc, gv_hash := policy_hash sha doc\<rparr>) (ps_versions st1)\<rparr>)"
  proof (cases src)
    case None
    with assms(1) src show ?thesis by (simp add: policy_from_template_def t create [simplified])
  next
    case (Some s)
    with assms(1) src obtain doc where doc: "validate_policy (rename_doc name (gv_payload s)) = Inr doc"
      by (cases "validate_policy (rename_doc name (gv_payload s))") (simp_all add: policy_from_template_def t create [simplified])
    with assms(1) src Some have "st' = st1\<lparr>ps_versions :=
        sql_modify gv_id vid (\<lambda>v. v\<lparr>gv_payload := doc, gv_hash := policy_hash sha doc\<rparr>) (ps_versions st1)\<rparr>"
      by (simp add: policy_from_template_def t create [simplified])
    with doc show ?thesis by blast
  qed
  from create_policy_Inr [OF create] obtain doc0 where doc0: "policy_doc_ok doc0"
    and vs: "ps_versions st1 = ps_versions st @ [draft_version sha vid pid 1 doc0]" by blast
  from st' show ?thesis
  proof (elim disjE exE conjE)
    assume "st' = st1"
    with keeps_create [OF create fresh] show ?thesis by simp
  next
    fix doc and s :: policy_version
    assume doc: "validate_policy (rename_doc name (gv_payload s)) = Inr doc"
      and st': "st' = st1\<lparr>ps_versions :=
        sql_modify gv_id vid (\<lambda>v. v\<lparr>gv_payload := doc, gv_hash := policy_hash sha doc\<rparr>) (ps_versions st1)\<rparr>"
    have "sql_modify gv_id vid f (ps_versions st) = ps_versions st" for f
      using fresh by (auto simp: sql_modify_def sql_update_def intro!: map_idI)
    then have "ps_versions st' = ps_versions st @ [draft_version sha vid pid 1 doc]"
      by (simp add: st' vs sql_modify_def draft_version_def) (simp add: sql_update_def)
    with fresh validate_policy_Inr [OF doc] show ?thesis by (blast intro: keeps_append)
  qed
qed

lemma deploy_to_frame [simp]:
  "ps_versions (deploy_to now dids aid v n a st) = ps_versions st" "ps_policies (deploy_to now dids aid v n a st) = ps_policies st"
  by (simp_all add: deploy_to_def)

lemma fold_deploy_frame [simp]: "ps_versions (fold (deploy_to now dids aid v n) as st) = ps_versions st"
  by (induction as arbitrary: st) simp_all

lemma heartbeat_policy_versions: "heartbeat_policy now agent report st = (e, st') \<Longrightarrow> ps_versions st' = ps_versions st"
  by (auto simp: heartbeat_policy_def pending_policy_envelope_def apply_policy_report_def Let_def set_policy_agent_def
      set_deployment_def split: option.splits pv.splits if_splits)

lemma policy_step_keeps: "policy_step yaml_load sha sign st st' \<Longrightarrow> keeps_versions sha sign st st'"
proof (induction rule: policy_step.induct)
  case (deploy now aid dids pid scope ref st targets st')
  then have "ps_versions st' = ps_versions st" by (auto simp: deploy_policy_def sum_bind_Inr_iff split: option.splits if_splits)
  then show ?case by (rule keeps_same)
next
  case (assign aid pid scope ref v' enabled st st')
  then have "ps_versions st' = ps_versions st" by (auto simp: create_assignment_def sum_bind_Inr_iff split: if_splits)
  then show ?case by (rule keeps_same)
next
  case (disable aid st st')
  then have "ps_versions st' = ps_versions st" by (auto simp: disable_assignment_def split: option.splits)
  then show ?case by (rule keeps_same)
next
  case (group gid name st st')
  then have "ps_versions st' = ps_versions st" by (auto simp: create_agent_group_def sum_bind_Inr_iff split: if_splits)
  then show ?case by (rule keeps_same)
qed (auto intro: keeps_create keeps_update keeps_delete keeps_version keeps_publish keeps_template keeps_same
    dest: heartbeat_policy_versions)

lemma policy_reach_ok:
  "(policy_step yaml_load sha sign)\<^sup>*\<^sup>* st st' \<Longrightarrow> versions_ok sha sign st \<Longrightarrow> versions_ok sha sign st'"
  by (induction rule: rtranclp_induct) (auto simp: keeps_versions_def dest: policy_step_keeps)

end
