(* ===== verification/AgentPolicyProps.thy ===== *)
theory AgentPolicyProps
  imports AgentPolicyLaws
begin

text \<open>
  The properties of agent policies, on the reachable stores and on one deployment and its delivery.
\<close>

section \<open>Versions and envelopes\<close>

lemma empty_versions_ok: "versions_ok sha sign empty_policies"
  by (simp add: versions_ok_def empty_policies_def)

lemma reachable_versions_ok:
  "(policy_step yaml_load sha sign)\<^sup>*\<^sup>* empty_policies st \<Longrightarrow> versions_ok sha sign st"
  by (erule policy_reach_ok [OF _ empty_versions_ok])


text \<open>C21. Whatever an agent is offered over the heartbeat is a document that validation accepts unchanged, with the
  hash and the signature of exactly the text that is sent.\<close>

theorem offered_envelope_is_signed:
  assumes "(policy_step yaml_load sha sign)\<^sup>*\<^sup>* empty_policies st"
    and "pending_policy_envelope agent st = (Some e, st')"
  shows "\<exists>doc. validate_policy doc = Inr doc \<and> en_payload e = canonical_json (PDict doc)
    \<and> en_hash e = sha (en_payload e) \<and> en_signature e = sign (en_payload e)"
proof -
  from assms(2) obtain d :: policy_deployment and v where v: "sql_get gv_id (ps_versions st) (gd_version d) = Some v" "gv_signature v \<noteq> []"
    and e: "en_payload e = canonical_json (PDict (gv_payload v))" "en_hash e = gv_hash v" "en_signature e = gv_signature v"
    by (auto simp: pending_policy_envelope_def split: option.splits if_splits)
  from sql_get_SomeD [OF v(1)] reachable_versions_ok [OF assms(1)] have "version_sound sha sign v"
    by (simp add: versions_ok_def)
  with v(2) e policy_doc_ok_same [of "gv_payload v"] show ?thesis
    by (auto simp: version_sound_def policy_hash_def sign_policy_def split: if_splits)
qed

section \<open>Deployments\<close>

lemma deploy_to_rows:
  "ps_agents (deploy_to now dids aid v n a st) =
     sql_update (\<lambda>r. pa_agent_id r = pa_agent_id a) (\<lambda>r. r\<lparr>pa_desired := Some v, pa_status := PA_PENDING\<rparr>) (ps_agents st)"
  "ps_deployments (deploy_to now dids aid v n a st) =
     ps_deployments st @ [new_deployment (dids (pa_id a)) aid (pa_id a) v now]"
  by (simp_all add: deploy_to_def)

lemma fold_deploy_to:
  "ps_agents (fold (deploy_to now dids aid v n) targets st) =
      sql_update (\<lambda>r. pa_agent_id r \<in> pa_agent_id ` set targets) (\<lambda>r. r\<lparr>pa_desired := Some v, pa_status := PA_PENDING\<rparr>) (ps_agents st)
   \<and> ps_deployments (fold (deploy_to now dids aid v n) targets st) =
      ps_deployments st @ map (\<lambda>a. new_deployment (dids (pa_id a)) aid (pa_id a) v now) targets"
proof (induction targets arbitrary: st)
  case Nil
  then show ?case by (simp add: sql_update_def)
next
  case (Cons a targets)
  from Cons [of "deploy_to now dids aid v n a st"] show ?case
    by (auto simp: deploy_to_rows sql_update_def)
qed

lemma agents_in_scope_Inr:
  assumes "agents_in_scope scope ref rows = Inr targets"
  shows "set targets \<subseteq> set rows \<and> (\<forall>a \<in> set targets. pa_active a)
    \<and> (scope \<notin> {''AGENT'', ''GROUP''} \<longrightarrow> targets = filter pa_active rows)"
  using assms by (auto simp: agents_in_scope_def Let_def sum_bind_Inr_iff split: if_splits option.splits)

text \<open>A deployment opens one pending deployment of the policy's published current version for every active agent
  of the scope and makes it the desired version of those agents; no other agent's row changes. A scope type other
  than AGENT and GROUP reaches every active agent.\<close>

theorem deployment_fans_out:
  assumes "deploy_policy now aid dids pid scope ref st = Inr (targets, st')"
    and "distinct (map pa_agent_id (ps_agents st))"
  shows "\<exists>v p. v \<in> set (ps_versions st) \<and> gv_status v = GV_PUBLISHED \<and> gv_policy v = pid
      \<and> sql_get gp_id (ps_policies st) pid = Some p \<and> gp_current p = Some (gv_number v)
      \<and> targets \<noteq> [] \<and> (\<forall>a \<in> set targets. a \<in> set (ps_agents st) \<and> pa_active a)
      \<and> (scope \<notin> {''AGENT'', ''GROUP''} \<longrightarrow> targets = filter pa_active (ps_agents st))
      \<and> ps_agents st' = map (\<lambda>a. if a \<in> set targets then a\<lparr>pa_desired := Some (gv_id v), pa_status := PA_PENDING\<rparr> else a)
           (ps_agents st)
      \<and> ps_deployments st' = ps_deployments st @ map (\<lambda>a. new_deployment (dids (pa_id a)) aid (pa_id a) (gv_id v) now) targets"
proof -
  from assms(1) obtain p where p: "get_policy pid st = Inr p" by (auto simp: deploy_policy_def sum_bind_Inr_iff)
  let ?q = "\<lambda>v. gv_policy v = pid \<and> Some (gv_number v) = gp_current p \<and> gv_status v = GV_PUBLISHED"
  from assms(1) p obtain v where v: "sql_one ?q (ps_versions st) = Inr (Some v)"
    by (auto simp: deploy_policy_def sum_bind_Inr_iff split: option.splits)
  from assms(1) p v obtain r where targets: "agents_in_scope scope ref (ps_agents st) = Inr targets" "targets \<noteq> []"
    and st': "st' = fold (deploy_to now dids aid (gv_id v) (gp_current p)) targets (st\<lparr>ps_assignments := ps_assignments st @
        [\<lparr>ga_id = aid, ga_policy = pid, ga_version = None, ga_scope_type = scope, ga_scope_ref = r, ga_enabled = True\<rparr>]\<rparr>)"
    by (auto simp: deploy_policy_def sum_bind_Inr_iff split: if_splits)
  note S = agents_in_scope_Inr [OF targets(1)]
  note F = fold_deploy_to [of now dids aid "gv_id v" "gp_current p" targets "st\<lparr>ps_assignments := ps_assignments st @
        [\<lparr>ga_id = aid, ga_policy = pid, ga_version = None, ga_scope_type = scope, ga_scope_ref = r, ga_enabled = True\<rparr>]\<rparr>",
      folded st']
  have "pa_agent_id a \<in> pa_agent_id ` set targets \<longleftrightarrow> a \<in> set targets" if "a \<in> set (ps_agents st)" for a
    using S assms(2) that by (auto simp: distinct_map inj_on_def subset_iff)
  then have "sql_update (\<lambda>r. pa_agent_id r \<in> pa_agent_id ` set targets) f (ps_agents st) =
      map (\<lambda>a. if a \<in> set targets then f a else a) (ps_agents st)" for f
    unfolding sql_update_def by (intro map_cong) simp_all
  with F S assms(2) have "ps_agents st' = map (\<lambda>a. if a \<in> set targets then a\<lparr>pa_desired := Some (gv_id v), pa_status := PA_PENDING\<rparr> else a)
           (ps_agents st)"
    "ps_deployments st' = ps_deployments st @ map (\<lambda>a. new_deployment (dids (pa_id a)) aid (pa_id a) (gv_id v) now) targets"
    by simp_all
  moreover from p have "sql_get gp_id (ps_policies st) pid = Some p" by (simp add: get_policy_def split: option.splits)
  moreover from sql_one_SomeD [OF v] have "v \<in> set (ps_versions st)" "gv_status v = GV_PUBLISHED" "gv_policy v = pid"
    "gp_current p = Some (gv_number v)" by simp_all
  moreover from S have "\<forall>a \<in> set targets. a \<in> set (ps_agents st) \<and> pa_active a" by blast
  ultimately show ?thesis using S [THEN conjunct2, THEN conjunct2] targets(2)
    by (intro exI [of _ v] exI [of _ p] conjI) assumption+
qed

section \<open>Superseded deployments\<close>

lemma insort_key_map: "(\<And>y. k (f y) = k y) \<Longrightarrow> insort_key k (f x) (map f xs) = map f (insort_key k x xs)"
  by (induction xs) simp_all

lemma sort_key_map: "(\<And>y. k (f y) = k y) \<Longrightarrow> sort_key k (map f xs) = map f (sort_key k xs)"
  by (induction xs) (simp_all add: insort_key_map)

lemma newest_map:
  assumes "\<And>d. gd_started (g d) = gd_started d" and "\<And>d. d \<in> set ds \<Longrightarrow> P (g d) \<longleftrightarrow> Q d \<and> R d"
  shows "newest_deployments (filter P (map g ds)) = map g (filter R (newest_deployments (filter Q ds)))"
proof -
  have "filter P (map g ds) = map g (filter (\<lambda>d. Q d \<and> R d) ds)"
    using assms(2) by (induction ds) auto
  then show ?thesis
    by (simp add: newest_deployments_def sort_key_map assms(1) filter_sort)
qed

definition applied_report :: "policy_version \<Rightarrow> policy_deployment \<Rightarrow> config" where
  "applied_report v d = [(''policy_id'', PStr (gv_policy v)), (''deployment_id'', PStr (gd_id d)), (''result'', PStr ''applied'')]"

definition settle :: "time \<Rightarrow> uuid \<Rightarrow> policy_deployment \<Rightarrow> policy_deployment \<Rightarrow> policy_deployment" where
  "settle now agent d x =
    (let x1 = (if gd_id x = gd_id d then x\<lparr>gd_status := GD_APPLIED, gd_finished := Some now\<rparr> else x)
     in if gd_agent x1 = agent \<and> unsettled x1 \<and> gd_version x1 = gd_version d \<and> gd_id x1 \<noteq> gd_id d
        then x1\<lparr>gd_status := GD_APPLIED, gd_finished := Some now\<rparr> else x1)"

lemma settle_fields [simp]:
  "gd_started (settle now agent d x) = gd_started x" "gd_agent (settle now agent d x) = gd_agent x"
  "gd_id (settle now agent d x) = gd_id x" "gd_version (settle now agent d x) = gd_version x"
  by (simp_all add: settle_def)

lemma unsettled_settle:
  "gd_agent x = agent \<Longrightarrow> unsettled (settle now agent d x) \<longleftrightarrow> unsettled x \<and> gd_id x \<noteq> gd_id d \<and> gd_version x \<noteq> gd_version d"
  by (auto simp: settle_def unsettled_def)

lemma sql_modify_establishes:
  "(\<And>r. key (f r) = key r) \<Longrightarrow> (\<And>r. P (f r)) \<Longrightarrow> \<forall>a \<in> set (sql_modify key k f xs). key a = k \<longrightarrow> P a"
  by (induction xs) (simp_all add: sql_modify_def)

lemma sql_modify_preserves:
  "(\<And>r. key (f r) = key r) \<Longrightarrow> (\<And>r. P (f r) = P r) \<Longrightarrow> \<forall>a \<in> set xs. key a = j \<longrightarrow> P a \<Longrightarrow>
   \<forall>a \<in> set (sql_modify key k f xs). key a = j \<longrightarrow> P a"
  by (induction xs) (simp_all add: sql_modify_def)

lemma offer_keeps_current:
  assumes "\<forall>a \<in> set (ps_agents st). pa_id a = j \<longrightarrow> pa_current a = c"
  shows "\<forall>a \<in> set (ps_agents (set_policy_agent agent (\<lambda>a. a\<lparr>pa_status := t\<rparr>) (set_deployment i g st))).
    pa_id a = j \<longrightarrow> pa_current a = c"
proof -
  have "ps_agents (set_policy_agent agent (\<lambda>a. a\<lparr>pa_status := t\<rparr>) (set_deployment i g st)) =
      sql_modify pa_id agent (\<lambda>a. a\<lparr>pa_status := t\<rparr>) (ps_agents st)"
    by (simp add: set_policy_agent_def set_deployment_def)
  then show ?thesis by (simp only:) (rule sql_modify_preserves [OF _ _ assms]; simp)
qed

lemma apply_applied_report:
  assumes "newest_deployments (filter (\<lambda>d. gd_agent d = agent) (ps_deployments st)) = d # ds"
    and "gd_id d \<noteq> []"
  shows "ps_deployments (apply_policy_report now agent (applied_report v d) st) = map (settle now agent d) (ps_deployments st)
    \<and> ps_versions (apply_policy_report now agent (applied_report v d) st) = ps_versions st
    \<and> (\<forall>a \<in> set (ps_agents (apply_policy_report now agent (applied_report v d) st)).
         pa_id a = agent \<longrightarrow> pa_current a = Some (gd_version d))"
proof -
  have "reported_deployment agent (applied_report v d) st = Some d"
    using assms by (simp add: reported_deployment_def applied_report_def get_default_def py_or_def)
  then have "apply_policy_report now agent (applied_report v d) st =
      (let st1 = set_deployment (gd_id d) (\<lambda>d. d\<lparr>gd_status := GD_APPLIED, gd_finished := Some now\<rparr>) st;
           st2 = set_policy_agent agent (\<lambda>a. a\<lparr>pa_current := Some (gd_version d), pa_status := PA_IDLE,
                   pa_error := None, pa_updated := Some now\<rparr>) st1
       in st2\<lparr>ps_deployments := sql_update
            (\<lambda>x. gd_agent x = agent \<and> unsettled x \<and> gd_version x = gd_version d \<and> gd_id x \<noteq> gd_id d)
            (\<lambda>x. x\<lparr>gd_status := GD_APPLIED, gd_finished := Some now\<rparr>) (ps_deployments st2)\<rparr>)"
    by (simp add: apply_policy_report_def applied_report_def get_default_def)
  note eq = this
  show ?thesis
  proof (intro conjI)
    show "ps_deployments (apply_policy_report now agent (applied_report v d) st) = map (settle now agent d) (ps_deployments st)"
      by (simp add: eq Let_def set_deployment_def set_policy_agent_def sql_modify_def sql_update_def settle_def)
    show "ps_versions (apply_policy_report now agent (applied_report v d) st) = ps_versions st"
      by (simp add: eq Let_def set_deployment_def set_policy_agent_def)
    have "ps_agents (apply_policy_report now agent (applied_report v d) st) =
        sql_modify pa_id agent (\<lambda>a. a\<lparr>pa_current := Some (gd_version d), pa_status := PA_IDLE, pa_error := None,
          pa_updated := Some now\<rparr>) (ps_agents st)"
      by (simp add: eq Let_def set_deployment_def set_policy_agent_def)
    then show "\<forall>a \<in> set (ps_agents (apply_policy_report now agent (applied_report v d) st)).
        pa_id a = agent \<longrightarrow> pa_current a = Some (gd_version d)"
      by (simp only:) (rule sql_modify_establishes; simp)
  qed
qed

lemma offer_deployment:
  assumes "newest_deployments (filter (\<lambda>d. gd_agent d = agent \<and> unsettled d) (ps_deployments st)) = d # ds"
    and "sql_get gv_id (ps_versions st) (gd_version d) = Some v" and "gv_signature v \<noteq> []"
  shows "\<exists>e. pending_policy_envelope agent st = (Some e, set_policy_agent agent (\<lambda>a. a\<lparr>pa_status := PA_SYNCING\<rparr>)
      (set_deployment (gd_id d) (\<lambda>d. d\<lparr>gd_status := GD_DELIVERED\<rparr>) st))
    \<and> en_deployment e = gd_id d \<and> en_version e = gv_number v"
  using assms by (simp add: pending_policy_envelope_def offered_deployment_def)

text \<open>Deploying a newer version does not withdraw an older deployment that was never confirmed: once the agent has
  applied the newer one, its next heartbeat is answered with the older version again.\<close>

theorem superseded_deployment_returns:
  assumes open_: "newest_deployments (filter (\<lambda>d. gd_agent d = agent \<and> unsettled d) (ps_deployments st)) = d2 # d1 # ds"
    and newest: "newest_deployments (filter (\<lambda>d. gd_agent d = agent) (ps_deployments st)) = d2 # rest"
    and v2: "sql_get gv_id (ps_versions st) (gd_version d2) = Some v2" "gv_signature v2 \<noteq> []" "gv_policy v2 \<noteq> []"
    and v1: "sql_get gv_id (ps_versions st) (gd_version d1) = Some v1" "gv_signature v1 \<noteq> []"
    and "gd_version d1 \<noteq> gd_version d2" and "gd_id d2 \<noteq> []" and ids: "distinct (map gd_id (ps_deployments st))"
  shows "\<exists>e2 st1 e1 st2. heartbeat_policy t1 agent PNone st = (Some e2, st1) \<and> en_deployment e2 = gd_id d2
    \<and> heartbeat_policy t2 agent (PDict (applied_report v2 d2)) st1 = (Some e1, st2)
    \<and> en_deployment e1 = gd_id d1 \<and> en_version e1 = gv_number v1
    \<and> (\<forall>a \<in> set (ps_agents st2). pa_id a = agent \<longrightarrow> pa_current a = Some (gd_version d2))"
proof -
  let ?g = "\<lambda>d. if gd_id d = gd_id d2 then d\<lparr>gd_status := GD_DELIVERED\<rparr> else d"
  let ?st1 = "set_policy_agent agent (\<lambda>a. a\<lparr>pa_status := PA_SYNCING\<rparr>)
      (set_deployment (gd_id d2) (\<lambda>d. d\<lparr>gd_status := GD_DELIVERED\<rparr>) st)"
  from offer_deployment [OF open_ v2(1,2)] obtain e2 where e2: "heartbeat_policy t1 agent PNone st = (Some e2, ?st1)"
    "en_deployment e2 = gd_id d2" by (auto simp: heartbeat_policy_def)
  have ds1: "ps_deployments ?st1 = map ?g (ps_deployments st)"
    by (simp add: set_policy_agent_def set_deployment_def sql_modify_def sql_update_def)
  let ?d = "d2\<lparr>gd_status := GD_DELIVERED\<rparr>"
  have "newest_deployments (filter (\<lambda>d. gd_agent d = agent) (map ?g (ps_deployments st))) =
      map ?g (filter (\<lambda>d. True) (newest_deployments (filter (\<lambda>d. gd_agent d = agent) (ps_deployments st))))"
    by (rule newest_map) simp_all
  then have "newest_deployments (filter (\<lambda>d. gd_agent d = agent) (ps_deployments ?st1)) = ?d # map ?g rest"
    by (simp add: ds1 newest)
  note report = apply_applied_report [OF this, of t2 v2]
  let ?st2 = "apply_policy_report t2 agent (applied_report v2 d2) ?st1"
  have same: "applied_report v2 ?d = applied_report v2 d2" by (simp add: applied_report_def)
  have set_open: "{d1, d2} \<subseteq> set (ps_deployments st)"
    using arg_cong [OF open_, of set] by (auto simp: newest_deployments_def)
  with ids assms(8) have id1: "gd_id d1 \<noteq> gd_id d2" by (auto simp: distinct_map dest: inj_onD)
  have twin: "x = d2" if "x \<in> set (ps_deployments st)" "gd_id x = gd_id d2" for x
    using that ids set_open by (auto simp: distinct_map dest: inj_onD)
  have settle: "settle t2 agent ?d x = settle t2 agent d2 x" for x by (simp add: settle_def)
  have "newest_deployments (filter (\<lambda>d. gd_agent d = agent \<and> unsettled d) (map (settle t2 agent d2 \<circ> ?g) (ps_deployments st))) =
      map (settle t2 agent d2 \<circ> ?g) (filter (\<lambda>d. gd_id d \<noteq> gd_id d2 \<and> gd_version d \<noteq> gd_version d2) (d2 # d1 # ds))"
    unfolding open_ [symmetric]
    by (rule newest_map) (auto simp: unsettled_settle)
  then have "newest_deployments (filter (\<lambda>d. gd_agent d = agent \<and> unsettled d) (ps_deployments ?st2)) =
      d1 # map (settle t2 agent d2 \<circ> ?g) (filter (\<lambda>d. gd_id d \<noteq> gd_id d2 \<and> gd_version d \<noteq> gd_version d2) ds)"
    using report assms(7-9) id1 by (simp add: same settle ds1 comp_def settle_def)
  moreover have "ps_versions ?st2 = ps_versions st"
    using report assms(9) by (simp add: same set_policy_agent_def set_deployment_def)
  ultimately obtain e1 where e1: "pending_policy_envelope agent ?st2 = (Some e1, set_policy_agent agent (\<lambda>a. a\<lparr>pa_status := PA_SYNCING\<rparr>)
      (set_deployment (gd_id d1) (\<lambda>d. d\<lparr>gd_status := GD_DELIVERED\<rparr>) ?st2))" "en_deployment e1 = gd_id d1" "en_version e1 = gv_number v1"
    using offer_deployment [of agent ?st2 d1 _ v1] v1 by auto
  have "truthy (cfg_get (applied_report v2 d2) ''policy_id'')" using v2(3) by (simp add: applied_report_def cfg_get_def)
  with e1 have "heartbeat_policy t2 agent (PDict (applied_report v2 d2)) ?st1 = (Some e1, set_policy_agent agent (\<lambda>a. a\<lparr>pa_status := PA_SYNCING\<rparr>)
      (set_deployment (gd_id d1) (\<lambda>d. d\<lparr>gd_status := GD_DELIVERED\<rparr>) ?st2))"
    by (simp add: heartbeat_policy_def)
  moreover have "\<forall>a \<in> set (ps_agents ?st2). pa_id a = agent \<longrightarrow> pa_current a = Some (gd_version d2)"
    using report assms(9) by (simp add: same)
  then have "\<forall>a \<in> set (ps_agents (set_policy_agent agent (\<lambda>a. a\<lparr>pa_status := PA_SYNCING\<rparr>)
      (set_deployment (gd_id d1) (\<lambda>d. d\<lparr>gd_status := GD_DELIVERED\<rparr>) ?st2))). pa_id a = agent \<longrightarrow> pa_current a = Some (gd_version d2)"
    by (rule offer_keeps_current)
  ultimately show ?thesis using e2 e1(2,3) by blast
qed

section \<open>A policy that is created, published, deployed and offered\<close>

definition toy_vid :: uuid where "toy_vid = ''00000000-0000-0000-0000-000000000001''"
definition toy_aid :: uuid where "toy_aid = ''00000000-0000-0000-0000-0000000000a1''"

definition toy_host :: policy_agent where
  "toy_host = \<lparr>pa_id = toy_aid, pa_agent_id = ''host'', pa_active = True, pa_group = None, pa_desired = None,
     pa_current = None, pa_status = PA_IDLE, pa_error = None, pa_updated = None\<rparr>"

definition toy_create_policy :: "exn + policy_store" where
  "toy_create_policy = create_policy (\<lambda>_. None) (\<lambda>_. ''h'') ''p'' toy_vid ''demo'' [] [] empty_policies"

definition toy_publish :: "exn + policy_store" where
  "toy_publish = sum_bind toy_create_policy (\<lambda>st.
     publish_policy_version (\<lambda>_. ''s'') ''p'' toy_vid (st\<lparr>ps_agents := [toy_host]\<rparr>))"

definition toy_deploy :: "exn + (policy_agent list \<times> policy_store)" where
  "toy_deploy = sum_bind toy_publish (deploy_policy 5 ''a'' (\<lambda>_. ''d'') ''p'' ''AGENT'' (Some toy_aid))"

lemma toy_deploy_ok: "is_ok toy_deploy"
  by code_simp

lemma toy_policy_states:
  obtains st1 st2 targets st3 where "toy_create_policy = Inr st1" "toy_publish = Inr st2" "toy_deploy = Inr (targets, st3)"
    "publish_policy_version (\<lambda>_. ''s'') ''p'' toy_vid (st1\<lparr>ps_agents := [toy_host]\<rparr>) = Inr st2"
    "deploy_policy 5 ''a'' (\<lambda>_. ''d'') ''p'' ''AGENT'' (Some toy_aid) st2 = Inr (targets, st3)"
proof -
  from toy_deploy_ok obtain r where r: "toy_deploy = Inr r" by (metis is_ok.simps(1) sum.exhaust)
  then obtain st2 where st2: "toy_publish = Inr st2"
      "deploy_policy 5 ''a'' (\<lambda>_. ''d'') ''p'' ''AGENT'' (Some toy_aid) st2 = Inr r"
    unfolding toy_deploy_def sum_bind_Inr_iff by blast
  then obtain st1 where "toy_create_policy = Inr st1"
      "publish_policy_version (\<lambda>_. ''s'') ''p'' toy_vid (st1\<lparr>ps_agents := [toy_host]\<rparr>) = Inr st2"
    unfolding toy_publish_def sum_bind_Inr_iff by blast
  with r st2 show ?thesis by (cases r) (blast intro: that)
qed

lemma toy_policy_reach:
  assumes "toy_create_policy = Inr st1" "publish_policy_version (\<lambda>_. ''s'') ''p'' toy_vid (st1\<lparr>ps_agents := [toy_host]\<rparr>) = Inr st2"
  shows "(policy_step (\<lambda>_. None) (\<lambda>_. ''h'') (\<lambda>_. ''s''))\<^sup>*\<^sup>* empty_policies st2"
proof -
  let ?step = "policy_step (\<lambda>_. None) (\<lambda>_. ''h'') (\<lambda>_. ''s'')"
  have s1: "?step empty_policies st1"
    by (rule policy_step.create [OF assms(1) [unfolded toy_create_policy_def]]) (simp add: empty_policies_def)
  have s2: "?step st1 (st1\<lparr>ps_agents := [toy_host]\<rparr>)" by (rule policy_step.environment) simp_all
  have s3: "?step (st1\<lparr>ps_agents := [toy_host]\<rparr>) st2" by (rule policy_step.publish [OF assms(2)])
  show ?thesis
    by (rule rtranclp_trans [OF r_into_rtranclp [of ?step, OF s1] rtranclp_trans [OF r_into_rtranclp [of ?step, OF s2]
        r_into_rtranclp [of ?step, OF s3]]])
qed

theorem offered_envelope_is_signed_witness:
  "case toy_deploy of Inr (targets, st) \<Rightarrow> (\<exists>e. fst (pending_policy_envelope toy_aid st) = Some e
     \<and> en_hash e = ''h'' \<and> en_signature e = ''s'') | Inl e \<Rightarrow> False"
proof (rule toy_policy_states)
  fix st1 st2 targets st3
  assume s: "toy_create_policy = Inr st1" "toy_deploy = Inr (targets, st3)"
    "publish_policy_version (\<lambda>_. ''s'') ''p'' toy_vid (st1\<lparr>ps_agents := [toy_host]\<rparr>) = Inr st2"
    "deploy_policy 5 ''a'' (\<lambda>_. ''d'') ''p'' ''AGENT'' (Some toy_aid) st2 = Inr (targets, st3)"
  from toy_policy_reach [OF s(1,3)] policy_step.deploy [OF s(4)]
  have reach: "(policy_step (\<lambda>_. None) (\<lambda>_. ''h'') (\<lambda>_. ''s''))\<^sup>*\<^sup>* empty_policies st3" by (rule rtranclp.rtrancl_into_rtrancl)
  have "(case toy_deploy of Inr (targets, st) \<Rightarrow> map (\<lambda>d. (gd_agent d, gd_status d, gd_version d)) (ps_deployments st)
       = [(toy_aid, GD_PENDING, toy_vid)] \<and> map (\<lambda>v. (gv_id v, gv_signature v)) (ps_versions st) = [(toy_vid, ''s'')] | Inl e \<Rightarrow> False)"
    by code_simp
  then obtain d v where "ps_deployments st3 = [d]" "gd_agent d = toy_aid" "gd_status d = GD_PENDING" "gd_version d = toy_vid"
    "ps_versions st3 = [v]" "gv_id v = toy_vid" "gv_signature v = ''s''" unfolding s(2) by auto
  then obtain e st4 where e: "pending_policy_envelope toy_aid st3 = (Some e, st4)"
    by (simp add: pending_policy_envelope_def offered_deployment_def newest_deployments_def unsettled_def sql_get_def)
  from offered_envelope_is_signed [OF reach e] e show ?thesis unfolding s(2) by auto
qed

theorem deployment_fans_out_witness:
  "case toy_deploy of Inr (targets, st) \<Rightarrow> map pa_desired (ps_agents st) = [Some toy_vid] | Inl e \<Rightarrow> False"
proof (rule toy_policy_states)
  fix st1 st2 targets st3
  assume s: "toy_publish = Inr st2" "toy_deploy = Inr (targets, st3)"
    "deploy_policy 5 ''a'' (\<lambda>_. ''d'') ''p'' ''AGENT'' (Some toy_aid) st2 = Inr (targets, st3)"
  have "(case toy_publish of Inr st \<Rightarrow> ps_agents st = [toy_host] \<and> map gv_id (ps_versions st) = [toy_vid] | Inl e \<Rightarrow> False)"
    by code_simp
  then have st2: "ps_agents st2 = [toy_host]" "map gv_id (ps_versions st2) = [toy_vid]" unfolding s(1) by simp_all
  then have "distinct (map pa_agent_id (ps_agents st2))" by simp
  from deployment_fans_out [OF s(3) this] obtain v where v: "v \<in> set (ps_versions st2)" "targets \<noteq> []"
    "\<forall>a \<in> set targets. a \<in> set (ps_agents st2) \<and> pa_active a"
    "ps_agents st3 = map (\<lambda>a. if a \<in> set targets then a\<lparr>pa_desired := Some (gv_id v), pa_status := PA_PENDING\<rparr> else a)
           (ps_agents st2)" by blast
  from v(1) st2(2) have "gv_id v = toy_vid" by (cases "ps_versions st2") auto
  moreover from v(2,3) st2(1) have "toy_host \<in> set targets" by (cases targets) auto
  ultimately show ?thesis using v(4) st2(1) unfolding s(2) by simp
qed


definition toy_signed :: "uuid \<Rightarrow> nat \<Rightarrow> policy_version" where
  "toy_signed i n = \<lparr>gv_id = i, gv_policy = ''p'', gv_number = n, gv_payload = [], gv_hash = ''h'', gv_signature = ''s'',
     gv_key_id = ''policy-signing-v1'', gv_status = GV_PUBLISHED\<rparr>"

definition toy_two_deployments :: policy_store where
  "toy_two_deployments = empty_policies\<lparr>ps_versions := [toy_signed ''v1'' 1, toy_signed ''v2'' 2],
     ps_deployments := [new_deployment ''d1'' ''a'' toy_aid ''v1'' 1, new_deployment ''d2'' ''a'' toy_aid ''v2'' 2],
     ps_agents := [toy_host\<lparr>pa_desired := Some ''v2'', pa_status := PA_PENDING\<rparr>]\<rparr>"

theorem superseded_deployment_returns_witness:
  "\<exists>e2 st1 e1 st2. heartbeat_policy 3 toy_aid PNone toy_two_deployments = (Some e2, st1)
    \<and> heartbeat_policy 4 toy_aid (PDict (applied_report (toy_signed ''v2'' 2) (new_deployment ''d2'' ''a'' toy_aid ''v2'' 2))) st1
      = (Some e1, st2) \<and> en_version e1 = 1"
proof -
  let ?d1 = "new_deployment ''d1'' ''a'' toy_aid ''v1'' 1" and ?d2 = "new_deployment ''d2'' ''a'' toy_aid ''v2'' 2"
  have "newest_deployments (filter (\<lambda>d. gd_agent d = toy_aid \<and> unsettled d) (ps_deployments toy_two_deployments)) = [?d2, ?d1]"
    "newest_deployments (filter (\<lambda>d. gd_agent d = toy_aid) (ps_deployments toy_two_deployments)) = [?d2, ?d1]"
    by code_simp+
  moreover have "sql_get gv_id (ps_versions toy_two_deployments) (gd_version ?d2) = Some (toy_signed ''v2'' 2)"
    "gv_signature (toy_signed ''v2'' 2) \<noteq> []" "gv_policy (toy_signed ''v2'' 2) \<noteq> []"
    "sql_get gv_id (ps_versions toy_two_deployments) (gd_version ?d1) = Some (toy_signed ''v1'' 1)"
    "gv_signature (toy_signed ''v1'' 1) \<noteq> []" "gd_version ?d1 \<noteq> gd_version ?d2" "gd_id ?d2 \<noteq> []"
    "distinct (map gd_id (ps_deployments toy_two_deployments))" "gv_number (toy_signed ''v1'' 1) = 1"
    by code_simp+
  ultimately show ?thesis using superseded_deployment_returns [of toy_aid toy_two_deployments ?d2 ?d1 "[]" "[?d1]"
      "toy_signed ''v2'' 2" "toy_signed ''v1'' 1" 3 4] by fastforce
qed

end
