(* ===== verification/AgentAuth.thy ===== *)
theory AgentAuth
  imports Redis
begin

text \<open>
  Who an agent is: certificate revocation (\<open>services/cert_revocation.py\<close>), the identity gate and the renewal of
  certificates (\<open>api/grpc/agent_service.py\<close>), enrollment tokens (\<open>services/agent_policies.py\<close>) and registration
  (\<open>api/v1/routers/agent_install.py\<close>). Parsing of certificates, the check against the CA, SHA-256 and the
  signing service are parameters; host names and ids are ASCII. A route that raises is rolled back.
\<close>

section \<open>Revoked certificates\<close>

record certificate =
  ce_cn :: "string option"
  ce_serial :: nat
  ce_from :: time
  ce_until :: time

definition REVOKED_KEY :: string where "REVOKED_KEY = ''lokilinux:certs:revoked''"

fun show_hex :: "nat \<Rightarrow> string" where
  "show_hex n = (if n < 16 then [hex_digit n] else show_hex (n div 16) @ [hex_digit (n mod 16)])"

declare show_hex.simps [simp del]

definition lower :: "string \<Rightarrow> string" where "lower s = map to_lower s"

definition is_hex_lower :: "char \<Rightarrow> bool" where
  "is_hex_lower c = (is_digit c \<or> (97 \<le> (of_char c :: nat) \<and> (of_char c :: nat) \<le> 102))"

definition normalize_serial :: "string option \<Rightarrow> exn + string" where
  "normalize_serial serial = (case serial of
      None \<Rightarrow> Inl (AttributeError ''NoneType object has no attribute strip'')
    | Some t \<Rightarrow>
       (let s = lower (strip t); s = (if take 2 s = ''0x'' then drop 2 s else s)
        in if 1 \<le> length s \<and> length s \<le> 40 \<and> list_all is_hex_lower s then Inr s
           else Inl (ValueError ''invalid certificate serial format'')))"

datatype revocation = Passed | CertificateRevoked string | RevocationUnavailable | RevocationRaised exn

definition assert_not_revoked :: "bool \<Rightarrow> bool \<Rightarrow> string option \<Rightarrow> redis \<Rightarrow> revocation" where
  "assert_not_revoked enabled fail_closed serial r =
    (if \<not> enabled then Passed
     else (case normalize_serial serial of
         Inl (ValueError m) \<Rightarrow> if fail_closed then RevocationUnavailable else Passed
       | Inl e \<Rightarrow> RevocationRaised e
       | Inr s \<Rightarrow>
          (case sismember REVOKED_KEY s r of
             None \<Rightarrow> if fail_closed then RevocationUnavailable else Passed
           | Some b \<Rightarrow> if b then CertificateRevoked s else Passed)))"

definition revoke_serial :: "string \<Rightarrow> redis \<Rightarrow> exn + redis" where
  "revoke_serial serial r =
    sum_bind (normalize_serial (Some serial)) (\<lambda>s.
      case sadd REVOKED_KEY s r of None \<Rightarrow> Inl (ValueError ''redis unreachable'') | Some r' \<Rightarrow> Inr r')"

definition unrevoke_serial :: "string \<Rightarrow> redis \<Rightarrow> exn + (bool \<times> redis)" where
  "unrevoke_serial serial r =
    sum_bind (normalize_serial (Some serial)) (\<lambda>s.
      case srem REVOKED_KEY s r of None \<Rightarrow> Inl (ValueError ''redis unreachable'') | Some br \<Rightarrow> Inr br)"

section \<open>The identity gate\<close>

datatype grpc_status = UNAUTHENTICATED | PERMISSION_DENIED | UNAVAILABLE | INVALID_ARGUMENT | RESOURCE_EXHAUSTED | UNKNOWN

record auth_settings =
  as_enabled :: bool
  as_fail_closed :: bool

definition revoked_key :: "string \<Rightarrow> string" where "revoked_key agent_id = ''agent:revoked:'' @ agent_id"

definition revoke_agent_identity :: "time \<Rightarrow> string \<Rightarrow> redis \<Rightarrow> redis" where
  "revoke_agent_identity now agent_id r = set_cached now (revoked_key agent_id) (PBool True) None r"

definition unrevoke_agent_identity :: "string \<Rightarrow> redis \<Rightarrow> redis" where
  "unrevoke_agent_identity agent_id r = invalidate (revoked_key agent_id) r"

text \<open>The common name of the certificate of the connection, and its serial; nothing without a certificate.\<close>

definition peer_cert_common_name :: "certificate option \<Rightarrow> string option" where
  "peer_cert_common_name peer = map_option strip (Option.bind peer ce_cn)"

definition peer_cert_serial :: "certificate option \<Rightarrow> string option" where
  "peer_cert_serial peer = map_option (\<lambda>c. show_hex (ce_serial c)) peer"

definition is_listed :: "time \<Rightarrow> string \<Rightarrow> redis \<Rightarrow> bool" where
  "is_listed now agent_id r = (case get_cached now (revoked_key agent_id) r of None \<Rightarrow> False | Some v \<Rightarrow> truthy v)"

definition authenticate_agent ::
    "auth_settings \<Rightarrow> time \<Rightarrow> certificate option \<Rightarrow> string \<Rightarrow> redis \<Rightarrow> grpc_status option" where
  "authenticate_agent cfg now peer requested r =
    (case peer_cert_common_name peer of
       None \<Rightarrow> Some UNAUTHENTICATED
     | Some cn \<Rightarrow>
        if cn = [] then Some UNAUTHENTICATED
        else if requested = [] \<or> lower requested \<noteq> lower cn then Some UNAUTHENTICATED
        else if is_listed now requested r then Some PERMISSION_DENIED
        else (case assert_not_revoked (as_enabled cfg) (as_fail_closed cfg) (peer_cert_serial peer) r of
            Passed \<Rightarrow> None
          | CertificateRevoked s \<Rightarrow> Some PERMISSION_DENIED
          | RevocationUnavailable \<Rightarrow> Some UNAVAILABLE
          | RevocationRaised e \<Rightarrow> Some UNKNOWN))"

definition renewal_key :: "string \<Rightarrow> string" where "renewal_key agent_id = ''cert_renewal:last:'' @ agent_id"

text \<open>The new certificate names the id of the request.\<close>

definition renew_certificate ::
    "auth_settings \<Rightarrow> (string \<Rightarrow> string \<Rightarrow> string option) \<Rightarrow> time \<Rightarrow> certificate option \<Rightarrow> string \<Rightarrow> string \<Rightarrow> redis
     \<Rightarrow> (grpc_status + string) \<times> redis" where
  "renew_certificate cfg sign_cert now peer agent_id public_key r =
    (let requested = strip agent_id in
     case authenticate_agent cfg now peer requested r of
       Some e \<Rightarrow> (Inl e, r)
     | None \<Rightarrow>
        if public_key = [] then (Inl INVALID_ARGUMENT, r)
        else if (case get_cached now (renewal_key requested) r of None \<Rightarrow> False | Some v \<Rightarrow> truthy v)
        then (Inl RESOURCE_EXHAUSTED, r)
        else (case sign_cert requested public_key of
            None \<Rightarrow> (Inl UNAVAILABLE, r)
          | Some cert \<Rightarrow> (Inr cert, set_cached now (renewal_key requested) (PBool True) (Some 3600) r)))"

section \<open>Enrollment tokens\<close>

record enrollment_token =
  et_id :: uuid
  et_hash :: string
  et_label :: string
  et_expires :: time
  et_used :: "time option"
  et_revoked :: "time option"
  et_single :: bool
  et_group :: "uuid option"

record host =
  ho_id :: uuid
  ho_agent_id :: string
  ho_status :: agent_status
  ho_hostname :: string
  ho_distro :: string
  ho_version :: string
  ho_arch :: string
  ho_kernel :: string
  ho_group :: "uuid option"

record enrollment =
  el_tokens :: "enrollment_token list"
  el_hosts :: "host list"
  el_cache :: redis

definition issue_enrollment_token ::
    "(string \<Rightarrow> string) \<Rightarrow> time \<Rightarrow> uuid \<Rightarrow> string \<Rightarrow> string \<Rightarrow> int \<Rightarrow> bool \<Rightarrow> string option \<Rightarrow> enrollment
     \<Rightarrow> exn + (string \<times> enrollment)" where
  "issue_enrollment_token sha now tid plaintext label ttl single group_text el =
    (if ttl < 1 \<or> 720 < ttl then Inl (HTTPException 422 ''ttl_hours'')
     else sum_bind (case group_text of
         None \<Rightarrow> Inr None
       | Some t \<Rightarrow> if t = [] then Inr None
           else (case uuid_parse t of None \<Rightarrow> Inl (ValueError ''badly formed hexadecimal UUID string'') | Some u \<Rightarrow> Inr (Some u)))
       (\<lambda>g. Inr (plaintext, el\<lparr>el_tokens := el_tokens el @
          [\<lparr>et_id = tid, et_hash = sha plaintext, et_label = label, et_expires = now + seconds (ttl * 3600), et_used = None,
            et_revoked = None, et_single = single, et_group = g\<rparr>]\<rparr>)))"

definition revoke_enrollment_token :: "time \<Rightarrow> uuid \<Rightarrow> enrollment \<Rightarrow> exn + enrollment" where
  "revoke_enrollment_token now tid el =
    (case sql_get et_id (el_tokens el) tid of
       None \<Rightarrow> Inl (HTTPException 404 ''Token not found'')
     | Some t \<Rightarrow>
        if et_revoked t \<noteq> None then Inr el
        else Inr (el\<lparr>el_tokens := sql_modify et_id tid (\<lambda>t. t\<lparr>et_revoked := Some now\<rparr>) (el_tokens el)\<rparr>))"

text \<open>The status that the list of tokens shows.\<close>

definition token_status :: "time \<Rightarrow> enrollment_token \<Rightarrow> string" where
  "token_status now t =
    (if et_revoked t \<noteq> None then ''revoked''
     else if et_used t \<noteq> None \<and> et_single t then ''used''
     else if et_expires t < now then ''expired''
     else ''active'')"

definition validate_enrollment_token ::
    "(string \<Rightarrow> string) \<Rightarrow> time \<Rightarrow> string \<Rightarrow> bool \<Rightarrow> enrollment \<Rightarrow> exn + (enrollment_token \<times> enrollment)" where
  "validate_enrollment_token sha now plaintext consume el =
    sum_bind (sql_one (\<lambda>t. et_hash t = sha plaintext) (el_tokens el)) (\<lambda>row.
      case row of
        None \<Rightarrow> Inl (HTTPException 403 ''Invalid enrollment token'')
      | Some t \<Rightarrow>
         if et_revoked t \<noteq> None then Inl (HTTPException 403 ''Token revoked'')
         else if et_expires t < now then Inl (HTTPException 403 ''Token expired'')
         else if et_single t \<and> et_used t \<noteq> None then Inl (HTTPException 403 ''Token already used (single-use)'')
         else Inr (t, if et_single t \<and> consume
            then el\<lparr>el_tokens := sql_modify et_id (et_id t) (\<lambda>t. t\<lparr>et_used := Some now\<rparr>) (el_tokens el)\<rparr> else el))"

definition bearer_token :: "string option \<Rightarrow> exn + string" where
  "bearer_token authorization = (case authorization of
      None \<Rightarrow> Inl (HTTPException 401 ''Enrollment token required'')
    | Some a \<Rightarrow> if take 7 a = ''Bearer '' then Inr (strip (drop 7 a)) else Inl (HTTPException 401 ''Enrollment token required''))"

definition verify_enrollment_token ::
    "(string \<Rightarrow> string) \<Rightarrow> time \<Rightarrow> bool \<Rightarrow> string option \<Rightarrow> enrollment \<Rightarrow> exn + (enrollment_token \<times> enrollment)" where
  "verify_enrollment_token sha now consume authorization el =
    sum_bind (bearer_token authorization) (\<lambda>t. validate_enrollment_token sha now t consume el)"

section \<open>Registration\<close>

definition verify_reenrollment_proof ::
    "(string \<Rightarrow> certificate option) \<Rightarrow> (certificate \<Rightarrow> bool) \<Rightarrow> time \<Rightarrow> string option \<Rightarrow> string \<Rightarrow> bool" where
  "verify_reenrollment_proof load_cert issued_by_ca now cert_pem expected =
    (case cert_pem of
       None \<Rightarrow> False
     | Some pem \<Rightarrow>
        if pem = [] then False
        else (case load_cert pem of
            None \<Rightarrow> False
          | Some c \<Rightarrow> issued_by_ca c \<and> \<not> (ce_from c > now \<or> ce_until c < now)
              \<and> (case ce_cn c of None \<Rightarrow> False
                 | Some cn \<Rightarrow> strip cn \<noteq> [] \<and> lower (strip cn) = lower (strip expected))))"

record register_request =
  rr_hostname :: string
  rr_distro :: string
  rr_version :: string
  rr_arch :: string
  rr_kernel :: string
  rr_cert :: "string option"

definition describe_host :: "register_request \<Rightarrow> uuid option \<Rightarrow> host \<Rightarrow> host" where
  "describe_host body g h =
    h\<lparr>ho_status := G_PENDING, ho_distro := rr_distro body, ho_version := rr_version body, ho_arch := rr_arch body,
      ho_kernel := rr_kernel body, ho_group := (case g of None \<Rightarrow> ho_group h | Some x \<Rightarrow> Some x)\<rparr>"

definition new_host :: "uuid \<Rightarrow> string \<Rightarrow> register_request \<Rightarrow> uuid option \<Rightarrow> host" where
  "new_host hid wire body g =
    \<lparr>ho_id = hid, ho_agent_id = wire, ho_status = G_PENDING, ho_hostname = rr_hostname body, ho_distro = rr_distro body,
      ho_version = rr_version body, ho_arch = rr_arch body, ho_kernel = rr_kernel body, ho_group = g\<rparr>"

definition cert_serial_hex :: "(string \<Rightarrow> certificate option) \<Rightarrow> string option \<Rightarrow> string option" where
  "cert_serial_hex load_cert pem = map_option (\<lambda>c. show_hex (ce_serial c)) (Option.bind pem load_cert)"

text \<open>A certificate for the agent from the signing service; the empty text when the CA file or the service is missing.\<close>

definition generate_agent_cert :: "bool \<Rightarrow> (string \<Rightarrow> string option) \<Rightarrow> string \<Rightarrow> string" where
  "generate_agent_cert ca_file sign_cert agent_id =
    (if \<not> ca_file then [] else (case sign_cert agent_id of None \<Rightarrow> [] | Some pem \<Rightarrow> pem))"

text \<open>The rows are committed before the certificate is asked for.\<close>

definition register_row ::
    "auth_settings \<Rightarrow> (string \<Rightarrow> string) \<Rightarrow> (string \<Rightarrow> certificate option) \<Rightarrow> (certificate \<Rightarrow> bool) \<Rightarrow> time
     \<Rightarrow> uuid \<Rightarrow> uuid \<Rightarrow> string option \<Rightarrow> register_request \<Rightarrow> enrollment \<Rightarrow> exn + (string \<times> enrollment)" where
  "register_row cfg sha load_cert issued_by_ca now hid wire authorization body el =
    sum_bind (verify_enrollment_token sha now True authorization el) (\<lambda>(token, el1).
      case sql_first (\<lambda>h. ho_hostname h = rr_hostname body) (el_hosts el1) of
        Some h \<Rightarrow>
          if \<not> verify_reenrollment_proof load_cert issued_by_ca now (rr_cert body) (ho_agent_id h)
          then Inl (HTTPException 409 ''Hostname already registered'')
          else (case assert_not_revoked (as_enabled cfg) (as_fail_closed cfg) (cert_serial_hex load_cert (rr_cert body)) (el_cache el1) of
              CertificateRevoked s \<Rightarrow> Inl (HTTPException 403 ''certificate revoked'')
            | RevocationUnavailable \<Rightarrow> Inl (HTTPException 503 ''revocation unavailable'')
            | RevocationRaised e \<Rightarrow> Inl e
            | Passed \<Rightarrow> Inr (ho_agent_id h,
                el1\<lparr>el_hosts := sql_modify ho_id (ho_id h) (describe_host body (et_group token)) (el_hosts el1)\<rparr>))
      | None \<Rightarrow> Inr (wire, el1\<lparr>el_hosts := el_hosts el1 @ [new_host hid wire body (et_group token)]\<rparr>))"

definition register_agent ::
    "auth_settings \<Rightarrow> (string \<Rightarrow> string) \<Rightarrow> (string \<Rightarrow> certificate option) \<Rightarrow> (certificate \<Rightarrow> bool) \<Rightarrow> bool
     \<Rightarrow> (string \<Rightarrow> string option) \<Rightarrow> time \<Rightarrow> uuid \<Rightarrow> uuid \<Rightarrow> string option \<Rightarrow> register_request \<Rightarrow> enrollment
     \<Rightarrow> exn + ((string \<times> string) \<times> enrollment)" where
  "register_agent cfg sha load_cert issued_by_ca ca_file sign_cert now hid wire authorization body el =
    sum_bind (register_row cfg sha load_cert issued_by_ca now hid wire authorization body el) (\<lambda>(agent_id, el').
      Inr ((agent_id, generate_agent_cert ca_file sign_cert agent_id), el'))"

text \<open>The route that revokes an agent: the row is found by its primary key, the wire id is put on the list.\<close>

definition revoke_agent :: "time \<Rightarrow> string \<Rightarrow> enrollment \<Rightarrow> exn + (string \<times> enrollment)" where
  "revoke_agent now pk el =
    (case Option.bind (uuid_parse pk) (sql_get ho_id (el_hosts el)) of
       None \<Rightarrow> Inl (HTTPException 404 ''Server not found'')
     | Some h \<Rightarrow> Inr (ho_agent_id h, el\<lparr>el_cache := revoke_agent_identity now (ho_agent_id h) (el_cache el)\<rparr>))"

end
