(* ===== verification/AgentAuthProps.thy ===== *)
theory AgentAuthProps
  imports AgentAuth
begin

text \<open>
  The identity gate lets a connection through only as the agent its certificate names and only while it is not
  revoked; a spent enrollment token never registers again; a known host name is taken over only with its current
  certificate. The letter case of an id, an unreachable cache and a missing signing service are the weak spots.
\<close>

section \<open>Serials in hexadecimal\<close>

lemma is_hex_lower_hex_digit: "n < 16 \<Longrightarrow> is_hex_lower (hex_digit n)"
  by (simp add: is_hex_lower_def is_digit_def hex_digit_def take_bit_eq_mod)

lemma show_hex_lower: "list_all is_hex_lower (show_hex n)"
proof (induction n rule: show_hex.induct)
  case (1 n)
  then show ?case
    by (cases "n < 16") (simp_all add: show_hex.simps [of n] is_hex_lower_hex_digit)
qed

lemma show_hex_nonempty [simp]: "show_hex n \<noteq> []"
  by (simp add: show_hex.simps [of n])

lemma length_show_hex: "k > 0 \<Longrightarrow> length (show_hex n) \<le> k \<longleftrightarrow> n < 16 ^ k"
proof (induction n arbitrary: k rule: show_hex.induct)
  case (1 n)
  show ?case
  proof (cases "n < 16")
    case True
    have "(16::nat) ^ 1 \<le> 16 ^ k" using "1.prems" by (intro power_increasing) simp_all
    with True "1.prems" show ?thesis by (simp add: show_hex.simps [of n])
  next
    case False
    obtain j where k: "k = Suc j" using "1.prems" by (cases k) simp_all
    show ?thesis
    proof (cases "j = 0")
      case True
      then show ?thesis using False by (simp add: k show_hex.simps [of n])
    next
      case j: False
      have "length (show_hex (n div 16)) \<le> j \<longleftrightarrow> n div 16 < 16 ^ j" using "1.IH" [OF False] j by simp
      then show ?thesis using False by (simp add: k show_hex.simps [of n] less_mult_imp_div_less div_less_iff_less_mult mult.commute)
    qed
  qed
qed

lemma hex_not_space: "is_hex_lower c \<Longrightarrow> \<not> is_space c"
  by (auto simp: is_hex_lower_def is_digit_def is_space_def)

lemma hex_not_upper: "is_hex_lower c \<Longrightarrow> to_lower c = c"
  by (auto simp: is_hex_lower_def is_digit_def to_lower_def is_upper_def)

lemma strip_id: "list_all (\<lambda>c. \<not> is_space c) s \<Longrightarrow> strip s = s"
proof -
  assume a: "list_all (\<lambda>c. \<not> is_space c) s"
  have "dropWhile is_space t = t" if "list_all (\<lambda>c. \<not> is_space c) t" for t using that by (cases t) simp_all
  then show ?thesis using a by (simp add: strip_def)
qed

lemma lower_id: "list_all is_hex_lower s \<Longrightarrow> lower s = s"
  by (induction s) (simp_all add: lower_def hex_not_upper)

lemma normalize_show_hex:
  "normalize_serial (Some (show_hex n)) =
     (if n < 16 ^ 40 then Inr (show_hex n) else Inl (ValueError ''invalid certificate serial format''))"
proof -
  let ?s = "show_hex n"
  have hex: "list_all is_hex_lower ?s" by (rule show_hex_lower)
  then have s: "strip ?s = ?s" by (intro strip_id) (auto simp: list_all_iff hex_not_space)
  have "\<not> is_hex_lower (CHR ''x'')" by code_simp
  then have "take 2 ?s \<noteq> ''0x''" using hex by (cases ?s; cases "tl ?s") auto
  then show ?thesis
    using hex length_show_hex [of 40 n]
    by (simp add: normalize_serial_def s lower_id [OF hex] Let_def Suc_le_eq)
qed

section \<open>The gate\<close>

lemma assert_Passed:
  assumes "assert_not_revoked e f (Some (show_hex n)) r = Passed" "e" "f"
  shows "rd_up r \<and> show_hex n \<notin> set (rd_sets r REVOKED_KEY)"
  using assms by (auto simp: assert_not_revoked_def normalize_show_hex sismember_def split: if_splits)

lemma gate_opens:
  assumes "authenticate_agent cfg now peer requested r = None"
  obtains c cn where "peer = Some c" "ce_cn c = Some cn" "requested \<noteq> []" "lower requested = lower (strip cn)"
    "\<not> is_listed now requested r" "assert_not_revoked (as_enabled cfg) (as_fail_closed cfg) (Some (show_hex (ce_serial c))) r = Passed"
  using assms unfolding authenticate_agent_def peer_cert_common_name_def peer_cert_serial_def
  by (auto split: option.splits if_splits revocation.splits simp: bind_eq_Some_conv)


definition toy_cert :: certificate where
  "toy_cert = \<lparr>ce_cn = Some ''h1'', ce_serial = 255, ce_from = 0, ce_until = 9\<rparr>"

definition toy_auth :: auth_settings where "toy_auth = \<lparr>as_enabled = True, as_fail_closed = True\<rparr>"

lemma toy_gate: "authenticate_agent toy_auth 5 (Some toy_cert) ''H1'' empty_redis = None"
  by code_simp


section \<open>Two letter cases of one agent\<close>

lemma revoked_key_inject [simp]: "revoked_key a = revoked_key b \<longleftrightarrow> a = b"
  by (simp add: revoked_key_def)

lemma renewal_key_other [simp]: "renewal_key a \<noteq> revoked_key b"
  by (simp add: renewal_key_def revoked_key_def)

lemma get_after_list:
  "get_cached t k (revoke_agent_identity now a r) =
     (if rd_up r \<and> k = revoked_key a then Some (PBool True) else get_cached t k r)"
  by (simp add: get_cached_def revoke_agent_identity_def set_cached_def)

lemma members_after_list: "sismember k m (revoke_agent_identity now a r) = sismember k m r"
  by (simp add: revoke_agent_identity_def set_cached_def sismember_def)

lemma revocation_after_list: "assert_not_revoked e f s (revoke_agent_identity now a r) = assert_not_revoked e f s r"
  unfolding assert_not_revoked_def members_after_list ..

text \<open>C25. Revoking an agent closes the gate to the id as it is stored. The same certificate still passes with the id in
  another letter case, and is renewed: the key of the deny list keeps the case, the comparison with the common
  name ignores it.\<close>

theorem revoked_agent_renews_in_another_case:
  assumes "revoke_agent now pk el = Inr (aid, el')" and "rd_up (el_cache el)"
    and "authenticate_agent cfg now peer aid (el_cache el) = None"
    and "lower other = lower aid" "other \<noteq> aid" "strip other = other"
    and "get_cached now (revoked_key other) (el_cache el) = None" "get_cached now (renewal_key other) (el_cache el) = None"
    and "sign_cert other public_key = Some cert" "public_key \<noteq> []"
  shows "authenticate_agent cfg now peer aid (el_cache el') = Some PERMISSION_DENIED
    \<and> fst (renew_certificate cfg sign_cert now peer other public_key (el_cache el')) = Inr cert"
proof -
  have c: "el_cache el' = revoke_agent_identity now aid (el_cache el)"
    using assms(1) by (auto simp: revoke_agent_def split: option.splits)
  obtain ce cn where ce: "peer = Some ce" "ce_cn ce = Some cn" "aid \<noteq> []" "lower aid = lower (strip cn)"
    "assert_not_revoked (as_enabled cfg) (as_fail_closed cfg) (Some (show_hex (ce_serial ce))) (el_cache el) = Passed"
    using gate_opens [OF assms(3)] by metis
  have ne: "strip cn \<noteq> []" "other \<noteq> []" using ce(3,4) assms(4) by (auto simp: lower_def)
  note gate = authenticate_agent_def peer_cert_common_name_def peer_cert_serial_def is_listed_def get_after_list
    revocation_after_list c
  have "authenticate_agent cfg now peer aid (el_cache el') = Some PERMISSION_DENIED"
    using ce ne assms(2) by (simp add: gate)
  moreover have "authenticate_agent cfg now peer other (el_cache el') = None"
    using ce ne assms(2,4,5,7) by (simp add: gate)
  then have "fst (renew_certificate cfg sign_cert now peer other public_key (el_cache el')) = Inr cert"
    using assms(6,8,9,10) by (simp add: renew_certificate_def Let_def c get_after_list)
  ultimately show ?thesis by blast
qed

definition toy_host :: host where
  "toy_host = \<lparr>ho_id = toy_agent_pk, ho_agent_id = ''h1'', ho_status = G_ACTIVE, ho_hostname = ''web'', ho_distro = [],
     ho_version = [], ho_arch = ''amd64'', ho_kernel = [], ho_group = None\<rparr>"

definition toy_token :: enrollment_token where
  "toy_token = \<lparr>et_id = toy_agent_pk, et_hash = ''s3'', et_label = [], et_expires = 9, et_used = None, et_revoked = None,
     et_single = True, et_group = None\<rparr>"

definition toy_fleet :: enrollment where
  "toy_fleet = \<lparr>el_tokens = [toy_token], el_hosts = [toy_host], el_cache = empty_redis\<rparr>"

theorem revoked_agent_renews_in_another_case_witness:
  "authenticate_agent toy_auth 5 (Some toy_cert) ''h1'' (revoke_agent_identity 5 ''h1'' empty_redis) = Some PERMISSION_DENIED
   \<and> fst (renew_certificate toy_auth (\<lambda>i k. Some (i @ k)) 5 (Some toy_cert) ''H1'' ''k''
        (revoke_agent_identity 5 ''h1'' empty_redis)) = Inr ''H1k''"
proof -
  let ?el = "toy_fleet\<lparr>el_cache := revoke_agent_identity 5 ''h1'' empty_redis\<rparr>"
  have "uuid_parse toy_agent_pk = Some toy_agent_pk" by code_simp
  then have "revoke_agent 5 toy_agent_pk toy_fleet = Inr (''h1'', ?el)"
    by (simp add: revoke_agent_def toy_fleet_def toy_host_def sql_get_def)
  moreover have "authenticate_agent toy_auth 5 (Some toy_cert) ''h1'' (el_cache toy_fleet) = None" by code_simp
  moreover have "lower ''H1'' = lower ''h1''" "''H1'' \<noteq> ''h1''" "strip ''H1'' = ''H1''" "rd_up (el_cache toy_fleet)"
    "get_cached 5 (revoked_key ''H1'') (el_cache toy_fleet) = None" "get_cached 5 (renewal_key ''H1'') (el_cache toy_fleet) = None"
    "''k'' \<noteq> []" by code_simp+
  ultimately show ?thesis
    using revoked_agent_renews_in_another_case [of 5 toy_agent_pk toy_fleet "''h1''" ?el toy_auth "Some toy_cert" "''H1''"
        "\<lambda>i k. Some (i @ k)" "''k''" "''H1k''"] by simp
qed

section \<open>Tokens\<close>

lemma sql_one_Inr_Some: "sql_one p xs = Inr (Some x) \<Longrightarrow> x \<in> set xs \<and> p x \<and> (\<forall>y \<in> set xs. p y \<longrightarrow> y = x)"
proof -
  assume "sql_one p xs = Inr (Some x)"
  then have "filter p xs = [x]" by (auto simp: sql_one_def split: list.splits)
  then have "{y \<in> set xs. p y} = {x}" by (metis set_filter list.simps(15) list.set(1))
  then show ?thesis by blast
qed

definition token_spent :: "string \<Rightarrow> enrollment \<Rightarrow> bool" where
  "token_spent h el = (\<exists>t \<in> set (el_tokens el). et_hash t = h \<and> et_single t \<and> et_used t \<noteq> None)"

lemma validate_Inr_iff:
  "validate_enrollment_token sha now x consume el = Inr (t, el') \<longleftrightarrow>
     sql_one (\<lambda>t. et_hash t = sha x) (el_tokens el) = Inr (Some t) \<and> et_revoked t = None \<and> now \<le> et_expires t
     \<and> \<not> (et_single t \<and> et_used t \<noteq> None)
     \<and> el' = (if et_single t \<and> consume
         then el\<lparr>el_tokens := sql_modify et_id (et_id t) (\<lambda>t. t\<lparr>et_used := Some now\<rparr>) (el_tokens el)\<rparr> else el)"
proof -
  have step: "(case row of
        None \<Rightarrow> Inl (HTTPException 403 ''Invalid enrollment token'')
      | Some t \<Rightarrow>
         if et_revoked t \<noteq> None then Inl (HTTPException 403 ''Token revoked'')
         else if et_expires t < now then Inl (HTTPException 403 ''Token expired'')
         else if et_single t \<and> et_used t \<noteq> None then Inl (HTTPException 403 ''Token already used (single-use)'')
         else Inr (t, f t)) = Inr (t, el') \<longleftrightarrow>
      row = Some t \<and> et_revoked t = None \<and> now \<le> et_expires t \<and> \<not> (et_single t \<and> et_used t \<noteq> None) \<and> el' = f t"
    for row and f :: "enrollment_token \<Rightarrow> enrollment"
    by (cases row) (auto simp: not_less)
  show ?thesis
    unfolding validate_enrollment_token_def sum_bind_Inr_iff
      step [where f = "\<lambda>t. if et_single t \<and> consume
         then el\<lparr>el_tokens := sql_modify et_id (et_id t) (\<lambda>t. t\<lparr>et_used := Some now\<rparr>) (el_tokens el)\<rparr> else el"]
    by blast
qed

lemma spent_modify:
  assumes "\<And>t. et_hash (f t) = et_hash t" "\<And>t. et_single (f t) = et_single t" "\<And>t. et_used t \<noteq> None \<Longrightarrow> et_used (f t) \<noteq> None"
    and "token_spent h el"
  shows "token_spent h (el\<lparr>el_tokens := sql_modify et_id i f (el_tokens el)\<rparr>)"
proof -
  obtain t where "t \<in> set (el_tokens el)" "et_hash t = h" "et_single t" "et_used t \<noteq> None"
    using assms(4) by (auto simp: token_spent_def)
  moreover define t' where "t' = (if et_id t = i then f t else t)"
  ultimately have "t' \<in> set (sql_modify et_id i f (el_tokens el))" "et_hash t' = h" "et_single t'" "et_used t' \<noteq> None"
    using assms(1-3) by (auto simp: sql_modify_def in_set_sql_update)
  then show ?thesis unfolding token_spent_def by (intro bexI [of _ t']) simp_all
qed

lemma validated_token:
  assumes "validate_enrollment_token sha now x consume el = Inr (t, el')"
  shows "t \<in> set (el_tokens el)" "et_hash t = sha x" "el_hosts el' = el_hosts el" "el_cache el' = el_cache el"
    "\<not> token_spent (sha x) el" "token_spent h el \<Longrightarrow> token_spent h el'"
    "consume \<Longrightarrow> et_single t \<Longrightarrow> token_spent (sha x) el'"
proof -
  have one: "sql_one (\<lambda>t. et_hash t = sha x) (el_tokens el) = Inr (Some t)" and free: "\<not> (et_single t \<and> et_used t \<noteq> None)"
    and el': "el' = (if et_single t \<and> consume
         then el\<lparr>el_tokens := sql_modify et_id (et_id t) (\<lambda>t. t\<lparr>et_used := Some now\<rparr>) (el_tokens el)\<rparr> else el)"
    using assms unfolding validate_Inr_iff by blast+
  note t = sql_one_Inr_Some [OF one]
  show "t \<in> set (el_tokens el)" "et_hash t = sha x" using t by blast+
  show "el_hosts el' = el_hosts el" "el_cache el' = el_cache el" by (simp_all add: el')
  show "\<not> token_spent (sha x) el" using t free unfolding token_spent_def by blast
  show "token_spent h el'" if "token_spent h el"
    using spent_modify [OF _ _ _ that, of "\<lambda>t. t\<lparr>et_used := Some now\<rparr>" "et_id t"] that by (simp add: el')
  show "token_spent (sha x) el'" if "consume" "et_single t"
    unfolding token_spent_def
  proof (intro bexI [of _ "t\<lparr>et_used := Some now\<rparr>"])
    show "t\<lparr>et_used := Some now\<rparr> \<in> set (el_tokens el')"
      using t by (auto simp: el' that sql_modify_def in_set_sql_update)
  qed (simp_all add: t that)
qed

lemma spent_token_rejected: "token_spent (sha x) el \<Longrightarrow> \<exists>e. validate_enrollment_token sha now x c el = Inl e"
  by (cases "validate_enrollment_token sha now x c el") (auto dest: validated_token(5))

lemma spent_revoke: "revoke_enrollment_token now tid el = Inr el' \<Longrightarrow> token_spent h el \<Longrightarrow> token_spent h el'"
  using spent_modify [of "\<lambda>t. t\<lparr>et_revoked := Some now\<rparr>" h el tid]
  by (auto simp: revoke_enrollment_token_def split: option.splits if_splits)

lemma spent_issue: "issue_enrollment_token sha now tid x l ttl s g el = Inr (p, el') \<Longrightarrow> token_spent h el \<Longrightarrow> token_spent h el'"
  by (auto simp: issue_enrollment_token_def sum_bind_Inr_iff token_spent_def split: if_splits)

lemma register_row_cases:
  assumes "register_row cfg sha load iss now hid wire auth body el = Inr (aid, el')"
  obtains x t el1 where "bearer_token auth = Inr x" "validate_enrollment_token sha now x True el = Inr (t, el1)"
    "case sql_first (\<lambda>h. ho_hostname h = rr_hostname body) (el_hosts el) of
       Some h \<Rightarrow> verify_reenrollment_proof load iss now (rr_cert body) (ho_agent_id h) \<and>
         assert_not_revoked (as_enabled cfg) (as_fail_closed cfg) (cert_serial_hex load (rr_cert body)) (el_cache el) = Passed \<and>
         aid = ho_agent_id h \<and> el' = el1\<lparr>el_hosts := sql_modify ho_id (ho_id h) (describe_host body (et_group t)) (el_hosts el)\<rparr>
     | None \<Rightarrow> aid = wire \<and> el' = el1\<lparr>el_hosts := el_hosts el @ [new_host hid wire body (et_group t)]\<rparr>"
proof -
  obtain x t el1 where v: "bearer_token auth = Inr x" "validate_enrollment_token sha now x True el = Inr (t, el1)"
    using assms by (auto simp: register_row_def verify_enrollment_token_def sum_bind_Inr_iff)
  note h = validated_token(3,4) [OF v(2)]
  note r = assms [unfolded register_row_def verify_enrollment_token_def v sum_bind_simps case_prod_conv h]
  show ?thesis
  proof (rule that [OF v], cases "sql_first (\<lambda>h. ho_hostname h = rr_hostname body) (el_hosts el)", goal_cases)
    case 1
    with r show ?case by auto
  next
    case (2 h)
    with r show ?case
      by (cases "assert_not_revoked (as_enabled cfg) (as_fail_closed cfg) (cert_serial_hex load (rr_cert body)) (el_cache el)")
        (simp_all split: if_splits)
  qed
qed

lemma register_agent_Inr_iff:
  "register_agent cfg sha load iss ca sign now hid wire auth body el = Inr ((aid, cert), el') \<longleftrightarrow>
     register_row cfg sha load iss now hid wire auth body el = Inr (aid, el') \<and> cert = generate_agent_cert ca sign aid"
  by (auto simp: register_agent_def sum_bind_Inr_iff)

lemma register_tokens:
  assumes "register_agent cfg sha load iss ca sign now hid wire auth body el = Inr (out, el')"
  obtains x t el1 where "bearer_token auth = Inr x" "validate_enrollment_token sha now x True el = Inr (t, el1)"
    "el_tokens el' = el_tokens el1"
proof -
  obtain aid cert where "out = (aid, cert)" by (cases out)
  with assms have "register_row cfg sha load iss now hid wire auth body el = Inr (aid, el')"
    by (simp add: register_agent_Inr_iff)
  then show ?thesis by (rule register_row_cases) (rule that, assumption, assumption, auto split: option.splits)
qed

text \<open>What can happen to the tokens and the hosts.\<close>

inductive enrollment_step :: "(string \<Rightarrow> string) \<Rightarrow> enrollment \<Rightarrow> enrollment \<Rightarrow> bool" for sha where
  issue: "issue_enrollment_token sha now tid x l ttl s g el = Inr (p, el') \<Longrightarrow> enrollment_step sha el el'"
| revoke_token: "revoke_enrollment_token now tid el = Inr el' \<Longrightarrow> enrollment_step sha el el'"
| download: "verify_enrollment_token sha now False auth el = Inr (t, el') \<Longrightarrow> enrollment_step sha el el'"
| register: "register_agent cfg sha load iss ca sign now hid wire auth body el = Inr (out, el') \<Longrightarrow> enrollment_step sha el el'"
| revoke_host: "revoke_agent now pk el = Inr (aid, el') \<Longrightarrow> enrollment_step sha el el'"

lemma token_spent_cong: "el_tokens a = el_tokens b \<Longrightarrow> token_spent h a = token_spent h b"
  by (simp add: token_spent_def)

lemma spent_step: "enrollment_step sha el el' \<Longrightarrow> token_spent h el \<Longrightarrow> token_spent h el'"
proof (induction rule: enrollment_step.induct)
  case (issue now tid x l ttl s g el p el')
  then show ?case by (rule spent_issue)
next
  case (revoke_token now tid el el')
  then show ?case by (rule spent_revoke)
next
  case (download now auth el t el')
  then show ?case by (auto simp: verify_enrollment_token_def sum_bind_Inr_iff dest: validated_token(6))
next
  case (register cfg load iss ca sign now hid wire auth body el out el')
  then show ?case by (metis register_tokens validated_token(6) token_spent_cong)
next
  case (revoke_host now pk el aid el')
  then have "el_tokens el' = el_tokens el" by (auto simp: revoke_agent_def split: option.splits)
  then show ?case using revoke_host.prems token_spent_cong by blast
qed

lemma spent_steps: "(enrollment_step sha)\<^sup>*\<^sup>* el el' \<Longrightarrow> token_spent h el \<Longrightarrow> token_spent h el'"
  by (induction rule: rtranclp_induct) (auto dest: spent_step)

text \<open>C23. A single-use token registers one host. After a registration with it, whatever is issued, revoked, downloaded or
  registered in between, registering again with the same token fails.\<close>

theorem single_use_token_registers_once:
  assumes "register_agent cfg sha load iss ca sign now hid wire auth body el = Inr (out, el1)"
    and "bearer_token auth = Inr x" and "\<forall>t \<in> set (el_tokens el). et_hash t = sha x \<longrightarrow> et_single t"
    and "(enrollment_step sha)\<^sup>*\<^sup>* el1 el2" and "bearer_token auth' = Inr x"
  shows "\<exists>e. register_agent cfg' sha load' iss' ca' sign' now' hid' wire' auth' body' el2 = Inl e"
proof -
  obtain t ela where v: "validate_enrollment_token sha now x True el = Inr (t, ela)" "el_tokens el1 = el_tokens ela"
    using register_tokens [OF assms(1)] assms(2) by (metis sum.inject(2))
  have "token_spent (sha x) ela" using validated_token(1,2,7) [OF v(1)] assms(3) by blast
  then have "token_spent (sha x) el2" using v(2) token_spent_cong spent_steps [OF assms(4)] by blast
  then obtain e where "validate_enrollment_token sha now' x True el2 = Inl e" using spent_token_rejected by blast
  then show ?thesis by (simp add: register_agent_def register_row_def verify_enrollment_token_def assms(5))
qed

definition toy_request :: register_request where
  "toy_request = \<lparr>rr_hostname = ''db'', rr_distro = [], rr_version = [], rr_arch = ''amd64'', rr_kernel = [], rr_cert = None\<rparr>"

definition toy_register :: "string option \<Rightarrow> string \<Rightarrow> enrollment \<Rightarrow> exn + ((string \<times> string) \<times> enrollment)" where
  "toy_register cert wire el = register_agent toy_auth (\<lambda>x. x) (\<lambda>_. Some toy_cert) (\<lambda>_. True) True (\<lambda>_. None) 5 wire wire
     (Some ''Bearer s3'') (toy_request\<lparr>rr_cert := cert\<rparr>) el"

definition toy_registered :: enrollment where
  "toy_registered = toy_fleet\<lparr>el_tokens := [toy_token\<lparr>et_used := Some 5\<rparr>],
     el_hosts := [toy_host, \<lparr>ho_id = ''a2'', ho_agent_id = ''a2'', ho_status = G_PENDING, ho_hostname = ''db'', ho_distro = [],
       ho_version = [], ho_arch = ''amd64'', ho_kernel = [], ho_group = None\<rparr>]\<rparr>"

lemma toy_bearer: "bearer_token (Some ''Bearer s3'') = Inr ''s3''" by code_simp

lemma toy_registers: "toy_register None ''a2'' toy_fleet = Inr ((''a2'', []), toy_registered)"
  by (simp add: toy_register_def register_agent_def register_row_def verify_enrollment_token_def toy_bearer [simplified]
      validate_enrollment_token_def sql_one_def toy_fleet_def toy_token_def toy_request_def toy_host_def sql_modify_def
      generate_agent_cert_def toy_registered_def new_host_def)

theorem single_use_token_registers_once_witness:
  "\<exists>e. toy_register None ''a3'' toy_registered = Inl e"
proof -
  have "\<forall>t \<in> set (el_tokens toy_fleet). et_hash t = ''s3'' \<longrightarrow> et_single t" by (simp add: toy_fleet_def toy_token_def)
  then show ?thesis unfolding toy_register_def
    by (intro single_use_token_registers_once [OF toy_registers [unfolded toy_register_def] toy_bearer _ _ toy_bearer]) simp_all
qed

text \<open>The list shows a token as active exactly when it would be accepted.\<close>

theorem active_tokens_are_accepted:
  assumes "sql_one (\<lambda>t. et_hash t = sha x) (el_tokens el) = Inr (Some t)"
  shows "token_status now t = ''active'' \<longleftrightarrow> (\<exists>el'. validate_enrollment_token sha now x consume el = Inr (t, el'))"
  by (simp add: validate_Inr_iff assms token_status_def)

theorem active_tokens_are_accepted_witness:
  "\<exists>el'. validate_enrollment_token (\<lambda>x. x) 9 ''s3'' True toy_fleet = Inr (toy_token, el')"
proof -
  have "sql_one (\<lambda>t. et_hash t = (\<lambda>x. x) ''s3'') (el_tokens toy_fleet) = Inr (Some toy_token)"
    by (simp add: sql_one_def toy_fleet_def toy_token_def)
  moreover have "token_status 9 toy_token = ''active''" by code_simp
  ultimately show ?thesis using active_tokens_are_accepted [of "\<lambda>x. x" "''s3''" toy_fleet toy_token 9 True] by blast
qed

section \<open>Known host names\<close>

lemma register_known_host:
  assumes "sql_first (\<lambda>h. ho_hostname h = rr_hostname body) (el_hosts el) = Some h"
    and "register_agent cfg sha load iss ca sign now hid wire auth body el = Inr ((aid, cert), el')"
  shows "verify_reenrollment_proof load iss now (rr_cert body) (ho_agent_id h)"
    "assert_not_revoked (as_enabled cfg) (as_fail_closed cfg) (cert_serial_hex load (rr_cert body)) (el_cache el) = Passed"
    "aid = ho_agent_id h" "map ho_agent_id (el_hosts el') = map ho_agent_id (el_hosts el)"
proof -
  have r: "register_row cfg sha load iss now hid wire auth body el = Inr (aid, el')"
    using assms(2) by (simp add: register_agent_Inr_iff)
  have ids: "map ho_agent_id (sql_modify ho_id i (describe_host body g) hs) = map ho_agent_id hs" for i g hs
    by (simp add: sql_modify_def map_key_sql_update describe_host_def)
  show "verify_reenrollment_proof load iss now (rr_cert body) (ho_agent_id h)"
    "assert_not_revoked (as_enabled cfg) (as_fail_closed cfg) (cert_serial_hex load (rr_cert body)) (el_cache el) = Passed"
    "aid = ho_agent_id h" "map ho_agent_id (el_hosts el') = map ho_agent_id (el_hosts el)"
    by (rule register_row_cases [OF r], simp add: assms(1) ids)+
qed



text \<open>While the signing service is away, registering a new host answers with an empty certificate. Its name is taken and a
  single-use token is spent, so that host cannot register again, with this token or with another, until an
  administrator removes its row.\<close>

theorem signer_outage_locks_the_host_out:
  assumes "register_agent cfg sha load iss ca (\<lambda>_. None) now hid wire auth body el = Inr ((aid, cert), el1)"
    and "sql_first (\<lambda>h. ho_hostname h = rr_hostname body) (el_hosts el) = None"
    and "rr_hostname body' = rr_hostname body" and "rr_cert body' = None"
  shows "cert = [] \<and> (\<exists>e. register_agent cfg' sha load' iss' ca' sign' now' hid' wire' auth' body' el1 = Inl e)"
proof -
  have r: "register_row cfg sha load iss now hid wire auth body el = Inr (aid, el1)" "cert = []"
    using assms(1) by (simp_all add: register_agent_Inr_iff generate_agent_cert_def)
  have "sql_first (\<lambda>h. ho_hostname h = rr_hostname body) (el_hosts el1) \<noteq> None"
    by (rule register_row_cases [OF r(1)]) (auto simp: assms(2) sql_first_None_iff new_host_def)
  with r(2) have "cert = [] \<and> sql_first (\<lambda>h. ho_hostname h = rr_hostname body) (el_hosts el1) \<noteq> None" by blast
  then obtain h where h: "cert = []" "sql_first (\<lambda>h. ho_hostname h = rr_hostname body') (el_hosts el1) = Some h"
    using assms(3) by auto
  have "\<not> verify_reenrollment_proof load' iss' now' (rr_cert body') (ho_agent_id h)"
    by (simp add: assms(4) verify_reenrollment_proof_def)
  then have "register_agent cfg' sha load' iss' ca' sign' now' hid' wire' auth' body' el1 \<noteq> Inr ((a, c), e)" for a c e
    using register_known_host(1) [OF h(2)] by metis
  then have "\<exists>e. register_agent cfg' sha load' iss' ca' sign' now' hid' wire' auth' body' el1 = Inl e"
    by (metis old.sum.exhaust prod.exhaust)
  with h(1) show ?thesis by blast
qed

theorem signer_outage_locks_the_host_out_witness:
  "\<exists>e. toy_register None ''a3'' toy_registered = Inl e"
proof -
  have "sql_first (\<lambda>h. ho_hostname h = rr_hostname toy_request) (el_hosts toy_fleet) = None"
    by (simp add: toy_fleet_def toy_host_def toy_request_def)
  then show ?thesis unfolding toy_register_def
    using signer_outage_locks_the_host_out [OF toy_registers [unfolded toy_register_def], of "toy_request\<lparr>rr_cert := None\<rparr>"]
    by (simp add: toy_request_def)
qed

end
