(* ===== verification/VersionTable.thy ===== *)
theory VersionTable
  imports Store
begin

text \<open>
  The contract of a table of versions, of which one per family is live: the rows have a key and a family, a row
  may be live, retiring a row ends that and raising a row starts it. Baselines and workflows keep such tables.
\<close>

lemma sql_update_none: "(\<And>r. r \<in> set rows \<Longrightarrow> \<not> p r) \<Longrightarrow> sql_update p f rows = rows"
  by (auto simp: sql_update_def intro: map_idI)

lemma sql_update_cong: "(\<And>r. r \<in> set rows \<Longrightarrow> p r = q r) \<Longrightarrow> sql_update p f rows = sql_update q f rows"
  by (auto simp: sql_update_def)

lemma sql_first_unique:
  assumes "x \<in> set rows" "p x" "\<And>y. y \<in> set rows \<Longrightarrow> p y \<Longrightarrow> y = x"
  shows "sql_first p rows = Some x"
proof (cases "sql_first p rows")
  case None
  with assms(1,2) show ?thesis by (simp add: sql_first_None_iff)
next
  case (Some y)
  with assms(3) sql_first_SomeD [OF Some] show ?thesis by simp
qed

locale version_table =
  fixes key :: "'r \<Rightarrow> 'k"
    and family :: "'r \<Rightarrow> 'f"
    and live :: "'r \<Rightarrow> bool"
    and retire :: "'r \<Rightarrow> 'r"
    and raise :: "'r \<Rightarrow> 'r"
  assumes key_retire: "key (retire r) = key r" and key_raise: "key (raise r) = key r"
    and family_retire: "family (retire r) = family r" and family_raise: "family (raise r) = family r"
    and not_live_retire: "\<not> live (retire r)" and live_raise: "live (raise r)"
begin

definition one_live :: "'r list \<Rightarrow> bool" where
  "one_live rows = (\<forall>a \<in> set rows. \<forall>b \<in> set rows. live a \<longrightarrow> live b \<longrightarrow> family a = family b \<longrightarrow> key a = key b)"

definition live_of :: "'r list \<Rightarrow> 'f \<Rightarrow> 'k option" where
  "live_of rows f = map_option key (sql_first (\<lambda>r. family r = f \<and> live r) rows)"

definition promoted :: "'k \<Rightarrow> 'f \<Rightarrow> 'r \<Rightarrow> 'r" where
  "promoted k f r = (let r' = (if family r = f \<and> live r then retire r else r) in if key r' = k then raise r' else r')"

definition promote :: "'k \<Rightarrow> 'f \<Rightarrow> 'r list \<Rightarrow> 'r list" where
  "promote k f rows = sql_modify key k raise (sql_update (\<lambda>r. family r = f \<and> live r) retire rows)"

lemma promote_map: "promote k f rows = map (promoted k f) rows"
  by (simp add: promote_def sql_modify_def sql_update_def promoted_def Let_def)

lemma key_promoted: "key (promoted k f r) = key r"
  by (simp add: promoted_def Let_def key_raise key_retire)

lemma family_promoted: "family (promoted k f r) = family r"
  by (simp add: promoted_def Let_def family_raise family_retire)

lemma live_promoted: "live (promoted k f r) \<longleftrightarrow> key r = k \<or> live r \<and> family r \<noteq> f"
  by (cases "family r = f") (simp_all add: promoted_def Let_def live_raise not_live_retire key_retire)

lemma retire_current:
  assumes "distinct (map key rows)" "sql_one (\<lambda>r. family r = f \<and> live r) rows = Inr current"
  shows "(case current of None \<Rightarrow> rows | Some c \<Rightarrow> sql_modify key (key c) retire rows)
    = sql_update (\<lambda>r. family r = f \<and> live r) retire rows"
proof (cases current)
  case None
  then have "filter (\<lambda>r. family r = f \<and> live r) rows = []"
    using assms(2) by (auto simp: sql_one_def split: list.splits)
  then have "\<And>r. r \<in> set rows \<Longrightarrow> \<not> (family r = f \<and> live r)" by (auto simp: filter_empty_conv)
  then show ?thesis using sql_update_none [of rows "\<lambda>r. family r = f \<and> live r"] None by simp
next
  case (Some c)
  then have "filter (\<lambda>r. family r = f \<and> live r) rows = [c]"
    using assms(2) by (auto simp: sql_one_def split: list.splits)
  then have c: "{r \<in> set rows. family r = f \<and> live r} = {c}" by (metis set_filter empty_set list.simps(15))
  have "key r = key c \<longleftrightarrow> family r = f \<and> live r" if "r \<in> set rows" for r
  proof -
    have "key r = key c \<longleftrightarrow> r = c"
      using that c assms(1) by (auto simp: distinct_map inj_on_def)
    also have "\<dots> \<longleftrightarrow> family r = f \<and> live r" using that c by blast
    finally show ?thesis .
  qed
  then show ?thesis unfolding Some sql_modify_def option.case by (rule sql_update_cong)
qed

lemma map_key_promote: "map key (promote k f rows) = map key rows"
  by (simp add: promote_map key_promoted)

lemma one_live_promote:
  assumes "one_live rows" "\<And>r. r \<in> set rows \<Longrightarrow> key r = k \<Longrightarrow> family r = f"
  shows "one_live (promote k f rows)"
  unfolding one_live_def promote_map set_map ball_simps key_promoted family_promoted live_promoted
proof (intro ballI impI)
  fix a b assume ab: "a \<in> set rows" "b \<in> set rows" "family a = family b"
    and live: "key a = k \<or> live a \<and> family a \<noteq> f" "key b = k \<or> live b \<and> family b \<noteq> f"
  show "key a = key b"
  proof (cases "family b = f")
    case True
    then show ?thesis using live ab(3) by simp
  next
    case False
    then have "live a" "live b" using live ab assms(2) by auto
    then show ?thesis using assms(1) ab unfolding one_live_def by blast
  qed
qed

lemma live_of_promote:
  assumes "distinct (map key rows)" "sql_get key rows k = Some v" "family v = f"
  shows "live_of (promote k f rows) = (live_of rows)(f := Some k)"
proof
  fix g
  note v = sql_get_SomeD [OF assms(2)]
  have unique: "r = v" if "r \<in> set rows" "key r = k" for r
    using that v assms(1) by (metis distinct_map inj_onD)
  show "live_of (promote k f rows) g = ((live_of rows)(f := Some k)) g"
  proof (cases "g = f")
    case True
    have "sql_first (\<lambda>r. family r = f \<and> live r) (promote k f rows) = Some (promoted k f v)"
    proof (rule sql_first_unique)
      show "promoted k f v \<in> set (promote k f rows)" using v by (simp add: promote_map)
      show "family (promoted k f v) = f \<and> live (promoted k f v)"
        using v assms(3) by (simp add: family_promoted live_promoted)
      show "y = promoted k f v" if "y \<in> set (promote k f rows)" "family y = f \<and> live y" for y
        using that unique by (auto simp: promote_map family_promoted live_promoted)
    qed
    then show ?thesis using True v by (simp add: live_of_def key_promoted)
  next
    case False
    have "map_option key (sql_first (\<lambda>r. family r = g \<and> live r) (promote k f xs))
        = map_option key (sql_first (\<lambda>r. family r = g \<and> live r) xs)"
      if "\<forall>r \<in> set xs. key r = k \<longrightarrow> family r = f" for xs
      using that False
      by (induction xs) (auto simp: promote_map family_promoted live_promoted key_promoted)
    from this [of rows] show ?thesis using False unique assms(3) by (auto simp: live_of_def)
  qed
qed

lemma one_live_append:
  assumes "\<not> live v" "one_live rows"
  shows "one_live (rows @ [v])"
  unfolding one_live_def
proof (intro ballI impI)
  fix a b assume "a \<in> set (rows @ [v])" "b \<in> set (rows @ [v])" "live a" "live b" "family a = family b"
  moreover from this have "a \<in> set rows" "b \<in> set rows" using assms(1) by auto
  ultimately show "key a = key b" using assms(2) unfolding one_live_def by blast
qed

lemma one_live_map:
  assumes "\<And>r. r \<in> set rows \<Longrightarrow> key (f r) = key r \<and> family (f r) = family r \<and> live (f r) = live r"
    and "one_live rows"
  shows "one_live (map f rows)"
  unfolding one_live_def set_map ball_simps
proof (intro ballI impI)
  fix a b assume ab: "a \<in> set rows" "b \<in> set rows" and "live (f a)" "live (f b)" "family (f a) = family (f b)"
  then have "live a" "live b" "family a = family b" using assms(1) by auto
  then have "key a = key b" using assms(2) ab unfolding one_live_def by blast
  then show "key (f a) = key (f b)" using assms(1) ab by simp
qed

lemma live_of_append: "\<not> live v \<Longrightarrow> live_of (rows @ [v]) = live_of rows"
proof
  fix g assume "\<not> live v"
  then show "live_of (rows @ [v]) g = live_of rows g"
    by (induction rows) (auto simp: live_of_def)
qed

lemma live_of_map:
  assumes "\<And>r. r \<in> set rows \<Longrightarrow> key (f r) = key r \<and> family (f r) = family r \<and> live (f r) = live r"
  shows "live_of (map f rows) = live_of rows"
proof
  fix g show "live_of (map f rows) g = live_of rows g"
    using assms by (induction rows) (auto simp: live_of_def)
qed

end

end
