(* ===== verification/Baselines.thy ===== *)
theory Baselines
  imports VersionTable Capability
begin

text \<open>
  Baselines and their versions (\<open>services/baseline_service.py\<close>, \<open>models/baseline.py\<close>): creation, submission,
  approval, publication and rollback. SHA-256 is a parameter; every route commits before it writes its audit line
  and publishes its message, so an error leaves the tables as they were.
\<close>

datatype baseline_scope = SC_GLOBAL | SC_OS | SC_ROLE | SC_ENVIRONMENT | SC_DATACENTER | SC_CLUSTER | SC_APPLICATION

datatype baseline_status = BV_DRAFT | BV_PENDING | BV_APPROVED | BV_PUBLISHED | BV_DEPRECATED

record baseline =
  bl_id :: uuid
  bl_name :: string
  bl_scope :: baseline_scope
  bl_selector :: config
  bl_parent :: "uuid option"

record baseline_version =
  bv_id :: uuid
  bv_baseline :: uuid
  bv_number :: nat
  bv_status :: baseline_status
  bv_state :: config
  bv_hash :: string
  bv_summary :: "string option"
  bv_created_by :: "uuid option"
  bv_author :: "string option"
  bv_published :: "time option"
  bv_deprecated :: "time option"

record baseline_approval =
  ba_version :: uuid
  ba_approver :: uuid

record baseline_store =
  bs_baselines :: "baseline list"
  bs_versions :: "baseline_version list"
  bs_approvals :: "baseline_approval list"
  bs_events :: "(uuid \<times> uuid) list"

definition empty_baselines :: baseline_store where
  "empty_baselines = \<lparr>bs_baselines = [], bs_versions = [], bs_approvals = [], bs_events = []\<rparr>"

definition content_hash :: "(string \<Rightarrow> string) \<Rightarrow> config \<Rightarrow> string" where
  "content_hash sha expected = sha (canonical_json (PDict expected))"

definition draft_baseline ::
    "(string \<Rightarrow> string) \<Rightarrow> uuid \<Rightarrow> uuid \<Rightarrow> nat \<Rightarrow> config \<Rightarrow> string option \<Rightarrow> string option \<Rightarrow> baseline_version" where
  "draft_baseline sha vid bid n expected summary actor =
    \<lparr>bv_id = vid, bv_baseline = bid, bv_number = n, bv_status = BV_DRAFT, bv_state = expected,
      bv_hash = content_hash sha expected, bv_summary = summary, bv_created_by = safe_uuid actor, bv_author = actor,
      bv_published = None, bv_deprecated = None\<rparr>"

definition create_baseline ::
    "(string \<Rightarrow> string) \<Rightarrow> uuid \<Rightarrow> uuid \<Rightarrow> string \<Rightarrow> baseline_scope \<Rightarrow> config \<Rightarrow> uuid option \<Rightarrow> config
     \<Rightarrow> string option \<Rightarrow> baseline_store \<Rightarrow> exn + baseline_store" where
  "create_baseline sha bid vid name scope selector parent expected actor bs =
    (if (case parent of None \<Rightarrow> False | Some p \<Rightarrow> p \<notin> bl_id ` set (bs_baselines bs))
     then Inl (DatabaseError ''ForeignKeyViolation'')
     else Inr (bs\<lparr>
       bs_baselines := bs_baselines bs @
         [\<lparr>bl_id = bid, bl_name = name, bl_scope = scope, bl_selector = selector, bl_parent = parent\<rparr>],
       bs_versions := bs_versions bs @ [draft_baseline sha vid bid 1 expected None actor]\<rparr>))"

definition get_baseline_version :: "uuid \<Rightarrow> baseline_store \<Rightarrow> exn + baseline_version" where
  "get_baseline_version vid bs =
    (case sql_get bv_id (bs_versions bs) vid of
       None \<Rightarrow> Inl (HTTPException 404 ''Baseline version not found'') | Some v \<Rightarrow> Inr v)"

definition create_baseline_version ::
    "(string \<Rightarrow> string) \<Rightarrow> uuid \<Rightarrow> uuid \<Rightarrow> config \<Rightarrow> string option \<Rightarrow> string option \<Rightarrow> baseline_store
     \<Rightarrow> exn + baseline_store" where
  "create_baseline_version sha vid bid expected summary actor bs =
    (case map bv_number (filter (\<lambda>v. bv_baseline v = bid) (bs_versions bs)) of
       [] \<Rightarrow> Inl (HTTPException 404 ''Baseline not found'')
     | ns \<Rightarrow> Inr (bs\<lparr>bs_versions := bs_versions bs @
               [draft_baseline sha vid bid (fold max ns 0 + 1) expected summary actor]\<rparr>))"

definition set_baseline_status :: "uuid \<Rightarrow> baseline_status \<Rightarrow> baseline_store \<Rightarrow> baseline_store" where
  "set_baseline_status vid s bs =
    bs\<lparr>bs_versions := sql_modify bv_id vid (\<lambda>v. v\<lparr>bv_status := s\<rparr>) (bs_versions bs)\<rparr>"

definition submit_baseline :: "uuid \<Rightarrow> baseline_store \<Rightarrow> exn + baseline_store" where
  "submit_baseline vid bs =
    sum_bind (get_baseline_version vid bs) (\<lambda>v.
      if bv_status v \<noteq> BV_DRAFT then Inl (HTTPException 409 ''Cannot submit'')
      else Inr (set_baseline_status vid BV_PENDING bs))"

text \<open>Whether the approver is the author, by the raw id or by the UUID on the row; nobody is when the id is missing.\<close>

definition is_author :: "string option \<Rightarrow> baseline_version \<Rightarrow> bool" where
  "is_author actor v =
    (case actor of
       None \<Rightarrow> False
     | Some raw \<Rightarrow> raw \<noteq> [] \<and> (bv_author v = Some raw
         \<or> (case bv_created_by v of None \<Rightarrow> False | Some u \<Rightarrow> u \<noteq> [] \<and> u = raw)))"

definition approve_baseline :: "uuid \<Rightarrow> string option \<Rightarrow> baseline_store \<Rightarrow> exn + baseline_store" where
  "approve_baseline vid actor bs =
    sum_bind (get_baseline_version vid bs) (\<lambda>v.
      if bv_status v \<noteq> BV_PENDING then Inl (HTTPException 409 ''Cannot approve'')
      else if is_author actor v then Inl (HTTPException 403 ''Author cannot approve their own baseline version'')
      else Inr ((set_baseline_status vid BV_APPROVED bs)\<lparr>bs_approvals := bs_approvals bs @
        (case safe_uuid actor of None \<Rightarrow> [] | Some u \<Rightarrow> [\<lparr>ba_version = vid, ba_approver = u\<rparr>])\<rparr>))"

datatype approval_decision = AD_APPROVED | AD_REJECTED

text \<open>The route of an approval: the baseline of the path and the decision of the body are not looked at.\<close>

definition approve_baseline_route ::
    "uuid \<Rightarrow> uuid \<Rightarrow> approval_decision option \<Rightarrow> string option \<Rightarrow> baseline_store \<Rightarrow> exn + baseline_store" where
  "approve_baseline_route bid vid decision actor bs = approve_baseline vid actor bs"

definition deprecate :: "time \<Rightarrow> baseline_version \<Rightarrow> baseline_version" where
  "deprecate now v = v\<lparr>bv_status := BV_DEPRECATED, bv_deprecated := Some now\<rparr>"

definition make_live :: "time \<Rightarrow> baseline_version \<Rightarrow> baseline_version" where
  "make_live now v = v\<lparr>bv_status := BV_PUBLISHED, bv_published := Some now, bv_deprecated := None\<rparr>"

definition bv_live :: "baseline_version \<Rightarrow> bool" where "bv_live v = (bv_status v = BV_PUBLISHED)"

text \<open>What publication and rollback share: the version that is live is deprecated, the given one goes live.\<close>

definition go_live :: "time \<Rightarrow> bool \<Rightarrow> baseline_version \<Rightarrow> baseline_store \<Rightarrow> exn + baseline_store" where
  "go_live now bus v bs =
    sum_bind (sql_one (\<lambda>r. bv_baseline r = bv_baseline v \<and> bv_live r) (bs_versions bs)) (\<lambda>current.
      let retired = (case current of None \<Rightarrow> bs_versions bs
                     | Some c \<Rightarrow> sql_modify bv_id (bv_id c) (deprecate now) (bs_versions bs))
      in Inr (bs\<lparr>bs_versions := sql_modify bv_id (bv_id v) (make_live now) retired,
               bs_events := bs_events bs @ (if bus then [(bv_baseline v, bv_id v)] else [])\<rparr>))"

definition publish_baseline :: "time \<Rightarrow> bool \<Rightarrow> uuid \<Rightarrow> baseline_store \<Rightarrow> exn + baseline_store" where
  "publish_baseline now bus vid bs =
    sum_bind (get_baseline_version vid bs) (\<lambda>v.
      if bv_status v \<noteq> BV_APPROVED then Inl (HTTPException 409 ''Cannot publish'') else go_live now bus v bs)"

definition rollback_baseline :: "time \<Rightarrow> bool \<Rightarrow> uuid \<Rightarrow> baseline_store \<Rightarrow> exn + baseline_store" where
  "rollback_baseline now bus vid bs =
    sum_bind (get_baseline_version vid bs) (\<lambda>v.
      if bv_status v \<noteq> BV_DEPRECATED then Inl (HTTPException 409 ''Rollback target must be a DEPRECATED version'')
      else go_live now bus v bs)"

section \<open>The table of versions\<close>

interpretation bt: version_table bv_id bv_baseline bv_live "deprecate now" "make_live now"
  for now
  by unfold_locales (simp_all add: deprecate_def make_live_def bv_live_def)

text \<open>The live version of a baseline.\<close>

definition live_baseline :: "baseline_store \<Rightarrow> uuid \<Rightarrow> uuid option" where
  "live_baseline bs b = map_option bv_id (sql_first (\<lambda>r. bv_baseline r = b \<and> bv_live r) (bs_versions bs))"

end
