(* ===== verification/BaselineProps.thy ===== *)
theory BaselineProps
  imports Baselines
begin

text \<open>
  Baselines: every operation acts on the live versions as setting one entry of a map, a version never changes its
  content and only moves along its life cycle, and what is live was approved by someone else than its author.
\<close>

section \<open>Steps and their history\<close>

datatype baseline_event = Approve uuid "string option" | Other

inductive baseline_step :: "(string \<Rightarrow> string) \<Rightarrow> baseline_event \<Rightarrow> baseline_store \<Rightarrow> baseline_store \<Rightarrow> bool" for sha where
  create: "vid \<notin> bv_id ` set (bs_versions bs) \<Longrightarrow>
    create_baseline sha bid vid name scope sel parent expected actor bs = Inr bs' \<Longrightarrow> baseline_step sha Other bs bs'"
| draft: "vid \<notin> bv_id ` set (bs_versions bs) \<Longrightarrow>
    create_baseline_version sha vid bid expected summary actor bs = Inr bs' \<Longrightarrow> baseline_step sha Other bs bs'"
| submit: "submit_baseline vid bs = Inr bs' \<Longrightarrow> baseline_step sha Other bs bs'"
| approve: "approve_baseline_route bid vid decision actor bs = Inr bs' \<Longrightarrow> baseline_step sha (Approve vid actor) bs bs'"
| publish: "publish_baseline now bus vid bs = Inr bs' \<Longrightarrow> baseline_step sha Other bs bs'"
| rollback: "rollback_baseline now bus vid bs = Inr bs' \<Longrightarrow> baseline_step sha Other bs bs'"

inductive baseline_trace :: "(string \<Rightarrow> string) \<Rightarrow> baseline_event list \<Rightarrow> baseline_store \<Rightarrow> bool" for sha where
  start: "baseline_trace sha [] empty_baselines"
| more: "baseline_trace sha es bs \<Longrightarrow> baseline_step sha e bs bs' \<Longrightarrow> baseline_trace sha (es @ [e]) bs'"

text \<open>The life cycle.\<close>

definition baseline_next :: "baseline_status \<Rightarrow> baseline_status \<Rightarrow> bool" where
  "baseline_next s t = ((s, t) \<in> {(BV_DRAFT, BV_PENDING), (BV_PENDING, BV_APPROVED), (BV_APPROVED, BV_PUBLISHED),
     (BV_PUBLISHED, BV_DEPRECATED), (BV_DEPRECATED, BV_PUBLISHED)})"

definition bv_content :: "baseline_version \<Rightarrow> uuid \<times> uuid \<times> nat \<times> config \<times> string \<times> string option \<times> uuid option \<times> string option" where
  "bv_content v = (bv_id v, bv_baseline v, bv_number v, bv_state v, bv_hash v, bv_summary v, bv_created_by v, bv_author v)"

text \<open>What an operation may do to the versions that are there.\<close>

definition versions_move :: "baseline_store \<Rightarrow> baseline_store \<Rightarrow> bool" where
  "versions_move bs bs' = (\<forall>v \<in> set (bs_versions bs). \<exists>v' \<in> set (bs_versions bs').
     bv_content v' = bv_content v \<and> baseline_next\<^sup>*\<^sup>* (bv_status v) (bv_status v'))"

definition versions_good :: "(string \<Rightarrow> string) \<Rightarrow> baseline_store \<Rightarrow> bool" where
  "versions_good sha bs = (distinct (map bv_id (bs_versions bs)) \<and> bt.one_live (bs_versions bs)
     \<and> (\<forall>v \<in> set (bs_versions bs). bv_hash v = content_hash sha (bv_state v)))"

lemma versions_move_refl: "bs_versions bs' = bs_versions bs @ vs \<Longrightarrow> versions_move bs bs'"
  unfolding versions_move_def by (auto intro!: bexI rtranclp.rtrancl_refl)

lemma versions_move_trans: "versions_move a b \<Longrightarrow> versions_move b c \<Longrightarrow> versions_move a c"
  unfolding versions_move_def by (metis rtranclp_trans)

lemma live_baseline_bt: "live_baseline bs = bt.live_of (bs_versions bs)"
  by (rule ext) (simp add: live_baseline_def bt.live_of_def)

lemma get_baseline_version_Inr: "get_baseline_version vid bs = Inr v \<Longrightarrow> v \<in> set (bs_versions bs) \<and> bv_id v = vid"
  by (auto simp: get_baseline_version_def split: option.splits dest: sql_get_SomeD)

section \<open>One operation at a time\<close>

lemma good_append:
  assumes "versions_good sha bs" "bs_versions bs' = bs_versions bs @ [draft_baseline sha vid bid n expected summary actor]"
    and "vid \<notin> bv_id ` set (bs_versions bs)"
  shows "versions_good sha bs' \<and> versions_move bs bs' \<and> live_baseline bs' = live_baseline bs"
proof -
  have new: "\<not> bv_live (draft_baseline sha vid bid n expected summary actor)"
    by (simp add: draft_baseline_def bv_live_def)
  have "versions_good sha bs'"
    using assms bt.one_live_append [OF new] unfolding versions_good_def
    by (simp add: draft_baseline_def)
  then show ?thesis using assms(2) versions_move_refl bt.live_of_append [OF new] by (simp add: live_baseline_bt)
qed

lemma good_status:
  assumes "versions_good sha bs" "v \<in> set (bs_versions bs)" "bv_id v = vid" "baseline_next (bv_status v) s" "s \<noteq> BV_PUBLISHED"
    "bv_status v \<noteq> BV_PUBLISHED"
  shows "versions_good sha (set_baseline_status vid s bs) \<and> versions_move bs (set_baseline_status vid s bs)
    \<and> live_baseline (set_baseline_status vid s bs) = live_baseline bs"
proof -
  let ?f = "\<lambda>r. if bv_id r = vid then r\<lparr>bv_status := s\<rparr> else r"
  have rows: "bs_versions (set_baseline_status vid s bs) = map ?f (bs_versions bs)"
    by (simp add: set_baseline_status_def sql_modify_def sql_update_def)
  have same: "r = v" if "r \<in> set (bs_versions bs)" "bv_id r = vid" for r
    using that assms(1-3) unfolding versions_good_def by (metis distinct_map inj_onD)
  have lv: "bv_live (?f r) = bv_live r" if "r \<in> set (bs_versions bs)" for r
    using same [OF that] assms(5,6) by (auto simp: bv_live_def)
  have keys: "bv_id (?f r) = bv_id r" "bv_baseline (?f r) = bv_baseline r" "bv_content (?f r) = bv_content r"
    "bv_hash (?f r) = bv_hash r" "bv_state (?f r) = bv_state r" for r
    by (simp_all add: bv_content_def)
  have field: "bv_id (?f r) = bv_id r \<and> bv_baseline (?f r) = bv_baseline r \<and> bv_live (?f r) = bv_live r"
    if "r \<in> set (bs_versions bs)" for r
    using lv [OF that] by (simp add: keys)
  have "map bv_id (map ?f (bs_versions bs)) = map bv_id (bs_versions bs)" by (simp add: keys)
  then have "versions_good sha (set_baseline_status vid s bs)"
    using assms(1) bt.one_live_map [OF field] unfolding versions_good_def rows by (auto simp only: set_map ball_simps keys)
  moreover have "versions_move bs (set_baseline_status vid s bs)"
    unfolding versions_move_def rows
  proof (intro ballI bexI conjI)
    fix r assume r: "r \<in> set (bs_versions bs)"
    show "?f r \<in> set (map ?f (bs_versions bs))" using r by simp
    show "bv_content (?f r) = bv_content r" by (rule keys)
    show "baseline_next\<^sup>*\<^sup>* (bv_status r) (bv_status (?f r))" using same [OF r] assms(4) by auto
  qed
  ultimately show ?thesis using bt.live_of_map [OF field] by (simp only: live_baseline_bt rows)
qed

lemma go_live_promotes:
  assumes "versions_good sha bs" "go_live now bus v bs = Inr bs'"
  shows "bs_versions bs' = bt.promote now (bv_id v) (bv_baseline v) (bs_versions bs)"
proof -
  obtain cur where cur: "sql_one (\<lambda>r. bv_baseline r = bv_baseline v \<and> bv_live r) (bs_versions bs) = Inr cur"
    and bs': "bs_versions bs' = sql_modify bv_id (bv_id v) (make_live now)
      (case cur of None \<Rightarrow> bs_versions bs | Some c \<Rightarrow> sql_modify bv_id (bv_id c) (deprecate now) (bs_versions bs))"
    using assms(2) by (auto simp: go_live_def sum_bind_Inr_iff Let_def)
  have "distinct (map bv_id (bs_versions bs))" using assms(1) by (simp add: versions_good_def)
  from bt.retire_current [OF this cur] show ?thesis by (simp add: bs' bt.promote_def)
qed

lemma good_go_live:
  assumes good: "versions_good sha bs" and v: "v \<in> set (bs_versions bs)" "baseline_next (bv_status v) BV_PUBLISHED"
    and go: "go_live now bus v bs = Inr bs'"
  shows "versions_good sha bs' \<and> versions_move bs bs' \<and> live_baseline bs' = (live_baseline bs)(bv_baseline v := Some (bv_id v))"
proof -
  let ?p = "bt.promoted now (bv_id v) (bv_baseline v)"
  note rows = go_live_promotes [OF good go]
  have dist: "distinct (map bv_id (bs_versions bs))" using good by (simp add: versions_good_def)
  have same: "r = v" if "r \<in> set (bs_versions bs)" "bv_id r = bv_id v" for r
    using that v(1) dist by (metis distinct_map inj_onD)
  have content: "bv_content (?p r) = bv_content r" "bv_hash (?p r) = bv_hash r" "bv_state (?p r) = bv_state r" for r
    by (simp_all add: bt.promoted_def Let_def bv_content_def make_live_def deprecate_def)
  have "versions_good sha bs'"
    using good same bt.one_live_promote [of "bs_versions bs" "bv_id v" "bv_baseline v" now]
    unfolding versions_good_def rows bt.map_key_promote
    by (auto simp: bt.promote_map content)
  moreover have "versions_move bs bs'"
    unfolding versions_move_def rows bt.promote_map
  proof (intro ballI bexI conjI)
    fix r assume r: "r \<in> set (bs_versions bs)"
    show "?p r \<in> set (map ?p (bs_versions bs))" using r by simp
    show "bv_content (?p r) = bv_content r" by (rule content)
    show "baseline_next\<^sup>*\<^sup>* (bv_status r) (bv_status (?p r))"
    proof (cases "bv_id r = bv_id v")
      case True
      then have "r = v" using r same by blast
      moreover have "\<not> bv_live v" using v(2) by (auto simp: baseline_next_def bv_live_def)
      ultimately show ?thesis using v(2) by (simp add: bt.promoted_def make_live_def r_into_rtranclp)
    next
      case False
      then show ?thesis
        by (auto simp: bt.promoted_def Let_def deprecate_def bv_live_def baseline_next_def intro!: r_into_rtranclp)
    qed
  qed
  moreover have "sql_get bv_id (bs_versions bs) (bv_id v) = Some v" using sql_get_distinct [OF dist v(1)] by simp
  ultimately show ?thesis
    using bt.live_of_promote [OF dist _ refl, of "bv_id v" v now] by (simp add: live_baseline_bt rows)
qed

lemma go_live_frame: "go_live now bus v bs = Inr bs' \<Longrightarrow> bs_approvals bs' = bs_approvals bs"
  by (auto simp: go_live_def sum_bind_Inr_iff Let_def)

lemma baseline_publish_live:
  assumes "versions_good sha bs"
    and "publish_baseline now bus vid bs = Inr bs' \<or> rollback_baseline now bus vid bs = Inr bs'"
  shows "\<exists>v \<in> set (bs_versions bs). bv_id v = vid \<and> bv_status v \<in> {BV_APPROVED, BV_DEPRECATED} \<and> go_live now bus v bs = Inr bs'
    \<and> versions_good sha bs' \<and> versions_move bs bs' \<and> live_baseline bs' = (live_baseline bs)(bv_baseline v := Some vid)"
proof -
  obtain v where v: "get_baseline_version vid bs = Inr v" "bv_status v \<in> {BV_APPROVED, BV_DEPRECATED}" "go_live now bus v bs = Inr bs'"
    using assms(2) by (auto simp: publish_baseline_def rollback_baseline_def sum_bind_Inr_iff split: if_splits)
  note r = get_baseline_version_Inr [OF v(1)]
  have "baseline_next (bv_status v) BV_PUBLISHED" using v(2) by (auto simp: baseline_next_def)
  from good_go_live [OF assms(1) conjunct1 [OF r] this v(3)] r v(2,3) show ?thesis by (intro bexI [of _ v]) simp_all
qed

text \<open>What one step does to the versions, and to their status.\<close>

lemma baseline_step_good:
  assumes "baseline_step sha e bs bs'" "versions_good sha bs"
  shows "versions_good sha bs' \<and> versions_move bs bs'"
  using assms
proof (induction rule: baseline_step.induct)
  case (create vid bs bid name scope sel parent expected actor bs')
  then have "bs_versions bs' = bs_versions bs @ [draft_baseline sha vid bid 1 expected None actor]"
    by (auto simp: create_baseline_def split: if_splits)
  with create good_append show ?case by blast
next
  case (draft vid bs bid expected summary actor bs')
  then obtain n where "bs_versions bs' = bs_versions bs @ [draft_baseline sha vid bid n expected summary actor]"
    by (auto simp: create_baseline_version_def split: list.splits)
  with draft good_append show ?case by blast
next
  case (submit vid bs bs')
  then obtain v where v: "v \<in> set (bs_versions bs)" "bv_id v = vid" "bv_status v = BV_DRAFT" "bs' = set_baseline_status vid BV_PENDING bs"
    by (auto simp: submit_baseline_def sum_bind_Inr_iff dest: get_baseline_version_Inr split: if_splits)
  with good_status [OF submit.prems v(1,2), of BV_PENDING] show ?case by (simp add: baseline_next_def)
next
  case (approve bid vid decision actor bs bs')
  then obtain v where v: "v \<in> set (bs_versions bs)" "bv_id v = vid" "bv_status v = BV_PENDING"
    "bs_versions bs' = bs_versions (set_baseline_status vid BV_APPROVED bs)"
    by (auto simp: approve_baseline_route_def approve_baseline_def sum_bind_Inr_iff dest: get_baseline_version_Inr split: if_splits)
  with good_status [OF approve.prems v(1,2), of BV_APPROVED] show ?case
    by (simp add: baseline_next_def versions_good_def versions_move_def)
next
  case (publish now bus vid bs bs')
  then show ?case using baseline_publish_live by blast
next
  case (rollback now bus vid bs bs')
  then show ?case using baseline_publish_live by blast
qed

lemma baseline_trace_good: "baseline_trace sha es bs \<Longrightarrow> versions_good sha bs"
proof (induction rule: baseline_trace.induct)
  case start
  show ?case by (simp add: versions_good_def empty_baselines_def bt.one_live_def)
next
  case (more es bs e bs')
  then show ?case using baseline_step_good by blast
qed


text \<open>From one moment to any later one every version of a baseline is still there with the same content, hash, number
  and author, and its status has only moved along the life cycle.\<close>

theorem baseline_versions_keep_their_content:
  assumes "baseline_trace sha es bs" and "(\<lambda>a b. \<exists>e. baseline_step sha e a b)\<^sup>*\<^sup>* bs bs'" and "v \<in> set (bs_versions bs)"
  shows "\<exists>v' \<in> set (bs_versions bs'). bv_content v' = bv_content v \<and> bv_hash v' = content_hash sha (bv_state v')
    \<and> baseline_next\<^sup>*\<^sup>* (bv_status v) (bv_status v')"
proof -
  from assms(2) have "versions_good sha bs' \<and> versions_move bs bs'"
  proof (induction rule: rtranclp_induct)
    case base
    then show ?case using baseline_trace_good [OF assms(1)] versions_move_refl [of bs bs "[]"] by simp
  next
    case (step b c)
    then show ?case using baseline_step_good versions_move_trans by blast
  qed
  with assms(3) show ?thesis unfolding versions_good_def versions_move_def by blast
qed

section \<open>Approval\<close>

definition bv_cleared :: "baseline_version \<Rightarrow> bool" where
  "bv_cleared v = (bv_status v \<in> {BV_APPROVED, BV_PUBLISHED, BV_DEPRECATED})"

lemma is_author_content: "bv_content a = bv_content b \<Longrightarrow> is_author actor a = is_author actor b"
  by (cases actor) (simp_all add: bv_content_def is_author_def)

lemma cleared_append:
  assumes "v \<in> set (bs_versions bs @ [draft_baseline sha vid bid n expected summary actor])" "bv_cleared v"
  shows "\<exists>u \<in> set (bs_versions bs). bv_content u = bv_content v \<and> bv_cleared u"
proof -
  have "v \<noteq> draft_baseline sha vid bid n expected summary actor"
    using assms(2) by (auto simp: bv_cleared_def draft_baseline_def)
  with assms show ?thesis by auto
qed

lemma cleared_go_live:
  assumes "versions_good sha bs" "w \<in> set (bs_versions bs)" "bv_cleared w" "go_live now bus w bs = Inr bs'"
    and "v \<in> set (bs_versions bs')" "bv_cleared v"
  shows "\<exists>u \<in> set (bs_versions bs). bv_content u = bv_content v \<and> bv_cleared u"
proof -
  obtain u where u: "u \<in> set (bs_versions bs)" "v = bt.promoted now (bv_id w) (bv_baseline w) u"
    using assms(5) go_live_promotes [OF assms(1,4)] by (auto simp: bt.promote_map)
  have "bv_id u = bv_id w \<Longrightarrow> u = w"
    using assms(1,2) u(1) unfolding versions_good_def by (metis distinct_map inj_onD)
  moreover have "bv_content v = bv_content u"
    by (simp add: u(2) bt.promoted_def Let_def bv_content_def make_live_def deprecate_def)
  moreover have "bv_cleared u \<or> bv_id u = bv_id w"
    using assms(6) u(2) by (auto simp: bt.promoted_def Let_def bv_cleared_def bv_live_def deprecate_def split: if_splits)
  ultimately show ?thesis using u(1) assms(3) by (intro bexI [of _ u]) auto
qed

lemma baseline_step_cleared:
  assumes "baseline_step sha e bs bs'" "versions_good sha bs" "v \<in> set (bs_versions bs')" "bv_cleared v"
  shows "(\<exists>u \<in> set (bs_versions bs). bv_content u = bv_content v \<and> bv_cleared u)
    \<or> (\<exists>actor. e = Approve (bv_id v) actor \<and> \<not> is_author actor v)"
  using assms
proof (induction rule: baseline_step.induct)
  case (create vid bs bid name scope sel parent expected actor bs')
  then have "bs_versions bs' = bs_versions bs @ [draft_baseline sha vid bid 1 expected None actor]"
    by (auto simp: create_baseline_def split: if_splits)
  with create cleared_append show ?case by metis
next
  case (draft vid bs bid expected summary actor bs')
  then obtain n where "bs_versions bs' = bs_versions bs @ [draft_baseline sha vid bid n expected summary actor]"
    by (auto simp: create_baseline_version_def split: list.splits)
  with draft cleared_append show ?case by metis
next
  case (submit vid bs bs')
  then have "bs' = set_baseline_status vid BV_PENDING bs" by (auto simp: submit_baseline_def sum_bind_Inr_iff split: if_splits)
  with submit.prems have "v \<in> set (bs_versions bs)"
    by (auto simp: set_baseline_status_def sql_modify_def in_set_sql_update bv_cleared_def)
  with submit.prems show ?case by blast
next
  case (approve bid vid decision actor bs bs')
  then obtain w where w: "w \<in> set (bs_versions bs)" "bv_id w = vid" "\<not> is_author actor w"
    "bs_versions bs' = bs_versions (set_baseline_status vid BV_APPROVED bs)"
    by (auto simp: approve_baseline_route_def approve_baseline_def sum_bind_Inr_iff dest: get_baseline_version_Inr split: if_splits)
  from approve.prems(2) w(4) obtain u where u: "u \<in> set (bs_versions bs)" "v = (if bv_id u = vid then u\<lparr>bv_status := BV_APPROVED\<rparr> else u)"
    by (auto simp: set_baseline_status_def sql_modify_def sql_update_def)
  show ?case
  proof (cases "bv_id u = vid")
    case True
    then have "u = w" using approve.prems(1) u(1) w(1,2) unfolding versions_good_def by (metis distinct_map inj_onD)
    moreover have "bv_content v = bv_content u" using u(2) True by (simp add: bv_content_def)
    ultimately show ?thesis using w(2,3) True is_author_content [of v w actor] by (auto simp: bv_content_def)
  next
    case False
    with u approve.prems(3) show ?thesis by auto
  qed
next
  case (publish now bus vid bs bs')
  then obtain w where "w \<in> set (bs_versions bs)" "bv_cleared w" "go_live now bus w bs = Inr bs'"
    using baseline_publish_live unfolding bv_cleared_def by blast
  with publish.prems cleared_go_live show ?case by blast
next
  case (rollback now bus vid bs bs')
  then obtain w where "w \<in> set (bs_versions bs)" "bv_cleared w" "go_live now bus w bs = Inr bs'"
    using baseline_publish_live unfolding bv_cleared_def by blast
  with rollback.prems cleared_go_live show ?case by blast
qed


text \<open>The route of an approval does not read the decision it is sent: a rejection approves the version. When the id of the
  approver is no UUID the tables keep no trace of who approved.\<close>

theorem rejection_approves_the_baseline:
  assumes "sql_get bv_id (bs_versions bs) vid = Some v" "bv_status v = BV_PENDING" "\<not> is_author actor v" "safe_uuid actor = None"
  shows "\<exists>bs'. approve_baseline_route bid vid (Some AD_REJECTED) actor bs = Inr bs' \<and> bs_approvals bs' = bs_approvals bs
    \<and> sql_get bv_id (bs_versions bs') vid = Some (v\<lparr>bv_status := BV_APPROVED\<rparr>)"
  using assms sql_get_SomeD [OF assms(1)]
  by (simp add: approve_baseline_route_def approve_baseline_def get_baseline_version_def set_baseline_status_def
      sql_get_update sql_modify_def)

section \<open>One baseline from draft to live\<close>

definition toy_bv :: "baseline_status \<Rightarrow> baseline_version" where
  "toy_bv s = (draft_baseline (\<lambda>x. x) ''v1'' ''b1'' 1 [] None (Some ''ann''))\<lparr>bv_status := s\<rparr>"

definition toy_bs :: "baseline_version list \<Rightarrow> baseline_store" where
  "toy_bs vs = empty_baselines\<lparr>bs_baselines := [\<lparr>bl_id = ''b1'', bl_name = ''base'', bl_scope = SC_GLOBAL, bl_selector = [], bl_parent = None\<rparr>],
     bs_versions := vs\<rparr>"

lemma toy_author: "safe_uuid (Some ''ann'') = None" "safe_uuid (Some ''bob'') = None" by code_simp+

lemma toy_baseline_steps:
  "baseline_step (\<lambda>x. x) Other empty_baselines (toy_bs [toy_bv BV_DRAFT])"
  "baseline_step (\<lambda>x. x) Other (toy_bs [toy_bv BV_DRAFT]) (toy_bs [toy_bv BV_PENDING])"
  "baseline_step (\<lambda>x. x) (Approve ''v1'' (Some ''bob'')) (toy_bs [toy_bv BV_PENDING]) (toy_bs [toy_bv BV_APPROVED])"
proof -
  have "create_baseline (\<lambda>x. x) ''b1'' ''v1'' ''base'' SC_GLOBAL [] None [] (Some ''ann'') empty_baselines = Inr (toy_bs [toy_bv BV_DRAFT])"
    by (simp add: create_baseline_def toy_bs_def toy_bv_def empty_baselines_def draft_baseline_def)
  then show "baseline_step (\<lambda>x. x) Other empty_baselines (toy_bs [toy_bv BV_DRAFT])"
    by (rule baseline_step.create [rotated]) (simp add: empty_baselines_def)
  have "submit_baseline ''v1'' (toy_bs [toy_bv BV_DRAFT]) = Inr (toy_bs [toy_bv BV_PENDING])"
    by (simp add: submit_baseline_def get_baseline_version_def toy_bs_def toy_bv_def draft_baseline_def sql_get_def
        set_baseline_status_def sql_modify_def)
  then show "baseline_step (\<lambda>x. x) Other (toy_bs [toy_bv BV_DRAFT]) (toy_bs [toy_bv BV_PENDING])" by (rule baseline_step.submit)
  have "approve_baseline_route ''b1'' ''v1'' None (Some ''bob'') (toy_bs [toy_bv BV_PENDING]) = Inr (toy_bs [toy_bv BV_APPROVED])"
    by (simp add: approve_baseline_route_def approve_baseline_def get_baseline_version_def toy_bs_def toy_bv_def draft_baseline_def
        sql_get_def set_baseline_status_def sql_modify_def toy_author [simplified] is_author_def empty_baselines_def)
  then show "baseline_step (\<lambda>x. x) (Approve ''v1'' (Some ''bob'')) (toy_bs [toy_bv BV_PENDING]) (toy_bs [toy_bv BV_APPROVED])"
    by (rule baseline_step.approve)
qed

lemma toy_baseline_trace:
  "baseline_trace (\<lambda>x. x) [Other, Other, Approve ''v1'' (Some ''bob'')] (toy_bs [toy_bv BV_APPROVED])"
proof -
  note t1 = baseline_trace.more [OF baseline_trace.start toy_baseline_steps(1)]
  note t3 = baseline_trace.more [OF baseline_trace.more [OF t1 toy_baseline_steps(2)] toy_baseline_steps(3)]
  show ?thesis using t3 by simp
qed


theorem baseline_versions_keep_their_content_witness:
  "\<exists>v'. v' \<in> set (bs_versions (toy_bs [toy_bv BV_APPROVED])) \<and> baseline_next\<^sup>*\<^sup>* BV_APPROVED (bv_status v')"
proof -
  have "toy_bv BV_APPROVED \<in> set (bs_versions (toy_bs [toy_bv BV_APPROVED]))" by (simp add: toy_bs_def)
  from baseline_versions_keep_their_content [OF toy_baseline_trace rtranclp.rtrancl_refl this]
  show ?thesis by (auto simp: toy_bv_def)
qed


theorem rejection_approves_the_baseline_witness:
  "\<exists>bs'. approve_baseline_route ''b1'' ''v1'' (Some AD_REJECTED) (Some ''bob'') (toy_bs [toy_bv BV_PENDING]) = Inr bs'
     \<and> bs_approvals bs' = []"
proof -
  have "sql_get bv_id (bs_versions (toy_bs [toy_bv BV_PENDING])) ''v1'' = Some (toy_bv BV_PENDING)"
    "bv_status (toy_bv BV_PENDING) = BV_PENDING" "\<not> is_author (Some ''bob'') (toy_bv BV_PENDING)"
    "bs_approvals (toy_bs [toy_bv BV_PENDING]) = []"
    by (simp_all add: toy_bs_def toy_bv_def draft_baseline_def sql_get_def is_author_def toy_author [simplified] empty_baselines_def)
  from rejection_approves_the_baseline [OF this(1-3) toy_author(2), of "''b1''"] this(4) show ?thesis by auto
qed

end
