(* ===== verification/WorkflowCatalog.thy ===== *)
theory WorkflowCatalog
  imports VersionTable WorkflowEngine
begin

text \<open>
  Workflows and their versions (\<open>services/workflow_service.py\<close>): creation, drafts, publication, metadata, deletion.
  The rows extend the rows the engine reads, so the tables of the engine are those of the catalogue with the
  additional columns left out. The YAML text of a version lies in the object store. The YAML reader, the schema
  validation, the Python parser, SHA-256 and cron expressions are parameters. A call that raises is rolled back.
\<close>

record flow_entry = workflow +
  we_name :: string
  we_slug :: string
  we_severity :: "string option"
  we_priority :: int
  we_tags :: "string list"

record version_entry = workflow_version +
  ve_number :: nat
  ve_yaml :: "string option"
  ve_object :: "uuid option"
  ve_hash :: string
  ve_created_by :: "uuid option"
  ve_published_at :: "time option"

record flow_audit =
  fa_workflow :: uuid
  fa_change :: string
  fa_number :: nat

record catalog =
  ct_flows :: "flow_entry list"
  ct_versions :: "version_entry list"
  ct_objects :: "(uuid \<times> string) list"
  ct_audit :: "flow_audit list"

definition empty_catalog :: catalog where
  "empty_catalog = \<lparr>ct_flows = [], ct_versions = [], ct_objects = [], ct_audit = []\<rparr>"

record compiler =
  cp_yaml :: "string \<Rightarrow> pv option"
  cp_model :: "config \<Rightarrow> string list list + workflow_document"
  cp_parse :: "string \<Rightarrow> string + expr"
  cp_order :: "string \<Rightarrow> string list"

definition compile_source :: "compiler \<Rightarrow> string \<Rightarrow> workflow_document option \<times> compiled_graph option \<times> validation_result" where
  "compile_source cp src = compile_workflow (cp_yaml cp) (cp_model cp) (cp_parse cp) (cp_order cp src) src"

text \<open>The document and the graph of a valid text, or the answer 422 with the errors.\<close>

definition valid_source :: "compiler \<Rightarrow> string \<Rightarrow> exn + (workflow_document \<times> compiled_graph)" where
  "valid_source cp src =
    (case compile_source cp src of
       (Some doc, Some g, r) \<Rightarrow> if vr_valid r then Inr (doc, g) else Inl (HTTPException 422 ''errors'')
     | (_, _, r) \<Rightarrow> Inl (HTTPException 422 ''errors''))"

section \<open>Text in the object store\<close>

definition MAX_YAML_BYTES :: nat where "MAX_YAML_BYTES = 1024 * 1024"

definition store_yaml :: "uuid \<Rightarrow> string \<Rightarrow> catalog \<Rightarrow> exn + catalog" where
  "store_yaml oid src ct =
    (if utf8_length src > MAX_YAML_BYTES then Inl (HTTPException 413 ''upload exceeds maximum size'')
     else Inr (ct\<lparr>ct_objects := ct_objects ct @ [(oid, src)]\<rparr>))"

definition resolve_yaml_source :: "version_entry \<Rightarrow> catalog \<Rightarrow> exn + string" where
  "resolve_yaml_source v ct =
    (case ve_object v of
       Some oid \<Rightarrow> (case map_of (ct_objects ct) oid of
           None \<Rightarrow> Inl (HTTPException 404 ''Object not found'') | Some src \<Rightarrow> Inr src)
     | None \<Rightarrow> Inr (case ve_yaml v of None \<Rightarrow> [] | Some src \<Rightarrow> src))"

definition compute_content_hash :: "(string \<Rightarrow> string) \<Rightarrow> string \<Rightarrow> string" where
  "compute_content_hash sha src = sha src"

section \<open>Operations\<close>

definition get_flow :: "uuid \<Rightarrow> catalog \<Rightarrow> exn + flow_entry" where
  "get_flow wid ct = (case sql_get wf_id (ct_flows ct) wid of
      None \<Rightarrow> Inl (HTTPException 404 ''Workflow not found'') | Some f \<Rightarrow> Inr f)"

definition get_flow_version :: "uuid \<Rightarrow> uuid \<Rightarrow> catalog \<Rightarrow> exn + version_entry" where
  "get_flow_version wid vid ct = (case sql_first (\<lambda>v. v_id v = vid \<and> v_workflow v = wid) (ct_versions ct) of
      None \<Rightarrow> Inl (HTTPException 404 ''Workflow version not found'') | Some v \<Rightarrow> Inr v)"

definition audit_flow :: "uuid \<Rightarrow> string \<Rightarrow> nat \<Rightarrow> catalog \<Rightarrow> catalog" where
  "audit_flow wid change n ct =
    ct\<lparr>ct_audit := ct_audit ct @ [\<lparr>fa_workflow = wid, fa_change = change, fa_number = n\<rparr>]\<rparr>"

definition draft_entry ::
    "(string \<Rightarrow> string) \<Rightarrow> uuid \<Rightarrow> uuid \<Rightarrow> nat \<Rightarrow> uuid \<Rightarrow> string \<Rightarrow> compiled_graph \<Rightarrow> uuid option \<Rightarrow> version_entry" where
  "draft_entry sha vid wid n oid src g by =
    \<lparr>v_id = vid, v_workflow = wid, v_graph = g, v_status = V_DRAFT, v_published_by = None, v_published_by_actor = None,
     ve_number = n, ve_yaml = None, ve_object = Some oid, ve_hash = compute_content_hash sha src, ve_created_by = by,
     ve_published_at = None\<rparr>"

definition new_flow :: "uuid \<Rightarrow> string \<Rightarrow> workflow_metadata \<Rightarrow> flow_entry" where
  "new_flow wid name m =
    \<lparr>wf_id = wid, wf_is_enabled = True, wf_current_version = None, wf_trigger_type = ''MANUAL'', wf_cron_expr = None,
     wf_next_run_at = None, wf_last_run_at = None, wf_migrated_from = None, we_name = name, we_slug = m_name m,
     we_severity = m_severity m, we_priority = 100, we_tags = []\<rparr>"

definition create_workflow ::
    "compiler \<Rightarrow> (string \<Rightarrow> string) \<Rightarrow> uuid \<Rightarrow> uuid \<Rightarrow> uuid \<Rightarrow> string \<Rightarrow> string \<Rightarrow> uuid option \<Rightarrow> catalog \<Rightarrow> exn + catalog" where
  "create_workflow cp sha wid vid oid name src by ct =
    sum_bind (valid_source cp src) (\<lambda>(doc, g).
    sum_bind (sql_one (\<lambda>f. we_slug f = m_name (metadata doc)) (ct_flows ct)) (\<lambda>existing.
      if existing \<noteq> None then Inl (HTTPException 409 ''A workflow of that name already exists'')
      else sum_bind (store_yaml oid src (ct\<lparr>ct_flows := ct_flows ct @ [new_flow wid name (metadata doc)]\<rparr>)) (\<lambda>ct1.
        Inr (audit_flow wid ''CREATE'' 1 (ct1\<lparr>ct_versions := ct_versions ct1 @ [draft_entry sha vid wid 1 oid src g by]\<rparr>)))))"

definition latest_version :: "uuid \<Rightarrow> catalog \<Rightarrow> nat" where
  "latest_version wid ct = fold max (map ve_number (filter (\<lambda>v. v_workflow v = wid) (ct_versions ct))) 0"

definition create_flow_version ::
    "compiler \<Rightarrow> (string \<Rightarrow> string) \<Rightarrow> uuid \<Rightarrow> uuid \<Rightarrow> uuid \<Rightarrow> string \<Rightarrow> uuid option \<Rightarrow> catalog \<Rightarrow> exn + catalog" where
  "create_flow_version cp sha wid vid oid src by ct =
    sum_bind (get_flow wid ct) (\<lambda>f.
    sum_bind (valid_source cp src) (\<lambda>(doc, g).
    sum_bind (store_yaml oid src ct) (\<lambda>ct1.
      let n = latest_version wid ct1 + 1 in
      Inr (audit_flow wid ''CREATE_VERSION'' n
        (ct1\<lparr>ct_versions := ct_versions ct1 @ [draft_entry sha vid wid n oid src g by]\<rparr>)))))"

definition edit_entry :: "(string \<Rightarrow> string) \<Rightarrow> uuid \<Rightarrow> string \<Rightarrow> compiled_graph \<Rightarrow> version_entry \<Rightarrow> version_entry" where
  "edit_entry sha oid src g v =
    v\<lparr>v_graph := g, ve_yaml := None, ve_object := Some oid, ve_hash := compute_content_hash sha src\<rparr>"

definition update_draft ::
    "compiler \<Rightarrow> (string \<Rightarrow> string) \<Rightarrow> uuid \<Rightarrow> uuid \<Rightarrow> uuid \<Rightarrow> string \<Rightarrow> string option \<Rightarrow> catalog \<Rightarrow> exn + catalog" where
  "update_draft cp sha wid vid oid src base_hash ct =
    sum_bind (get_flow_version wid vid ct) (\<lambda>v.
      if v_status v \<noteq> V_DRAFT then Inl (HTTPException 409 ''Cannot edit a published version'')
      else if base_hash \<noteq> None \<and> base_hash \<noteq> Some (ve_hash v)
      then Inl (HTTPException 409 ''This version was changed since you loaded it'')
      else sum_bind (valid_source cp src) (\<lambda>(doc, g).
        sum_bind (get_flow wid ct) (\<lambda>f.
        sum_bind (store_yaml oid src ct) (\<lambda>ct1.
          Inr (ct1\<lparr>ct_versions := sql_modify v_id vid (edit_entry sha oid src g) (ct_versions ct1)\<rparr>)))))"

definition archive_entry :: "version_entry \<Rightarrow> version_entry" where
  "archive_entry v = v\<lparr>v_status := V_ARCHIVED\<rparr>"

definition publish_entry :: "time \<Rightarrow> uuid option \<Rightarrow> string option \<Rightarrow> version_entry \<Rightarrow> version_entry" where
  "publish_entry now by actor v =
    v\<lparr>v_status := V_PUBLISHED, v_published_by := by, v_published_by_actor := actor, ve_published_at := Some now\<rparr>"

definition is_published :: "version_entry \<Rightarrow> bool" where "is_published v = (v_status v = V_PUBLISHED)"

text \<open>The outgoing version is found by the pointer of the workflow.\<close>

definition archive_current :: "flow_entry \<Rightarrow> version_entry list \<Rightarrow> version_entry list" where
  "archive_current f vs =
    (case Option.bind (wf_current_version f) (sql_get v_id vs) of
       None \<Rightarrow> vs
     | Some c \<Rightarrow> if is_published c then sql_modify v_id (v_id c) archive_entry vs else vs)"

definition publish_version ::
    "compiler \<Rightarrow> (string \<Rightarrow> bool) \<Rightarrow> time \<Rightarrow> uuid \<Rightarrow> uuid \<Rightarrow> uuid option \<Rightarrow> string option \<Rightarrow> catalog \<Rightarrow> exn + catalog" where
  "publish_version cp is_ip now wid vid by actor ct =
    sum_bind (get_flow_version wid vid ct) (\<lambda>v.
      if v_status v \<noteq> V_DRAFT then Inl (HTTPException 409 ''Cannot publish'')
      else sum_bind (resolve_yaml_source v ct) (\<lambda>src.
        sum_bind (valid_source cp src) (\<lambda>(doc, g).
          case validate_step_inputs is_ip (g_steps g) of
            Some e \<Rightarrow> Inl e
          | None \<Rightarrow>
             sum_bind (get_flow wid ct) (\<lambda>f.
               Inr (audit_flow wid ''PUBLISH'' (ve_number v) (ct\<lparr>
                 ct_versions := sql_modify v_id vid (publish_entry now by actor) (archive_current f (ct_versions ct)),
                 ct_flows := sql_modify wf_id wid (\<lambda>f. f\<lparr>wf_current_version := Some vid\<rparr>) (ct_flows ct)\<rparr>))))))"

text \<open>The fields of a change: \<open>None\<close> when the body does not set it, \<open>Some None\<close> for an explicit null. The columns of all
  but the cron expression are not nullable.\<close>

record flow_changes =
  fc_name :: "string option option"
  fc_enabled :: "bool option option"
  fc_trigger :: "string option option"
  fc_cron :: "string option option"
  fc_priority :: "int option option"
  fc_tags :: "string list option option"

definition set_field :: "'a option option \<Rightarrow> 'a \<Rightarrow> 'a" where
  "set_field c old = (case c of Some (Some new) \<Rightarrow> new | _ \<Rightarrow> old)"

definition apply_changes :: "flow_changes \<Rightarrow> flow_entry \<Rightarrow> flow_entry" where
  "apply_changes c f =
    f\<lparr>we_name := set_field (fc_name c) (we_name f), wf_is_enabled := set_field (fc_enabled c) (wf_is_enabled f),
      wf_trigger_type := set_field (fc_trigger c) (wf_trigger_type f),
      wf_cron_expr := (case fc_cron c of None \<Rightarrow> wf_cron_expr f | Some e \<Rightarrow> e),
      we_priority := set_field (fc_priority c) (we_priority f), we_tags := set_field (fc_tags c) (we_tags f)\<rparr>"

definition null_in_column :: "flow_changes \<Rightarrow> bool" where
  "null_in_column c = (fc_name c = Some None \<or> fc_enabled c = Some None \<or> fc_trigger c = Some None
     \<or> fc_priority c = Some None \<or> fc_tags c = Some None)"

definition schedule_after :: "(string \<Rightarrow> time \<Rightarrow> time option) \<Rightarrow> time \<Rightarrow> flow_changes \<Rightarrow> flow_entry \<Rightarrow> exn + flow_entry" where
  "schedule_after cron now c f =
    (if fc_trigger c = None \<and> fc_cron c = None then Inr f
     else if fc_trigger c \<noteq> Some None \<and> wf_trigger_type f = ''SCHEDULE'' then
       (case wf_cron_expr f of
          None \<Rightarrow> Inl (HTTPException 422 ''cron_expr is required when trigger_type is SCHEDULE'')
        | Some e \<Rightarrow>
           if e = [] then Inl (HTTPException 422 ''cron_expr is required when trigger_type is SCHEDULE'')
           else (case cron e now of
               None \<Rightarrow> Inl (HTTPException 422 ''invalid cron_expr'')
             | Some t \<Rightarrow> Inr (f\<lparr>wf_next_run_at := Some t\<rparr>)))
     else Inr (f\<lparr>wf_next_run_at := None\<rparr>))"

definition update_metadata ::
    "(string \<Rightarrow> time \<Rightarrow> time option) \<Rightarrow> time \<Rightarrow> uuid \<Rightarrow> flow_changes \<Rightarrow> catalog \<Rightarrow> exn + catalog" where
  "update_metadata cron now wid c ct =
    sum_bind (get_flow wid ct) (\<lambda>f.
    sum_bind (schedule_after cron now c (apply_changes c f)) (\<lambda>f'.
      if null_in_column c then Inl (DatabaseError ''NotNullViolation'')
      else Inr (ct\<lparr>ct_flows := sql_modify wf_id wid (\<lambda>_. f') (ct_flows ct)\<rparr>)))"

text \<open>The versions and audit rows of a deleted workflow go with it; the rows of its runs are not part of this state.\<close>

definition delete_workflow :: "uuid \<Rightarrow> catalog \<Rightarrow> exn + catalog" where
  "delete_workflow wid ct =
    sum_bind (get_flow wid ct) (\<lambda>f.
      Inr (ct\<lparr>ct_flows := filter (\<lambda>f. wf_id f \<noteq> wid) (ct_flows ct),
              ct_versions := filter (\<lambda>v. v_workflow v \<noteq> wid) (ct_versions ct),
              ct_audit := filter (\<lambda>a. fa_workflow a \<noteq> wid) (ct_audit ct)\<rparr>))"

text \<open>What the engine sees of the catalogue.\<close>

definition engine_view :: "catalog \<Rightarrow> db \<Rightarrow> db" where
  "engine_view ct d = d\<lparr>workflows := map workflow.truncate (ct_flows ct), versions := map workflow_version.truncate (ct_versions ct)\<rparr>"

interpretation wt: version_table v_id v_workflow is_published archive_entry "publish_entry now who actor"
  for now who actor
  by unfold_locales (simp_all add: archive_entry_def publish_entry_def is_published_def)

end
