(* ===== verification/WorkflowCatalogLaws.thy ===== *)
theory WorkflowCatalogLaws
  imports WorkflowCatalog
begin

text \<open>
  The invariant of the catalogue: a version is published exactly when it is the current one of its workflow, the
  graph and the hash of a version belong to its text, and the inputs of a published graph have been checked.
\<close>

definition version_sound ::
    "compiler \<Rightarrow> (string \<Rightarrow> string) \<Rightarrow> (string \<Rightarrow> bool) \<Rightarrow> catalog \<Rightarrow> version_entry \<Rightarrow> bool" where
  "version_sound cp sha is_ip ct v = (\<exists>src doc. resolve_yaml_source v ct = Inr src \<and> valid_source cp src = Inr (doc, v_graph v)
     \<and> ve_hash v = sha src \<and> (v_status v = V_DRAFT \<or> validate_step_inputs is_ip (g_steps (v_graph v)) = None))"

definition is_current :: "catalog \<Rightarrow> version_entry \<Rightarrow> bool" where
  "is_current ct v = (\<exists>f \<in> set (ct_flows ct). wf_id f = v_workflow v \<and> wf_current_version f = Some (v_id v))"

definition catalog_ok :: "compiler \<Rightarrow> (string \<Rightarrow> string) \<Rightarrow> (string \<Rightarrow> bool) \<Rightarrow> catalog \<Rightarrow> bool" where
  "catalog_ok cp sha is_ip ct =
     (distinct (map v_id (ct_versions ct)) \<and> distinct (map wf_id (ct_flows ct))
      \<and> (\<forall>v \<in> set (ct_versions ct). v_workflow v \<in> wf_id ` set (ct_flows ct))
      \<and> (\<forall>v \<in> set (ct_versions ct). is_published v \<longleftrightarrow> is_current ct v)
      \<and> (\<forall>f \<in> set (ct_flows ct). \<forall>i. wf_current_version f = Some i \<longrightarrow>
           (\<exists>v \<in> set (ct_versions ct). v_id v = i \<and> v_workflow v = wf_id f))
      \<and> (\<forall>v \<in> set (ct_versions ct). version_sound cp sha is_ip ct v))"

text \<open>What an operation may do to a version that is not a draft.\<close>

definition version_text :: "version_entry \<Rightarrow> uuid \<times> uuid \<times> compiled_graph \<times> nat \<times> string option \<times> uuid option \<times> string" where
  "version_text v = (v_id v, v_workflow v, v_graph v, ve_number v, ve_yaml v, ve_object v, ve_hash v)"

definition freezes :: "catalog \<Rightarrow> catalog \<Rightarrow> bool" where
  "freezes ct ct' = (\<forall>v \<in> set (ct_versions ct). v_status v \<noteq> V_DRAFT \<longrightarrow> v_workflow v \<in> wf_id ` set (ct_flows ct') \<longrightarrow>
     (\<exists>v' \<in> set (ct_versions ct'). version_text v' = version_text v
        \<and> (v_status v' = v_status v \<or> v_status v = V_PUBLISHED \<and> v_status v' = V_ARCHIVED)
        \<and> (\<forall>src. resolve_yaml_source v ct = Inr src \<longrightarrow> resolve_yaml_source v' ct' = Inr src)))"

inductive catalog_step :: "compiler \<Rightarrow> (string \<Rightarrow> string) \<Rightarrow> (string \<Rightarrow> bool) \<Rightarrow> catalog \<Rightarrow> catalog \<Rightarrow> bool" for cp sha is_ip where
  create: "wid \<notin> wf_id ` set (ct_flows ct) \<Longrightarrow> vid \<notin> v_id ` set (ct_versions ct) \<Longrightarrow> oid \<notin> fst ` set (ct_objects ct) \<Longrightarrow>
    create_workflow cp sha wid vid oid name src by ct = Inr ct' \<Longrightarrow> catalog_step cp sha is_ip ct ct'"
| draft: "vid \<notin> v_id ` set (ct_versions ct) \<Longrightarrow> oid \<notin> fst ` set (ct_objects ct) \<Longrightarrow>
    create_flow_version cp sha wid vid oid src by ct = Inr ct' \<Longrightarrow> catalog_step cp sha is_ip ct ct'"
| edit: "oid \<notin> fst ` set (ct_objects ct) \<Longrightarrow>
    update_draft cp sha wid vid oid src base_hash ct = Inr ct' \<Longrightarrow> catalog_step cp sha is_ip ct ct'"
| publish: "publish_version cp is_ip now wid vid by actor ct = Inr ct' \<Longrightarrow> catalog_step cp sha is_ip ct ct'"
| metadata: "update_metadata cron now wid c ct = Inr ct' \<Longrightarrow> catalog_step cp sha is_ip ct ct'"
| remove: "delete_workflow wid ct = Inr ct' \<Longrightarrow> catalog_step cp sha is_ip ct ct'"

section \<open>Lookups\<close>

lemma resolve_cong: "ve_object v' = ve_object v \<Longrightarrow> ve_yaml v' = ve_yaml v \<Longrightarrow> resolve_yaml_source v' ct = resolve_yaml_source v ct"
  by (cases "ve_object v") (simp_all add: resolve_yaml_source_def)

lemma resolve_objects: "ct_objects ct' = ct_objects ct \<Longrightarrow> resolve_yaml_source u ct' = resolve_yaml_source u ct"
  by (simp only: resolve_yaml_source_def)

lemma version_sound_objects:
  assumes "ct_objects ct' = ct_objects ct"
  shows "version_sound cp sha is_ip ct' u = version_sound cp sha is_ip ct u"
  unfolding version_sound_def resolve_objects [OF assms] ..

lemma resolve_text:
  "version_text u' = version_text u \<Longrightarrow> ct_objects ct' = ct_objects ct \<Longrightarrow> resolve_yaml_source u' ct' = resolve_yaml_source u ct"
  by (simp only: version_text_def prod.inject resolve_yaml_source_def)

lemma resolve_grows:
  "resolve_yaml_source v ct = Inr src \<Longrightarrow> ct_objects ct' = ct_objects ct @ os \<Longrightarrow> resolve_yaml_source v ct' = Inr src"
  by (auto simp: resolve_yaml_source_def map_add_def split: option.splits)

lemma resolve_new:
  "ve_object v = Some oid \<Longrightarrow> oid \<notin> fst ` set (ct_objects ct) \<Longrightarrow> ct_objects ct' = ct_objects ct @ [(oid, src)] \<Longrightarrow>
   resolve_yaml_source v ct' = Inr src"
  by (simp add: resolve_yaml_source_def map_add_def map_of_eq_None_iff [THEN iffD2])

lemma get_flow_Inr: "get_flow wid ct = Inr f \<Longrightarrow> f \<in> set (ct_flows ct) \<and> wf_id f = wid"
  by (auto simp: get_flow_def split: option.splits dest: sql_get_SomeD)

lemma get_flow_version_Inr: "get_flow_version wid vid ct = Inr v \<Longrightarrow> v \<in> set (ct_versions ct) \<and> v_id v = vid \<and> v_workflow v = wid"
  by (auto simp: get_flow_version_def split: option.splits dest: sql_first_SomeD)

lemma store_yaml_Inr: "store_yaml oid src ct = Inr ct' \<Longrightarrow> ct' = ct\<lparr>ct_objects := ct_objects ct @ [(oid, src)]\<rparr>"
  by (auto simp: store_yaml_def split: if_splits)

lemma same_version:
  "catalog_ok cp sha is_ip ct \<Longrightarrow> a \<in> set (ct_versions ct) \<Longrightarrow> b \<in> set (ct_versions ct) \<Longrightarrow> v_id a = v_id b \<Longrightarrow> a = b"
  unfolding catalog_ok_def by (metis distinct_map inj_onD)

lemma same_flow:
  "catalog_ok cp sha is_ip ct \<Longrightarrow> a \<in> set (ct_flows ct) \<Longrightarrow> b \<in> set (ct_flows ct) \<Longrightarrow> wf_id a = wf_id b \<Longrightarrow> a = b"
  unfolding catalog_ok_def by (metis distinct_map inj_onD)

lemma version_sound_grows:
  "version_sound cp sha is_ip ct v \<Longrightarrow> ct_objects ct' = ct_objects ct @ os \<Longrightarrow> version_sound cp sha is_ip ct' v"
  unfolding version_sound_def using resolve_grows by blast

section \<open>The invariant is kept\<close>

text \<open>A change of a step that only adds rows.\<close>

lemma catalog_ok_append:
  assumes ok: "catalog_ok cp sha is_ip ct"
    and flows: "ct_flows ct' = ct_flows ct @ fs" "\<And>f. f \<in> set fs \<Longrightarrow> wf_current_version f = None"
      "distinct (map wf_id (ct_flows ct @ fs))"
    and versions: "ct_versions ct' = ct_versions ct @ [v]" "v_id v \<notin> v_id ` set (ct_versions ct)" "v_status v = V_DRAFT"
      "v_workflow v \<in> wf_id ` set (ct_flows ct @ fs)" "version_sound cp sha is_ip ct' v"
    and objects: "ct_objects ct' = ct_objects ct @ os"
  shows "catalog_ok cp sha is_ip ct' \<and> freezes ct ct'"
proof -
  have cur: "is_current ct' u \<longleftrightarrow> is_current ct u" for u
    using flows(2) unfolding is_current_def flows(1) by auto
  note o = ok [unfolded catalog_ok_def]
  have new: "\<not> is_current ct v"
  proof
    assume "is_current ct v"
    then obtain f where "f \<in> set (ct_flows ct)" "wf_current_version f = Some (v_id v)" unfolding is_current_def by blast
    with o have "\<exists>u \<in> set (ct_versions ct). v_id u = v_id v" by blast
    with versions(2) show False by (metis imageI)
  qed
  have "distinct (map v_id (ct_versions ct'))" using o versions(1,2) by simp
  moreover have "distinct (map wf_id (ct_flows ct'))" using flows(1,3) by simp
  moreover have "\<forall>u \<in> set (ct_versions ct'). v_workflow u \<in> wf_id ` set (ct_flows ct')"
    using o versions(1,4) flows(1) by auto
  moreover have "\<forall>u \<in> set (ct_versions ct'). is_published u \<longleftrightarrow> is_current ct' u"
    using o new versions(1,3) unfolding cur by (simp add: is_published_def)
  moreover have "\<forall>f \<in> set (ct_flows ct'). \<forall>i. wf_current_version f = Some i \<longrightarrow>
      (\<exists>u \<in> set (ct_versions ct'). v_id u = i \<and> v_workflow u = wf_id f)"
    using o flows(1,2) versions(1) by fastforce
  moreover have "\<forall>u \<in> set (ct_versions ct'). version_sound cp sha is_ip ct' u"
    using o versions(1,5) version_sound_grows [OF _ objects] by auto
  ultimately have "catalog_ok cp sha is_ip ct'" unfolding catalog_ok_def by blast
  moreover have "freezes ct ct'"
    unfolding freezes_def versions(1) using resolve_grows [OF _ objects] by auto
  ultimately show ?thesis ..
qed

lemma draft_entry_sound:
  assumes "valid_source cp src = Inr (doc, g)" "oid \<notin> fst ` set (ct_objects ct)" "ct_objects ct' = ct_objects ct @ [(oid, src)]"
  shows "version_sound cp sha is_ip ct' (draft_entry sha vid wid n oid src g by)"
proof -
  have "resolve_yaml_source (draft_entry sha vid wid n oid src g by) ct' = Inr src"
    by (rule resolve_new [OF _ assms(2,3)]) (simp add: draft_entry_def)
  then show ?thesis using assms(1) by (simp add: version_sound_def draft_entry_def compute_content_hash_def)
qed

lemma create_workflow_ok:
  assumes "catalog_ok cp sha is_ip ct" "wid \<notin> wf_id ` set (ct_flows ct)" "vid \<notin> v_id ` set (ct_versions ct)"
    "oid \<notin> fst ` set (ct_objects ct)" "create_workflow cp sha wid vid oid name src by ct = Inr ct'"
  shows "catalog_ok cp sha is_ip ct' \<and> freezes ct ct'"
proof -
  obtain doc g where g: "valid_source cp src = Inr (doc, g)"
    using assms(5) by (auto simp: create_workflow_def sum_bind_Inr_iff)
  have ct': "ct_flows ct' = ct_flows ct @ [new_flow wid name (metadata doc)]"
    "ct_versions ct' = ct_versions ct @ [draft_entry sha vid wid 1 oid src g by]"
    "ct_objects ct' = ct_objects ct @ [(oid, src)]"
    using assms(5) g by (auto simp: create_workflow_def sum_bind_Inr_iff audit_flow_def dest!: store_yaml_Inr split: if_splits)
  show ?thesis
    by (rule catalog_ok_append [OF assms(1) ct'(1) _ _ ct'(2) _ _ _ _ ct'(3)])
      (use assms(1-3) in \<open>auto simp: catalog_ok_def new_flow_def draft_entry_def intro!: draft_entry_sound [unfolded draft_entry_def, OF g assms(4) ct'(3)]\<close>)
qed

lemma create_version_ok:
  assumes "catalog_ok cp sha is_ip ct" "vid \<notin> v_id ` set (ct_versions ct)"
    "oid \<notin> fst ` set (ct_objects ct)" "create_flow_version cp sha wid vid oid src by ct = Inr ct'"
  shows "catalog_ok cp sha is_ip ct' \<and> freezes ct ct'"
proof -
  obtain f doc g where g: "valid_source cp src = Inr (doc, g)" and f: "get_flow wid ct = Inr f"
    using assms(4) by (auto simp: create_flow_version_def sum_bind_Inr_iff)
  obtain n where ct': "ct_flows ct' = ct_flows ct @ []"
    "ct_versions ct' = ct_versions ct @ [draft_entry sha vid wid n oid src g by]"
    "ct_objects ct' = ct_objects ct @ [(oid, src)]"
    using assms(4) g f by (auto simp: create_flow_version_def sum_bind_Inr_iff audit_flow_def Let_def dest!: store_yaml_Inr)
  show ?thesis
    by (rule catalog_ok_append [OF assms(1) ct'(1) _ _ ct'(2) _ _ _ _ ct'(3)])
      (use assms(1,2) get_flow_Inr [OF f] in \<open>auto simp: catalog_ok_def draft_entry_def intro!: draft_entry_sound [unfolded draft_entry_def, OF g assms(3) ct'(3)]\<close>)
qed

text \<open>A change of the versions that keeps ids, workflows and status.\<close>

lemma update_draft_ok:
  assumes ok: "catalog_ok cp sha is_ip ct" and oid: "oid \<notin> fst ` set (ct_objects ct)"
    and step: "update_draft cp sha wid vid oid src base_hash ct = Inr ct'"
  shows "catalog_ok cp sha is_ip ct' \<and> freezes ct ct'"
proof -
  obtain v where v: "get_flow_version wid vid ct = Inr v" using step by (auto simp: update_draft_def sum_bind_Inr_iff)
  with step obtain doc g where st: "v_status v = V_DRAFT" and g: "valid_source cp src = Inr (doc, g)"
    by (auto simp: update_draft_def sum_bind_Inr_iff split: if_splits)
  have flows: "ct_flows ct' = ct_flows ct" and objects: "ct_objects ct' = ct_objects ct @ [(oid, src)]"
    and vs: "ct_versions ct' = sql_modify v_id vid (edit_entry sha oid src g) (ct_versions ct)"
    using step v st g by (auto simp: update_draft_def sum_bind_Inr_iff dest!: store_yaml_Inr split: if_splits)
  note v' = get_flow_version_Inr [OF v]
  note o = ok [unfolded catalog_ok_def]
  define e where "e = (\<lambda>u. if v_id u = vid then edit_entry sha oid src g u else u)"
  have rows: "ct_versions ct' = map e (ct_versions ct)" by (simp add: vs sql_modify_def sql_update_def e_def)
  have keys: "v_id (e u) = v_id u" "v_workflow (e u) = v_workflow u" "v_status (e u) = v_status u" for u
    by (simp_all add: e_def edit_entry_def)
  have cur: "is_current ct' (e u) = is_current ct u" for u by (simp add: is_current_def flows keys)
  have frozen: "e u = u" if "u \<in> set (ct_versions ct)" "v_status u \<noteq> V_DRAFT" for u
    using that same_version [OF ok that(1) conjunct1 [OF v']] v' st by (auto simp: e_def)
  have sound: "version_sound cp sha is_ip ct' (e u)" if "u \<in> set (ct_versions ct)" for u
  proof (cases "v_id u = vid")
    case True
    then have "u = v" using same_version [OF ok that conjunct1 [OF v']] v' by simp
    have "resolve_yaml_source (e u) ct' = Inr src"
      by (rule resolve_new [OF _ oid objects]) (simp add: e_def True edit_entry_def)
    then show ?thesis using g True st \<open>u = v\<close>
      by (simp add: version_sound_def e_def edit_entry_def compute_content_hash_def)
  next
    case False
    then show ?thesis using o that version_sound_grows [OF _ objects] by (simp add: e_def)
  qed
  have "distinct (map v_id (ct_versions ct'))" using o by (simp add: rows comp_def keys)
  moreover have "\<forall>u \<in> set (ct_versions ct'). v_workflow u \<in> wf_id ` set (ct_flows ct')" using o by (simp add: rows flows keys)
  moreover have "\<forall>u \<in> set (ct_versions ct'). is_published u \<longleftrightarrow> is_current ct' u"
    using o unfolding rows set_map ball_simps cur by (simp add: is_published_def keys)
  moreover have "\<forall>f \<in> set (ct_flows ct'). \<forall>i. wf_current_version f = Some i \<longrightarrow>
      (\<exists>u \<in> set (ct_versions ct'). v_id u = i \<and> v_workflow u = wf_id f)"
    using o by (simp add: rows flows keys)
  moreover have "\<forall>u \<in> set (ct_versions ct'). version_sound cp sha is_ip ct' u" using sound by (simp add: rows)
  ultimately have "catalog_ok cp sha is_ip ct'" using o unfolding catalog_ok_def flows by blast
  moreover have "freezes ct ct'"
    unfolding freezes_def
  proof (intro ballI impI)
    fix u assume "u \<in> set (ct_versions ct)" "v_status u \<noteq> V_DRAFT"
    with frozen [of u] have "u \<in> set (ct_versions ct')" unfolding rows by force
    then show "\<exists>v' \<in> set (ct_versions ct'). version_text v' = version_text u
        \<and> (v_status v' = v_status u \<or> v_status u = V_PUBLISHED \<and> v_status v' = V_ARCHIVED)
        \<and> (\<forall>src. resolve_yaml_source u ct = Inr src \<longrightarrow> resolve_yaml_source v' ct' = Inr src)"
      using resolve_grows [OF _ objects] by blast
  qed
  ultimately show ?thesis ..
qed

lemma archive_current_eq:
  assumes ok: "catalog_ok cp sha is_ip ct" and f: "f \<in> set (ct_flows ct)"
  shows "archive_current f (ct_versions ct) = sql_update (\<lambda>r. v_workflow r = wf_id f \<and> is_published r) archive_entry (ct_versions ct)"
proof -
  note o = ok [unfolded catalog_ok_def]
  have live: "v_workflow r = wf_id f \<and> is_published r \<longleftrightarrow> wf_current_version f = Some (v_id r)"
    if "r \<in> set (ct_versions ct)" for r
  proof
    assume "v_workflow r = wf_id f \<and> is_published r"
    with o that obtain f' where "f' \<in> set (ct_flows ct)" "wf_id f' = wf_id f" "wf_current_version f' = Some (v_id r)"
      unfolding is_current_def by metis
    then show "wf_current_version f = Some (v_id r)" using same_flow [OF ok _ f] by blast
  next
    assume c: "wf_current_version f = Some (v_id r)"
    with o f obtain u where "u \<in> set (ct_versions ct)" "v_id u = v_id r" "v_workflow u = wf_id f" by metis
    then have w: "v_workflow r = wf_id f" using same_version [OF ok that] by metis
    then have "is_current ct r" using c f unfolding is_current_def by metis
    with o that w show "v_workflow r = wf_id f \<and> is_published r" by blast
  qed
  show ?thesis
  proof (cases "Option.bind (wf_current_version f) (sql_get v_id (ct_versions ct))")
    case None
    have "\<not> (v_workflow r = wf_id f \<and> is_published r)" if r: "r \<in> set (ct_versions ct)" for r
      using None live [OF r] sql_get_distinct [OF conjunct1 [OF o] r] by auto
    then show ?thesis using None sql_update_none [of "ct_versions ct" "\<lambda>r. v_workflow r = wf_id f \<and> is_published r"]
      by (simp add: archive_current_def)
  next
    case (Some c)
    then obtain i where i: "wf_current_version f = Some i" "sql_get v_id (ct_versions ct) i = Some c"
      by (cases "wf_current_version f") simp_all
    note c = sql_get_SomeD [OF i(2)]
    have pub: "is_published c" using live [of c] c i(1) by simp
    have "v_id r = v_id c \<longleftrightarrow> v_workflow r = wf_id f \<and> is_published r" if "r \<in> set (ct_versions ct)" for r
      unfolding live [OF that] using i(1) c by auto
    then show ?thesis using pub unfolding archive_current_def Some option.case sql_modify_def
      by (simp only: if_True) (rule sql_update_cong)
  qed
qed

lemma publish_version_Inr:
  assumes ok: "catalog_ok cp sha is_ip ct" and step: "publish_version cp is_ip now wid vid by actor ct = Inr ct'"
  obtains v f src doc g where "v \<in> set (ct_versions ct)" "v_id v = vid" "v_workflow v = wid" "v_status v = V_DRAFT"
    "f \<in> set (ct_flows ct)" "wf_id f = wid" "resolve_yaml_source v ct = Inr src" "valid_source cp src = Inr (doc, g)"
    "validate_step_inputs is_ip (g_steps g) = None"
    "ct_versions ct' = wt.promote now by actor vid wid (ct_versions ct)"
    "ct_flows ct' = sql_modify wf_id wid (\<lambda>f. f\<lparr>wf_current_version := Some vid\<rparr>) (ct_flows ct)" "ct_objects ct' = ct_objects ct"
proof -
  obtain v where v: "get_flow_version wid vid ct = Inr v" using step by (auto simp: publish_version_def sum_bind_Inr_iff)
  with step obtain src doc g where a: "v_status v = V_DRAFT" "resolve_yaml_source v ct = Inr src" "valid_source cp src = Inr (doc, g)"
    by (auto simp: publish_version_def sum_bind_Inr_iff split: if_splits)
  with step v have b: "validate_step_inputs is_ip (g_steps g) = None" by (auto simp: publish_version_def split: option.splits)
  with step v a obtain f where f: "get_flow wid ct = Inr f" by (auto simp: publish_version_def sum_bind_Inr_iff)
  note f' = get_flow_Inr [OF f] and v' = get_flow_version_Inr [OF v]
  have "ct_versions ct' = wt.promote now by actor vid wid (ct_versions ct)
      \<and> ct_flows ct' = sql_modify wf_id wid (\<lambda>f. f\<lparr>wf_current_version := Some vid\<rparr>) (ct_flows ct) \<and> ct_objects ct' = ct_objects ct"
    using step v a b f archive_current_eq [OF ok conjunct1 [OF f']] f'
    by (auto simp: publish_version_def audit_flow_def wt.promote_def)
  with that f' v' a b show ?thesis by blast
qed

lemma version_sound_status:
  assumes "version_sound cp sha is_ip ct u" "version_text u' = version_text u" "ct_objects ct' = ct_objects ct"
    and "v_status u' = V_DRAFT \<or> v_status u \<noteq> V_DRAFT \<or> validate_step_inputs is_ip (g_steps (v_graph u)) = None"
  shows "version_sound cp sha is_ip ct' u'"
proof -
  have "resolve_yaml_source u' ct' = resolve_yaml_source u ct" "v_graph u' = v_graph u" "ve_hash u' = ve_hash u"
    using assms(2) resolve_text [OF assms(2,3)] by (simp_all add: version_text_def)
  then show ?thesis using assms(1,4) unfolding version_sound_def by auto
qed

lemma promoted_text: "version_text (wt.promoted now by actor i w u) = version_text u"
  by (simp add: wt.promoted_def Let_def version_text_def archive_entry_def publish_entry_def)

lemma promoted_status:
  "v_id u \<noteq> i \<Longrightarrow> v_status (wt.promoted now by actor i w u) = (if v_workflow u = w \<and> is_published u then V_ARCHIVED else v_status u)"
  by (simp add: wt.promoted_def Let_def archive_entry_def)

lemma publish_ok:
  assumes ok: "catalog_ok cp sha is_ip ct" and step: "publish_version cp is_ip now wid vid by actor ct = Inr ct'"
  shows "catalog_ok cp sha is_ip ct' \<and> freezes ct ct'"
proof -
  from publish_version_Inr [OF ok step] obtain v f src doc g where
    v: "v \<in> set (ct_versions ct)" "v_id v = vid" "v_workflow v = wid" "v_status v = V_DRAFT"
    and f: "f \<in> set (ct_flows ct)" "wf_id f = wid"
    and src: "resolve_yaml_source v ct = Inr src" "valid_source cp src = Inr (doc, g)" "validate_step_inputs is_ip (g_steps g) = None"
    and ct': "ct_versions ct' = wt.promote now by actor vid wid (ct_versions ct)"
      "ct_flows ct' = sql_modify wf_id wid (\<lambda>f. f\<lparr>wf_current_version := Some vid\<rparr>) (ct_flows ct)" "ct_objects ct' = ct_objects ct" .
  note o = ok [unfolded catalog_ok_def]
  define p where "p = wt.promoted now by actor vid wid"
  define q where "q = (\<lambda>f :: flow_entry. if wf_id f = wid then f\<lparr>wf_current_version := Some vid\<rparr> else f)"
  have rows: "ct_versions ct' = map p (ct_versions ct)" by (simp add: ct'(1) wt.promote_map p_def)
  have flows: "ct_flows ct' = map q (ct_flows ct)" by (simp add: ct'(2) sql_modify_def sql_update_def q_def)
  have keys: "v_id (p u) = v_id u" "v_workflow (p u) = v_workflow u" for u
    by (simp_all add: p_def wt.key_promoted wt.family_promoted)
  have fkeys: "wf_id (q f) = wf_id f" for f by (simp add: q_def)
  have mine: "u = v" if "u \<in> set (ct_versions ct)" "v_id u = vid" for u using same_version [OF ok that(1) v(1)] that v(2) by simp
  have pub: "is_published (p u) \<longleftrightarrow> v_id u = vid \<or> is_published u \<and> v_workflow u \<noteq> wid" for u
    by (simp add: p_def wt.live_promoted)
  have cur: "is_current ct' (p u) \<longleftrightarrow> v_id u = vid \<or> is_current ct u \<and> v_workflow u \<noteq> wid" if u: "u \<in> set (ct_versions ct)" for u
  proof -
    have "is_current ct' (p u) \<longleftrightarrow> (\<exists>x \<in> set (ct_flows ct). wf_id x = v_workflow u \<and> wf_current_version (q x) = Some (v_id u))"
      by (simp add: is_current_def flows keys fkeys)
    also have "\<dots> \<longleftrightarrow> v_id u = vid \<or> is_current ct u \<and> v_workflow u \<noteq> wid"
    proof (cases "v_workflow u = wid")
      case True
      then show ?thesis using f by (auto simp: q_def)
    next
      case False
      then have "(\<exists>x \<in> set (ct_flows ct). wf_id x = v_workflow u \<and> wf_current_version (q x) = Some (v_id u)) \<longleftrightarrow> is_current ct u"
        unfolding is_current_def by (intro bex_cong) (auto simp: q_def)
      then show ?thesis using mine [OF u] v(3) False by auto
    qed
    finally show ?thesis .
  qed
  have vg: "v_graph v = g" using o v(1) src(1,2) unfolding version_sound_def by fastforce
  have sound: "version_sound cp sha is_ip ct' (p u)" if u: "u \<in> set (ct_versions ct)" for u
  proof (rule version_sound_status [OF _ _ ct'(3)])
    show "version_sound cp sha is_ip ct u" using o u by blast
    show "version_text (p u) = version_text u" by (simp add: p_def promoted_text)
    show "v_status (p u) = V_DRAFT \<or> v_status u \<noteq> V_DRAFT \<or> validate_step_inputs is_ip (g_steps (v_graph u)) = None"
    proof (cases "v_id u = vid")
      case True
      then show ?thesis using mine [OF u] vg src(3) by simp
    next
      case False
      then show ?thesis by (auto simp: p_def promoted_status is_published_def)
    qed
  qed
  have "distinct (map v_id (ct_versions ct'))" using o by (simp add: rows comp_def keys)
  moreover have "distinct (map wf_id (ct_flows ct'))" using o by (simp add: flows comp_def fkeys)
  moreover have "\<forall>u \<in> set (ct_versions ct'). v_workflow u \<in> wf_id ` set (ct_flows ct')"
    using o by (simp add: rows flows keys image_image fkeys)
  moreover have "\<forall>u \<in> set (ct_versions ct'). is_published u \<longleftrightarrow> is_current ct' u" using o cur pub by (simp add: rows)
  moreover have "\<exists>u \<in> set (ct_versions ct'). v_id u = i \<and> v_workflow u = wf_id x"
    if "x \<in> set (ct_flows ct')" "wf_current_version x = Some i" for x i
  proof -
    obtain y where y: "y \<in> set (ct_flows ct)" "x = q y" using \<open>x \<in> set (ct_flows ct')\<close> flows by auto
    show ?thesis
    proof (cases "wf_id y = wid")
      case True
      then show ?thesis using that y v by (auto simp: rows keys q_def)
    next
      case False
      then show ?thesis using that y o by (auto simp: rows keys q_def)
    qed
  qed
  moreover have "\<forall>u \<in> set (ct_versions ct'). version_sound cp sha is_ip ct' u" using sound by (simp add: rows)
  ultimately have "catalog_ok cp sha is_ip ct'" unfolding catalog_ok_def by blast
  moreover have "freezes ct ct'"
    unfolding freezes_def
  proof (intro ballI impI bexI conjI allI)
    fix u s assume u: "u \<in> set (ct_versions ct)" "v_status u \<noteq> V_DRAFT"
    show "p u \<in> set (ct_versions ct')" using u by (simp add: rows)
    show t: "version_text (p u) = version_text u" by (simp add: p_def promoted_text)
    have "v_id u \<noteq> vid" using mine u v(4) by blast
    then show "v_status (p u) = v_status u \<or> v_status u = V_PUBLISHED \<and> v_status (p u) = V_ARCHIVED"
      by (auto simp: p_def promoted_status is_published_def)
    assume "resolve_yaml_source u ct = Inr s"
    then show "resolve_yaml_source (p u) ct' = Inr s"
      using resolve_text [OF t ct'(3)] by simp
  qed
  ultimately show ?thesis ..
qed

lemma update_metadata_ok:
  assumes ok: "catalog_ok cp sha is_ip ct" and step: "update_metadata cron now wid c ct = Inr ct'"
  shows "catalog_ok cp sha is_ip ct' \<and> freezes ct ct'"
proof -
  obtain f f' where f: "get_flow wid ct = Inr f" and f': "schedule_after cron now c (apply_changes c f) = Inr f'"
    and ct': "ct_flows ct' = sql_modify wf_id wid (\<lambda>_. f') (ct_flows ct)" "ct_versions ct' = ct_versions ct" "ct_objects ct' = ct_objects ct"
    using step by (auto simp: update_metadata_def sum_bind_Inr_iff split: if_splits)
  have keep: "wf_id f' = wf_id f \<and> wf_current_version f' = wf_current_version f"
    using f' by (auto simp: schedule_after_def apply_changes_def split: if_splits option.splits)
  note o = ok [unfolded catalog_ok_def]
  define q where "q = (\<lambda>x. if wf_id x = wid then f' else x)"
  have flows: "ct_flows ct' = map q (ct_flows ct)" by (simp add: ct'(1) sql_modify_def sql_update_def q_def)
  have q: "wf_id (q x) = wf_id x \<and> wf_current_version (q x) = wf_current_version x" if "x \<in> set (ct_flows ct)" for x
    using same_flow [OF ok that conjunct1 [OF get_flow_Inr [OF f]]] get_flow_Inr [OF f] keep by (auto simp: q_def)
  have cur: "is_current ct' u = is_current ct u" for u using q by (auto simp: is_current_def flows)
  have ids: "map wf_id (ct_flows ct') = map wf_id (ct_flows ct)" using q by (simp add: flows)
  then have idset: "wf_id ` set (ct_flows ct') = wf_id ` set (ct_flows ct)" by (metis set_map)
  have sound: "version_sound cp sha is_ip ct' u = version_sound cp sha is_ip ct u" for u
    by (rule version_sound_objects [OF ct'(3)])
  have "catalog_ok cp sha is_ip ct'"
    using o q unfolding catalog_ok_def ids idset cur sound ct'(2) by (simp add: flows)
  moreover have "freezes ct ct'"
    unfolding freezes_def ct'(2) by (auto simp: resolve_objects [OF ct'(3)])
  ultimately show ?thesis ..
qed

lemma delete_workflow_ok:
  assumes ok: "catalog_ok cp sha is_ip ct" and step: "delete_workflow wid ct = Inr ct'"
  shows "catalog_ok cp sha is_ip ct' \<and> freezes ct ct'"
proof -
  have ct': "ct_flows ct' = filter (\<lambda>f. wf_id f \<noteq> wid) (ct_flows ct)" "ct_versions ct' = filter (\<lambda>v. v_workflow v \<noteq> wid) (ct_versions ct)"
    "ct_objects ct' = ct_objects ct"
    using step by (auto simp: delete_workflow_def sum_bind_Inr_iff)
  note o = ok [unfolded catalog_ok_def]
  have cur: "is_current ct' u = is_current ct u" if "v_workflow u \<noteq> wid" for u
    using that by (auto simp: is_current_def ct'(1))
  have sound: "version_sound cp sha is_ip ct' u = version_sound cp sha is_ip ct u" for u
    by (rule version_sound_objects [OF ct'(3)])
  have "distinct (map v_id (ct_versions ct')) \<and> distinct (map wf_id (ct_flows ct'))"
    using o by (simp add: ct' distinct_map_filter)
  moreover have "\<forall>v \<in> set (ct_versions ct'). v_workflow v \<in> wf_id ` set (ct_flows ct')" using o by (auto simp: ct')
  moreover have "\<forall>v \<in> set (ct_versions ct'). is_published v \<longleftrightarrow> is_current ct' v" using o cur by (simp add: ct'(2))
  moreover have "\<forall>f \<in> set (ct_flows ct'). \<forall>i. wf_current_version f = Some i \<longrightarrow>
      (\<exists>v \<in> set (ct_versions ct'). v_id v = i \<and> v_workflow v = wf_id f)"
    using o by (fastforce simp: ct'(1,2))
  moreover have "\<forall>v \<in> set (ct_versions ct'). version_sound cp sha is_ip ct' v" using o by (simp add: sound ct'(2))
  ultimately have "catalog_ok cp sha is_ip ct'" unfolding catalog_ok_def by blast
  moreover have "freezes ct ct'"
    unfolding freezes_def ct'(1,2) by (auto simp: resolve_objects [OF ct'(3)])
  ultimately show ?thesis ..
qed

lemma catalog_step_ok: "catalog_step cp sha is_ip ct ct' \<Longrightarrow> catalog_ok cp sha is_ip ct \<Longrightarrow> catalog_ok cp sha is_ip ct' \<and> freezes ct ct'"
proof (induction rule: catalog_step.induct)
  case (create wid ct vid oid name src _ ct')
  then show ?case using create_workflow_ok by blast
next
  case (draft vid ct oid wid src _ ct')
  then show ?case using create_version_ok by blast
next
  case (edit oid ct wid vid src base_hash ct')
  then show ?case using update_draft_ok by blast
next
  case (publish now wid vid _ actor ct ct')
  then show ?case using publish_ok by blast
next
  case (metadata cron now wid c ct ct')
  then show ?case using update_metadata_ok by blast
next
  case (remove wid ct ct')
  then show ?case using delete_workflow_ok by blast
qed

lemma catalog_reach_ok: "(catalog_step cp sha is_ip)\<^sup>*\<^sup>* empty_catalog ct \<Longrightarrow> catalog_ok cp sha is_ip ct"
proof (induction rule: rtranclp_induct)
  case base
  show ?case by (simp add: catalog_ok_def empty_catalog_def)
next
  case (step a b)
  then show ?case using catalog_step_ok by blast
qed

end
