(* ===== verification/WorkflowTermination.thy ===== *)
theory WorkflowTermination
  imports WorkflowProps
begin

text \<open>
  A run ends. Between the moments where it waits for an agent or a person its ticks use up a potential that every
  other event of the system can only lower, so there are at most two for each step and one more.
\<close>

text \<open>What is left of a step, and of a run with the steps of a graph.\<close>

definition step_left :: "step_status option \<Rightarrow> nat" where
  "step_left s = (case s of None \<Rightarrow> 2 | Some s \<Rightarrow> step_rank s)"

definition run_left :: "db \<Rightarrow> uuid \<Rightarrow> nat" where
  "run_left d run = (case sql_get w_id (runs d) run of None \<Rightarrow> 1 | Some r \<Rightarrow> if run_final (w_status r) then 0 else 1)"

definition work_left :: "string set \<Rightarrow> uuid \<Rightarrow> db \<Rightarrow> nat" where
  "work_left ids run d = (\<Sum>sid \<in> ids. step_left (status_of d run sid)) + run_left d run"

text \<open>A run whose steps neither run nor wait for anyone, of the given published version.\<close>

definition idle_run :: "db \<Rightarrow> uuid \<Rightarrow> workflow_version \<Rightarrow> bool" where
  "idle_run d run v =
    ((\<exists>r. sql_get w_id (runs d) run = Some r \<and> w_status r = W_RUNNING \<and> sql_get v_id (versions d) (w_version r) = Some v)
     \<and> (\<forall>sid. status_of d run sid \<notin> {Some S_RUNNING, Some S_WAITING_APPROVAL, Some S_CANCELLED}))"

text \<open>\<open>ticking w run v n s s'\<close>: on the way from \<open>s\<close> to \<open>s'\<close> the idle run was ticked \<open>n\<close> times without an error, among
  whatever else happened.\<close>

inductive ticking :: "world \<Rightarrow> uuid \<Rightarrow> workflow_version \<Rightarrow> nat \<Rightarrow> db \<times> clearance \<Rightarrow> db \<times> clearance \<Rightarrow> bool" for w run v where
  stay: "ticking w run v 0 s s"
| event: "ticking w run v n s s' \<Longrightarrow> flow_step w s' s'' \<Longrightarrow> ticking w run v n s s''"
| tick: "ticking w run v n s (d, L) \<Longrightarrow> idle_run d run v \<Longrightarrow> advance_run w now run (open_session d) = (None, se)
    \<Longrightarrow> ticking w run v (Suc n) s (se_saved se, L)"

section \<open>The potential\<close>

lemma step_rank_le: "step_rank s \<le> 2"
  by (cases s) simp_all

lemma step_left_le: "step_left s \<le> 2"
  by (cases s) (simp_all add: step_left_def step_rank_le)

lemma step_left_mono: "flow_grows d d' \<Longrightarrow> step_left (status_of d' run sid) \<le> step_left (status_of d run sid)"
proof (cases "status_of d run sid")
  case None
  then show ?thesis by (simp add: step_left_def [of None] step_left_le)
next
  case (Some s)
  assume "flow_grows d d'"
  from flow_grows_step [OF this Some] obtain t where t: "status_of d' run sid = Some t" "step_next\<^sup>*\<^sup>* s t" by blast
  have "step_rank t \<le> step_rank s" using t(2)
    by (induction rule: rtranclp_induct) (auto dest: step_machine.rank_decreases)
  then show ?thesis by (simp add: Some t(1) step_left_def)
qed

lemma run_left_mono: "flow_grows d d' \<Longrightarrow> run_left d' run \<le> run_left d run"
proof -
  assume g: "flow_grows d d'"
  show ?thesis
  proof (cases "sql_get w_id (runs d) run")
    case (Some r)
    then show ?thesis using flow_grows_run [OF g Some] by (auto simp: run_left_def)
  qed (simp add: run_left_def split: option.split)
qed

lemma work_left_mono: "flow_grows d d' \<Longrightarrow> work_left ids run d' \<le> work_left ids run d"
  unfolding work_left_def by (intro add_mono sum_mono step_left_mono run_left_mono)

lemma work_left_bound: "finite ids \<Longrightarrow> work_left ids run d \<le> 2 * card ids + 1"
  unfolding work_left_def
proof (rule add_mono)
  show "(\<Sum>sid \<in> ids. step_left (status_of d run sid)) \<le> 2 * card ids"
    using sum_bounded_above [of ids "\<lambda>sid. step_left (status_of d run sid)" 2] step_left_le by simp
  show "run_left d run \<le> 1" by (simp add: run_left_def split: option.split)
qed

lemma step_left_less: "status_of d' run sid = Some s \<Longrightarrow> s \<noteq> S_PENDING \<Longrightarrow> status_of d run sid = Some S_PENDING
    \<Longrightarrow> step_left (status_of d' run sid) < step_left (status_of d run sid)"
  by (cases s) (simp_all add: step_left_def)

lemma idle_tick_works:
  assumes "flow_inv L d" and "idle_run d run v" and "sound_graph (map step_id (g_steps (v_graph v))) (g_edges (v_graph v))"
    and "advance_run w now run (open_session d) = (None, se)"
  defines "ids \<equiv> step_id ` set (g_steps (v_graph v))"
  shows "flow_inv L (se_saved se) \<and> work_left ids run (se_saved se) < work_left ids run d"
proof -
  have "flow_session L d se" using advance_run_ok [OF flow_session_open [OF assms(1)] _ assms(4)] by (simp add: open_session_def)
  then have ok: "flow_inv L (se_saved se)" and g: "flow_grows d (se_saved se)" by (simp_all add: flow_session_def)
  obtain r where r: "sql_get w_id (runs d) run = Some r" "w_status r = W_RUNNING" "sql_get v_id (versions d) (w_version r) = Some v"
    and idle: "\<forall>sid. status_of d run sid \<notin> {Some S_RUNNING, Some S_WAITING_APPROVAL, Some S_CANCELLED}"
    using assms(2) unfolding idle_run_def by blast
  have id: "r \<in> set (runs d)" "w_id r = run" using sql_get_SomeD [OF r(1)] by blast+
  then have "run_inv L d r" using assms(1) by (simp add: flow_inv_def)
  then obtain u where u: "sql_get v_id (versions d) (w_version r) = Some u" "run_ok (v_graph u) (cleared_steps L d r) (status_of d (w_id r))"
    unfolding run_inv_def by blast
  have dom: "dom (status_of d run) = ids" using u r(3) id(2) by (simp add: run_ok_def ids_def)
  from tick_progress [OF assms(1) r assms(3) idle assms(4)]
  have "work_left ids run (se_saved se) < work_left ids run d"
  proof (elim disjE exE conjE)
    fix sid s assume s: "status_of d run sid = Some S_PENDING" "status_of (se_saved se) run sid = Some s" "s \<noteq> S_PENDING"
    have "(\<Sum>sid \<in> ids. step_left (status_of (se_saved se) run sid)) < (\<Sum>sid \<in> ids. step_left (status_of d run sid))"
    proof (rule sum_strict_mono_ex1)
      show "\<forall>sid \<in> ids. step_left (status_of (se_saved se) run sid) \<le> step_left (status_of d run sid)"
        using step_left_mono [OF g] by blast
      show "\<exists>sid \<in> ids. step_left (status_of (se_saved se) run sid) < step_left (status_of d run sid)"
        using step_left_less [OF s(2,3,1)] s(1) dom by blast
    qed (simp add: ids_def)
    with run_left_mono [OF g, of run] show ?thesis by (simp add: work_left_def)
  next
    fix r' assume "sql_get w_id (runs (se_saved se)) run = Some r'" "w_status r' \<in> {W_SUCCEEDED, W_FAILED}"
    then have "run_left (se_saved se) run < run_left d run" using r(1,2) by (auto simp: run_left_def run_final_def)
    moreover have "(\<Sum>sid \<in> ids. step_left (status_of (se_saved se) run sid)) \<le> (\<Sum>sid \<in> ids. step_left (status_of d run sid))"
      by (intro sum_mono step_left_mono g)
    ultimately show ?thesis by (simp add: work_left_def)
  qed
  with ok show ?thesis ..
qed



end
