(* ===== verification/PolicySets.thy ===== *)
theory PolicySets
  imports Remediation "HOL-Library.Product_Lexorder"
begin

text \<open>
  Compliance policy sets: the life cycle and the flat versions of \<open>services/policy_set_service.py\<close>, the templates of
  \<open>services/policy_templates.py\<close> and the routes of \<open>api/v1/routers/compliance/policy_engine.py\<close> that write.
  A rule row extends the row the automatic remediation reads; \<open>remedy_view\<close> is what that component sees of the
  tables. A link is a row of the table between sets and rules, with its severity override. A call that raises is
  rolled back. New identifiers, the clock and the random suffix of a slug are arguments.
\<close>

datatype set_status = PS_DRAFT | PS_PUBLISHED | PS_ARCHIVED

record catalog_rule = compliance_rule +
  cl_title :: string
  cl_severity :: string
  cl_check_source :: string
  cl_source :: string
  cl_refs :: config

record set_row =
  st_id :: uuid
  st_name :: string
  st_slug :: string
  st_framework :: string
  st_version :: "string option"
  st_description :: "string option"
  st_profile :: "string option"
  st_enabled :: bool
  st_status :: set_status
  st_published_at :: "time option"
  st_number :: nat
  st_parent :: "uuid option"
  st_remediation :: config

record set_link =
  sl_set :: uuid
  sl_rule :: uuid
  sl_override :: "string option"

record set_assignment =
  sa_id :: uuid
  sa_set :: uuid
  sa_scope :: string
  sa_selector :: config
  sa_created_by :: "uuid option"

record set_library =
  lb_rules :: "catalog_rule list"
  lb_sets :: "set_row list"
  lb_links :: "set_link list"
  lb_assignments :: "set_assignment list"

section \<open>Creating sets\<close>

definition get_set :: "uuid \<Rightarrow> set_library \<Rightarrow> exn + set_row" where
  "get_set pid lb =
    (case sql_get st_id (lb_sets lb) pid of
       None \<Rightarrow> Inl (HTTPException 404 ''Policy set not found'') | Some p \<Rightarrow> Inr p)"

definition draft_set ::
    "uuid \<Rightarrow> string \<Rightarrow> string \<Rightarrow> string \<Rightarrow> string option \<Rightarrow> string option \<Rightarrow> set_row" where
  "draft_set pid name slug framework version description =
    \<lparr>st_id = pid, st_name = name, st_slug = slug, st_framework = framework, st_version = version,
      st_description = description, st_profile = None, st_enabled = False, st_status = PS_DRAFT,
      st_published_at = None, st_number = 1, st_parent = None, st_remediation = []\<rparr>"

definition insert_set :: "set_row \<Rightarrow> set_library \<Rightarrow> exn + set_library" where
  "insert_set p lb =
    (if st_slug p \<in> st_slug ` set (lb_sets lb) then Inl (DatabaseError ''UniqueViolation'')
     else Inr (lb\<lparr>lb_sets := lb_sets lb @ [p]\<rparr>))"

definition create_draft ::
    "uuid \<Rightarrow> string \<Rightarrow> string \<Rightarrow> string \<Rightarrow> string option \<Rightarrow> string option \<Rightarrow> set_library \<Rightarrow> exn + set_library" where
  "create_draft pid name slug framework version description lb =
    sum_bind (sql_one (\<lambda>p. st_slug p = slug) (lb_sets lb)) (\<lambda>existing.
      if existing \<noteq> None then Inl (HTTPException 409 ''Policy set slug already exists'')
      else insert_set (draft_set pid name slug framework version description) lb)"

definition link_key :: "set_link \<Rightarrow> uuid \<times> uuid" where
  "link_key l = (sl_set l, sl_rule l)"

text \<open>The rows that link a set to its rules: the pair is the primary key and the rule has to exist.\<close>

definition new_links :: "uuid \<Rightarrow> (uuid \<times> string option) list \<Rightarrow> set_link list" where
  "new_links pid rs = map (\<lambda>(r, sev). \<lparr>sl_set = pid, sl_rule = r, sl_override = sev\<rparr>) rs"

definition insert_links :: "uuid \<Rightarrow> (uuid \<times> string option) list \<Rightarrow> set_library \<Rightarrow> exn + set_library" where
  "insert_links pid rs lb =
    (if \<not> distinct (map link_key (lb_links lb @ new_links pid rs)) then Inl (DatabaseError ''UniqueViolation'')
     else if \<not> list_all (\<lambda>e. fst e \<in> cr_id ` set (lb_rules lb)) rs then Inl (DatabaseError ''ForeignKeyViolation'')
     else Inr (lb\<lparr>lb_links := lb_links lb @ new_links pid rs\<rparr>))"

definition scope_set ::
    "uuid \<Rightarrow> uuid \<Rightarrow> string option \<Rightarrow> config \<Rightarrow> uuid option \<Rightarrow> set_library \<Rightarrow> set_library" where
  "scope_set aid pid scope selector by lb =
    (case scope of
       None \<Rightarrow> lb
     | Some s \<Rightarrow> if s = [] then lb
         else lb\<lparr>lb_assignments := lb_assignments lb @
           [\<lparr>sa_id = aid, sa_set = pid, sa_scope = s, sa_selector = selector, sa_created_by = by\<rparr>]\<rparr>)"

definition create_draft_with_rules ::
    "uuid \<Rightarrow> uuid \<Rightarrow> string \<Rightarrow> string \<Rightarrow> string \<Rightarrow> string option \<Rightarrow> string option \<Rightarrow> (uuid \<times> string option) list
     \<Rightarrow> string option \<Rightarrow> config \<Rightarrow> uuid option \<Rightarrow> set_library \<Rightarrow> exn + set_library" where
  "create_draft_with_rules pid aid name slug framework version description rs scope selector by lb =
    sum_bind (create_draft pid name slug framework version description lb) (\<lambda>lb1.
    sum_bind (insert_links pid rs lb1) (\<lambda>lb2.
      Inr (scope_set aid pid scope selector by lb2)))"

section \<open>The life cycle\<close>

definition links_of :: "uuid \<Rightarrow> set_library \<Rightarrow> set_link list" where
  "links_of pid lb = filter (\<lambda>l. sl_set l = pid) (lb_links lb)"

definition modify_set :: "uuid \<Rightarrow> (set_row \<Rightarrow> set_row) \<Rightarrow> set_library \<Rightarrow> set_library" where
  "modify_set pid f lb = lb\<lparr>lb_sets := sql_modify st_id pid f (lb_sets lb)\<rparr>"

definition publish_set :: "time \<Rightarrow> uuid \<Rightarrow> set_library \<Rightarrow> exn + set_library" where
  "publish_set now pid lb =
    sum_bind (get_set pid lb) (\<lambda>p.
      if st_status p \<noteq> PS_DRAFT then Inl (HTTPException 409 ''Cannot publish'')
      else if links_of pid lb = [] then Inl (HTTPException 409 ''Cannot publish a policy set with no rules'')
      else Inr (modify_set pid
        (\<lambda>p. p\<lparr>st_status := PS_PUBLISHED, st_published_at := Some now, st_enabled := True\<rparr>) lb))"

definition archive_set :: "uuid \<Rightarrow> set_library \<Rightarrow> exn + set_library" where
  "archive_set pid lb =
    sum_bind (get_set pid lb) (\<lambda>p.
      if st_status p \<noteq> PS_PUBLISHED then Inl (HTTPException 409 ''Cannot archive'')
      else Inr (modify_set pid (\<lambda>p. p\<lparr>st_status := PS_ARCHIVED, st_enabled := False\<rparr>) lb))"

definition next_version_slug :: "set_row \<Rightarrow> string" where
  "next_version_slug p = st_slug p @ ''-v'' @ show_nat (st_number p + 1)"

definition clone_set :: "uuid \<Rightarrow> set_row \<Rightarrow> set_row" where
  "clone_set cid p =
    \<lparr>st_id = cid, st_name = st_name p, st_slug = next_version_slug p, st_framework = st_framework p,
      st_version = st_version p, st_description = st_description p, st_profile = st_profile p, st_enabled = False,
      st_status = PS_DRAFT, st_published_at = None, st_number = st_number p + 1, st_parent = Some (st_id p),
      st_remediation = []\<rparr>"

definition create_new_set_version :: "uuid \<Rightarrow> uuid \<Rightarrow> set_library \<Rightarrow> exn + set_library" where
  "create_new_set_version cid pid lb =
    sum_bind (get_set pid lb) (\<lambda>p.
      if st_status p \<noteq> PS_PUBLISHED
      then Inl (HTTPException 409 ''Can only create a new version from a PUBLISHED policy set'')
      else sum_bind (insert_set (clone_set cid p) lb) (\<lambda>lb1.
        insert_links cid (map (\<lambda>l. (sl_rule l, None)) (links_of pid lb1)) lb1))"

text \<open>Editing: a rule is taken out of a draft only; the route that adds one does not look at the status, nor does the
  route that sets the remediation mode.\<close>

definition remove_set_rule :: "uuid \<Rightarrow> uuid \<Rightarrow> set_library \<Rightarrow> exn + string \<times> set_library" where
  "remove_set_rule pid rid lb =
    sum_bind (get_set pid lb) (\<lambda>p.
      if st_status p \<noteq> PS_DRAFT then Inl (HTTPException 409 ''only a DRAFT can be edited'')
      else sum_bind (sql_one (\<lambda>l. link_key l = (pid, rid)) (lb_links lb)) (\<lambda>found.
        case found of
          None \<Rightarrow> Inl (HTTPException 404 ''Rule is not part of this policy set'')
        | Some _ \<Rightarrow>
            Inr (case sql_get cr_id (lb_rules lb) rid of None \<Rightarrow> ''None'' | Some r \<Rightarrow> cr_key r,
                 lb\<lparr>lb_links := filter (\<lambda>l. link_key l \<noteq> (pid, rid)) (lb_links lb)\<rparr>)))"

definition add_set_rule :: "uuid \<Rightarrow> uuid \<Rightarrow> string option \<Rightarrow> set_library \<Rightarrow> exn + set_library" where
  "add_set_rule pid rid sev lb =
    sum_bind (get_set pid lb) (\<lambda>p.
      if rid \<notin> cr_id ` set (lb_rules lb) then Inl (HTTPException 404 ''Rule not found'')
      else sum_bind (sql_one (\<lambda>l. link_key l = (pid, rid)) (lb_links lb)) (\<lambda>found.
        case found of Some _ \<Rightarrow> Inr lb | None \<Rightarrow> insert_links pid [(rid, sev)] lb))"

definition set_remediation_mode ::
    "uuid \<Rightarrow> string \<Rightarrow> string list \<Rightarrow> string list \<Rightarrow> set_library \<Rightarrow> exn + set_library" where
  "set_remediation_mode pid m allowed forbidden lb =
    (if m \<notin> {''MONITOR'', ''ASSISTED'', ''AUTOMATIC''} then Inl (HTTPException 422 ''mode'')
     else sum_bind (get_set pid lb) (\<lambda>p.
       Inr (modify_set pid (\<lambda>p. p\<lparr>st_remediation := [(''mode'', PStr m), (''allowed'', PList (map PStr allowed)),
         (''forbidden'', PList (map PStr forbidden))]\<rparr>) lb)))"

definition create_set_assignment ::
    "uuid \<Rightarrow> uuid \<Rightarrow> string \<Rightarrow> config \<Rightarrow> uuid option \<Rightarrow> set_library \<Rightarrow> exn + set_library" where
  "create_set_assignment aid pid scope selector by lb =
    sum_bind (get_set pid lb) (\<lambda>p.
      Inr (lb\<lparr>lb_assignments := lb_assignments lb @
        [\<lparr>sa_id = aid, sa_set = pid, sa_scope = scope, sa_selector = selector, sa_created_by = by\<rparr>]\<rparr>))"

section \<open>Profiles\<close>

text \<open>The linked rules with their overrides, in the order of the rule keys.\<close>

definition linked_rules :: "uuid \<Rightarrow> set_library \<Rightarrow> (catalog_rule \<times> string option) list" where
  "linked_rules pid lb =
    sort_key (\<lambda>(r, _). cr_key r)
      (concat (map (\<lambda>l. map (\<lambda>r. (r, sl_override l)) (filter (\<lambda>r. cr_id r = sl_rule l) (lb_rules lb))) (links_of pid lb)))"

definition profile_entry :: "catalog_rule \<times> string option \<Rightarrow> pv" where
  "profile_entry e = PDict [(''rule_key'', PStr (cr_key (fst e))), (''title'', PStr (cl_title (fst e))),
     (''severity_override'', opt_pv (snd e))]"

definition export_profile :: "uuid \<Rightarrow> set_library \<Rightarrow> exn + config" where
  "export_profile pid lb =
    sum_bind (get_set pid lb) (\<lambda>p.
      Inr [(''format'', PStr ''lokilinux.policy-set/v1''),
        (''policy_set'', PDict [(''name'', PStr (st_name p)), (''slug'', PStr (st_slug p)),
          (''framework'', PStr (st_framework p)), (''version'', opt_pv (st_version p)),
          (''description'', opt_pv (st_description p)), (''source_profile'', opt_pv (st_profile p)),
          (''remediation'', if st_remediation p = [] then PNone else PDict (st_remediation p))]),
        (''rules'', PList (map profile_entry (linked_rules pid lb)))])"

text \<open>A value of the profile as a dictionary, as a list of dictionaries, as a nullable text column.\<close>

definition as_dict :: "pv \<Rightarrow> exn + config" where
  "as_dict v = (case v of PDict d \<Rightarrow> Inr d | _ \<Rightarrow> Inl (AttributeError ''get''))"

fun as_dicts :: "pv list \<Rightarrow> exn + config list" where
  "as_dicts [] = Inr []"
| "as_dicts (v # vs) = sum_bind (as_dict v) (\<lambda>d. sum_bind (as_dicts vs) (\<lambda>ds. Inr (d # ds)))"

definition as_entries :: "pv \<Rightarrow> exn + config list" where
  "as_entries v =
    (if \<not> truthy v then Inr []
     else case v of
       PList xs \<Rightarrow> as_dicts xs
     | PStr _ \<Rightarrow> Inl (AttributeError ''get'') | PDict _ \<Rightarrow> Inl (AttributeError ''get'')
     | _ \<Rightarrow> Inl (TypeError ''not iterable''))"

definition as_column :: "pv \<Rightarrow> exn + string option" where
  "as_column v = (case v of PNone \<Rightarrow> Inr None | PStr s \<Rightarrow> Inr (Some s) | _ \<Rightarrow> Inl (DatabaseError ''DataError''))"

text \<open>The keys a profile asks for, in its order, with the override of the last entry of each key.\<close>

definition wanted_entries :: "config list \<Rightarrow> (string \<times> pv) list" where
  "wanted_entries es =
    map (\<lambda>e. (pystr (cfg_get e ''rule_key''), cfg_get e ''severity_override''))
      (filter (\<lambda>e. truthy (cfg_get e ''rule_key'')) es)"

definition entry_override :: "(string \<times> pv) list \<Rightarrow> string \<Rightarrow> pv" where
  "entry_override ws k = (case map_of (rev ws) k of None \<Rightarrow> PNone | Some v \<Rightarrow> v)"

fun as_links :: "set_library \<Rightarrow> (string \<times> pv) list \<Rightarrow> string list \<Rightarrow> exn + (uuid \<times> string option) list" where
  "as_links lb ws [] = Inr []"
| "as_links lb ws (k # ks) =
    (case sql_get cr_key (lb_rules lb) k of
       None \<Rightarrow> as_links lb ws ks
     | Some r \<Rightarrow> sum_bind (as_column (entry_override ws k)) (\<lambda>sev.
         sum_bind (as_links lb ws ks) (\<lambda>rs. Inr ((cr_id r, sev) # rs))))"

definition missing_keys :: "set_library \<Rightarrow> string list \<Rightarrow> string list" where
  "missing_keys lb ks = filter (\<lambda>k. k \<notin> cr_key ` set (lb_rules lb)) ks"

definition opt_or :: "string option \<Rightarrow> string \<Rightarrow> string" where
  "opt_or a b = (case a of None \<Rightarrow> b | Some s \<Rightarrow> if s = [] then b else s)"

text \<open>The values are converted when the rows are written, after the slug was looked up.\<close>

definition import_profile ::
    "uuid \<Rightarrow> uuid \<Rightarrow> config \<Rightarrow> string option \<Rightarrow> string option \<Rightarrow> set_library \<Rightarrow> exn + set_library \<times> string list" where
  "import_profile pid aid profile slug name lb =
    sum_bind (as_entries (cfg_get profile ''rules'')) (\<lambda>es.
      let ws = wanted_entries es; ks = map fst ws in
      if ks = [] then Inl (HTTPException 422 ''Profile contains no rules'')
      else sum_bind (as_dict (py_or (cfg_get profile ''policy_set'') (PDict []))) (\<lambda>meta.
        let target = opt_or slug (pystr (py_or (cfg_get meta ''slug'') (PStr []))) in
        if target = [] then Inl (HTTPException 422 ''Profile has no slug; supply one'')
        else if target \<in> st_slug ` set (lb_sets lb) then Inl (HTTPException 409 ''Policy set slug already exists'')
        else
          sum_bind (as_column (cfg_get meta ''version'')) (\<lambda>version.
          sum_bind (as_column (cfg_get meta ''description'')) (\<lambda>description.
          sum_bind (as_links lb ws ks) (\<lambda>rs.
          sum_bind (create_draft_with_rules pid aid (opt_or name (pystr (py_or (cfg_get meta ''name'') (PStr target))))
              target (pystr (py_or (cfg_get meta ''framework'') (PStr ''INTERNAL''))) version description rs None [] None lb) (\<lambda>lb'.
            Inr (lb', missing_keys lb ks)))))))"

end
