(* ===== verification/PolicyTemplates.thy ===== *)
theory PolicyTemplates
  imports PolicySets
begin

text \<open>
  Policy templates (\<open>services/policy_templates.py\<close>): a named selection over the rule catalogue, the set created from
  it with a free slug, and the view the automatic remediation has of the tables.
\<close>

definition SEVERITY_ORDER :: "string list" where
  "SEVERITY_ORDER = [''LOW'', ''MEDIUM'', ''HIGH'', ''CRITICAL'']"

text \<open>\<open>tuple.index\<close>, with -1 for the \<open>ValueError\<close> of an unknown word.\<close>

fun index_from :: "int \<Rightarrow> string list \<Rightarrow> string \<Rightarrow> int" where
  "index_from i [] x = - 1"
| "index_from i (y # ys) x = (if x = y then i else index_from (i + 1) ys x)"

definition severity_rank :: "string \<Rightarrow> int" where
  "severity_rank s = index_from 0 SEVERITY_ORDER (map to_upper s)"

record policy_template =
  tp_key :: string
  tp_name :: string
  tp_description :: string
  tp_framework :: string
  tp_ref :: "string option"
  tp_sources :: "string list"
  tp_min :: "string option"
  tp_max :: "string option"
  tp_overrides :: "(string \<times> string) list"

definition template_matches :: "policy_template \<Rightarrow> catalog_rule \<Rightarrow> bool" where
  "template_matches t r =
    ((case tp_ref t of None \<Rightarrow> True | Some k \<Rightarrow> has_key (cl_refs r) k)
     \<and> (tp_sources t = [] \<or> cl_source r \<in> set (tp_sources t))
     \<and> severity_rank (cl_severity r) \<ge> 0
     \<and> (case tp_min t of None \<Rightarrow> True | Some s \<Rightarrow> severity_rank s \<le> severity_rank (cl_severity r))
     \<and> (case tp_max t of None \<Rightarrow> True | Some s \<Rightarrow> severity_rank (cl_severity r) \<le> severity_rank s))"

definition plain_template :: "string \<Rightarrow> string \<Rightarrow> string \<Rightarrow> string \<Rightarrow> policy_template" where
  "plain_template key name description framework =
    \<lparr>tp_key = key, tp_name = name, tp_description = description, tp_framework = framework, tp_ref = None,
      tp_sources = [], tp_min = None, tp_max = None, tp_overrides = []\<rparr>"

text \<open>The dashes of the descriptions are written as hyphens.\<close>

definition BUILTIN_TEMPLATES :: "policy_template list" where
  "BUILTIN_TEMPLATES =
    [(plain_template ''loki-linux-curated'' ''LokiLinux Curated Baseline'' ''The hand-curated, hand-verified rule set shipped with LokiLinux. Every rule here has a real CEL expression checked against the agent collectors' actual fact shapes. Start here.'' ''INTERNAL'')
        \<lparr>tp_sources := [''lokilinux-curated'']\<rparr>,
     (plain_template ''essential'' ''Essential hardening'' ''Every medium-and-higher severity rule in the catalog, regardless of framework. A good default for fleets that cannot chase the long tail of low-severity hardening advice.'' ''INTERNAL'')
        \<lparr>tp_min := Some ''MEDIUM''\<rparr>,
     (plain_template ''strict'' ''Strict hardening'' ''Only high and critical severity rules. The smallest useful profile - for fleets that want signal, not volume.'' ''INTERNAL'')
        \<lparr>tp_min := Some ''HIGH''\<rparr>,
     (plain_template ''cis'' ''CIS-mapped rules'' ''Every rule in the catalog carrying a CIS reference. This is a selection over the local catalog, not CIS's certified Benchmark text - import ComplianceAsCode content for the official mapping.'' ''CIS'')
        \<lparr>tp_ref := Some ''cis''\<rparr>,
     (plain_template ''nist'' ''NIST-mapped rules'' ''Every rule in the catalog carrying a NIST 800-53 control reference.'' ''NIST'')
        \<lparr>tp_ref := Some ''nist''\<rparr>,
     (plain_template ''stig'' ''STIG-mapped rules'' ''Every rule in the catalog carrying a DISA STIG control reference.'' ''STIG'')
        \<lparr>tp_ref := Some ''stig''\<rparr>,
     (plain_template ''pci-dss'' ''PCI-DSS-mapped rules'' ''Every rule in the catalog carrying a PCI-DSS requirement reference.'' ''PCI_DSS'')
        \<lparr>tp_ref := Some ''pci-dss''\<rparr>]"

definition get_template :: "string \<Rightarrow> policy_template option" where
  "get_template key = sql_get tp_key BUILTIN_TEMPLATES key"

definition candidate_rules :: "bool \<Rightarrow> set_library \<Rightarrow> catalog_rule list" where
  "candidate_rules include_unmapped lb =
    filter (\<lambda>r. cr_status r \<noteq> ''DEPRECATED'' \<and> (include_unmapped \<or> cl_check_source r = ''CEL'')) (lb_rules lb)"

definition resolve_template_rules :: "set_library \<Rightarrow> policy_template \<Rightarrow> bool \<Rightarrow> catalog_rule list" where
  "resolve_template_rules lb t include_unmapped =
    sort_key (\<lambda>r. (- severity_rank (cl_severity r), cr_key r))
      (filter (template_matches t) (candidate_rules include_unmapped lb))"

definition severity_breakdown :: "catalog_rule list \<Rightarrow> (string \<times> nat) list" where
  "severity_breakdown rs = map (\<lambda>s. (s, length (filter (\<lambda>r. cl_severity r = s) rs))) SEVERITY_ORDER"

section \<open>The set of a template\<close>

text \<open>The slugs that are tried in turn; the last resort carries a random suffix and is not looked up.\<close>

definition slug_candidates :: "string \<Rightarrow> string list" where
  "slug_candidates base = base # map (\<lambda>n. base @ ''-'' @ show_nat n) [2..<100]"

definition unique_slug :: "string \<Rightarrow> string \<Rightarrow> set_library \<Rightarrow> string" where
  "unique_slug base suffix lb =
    (case List.find (\<lambda>c. c \<notin> st_slug ` set (lb_sets lb)) (slug_candidates base) of
       Some c \<Rightarrow> c | None \<Rightarrow> base @ ''-'' @ suffix)"

text \<open>The id of the acting user as a UUID, if it is one.\<close>

definition safe_user_uuid :: "string option \<Rightarrow> uuid option" where
  "safe_user_uuid raw = (if raw = Some ''stub'' then None else safe_uuid raw)"

record template_request =
  tq_template :: string
  tq_name :: "string option"
  tq_slug :: "string option"
  tq_description :: "string option"
  tq_version :: "string option"
  tq_unmapped :: bool
  tq_overrides :: "(string \<times> string) list"
  tq_scope :: "string option"
  tq_selector :: config

definition override_for :: "template_request \<Rightarrow> policy_template \<Rightarrow> catalog_rule \<Rightarrow> string option" where
  "override_for rq t r =
    (case map_of (tq_overrides rq) (cr_key r) of
       Some s \<Rightarrow> if s = [] then map_of (tp_overrides t) (cr_key r) else Some s
     | None \<Rightarrow> map_of (tp_overrides t) (cr_key r))"

definition create_set_from_template ::
    "uuid \<Rightarrow> uuid \<Rightarrow> string \<Rightarrow> template_request \<Rightarrow> string option \<Rightarrow> set_library
     \<Rightarrow> exn + set_library \<times> (string \<times> nat) list" where
  "create_set_from_template pid aid suffix rq actor lb =
    (case get_template (tq_template rq) of
       None \<Rightarrow> Inl (HTTPException 404 ''Unknown policy template'')
     | Some t \<Rightarrow>
        let rs = resolve_template_rules lb t (tq_unmapped rq) in
        if rs = [] then Inl (HTTPException 409 ''Template matches no rules in the catalog'')
        else sum_bind (create_draft_with_rules pid aid (opt_or (tq_name rq) (tp_name t))
            (opt_or (tq_slug rq) (unique_slug (tp_key t) suffix lb)) (tp_framework t) (tq_version rq)
            (Some (opt_or (tq_description rq) (tp_description t)))
            (map (\<lambda>r. (cr_id r, override_for rq t r)) rs) (tq_scope rq) (tq_selector rq) (safe_user_uuid actor) lb) (\<lambda>lb'.
          Inr (lb', severity_breakdown rs)))"

section \<open>What the automatic remediation sees\<close>

definition set_view :: "set_library \<Rightarrow> set_row \<Rightarrow> policy_set" where
  "set_view lb p = \<lparr>ps_id = st_id p, ps_is_enabled = st_enabled p, ps_remediation = st_remediation p,
     ps_rules = map sl_rule (links_of (st_id p) lb)\<rparr>"

definition remedy_view :: "set_library \<Rightarrow> compliance \<Rightarrow> compliance" where
  "remedy_view lb c =
    c\<lparr>cp_rules := map compliance_rule.truncate (lb_rules lb), cp_sets := map (set_view lb) (lb_sets lb)\<rparr>"

end
