(* ===== verification/PolicySetLaws.thy ===== *)
theory PolicySetLaws
  imports PolicyTemplates
begin

text \<open>
  The laws of the policy set tables: the invariant \<open>library_ok\<close>, the step relation \<open>set_step\<close> over every operation
  that writes, and \<open>keeps\<close>, what a step leaves of the sets that have been published.
\<close>

definition set_sound :: "set_library \<Rightarrow> set_row \<Rightarrow> bool" where
  "set_sound lb p = ((st_enabled p \<longleftrightarrow> st_status p = PS_PUBLISHED) \<and> (st_status p \<noteq> PS_DRAFT \<longrightarrow> links_of (st_id p) lb \<noteq> []))"

definition library_ok :: "set_library \<Rightarrow> bool" where
  "library_ok lb = (distinct (map st_id (lb_sets lb)) \<and> distinct (map st_slug (lb_sets lb))
     \<and> distinct (map link_key (lb_links lb)) \<and> distinct (map cr_id (lb_rules lb)) \<and> distinct (map cr_key (lb_rules lb))
     \<and> (\<forall>l \<in> set (lb_links lb). sl_set l \<in> st_id ` set (lb_sets lb) \<and> sl_rule l \<in> cr_id ` set (lb_rules lb))
     \<and> (\<forall>p \<in> set (lb_sets lb). set_sound lb p))"

text \<open>The columns of a set that no operation touches once it is published.\<close>

definition set_text :: "set_row \<Rightarrow> uuid \<times> string \<times> string \<times> string \<times> string option \<times> string option \<times> nat \<times> uuid option" where
  "set_text p = (st_id p, st_name p, st_slug p, st_framework p, st_version p, st_description p, st_number p, st_parent p)"

definition moves_on :: "set_row \<Rightarrow> set_row \<Rightarrow> bool" where
  "moves_on p p' = (set_text p' = set_text p
     \<and> (st_status p' = st_status p \<or> st_status p = PS_PUBLISHED \<and> st_status p' = PS_ARCHIVED
        \<or> st_status p = PS_DRAFT))"

definition keeps :: "set_library \<Rightarrow> set_library \<Rightarrow> bool" where
  "keeps lb lb' = (lb_rules lb' = lb_rules lb
     \<and> (\<forall>p \<in> set (lb_sets lb). \<exists>p' \<in> set (lb_sets lb'). moves_on p p'
          \<and> (st_status p \<noteq> PS_DRAFT \<longrightarrow> set (links_of (st_id p) lb) \<subseteq> set (links_of (st_id p) lb'))))"

section \<open>Rows in and out\<close>

lemma insert_set_Inr: "insert_set p lb = Inr lb' \<longleftrightarrow>
    st_slug p \<notin> st_slug ` set (lb_sets lb) \<and> lb' = lb\<lparr>lb_sets := lb_sets lb @ [p]\<rparr>"
  by (auto simp: insert_set_def)

lemma create_draft_Inr: "create_draft pid name slug fw ver descr lb = Inr lb' \<longleftrightarrow>
    slug \<notin> st_slug ` set (lb_sets lb) \<and> lb' = lb\<lparr>lb_sets := lb_sets lb @ [draft_set pid name slug fw ver descr]\<rparr>"
proof -
  have s: "st_slug (draft_set pid name slug fw ver descr) = slug" by (simp add: draft_set_def)
  have "sql_one (\<lambda>p. st_slug p = slug) (lb_sets lb) = Inr None \<longleftrightarrow> slug \<notin> st_slug ` set (lb_sets lb)"
    by (auto simp: sql_one_None_iff)
  then show ?thesis unfolding create_draft_def sum_bind_Inr_iff using s by (auto simp: insert_set_Inr)
qed

lemma insert_links_Inr: "insert_links pid rs lb = Inr lb' \<longleftrightarrow>
    distinct (map link_key (lb_links lb @ new_links pid rs)) \<and> fst ` set rs \<subseteq> cr_id ` set (lb_rules lb)
    \<and> lb' = lb\<lparr>lb_links := lb_links lb @ new_links pid rs\<rparr>"
  unfolding insert_links_def list_all_iff image_subset_iff by (auto split: if_splits)

lemma scope_set_fields [simp]:
  "lb_rules (scope_set aid pid s sel by lb) = lb_rules lb" "lb_sets (scope_set aid pid s sel by lb) = lb_sets lb"
  "lb_links (scope_set aid pid s sel by lb) = lb_links lb"
  by (simp_all add: scope_set_def split: option.split)

lemma with_rules_Inr:
  "create_draft_with_rules pid aid name slug fw ver descr rs s sel by lb = Inr lb' \<longleftrightarrow>
    (\<exists>lb1. create_draft pid name slug fw ver descr lb = Inr lb1
      \<and> (\<exists>lb2. insert_links pid rs lb1 = Inr lb2 \<and> lb' = scope_set aid pid s sel by lb2))"
  by (auto simp: create_draft_with_rules_def sum_bind_Inr_iff)

lemma get_set_Inr: "get_set pid lb = Inr p \<longleftrightarrow> sql_get st_id (lb_sets lb) pid = Some p"
  by (simp add: get_set_def split: option.split)

lemma get_setD: "get_set pid lb = Inr p \<Longrightarrow> p \<in> set (lb_sets lb) \<and> st_id p = pid"
  unfolding get_set_Inr by (rule sql_get_SomeD)

lemma same_set: "library_ok lb \<Longrightarrow> p \<in> set (lb_sets lb) \<Longrightarrow> p' \<in> set (lb_sets lb) \<Longrightarrow> st_id p = st_id p' \<Longrightarrow> p = p'"
  unfolding library_ok_def distinct_map by (blast dest: inj_onD)

lemma links_of_append: "links_of pid (lb\<lparr>lb_links := lb_links lb @ ls\<rparr>) = links_of pid lb @ filter (\<lambda>l. sl_set l = pid) ls"
  by (simp add: links_of_def)

lemma set_links_of: "l \<in> set (links_of pid lb) \<longleftrightarrow> l \<in> set (lb_links lb) \<and> sl_set l = pid"
  by (simp add: links_of_def)

lemma new_links_set: "set (new_links pid rs) = (\<lambda>(r, sev). \<lparr>sl_set = pid, sl_rule = r, sl_override = sev\<rparr>) ` set rs"
  by (simp add: new_links_def)

section \<open>The invariant\<close>

lemma library_ok_cong:
  assumes "lb_rules lb' = lb_rules lb" "lb_sets lb' = lb_sets lb" "lb_links lb' = lb_links lb"
  shows "library_ok lb' = library_ok lb"
  by (simp add: library_ok_def set_sound_def links_of_def assms)

lemma insert_set_ok:
  assumes "library_ok lb" "insert_set p lb = Inr lb'" "st_id p \<notin> st_id ` set (lb_sets lb)" "st_status p = PS_DRAFT" "\<not> st_enabled p"
  shows "library_ok lb'"
proof -
  have lb': "lb' = lb\<lparr>lb_sets := lb_sets lb @ [p]\<rparr>" and slug: "st_slug p \<notin> st_slug ` set (lb_sets lb)"
    using assms(2) by (auto simp: insert_set_Inr)
  have "set_sound lb' x = set_sound lb x" for x by (simp add: lb' set_sound_def links_of_def)
  then show ?thesis using assms(1,3-) slug by (simp add: library_ok_def lb' set_sound_def)
qed

lemma insert_links_ok:
  assumes "library_ok lb" "insert_links pid rs lb = Inr lb'" "pid \<in> st_id ` set (lb_sets lb)"
  shows "library_ok lb'"
proof -
  have lb': "lb' = lb\<lparr>lb_links := lb_links lb @ new_links pid rs\<rparr>"
    and d: "distinct (map link_key (lb_links lb @ new_links pid rs))" and r: "fst ` set rs \<subseteq> cr_id ` set (lb_rules lb)"
    using assms(2) by (simp_all add: insert_links_Inr)
  have "set_sound lb' x" if "set_sound lb x" for x using that by (simp add: lb' set_sound_def links_of_append)
  moreover have "sl_set l = pid \<and> sl_rule l \<in> cr_id ` set (lb_rules lb)" if "l \<in> set (new_links pid rs)" for l
    using that r by (auto simp: new_links_set)
  ultimately show ?thesis using assms(1,3) d unfolding library_ok_def by (simp add: lb') blast
qed

lemma modify_set_ok:
  assumes "library_ok lb" "\<And>p. set_text (f p) = set_text p"
    and "\<And>p. p \<in> set (lb_sets lb) \<Longrightarrow> st_id p = pid \<Longrightarrow> set_sound lb (f p)"
  shows "library_ok (modify_set pid f lb)"
proof -
  have f: "st_id (f p) = st_id p" "st_slug (f p) = st_slug p" for p using assms(2) [of p] by (simp_all add: set_text_def)
  have ids: "map g (sql_modify st_id pid f (lb_sets lb)) = map g (lb_sets lb)" if "\<And>p. g (f p) = g p" for g :: "set_row \<Rightarrow> uuid"
    unfolding sql_modify_def by (rule map_key_sql_update) (rule that)
  have id: "map st_id (sql_modify st_id pid f (lb_sets lb)) = map st_id (lb_sets lb)"
    "map st_slug (sql_modify st_id pid f (lb_sets lb)) = map st_slug (lb_sets lb)" by (rule ids, rule f)+
  from arg_cong [OF id(1), of set] have im: "st_id ` set (sql_modify st_id pid f (lb_sets lb)) = st_id ` set (lb_sets lb)" by simp
  have "set_sound lb p" if "p \<in> set (sql_modify st_id pid f (lb_sets lb))" for p
    using that assms(1,3) unfolding sql_modify_def in_set_sql_update library_ok_def by (metis (full_types))
  moreover have "set_sound (modify_set pid f lb) p = set_sound lb p" for p by (simp add: set_sound_def modify_set_def links_of_def)
  ultimately show ?thesis using assms(1) unfolding library_ok_def
    by (simp add: modify_set_def id [simplified] im del: map_map)
qed

lemma links_of_drop:
  "x \<noteq> pid \<Longrightarrow> links_of x (lb\<lparr>lb_links := filter (\<lambda>l. link_key l \<noteq> (pid, r)) (lb_links lb)\<rparr>) = links_of x lb"
  by (auto simp: links_of_def link_key_def intro: filter_cong)

lemma drop_link_ok:
  assumes "library_ok lb" "p \<in> set (lb_sets lb)" "st_status p = PS_DRAFT"
  shows "library_ok (lb\<lparr>lb_links := filter (\<lambda>l. link_key l \<noteq> (st_id p, r)) (lb_links lb)\<rparr>)" (is "library_ok ?lb")
proof -
  have "set_sound ?lb x" if x: "x \<in> set (lb_sets lb)" for x
  proof -
    have "set_sound lb x" using assms(1) x by (simp add: library_ok_def)
    moreover have "st_id x \<noteq> st_id p \<or> st_status x = PS_DRAFT" using same_set [OF assms(1) x assms(2)] assms(3) by auto
    moreover have "links_of (st_id x) ?lb = links_of (st_id x) lb" if "st_id x \<noteq> st_id p" using that by (rule links_of_drop)
    ultimately show ?thesis by (auto simp: set_sound_def)
  qed
  then show ?thesis using assms(1) by (simp add: library_ok_def distinct_map_filter)
qed

section \<open>What a step keeps\<close>

lemma moves_on_refl [simp]: "moves_on p p"
  by (simp add: moves_on_def)

lemma keeps_refl: "keeps lb lb"
  unfolding keeps_def using moves_on_refl by blast

lemma moves_on_trans: "moves_on p p' \<Longrightarrow> moves_on p' p'' \<Longrightarrow> moves_on p p''"
  by (auto simp: moves_on_def)

lemma moves_on_id: "moves_on p p' \<Longrightarrow> st_id p' = st_id p"
  by (simp add: moves_on_def set_text_def)

lemma moves_on_live: "moves_on p p' \<Longrightarrow> st_status p \<noteq> PS_DRAFT \<Longrightarrow> st_status p' \<noteq> PS_DRAFT"
  by (auto simp: moves_on_def)

lemma keeps_trans:
  assumes "keeps a b" "keeps b c"
  shows "keeps a c"
  unfolding keeps_def
proof (intro conjI ballI)
  show "lb_rules c = lb_rules a" using assms by (simp add: keeps_def)
  fix p assume "p \<in> set (lb_sets a)"
  then obtain p' where p': "p' \<in> set (lb_sets b)" "moves_on p p'"
    "st_status p \<noteq> PS_DRAFT \<Longrightarrow> set (links_of (st_id p) a) \<subseteq> set (links_of (st_id p) b)"
    using assms(1) unfolding keeps_def by blast
  then obtain p'' where p'': "p'' \<in> set (lb_sets c)" "moves_on p' p''"
    "st_status p' \<noteq> PS_DRAFT \<Longrightarrow> set (links_of (st_id p') b) \<subseteq> set (links_of (st_id p') c)"
    using assms(2) unfolding keeps_def by blast
  have "set (links_of (st_id p) a) \<subseteq> set (links_of (st_id p) c)" if "st_status p \<noteq> PS_DRAFT"
    using p'(3) [OF that] p''(3) moves_on_live [OF p'(2) that] moves_on_id [OF p'(2)] by auto
  with p'' moves_on_trans [OF p'(2) p''(2)]
  show "\<exists>p' \<in> set (lb_sets c). moves_on p p' \<and> (st_status p \<noteq> PS_DRAFT \<longrightarrow> set (links_of (st_id p) a) \<subseteq> set (links_of (st_id p) c))"
    by blast
qed

lemma keepsI:
  assumes "lb_rules lb' = lb_rules lb" "set (lb_sets lb) \<subseteq> set (lb_sets lb')"
    and "\<And>p. p \<in> set (lb_sets lb) \<Longrightarrow> st_status p \<noteq> PS_DRAFT \<Longrightarrow> set (links_of (st_id p) lb) \<subseteq> set (links_of (st_id p) lb')"
  shows "keeps lb lb'"
  unfolding keeps_def using assms moves_on_refl by blast

lemma set_keeps_append:
  assumes "lb_rules lb' = lb_rules lb" "lb_sets lb' = lb_sets lb @ ps" "lb_links lb' = lb_links lb @ ls"
  shows "keeps lb lb'"
  by (rule keepsI) (auto simp: assms links_of_def)

lemma set_keeps_modify:
  assumes "\<And>p. p \<in> set (lb_sets lb) \<Longrightarrow> st_id p = pid \<Longrightarrow> moves_on p (f p)"
  shows "keeps lb (modify_set pid f lb)"
proof -
  have k: "moves_on p (if st_id p = pid then f p else p)" if "p \<in> set (lb_sets lb)" for p
    using that assms by simp
  have e: "\<exists>p' \<in> set (sql_modify st_id pid f (lb_sets lb)). moves_on p p'" if "p \<in> set (lb_sets lb)" for p
  proof (rule bexI)
    show "moves_on p (if st_id p = pid then f p else p)" using that by (rule k)
    show "(if st_id p = pid then f p else p) \<in> set (sql_modify st_id pid f (lb_sets lb))"
      using that unfolding sql_modify_def sql_update_def set_map by (rule imageI)
  qed
  have m: "lb_rules (modify_set pid f lb) = lb_rules lb" "lb_sets (modify_set pid f lb) = sql_modify st_id pid f (lb_sets lb)"
    "links_of x (modify_set pid f lb) = links_of x lb" for x by (simp_all add: modify_set_def links_of_def)
  show ?thesis unfolding keeps_def m using e by blast
qed

lemma set_keeps_drop:
  assumes "library_ok lb" "p \<in> set (lb_sets lb)" "st_status p = PS_DRAFT"
  shows "keeps lb (lb\<lparr>lb_links := filter (\<lambda>l. link_key l \<noteq> (st_id p, r)) (lb_links lb)\<rparr>)"
proof (rule keepsI)
  fix x assume x: "x \<in> set (lb_sets lb)" "st_status x \<noteq> PS_DRAFT"
  have "st_id x \<noteq> st_id p" using same_set [OF assms(1) x(1) assms(2)] x(2) assms(3) by auto
  from links_of_drop [OF this]
  show "set (links_of (st_id x) lb) \<subseteq> set (links_of (st_id x) (lb\<lparr>lb_links := filter (\<lambda>l. link_key l \<noteq> (st_id p, r)) (lb_links lb)\<rparr>))"
    by simp
qed simp_all

section \<open>The operations\<close>

lemma with_rules_step:
  assumes "library_ok lb" "pid \<notin> st_id ` set (lb_sets lb)"
    and "create_draft_with_rules pid aid name slug fw ver descr rs s sel by lb = Inr lb'"
  shows "library_ok lb' \<and> keeps lb lb' \<and> lb_sets lb' = lb_sets lb @ [draft_set pid name slug fw ver descr]
    \<and> lb_links lb' = lb_links lb @ new_links pid rs \<and> lb_rules lb' = lb_rules lb"
proof -
  from assms(3) obtain lb1 lb2 where c: "create_draft pid name slug fw ver descr lb = Inr lb1"
    "insert_links pid rs lb1 = Inr lb2" "lb' = scope_set aid pid s sel by lb2" unfolding with_rules_Inr by blast
  have d: "st_id (draft_set pid name slug fw ver descr) = pid" "st_status (draft_set pid name slug fw ver descr) = PS_DRAFT"
    "\<not> st_enabled (draft_set pid name slug fw ver descr)" "st_slug (draft_set pid name slug fw ver descr) = slug"
    by (simp_all add: draft_set_def)
  have i: "insert_set (draft_set pid name slug fw ver descr) lb = Inr lb1" and lb1: "lb_sets lb1 = lb_sets lb @ [draft_set pid name slug fw ver descr]"
    "lb_links lb1 = lb_links lb" "lb_rules lb1 = lb_rules lb"
    using c(1) d by (auto simp: create_draft_Inr insert_set_Inr)
  have ok1: "library_ok lb1" by (rule insert_set_ok [OF assms(1) i]) (use assms(2) d in simp_all)
  have ok2: "library_ok lb2" by (rule insert_links_ok [OF ok1 c(2)]) (simp add: lb1 d)
  have lb': "lb_sets lb' = lb_sets lb @ [draft_set pid name slug fw ver descr]"
    "lb_links lb' = lb_links lb @ new_links pid rs" "lb_rules lb' = lb_rules lb"
    using c(2,3) lb1 by (auto simp: insert_links_Inr)
  have "library_ok lb'" using ok2 library_ok_cong [of lb' lb2] c(3) by simp
  with lb' set_keeps_append [OF lb'(3,1,2)] show ?thesis by blast
qed

lemma clone_step:
  assumes "library_ok lb" "cid \<notin> st_id ` set (lb_sets lb)" "create_new_set_version cid pid lb = Inr lb'"
  obtains p where "get_set pid lb = Inr p" "st_status p = PS_PUBLISHED" "lb_sets lb' = lb_sets lb @ [clone_set cid p]"
    "lb_links lb' = lb_links lb @ new_links cid (map (\<lambda>l. (sl_rule l, None)) (links_of pid lb))" "lb_rules lb' = lb_rules lb"
    "library_ok lb'"
proof -
  from assms(3) obtain p lb1 where p: "get_set pid lb = Inr p" "st_status p = PS_PUBLISHED"
    and i: "insert_set (clone_set cid p) lb = Inr lb1"
    and l: "insert_links cid (map (\<lambda>l. (sl_rule l, None)) (links_of pid lb1)) lb1 = Inr lb'"
    unfolding create_new_set_version_def by (auto simp: sum_bind_Inr_iff split: if_splits)
  have lb1: "lb_sets lb1 = lb_sets lb @ [clone_set cid p]" "lb_links lb1 = lb_links lb" "lb_rules lb1 = lb_rules lb"
    "links_of pid lb1 = links_of pid lb" using i by (auto simp: insert_set_Inr links_of_def)
  have d: "st_id (clone_set cid p) = cid" "st_status (clone_set cid p) = PS_DRAFT" "\<not> st_enabled (clone_set cid p)"
    by (simp_all add: clone_set_def)
  have "library_ok lb1" by (rule insert_set_ok [OF assms(1) i]) (use assms(2) d in simp_all)
  then have "library_ok lb'" by (rule insert_links_ok [OF _ l]) (simp add: lb1 d)
  then show ?thesis using that p l lb1 by (auto simp: insert_links_Inr)
qed


inductive set_step :: "set_library \<Rightarrow> set_library \<Rightarrow> bool" where
  create: "create_draft pid name slug fw ver descr lb = Inr lb' \<Longrightarrow> pid \<notin> st_id ` set (lb_sets lb) \<Longrightarrow> set_step lb lb'"
| profile: "import_profile pid aid profile slug name lb = Inr (lb', missing) \<Longrightarrow> pid \<notin> st_id ` set (lb_sets lb) \<Longrightarrow> set_step lb lb'"
| template: "create_set_from_template pid aid suffix rq actor lb = Inr (lb', counts) \<Longrightarrow> pid \<notin> st_id ` set (lb_sets lb) \<Longrightarrow> set_step lb lb'"
| publish: "publish_set now pid lb = Inr lb' \<Longrightarrow> set_step lb lb'"
| archive: "archive_set pid lb = Inr lb' \<Longrightarrow> set_step lb lb'"
| clone: "create_new_set_version cid pid lb = Inr lb' \<Longrightarrow> cid \<notin> st_id ` set (lb_sets lb) \<Longrightarrow> set_step lb lb'"
| remove: "remove_set_rule pid rid lb = Inr (key, lb') \<Longrightarrow> set_step lb lb'"
| add: "add_set_rule pid rid sev lb = Inr lb' \<Longrightarrow> set_step lb lb'"
| remedy: "set_remediation_mode pid m allowed forbidden lb = Inr lb' \<Longrightarrow> set_step lb lb'"
| assign: "create_set_assignment aid pid scope selector by lb = Inr lb' \<Longrightarrow> set_step lb lb'"

lemma modify_step:
  assumes "library_ok lb" "\<And>p. set_text (f p) = set_text p"
    and "\<And>p. p \<in> set (lb_sets lb) \<Longrightarrow> st_id p = pid \<Longrightarrow> set_sound lb (f p) \<and> moves_on p (f p)"
  shows "library_ok (modify_set pid f lb) \<and> keeps lb (modify_set pid f lb)"
  using modify_set_ok [OF assms(1), of f] set_keeps_modify [of lb] assms(2,3) by blast

lemma publish_set_Inr:
  "publish_set now pid lb = Inr lb' \<longleftrightarrow> (\<exists>p. get_set pid lb = Inr p \<and> st_status p = PS_DRAFT \<and> links_of pid lb \<noteq> []
     \<and> lb' = modify_set pid (\<lambda>p. p\<lparr>st_status := PS_PUBLISHED, st_published_at := Some now, st_enabled := True\<rparr>) lb)"
  by (auto simp: publish_set_def sum_bind_Inr_iff)

lemma archive_set_Inr:
  "archive_set pid lb = Inr lb' \<longleftrightarrow> (\<exists>p. get_set pid lb = Inr p \<and> st_status p = PS_PUBLISHED
     \<and> lb' = modify_set pid (\<lambda>p. p\<lparr>st_status := PS_ARCHIVED, st_enabled := False\<rparr>) lb)"
  by (auto simp: archive_set_def sum_bind_Inr_iff)

lemma publish_set_ok:
  assumes "library_ok lb" "publish_set now pid lb = Inr lb'"
  shows "library_ok lb' \<and> keeps lb lb'"
proof -
  from assms(2) obtain p where p: "get_set pid lb = Inr p" "st_status p = PS_DRAFT" "links_of pid lb \<noteq> []"
    and lb': "lb' = modify_set pid (\<lambda>p. p\<lparr>st_status := PS_PUBLISHED, st_published_at := Some now, st_enabled := True\<rparr>) lb"
    unfolding publish_set_Inr by blast
  show ?thesis unfolding lb'
  proof (rule modify_step [OF assms(1)])
    fix x assume "x \<in> set (lb_sets lb)" "st_id x = pid"
    then have "x = p" using same_set [OF assms(1)] get_setD [OF p(1)] by blast
    then show "set_sound lb (x\<lparr>st_status := PS_PUBLISHED, st_published_at := Some now, st_enabled := True\<rparr>)
      \<and> moves_on x (x\<lparr>st_status := PS_PUBLISHED, st_published_at := Some now, st_enabled := True\<rparr>)"
      using p get_setD [OF p(1)] by (simp add: set_sound_def moves_on_def set_text_def)
  qed (simp add: set_text_def)
qed

lemma archive_set_ok:
  assumes "library_ok lb" "archive_set pid lb = Inr lb'"
  shows "library_ok lb' \<and> keeps lb lb'"
proof -
  from assms(2) obtain p where p: "get_set pid lb = Inr p" "st_status p = PS_PUBLISHED"
    and lb': "lb' = modify_set pid (\<lambda>p. p\<lparr>st_status := PS_ARCHIVED, st_enabled := False\<rparr>) lb"
    unfolding archive_set_Inr by blast
  show ?thesis unfolding lb'
  proof (rule modify_step [OF assms(1)])
    fix x assume x: "x \<in> set (lb_sets lb)" "st_id x = pid"
    then have "x = p" using same_set [OF assms(1)] get_setD [OF p(1)] by blast
    moreover have "set_sound lb x" using assms(1) x(1) by (simp add: library_ok_def)
    ultimately show "set_sound lb (x\<lparr>st_status := PS_ARCHIVED, st_enabled := False\<rparr>)
      \<and> moves_on x (x\<lparr>st_status := PS_ARCHIVED, st_enabled := False\<rparr>)"
      using p by (simp add: set_sound_def moves_on_def set_text_def)
  qed (simp add: set_text_def)
qed

lemma remedy_mode_ok:
  assumes "library_ok lb" "set_remediation_mode pid m allowed forbidden lb = Inr lb'"
  shows "library_ok lb' \<and> keeps lb lb'"
proof -
  obtain c where lb': "lb' = modify_set pid (\<lambda>p. p\<lparr>st_remediation := c\<rparr>) lb"
    using assms(2) by (auto simp: set_remediation_mode_def sum_bind_Inr_iff split: if_splits)
  show ?thesis unfolding lb'
    by (rule modify_step [OF assms(1)]) (use assms(1) in \<open>auto simp: set_sound_def moves_on_def set_text_def library_ok_def\<close>)
qed

lemma create_draft_ok:
  assumes "library_ok lb" "create_draft pid name slug fw ver descr lb = Inr lb'" "pid \<notin> st_id ` set (lb_sets lb)"
  shows "library_ok lb' \<and> keeps lb lb'"
proof
  have d: "st_id (draft_set pid name slug fw ver descr) = pid" "st_slug (draft_set pid name slug fw ver descr) = slug"
    "st_status (draft_set pid name slug fw ver descr) = PS_DRAFT" "\<not> st_enabled (draft_set pid name slug fw ver descr)"
    by (simp_all add: draft_set_def)
  have "insert_set (draft_set pid name slug fw ver descr) lb = Inr lb'"
    using assms(2) d(2) by (simp add: create_draft_Inr insert_set_Inr)
  then show "library_ok lb'" by (rule insert_set_ok [OF assms(1)]) (use d assms(3) in simp_all)
  show "keeps lb lb'" by (rule set_keeps_append) (use assms(2) in \<open>auto simp: create_draft_Inr\<close>)
qed

lemma import_profile_Inr:
  assumes "import_profile pid aid profile slug name lb = Inr (lb', missing)"
  obtains es meta target version description rs where
    "as_entries (cfg_get profile ''rules'') = Inr es" "as_dict (py_or (cfg_get profile ''policy_set'') (PDict [])) = Inr meta"
    "target = opt_or slug (pystr (py_or (cfg_get meta ''slug'') (PStr [])))"
    "as_links lb (wanted_entries es) (map fst (wanted_entries es)) = Inr rs" "missing = missing_keys lb (map fst (wanted_entries es))"
    "create_draft_with_rules pid aid (opt_or name (pystr (py_or (cfg_get meta ''name'') (PStr target)))) target
      (pystr (py_or (cfg_get meta ''framework'') (PStr ''INTERNAL''))) version description rs None [] None lb = Inr lb'"
  using assms unfolding import_profile_def Let_def by (auto simp: sum_bind_Inr_iff split: if_splits)

lemma remove_set_rule_ok:
  assumes "library_ok lb" "remove_set_rule pid rid lb = Inr (key, lb')"
  shows "library_ok lb' \<and> keeps lb lb'"
proof -
  obtain p where p: "get_set pid lb = Inr p" "st_status p = PS_DRAFT"
    "lb' = lb\<lparr>lb_links := filter (\<lambda>l. link_key l \<noteq> (pid, rid)) (lb_links lb)\<rparr>"
    using assms(2) by (auto simp: remove_set_rule_def sum_bind_Inr_iff split: if_splits option.splits)
  with get_setD [OF p(1)] drop_link_ok [OF assms(1)] set_keeps_drop [OF assms(1)] show ?thesis by blast
qed

lemma add_set_rule_Inr:
  assumes "add_set_rule pid rid sev lb = Inr lb'"
  obtains "lb' = lb" | p where "get_set pid lb = Inr p" "insert_links pid [(rid, sev)] lb = Inr lb'"
  using assms by (auto simp: add_set_rule_def sum_bind_Inr_iff split: if_splits option.splits)

lemma insert_links_keeps: "insert_links pid rs lb = Inr lb' \<Longrightarrow> keeps lb lb'"
  by (rule set_keeps_append [of _ _ "[]" "new_links pid rs"]) (auto simp: insert_links_Inr)

lemma set_step_ok: "set_step lb lb' \<Longrightarrow> library_ok lb \<Longrightarrow> library_ok lb' \<and> keeps lb lb'"
proof (induction rule: set_step.induct)
  case (create pid name slug fw ver descr lb lb')
  then show ?case using create_draft_ok by blast
next
  case (profile pid aid profile slug name lb lb' missing)
  from profile(1) obtain a b c d e f where "create_draft_with_rules pid aid a b c d e f None [] None lb = Inr lb'"
    by (rule import_profile_Inr)
  with with_rules_step [OF profile(3,2)] show ?case by blast
next
  case (template pid aid suffix rq actor lb lb' counts)
  then obtain a b c d e f s sel who where "create_draft_with_rules pid aid a b c d e f s sel who lb = Inr lb'"
    unfolding create_set_from_template_def Let_def by (auto simp: sum_bind_Inr_iff split: option.splits if_splits)
  with with_rules_step [OF template(3,2)] show ?case by blast
next
  case (publish now pid lb lb')
  then show ?case using publish_set_ok by blast
next
  case (archive pid lb lb')
  then show ?case using archive_set_ok by blast
next
  case (clone cid pid lb lb')
  from clone_step [OF clone(3,2,1)] set_keeps_append show ?case by metis
next
  case (remove pid rid lb key lb')
  then show ?case using remove_set_rule_ok by blast
next
  case (add pid rid sev lb lb')
  from add(1) show ?case
  proof (cases rule: add_set_rule_Inr)
    case 1
    with add(2) keeps_refl show ?thesis by simp
  next
    case (2 p)
    with insert_links_ok [OF add(2) 2(2)] get_setD [OF 2(1)] insert_links_keeps show ?thesis by blast
  qed
next
  case (remedy pid m allowed forbidden lb lb')
  then show ?case using remedy_mode_ok by blast
next
  case (assign aid pid scope selector "by" lb lb')
  then obtain a where lb': "lb' = lb\<lparr>lb_assignments := a\<rparr>" by (auto simp: create_set_assignment_def sum_bind_Inr_iff)
  have "keeps lb lb'" by (rule keepsI) (simp_all add: lb' links_of_def)
  with assign(2) lb' show ?case using library_ok_cong [of lb' lb] by simp
qed

lemma set_steps_ok: "set_step\<^sup>*\<^sup>* lb lb' \<Longrightarrow> library_ok lb \<Longrightarrow> library_ok lb' \<and> keeps lb lb'"
proof (induction rule: rtranclp_induct)
  case base
  then show ?case using keeps_refl by blast
next
  case (step y z)
  then show ?case using set_step_ok keeps_trans by blast
qed

text \<open>A library with rules and no sets.\<close>

definition new_library :: "catalog_rule list \<Rightarrow> set_library" where
  "new_library rules = \<lparr>lb_rules = rules, lb_sets = [], lb_links = [], lb_assignments = []\<rparr>"

lemma new_library_ok: "distinct (map cr_id rules) \<Longrightarrow> distinct (map cr_key rules) \<Longrightarrow> library_ok (new_library rules)"
  by (simp add: library_ok_def new_library_def)

end
