(* ===== verification/PolicySetProps.thy ===== *)
theory PolicySetProps
  imports PolicySetLaws
begin

text \<open>
  Policy sets: what is live has rules and keeps them, a published set can still grow, a profile carries its rules from
  one instance to another, a new version forgets the overrides, and the automatic remediation acts for published sets only.
\<close>

lemma library_reach_ok:
  "set_step\<^sup>*\<^sup>* (new_library rules) lb \<Longrightarrow> distinct (map cr_id rules) \<Longrightarrow> distinct (map cr_key rules)
    \<Longrightarrow> library_ok lb \<and> lb_rules lb = rules"
  using set_steps_ok [of "new_library rules" lb] new_library_ok [of rules] by (simp add: keeps_def new_library_def)

section \<open>Live sets\<close>

text \<open>In every reachable library a set is enabled exactly when it is published, a set that left the draft stage has
  rules, all of the catalogue, and no other set has its slug.\<close>

theorem live_sets_have_rules:
  assumes "set_step\<^sup>*\<^sup>* (new_library rules) lb" and "distinct (map cr_id rules)" and "distinct (map cr_key rules)"
    and "p \<in> set (lb_sets lb)"
  shows "(st_enabled p \<longleftrightarrow> st_status p = PS_PUBLISHED) \<and> (st_status p \<noteq> PS_DRAFT \<longrightarrow> linked_rules (st_id p) lb \<noteq> [])
    \<and> (\<forall>p' \<in> set (lb_sets lb). st_slug p' = st_slug p \<longrightarrow> p' = p)"
proof -
  have ok: "library_ok lb" using library_reach_ok [OF assms(1-3)] ..
  note o = ok [unfolded library_ok_def]
  have s: "set_sound lb p" using o assms(4) by blast
  have "linked_rules (st_id p) lb \<noteq> []" if "st_status p \<noteq> PS_DRAFT"
  proof -
    have "links_of (st_id p) lb \<noteq> []" using s that by (simp add: set_sound_def)
    then obtain l where l: "l \<in> set (links_of (st_id p) lb)" by (cases "links_of (st_id p) lb") auto
    then obtain r where "r \<in> set (lb_rules lb)" "cr_id r = sl_rule l" using o by (auto simp: set_links_of)
    with l have "(r, sl_override l) \<in> set (linked_rules (st_id p) lb)" by (auto simp: linked_rules_def)
    then show ?thesis by force
  qed
  moreover have "p' = p" if "p' \<in> set (lb_sets lb)" "st_slug p' = st_slug p" for p'
    using o assms(4) that by (metis distinct_map inj_onD)
  ultimately show ?thesis using s unfolding set_sound_def by blast
qed


text \<open>The route that adds a rule does not ask for a draft: a rule added to a published set is live at once, also for
  the automatic remediation.\<close>

theorem published_set_can_grow:
  assumes "set_step\<^sup>*\<^sup>* (new_library rules) lb" and "distinct (map cr_id rules)" and "distinct (map cr_key rules)"
    and "get_set pid lb = Inr p" and "st_status p = PS_PUBLISHED" and "rid \<in> cr_id ` set rules"
    and "(pid, rid) \<notin> link_key ` set (lb_links lb)"
  shows "\<exists>lb'. add_set_rule pid rid sev lb = Inr lb' \<and> get_set pid lb' = Inr p
    \<and> links_of pid lb' = links_of pid lb @ [\<lparr>sl_set = pid, sl_rule = rid, sl_override = sev\<rparr>]
    \<and> set_view lb' p \<in> set (covering_policies (remedy_view lb' c) rid)"
proof -
  have ok: "library_ok lb" and rules: "lb_rules lb = rules" using library_reach_ok [OF assms(1-3)] by blast+
  define lb' where "lb' = lb\<lparr>lb_links := lb_links lb @ [\<lparr>sl_set = pid, sl_rule = rid, sl_override = sev\<rparr>]\<rparr>"
  have one: "sql_one (\<lambda>l. link_key l = (pid, rid)) (lb_links lb) = Inr None"
    using assms(7) by (force simp: sql_one_None_iff)
  have "distinct (map link_key (lb_links lb))" using ok by (simp add: library_ok_def)
  then have "insert_links pid [(rid, sev)] lb = Inr lb'"
    using assms(6,7) rules by (simp add: insert_links_def new_links_def lb'_def link_key_def)
  then have add: "add_set_rule pid rid sev lb = Inr lb'" using assms(4,6) one rules by (simp add: add_set_rule_def)
  have p: "p \<in> set (lb_sets lb)" "st_id p = pid" using get_setD [OF assms(4)] by blast+
  have "st_enabled p" using ok p(1) assms(5) by (simp add: library_ok_def set_sound_def)
  then have "set_view lb' p \<in> set (covering_policies (remedy_view lb' c) rid)"
    using p by (auto simp: covering_policies_def remedy_view_def set_view_def lb'_def links_of_append)
  with add assms(4) show ?thesis by (simp add: lb'_def links_of_append get_set_Inr)
qed


section \<open>Versions\<close>

text \<open>A new version links the same rules, but without their overrides; its publication leaves the old version live, and
  the old version cannot be cloned again.\<close>

theorem new_version_forgets_overrides:
  assumes "set_step\<^sup>*\<^sup>* (new_library rules) lb" and "distinct (map cr_id rules)" and "distinct (map cr_key rules)"
    and "create_new_set_version cid pid lb = Inr lb'" and "cid \<notin> st_id ` set (lb_sets lb)"
  shows "map sl_rule (links_of cid lb') = map sl_rule (links_of pid lb) \<and> (\<forall>l \<in> set (links_of cid lb'). sl_override l = None)
    \<and> (\<exists>lb'' p. publish_set now cid lb' = Inr lb'' \<and> get_set pid lb'' = Inr p \<and> st_enabled p
        \<and> create_new_set_version cid' pid lb'' = Inl (DatabaseError ''UniqueViolation''))"
proof -
  have ok: "library_ok lb" using library_reach_ok [OF assms(1-3)] ..
  obtain p where p: "get_set pid lb = Inr p" "st_status p = PS_PUBLISHED" and lb': "lb_sets lb' = lb_sets lb @ [clone_set cid p]"
    "lb_links lb' = lb_links lb @ new_links cid (map (\<lambda>l. (sl_rule l, None)) (links_of pid lb))" and ok': "library_ok lb'"
    using clone_step [OF ok assms(5,4)] by metis
  note pd = get_setD [OF p(1)]
  have sound: "set_sound lb p" using ok pd by (simp add: library_ok_def)
  have "filter (\<lambda>l. sl_set l = cid) (lb_links lb) = []" using ok assms(5) by (auto simp: library_ok_def filter_empty_conv)
  then have links: "links_of cid lb' = new_links cid (map (\<lambda>l. (sl_rule l, None)) (links_of pid lb))"
    by (simp add: links_of_def lb'(2) new_links_def comp_def filter_map)
  have cid: "cid \<noteq> pid" using pd assms(5) by auto
  have new: "get_set cid lb' = Inr (clone_set cid p)"
    using assms(5) sql_get_None_iff [of st_id "lb_sets lb" cid] by (simp add: get_set_Inr lb'(1) sql_get_append sql_get_def [of _ "[_]"] clone_set_def)
  define lb'' where "lb'' = modify_set cid (\<lambda>p. p\<lparr>st_status := PS_PUBLISHED, st_published_at := Some now, st_enabled := True\<rparr>) lb'"
  have "links_of cid lb' \<noteq> []" using links sound p(2) pd by (simp add: new_links_def set_sound_def)
  then have pub: "publish_set now cid lb' = Inr lb''" unfolding publish_set_Inr lb''_def using new by (simp add: clone_set_def)
  have old: "get_set pid lb'' = Inr p" using p(1) cid pd
    by (simp add: get_set_Inr lb''_def modify_set_def lb'(1) sql_modify_def sql_get_update sql_get_append)
  have "next_version_slug p \<in> st_slug ` set (lb_sets lb'')"
    by (simp add: lb''_def modify_set_def sql_modify_def sql_update_def lb'(1) clone_set_def)
  then have "create_new_set_version cid' pid lb'' = Inl (DatabaseError ''UniqueViolation'')"
    using old p(2) by (simp add: create_new_set_version_def insert_set_def clone_set_def)
  with pub old sound p(2) links show ?thesis by (auto simp: new_links_def set_sound_def)
qed

section \<open>Profiles\<close>

text \<open>The rules of a set by their keys, with the overrides.\<close>

definition rule_names :: "uuid \<Rightarrow> set_library \<Rightarrow> (string \<times> string option) set" where
  "rule_names pid lb = {(cr_key r, sl_override l) | r l. r \<in> set (lb_rules lb) \<and> l \<in> set (links_of pid lb) \<and> sl_rule l = cr_id r}"

lemma linked_rules_set: "set (linked_rules pid lb)
    = {(r, sl_override l) | r l. r \<in> set (lb_rules lb) \<and> l \<in> set (links_of pid lb) \<and> sl_rule l = cr_id r}"
  by (auto simp: linked_rules_def)

lemma rule_names_linked: "rule_names pid lb = (\<lambda>(r, sev). (cr_key r, sev)) ` set (linked_rules pid lb)"
  unfolding rule_names_def linked_rules_set by force

lemma filter_key_eq: "distinct (map key rows) \<Longrightarrow> r \<in> set rows \<Longrightarrow> filter (\<lambda>x. key x = key r) rows = [r]"
proof (induction rows)
  case (Cons a rows)
  show ?case
  proof (cases "r = a")
    case True
    then have "filter (\<lambda>x. key x = key r) rows = []" using Cons.prems(1) by (auto simp: filter_empty_conv image_iff)
    then show ?thesis using True by simp
  next
    case False
    then have "r \<in> set rows" "key a \<noteq> key r" using Cons.prems by (auto simp: image_iff)
    then show ?thesis using Cons by simp
  qed
qed simp

definition rule_of :: "set_library \<Rightarrow> set_link \<Rightarrow> catalog_rule" where
  "rule_of lb l = the (sql_get cr_id (lb_rules lb) (sl_rule l))"

lemma rule_of:
  assumes "library_ok lb" "l \<in> set (lb_links lb)"
  shows "rule_of lb l \<in> set (lb_rules lb)" "cr_id (rule_of lb l) = sl_rule l"
    "filter (\<lambda>r. cr_id r = sl_rule l) (lb_rules lb) = [rule_of lb l]"
proof -
  obtain r where r: "r \<in> set (lb_rules lb)" "cr_id r = sl_rule l" using assms by (auto simp: library_ok_def)
  have d: "distinct (map cr_id (lb_rules lb))" using assms(1) by (simp add: library_ok_def)
  have "rule_of lb l = r" unfolding rule_of_def r(2) [symmetric] sql_get_distinct [OF d r(1)] by simp
  with r filter_key_eq [OF d r(1)]
  show "rule_of lb l \<in> set (lb_rules lb)" "cr_id (rule_of lb l) = sl_rule l"
    "filter (\<lambda>r. cr_id r = sl_rule l) (lb_rules lb) = [rule_of lb l]" by simp_all
qed

lemma distinct_map_sort_key: "distinct (map f (sort_key g xs)) = distinct (map f xs)"
  by (simp add: distinct_map)

lemma linked_keys_distinct:
  assumes "library_ok lb"
  shows "distinct (map (\<lambda>e. cr_key (fst e)) (linked_rules pid lb))"
proof -
  let ?row = "\<lambda>l. (rule_of lb l, sl_override l)"
  have "concat (map (\<lambda>l. map (\<lambda>r. (r, sl_override l)) (filter (\<lambda>r. cr_id r = sl_rule l) (lb_rules lb))) ls) = map ?row ls"
    if "set ls \<subseteq> set (lb_links lb)" for ls
    using that rule_of(3) [OF assms] by (induction ls) auto
  from this [of "links_of pid lb"]
  have l: "linked_rules pid lb = sort_key (\<lambda>(r, _). cr_key r) (map ?row (links_of pid lb))"
    by (simp add: linked_rules_def links_of_def)
  have "inj_on (\<lambda>l. cr_key (rule_of lb l)) (set (links_of pid lb))"
  proof (rule inj_onI)
    fix l l' assume ll: "l \<in> set (links_of pid lb)" "l' \<in> set (links_of pid lb)" "cr_key (rule_of lb l) = cr_key (rule_of lb l')"
    then have "rule_of lb l = rule_of lb l'"
      using rule_of(1) [OF assms] assms unfolding library_ok_def set_links_of by (metis distinct_map inj_onD)
    then have "link_key l = link_key l'" using ll rule_of(2) [OF assms] by (metis link_key_def set_links_of)
    then show "l = l'" using ll assms unfolding library_ok_def set_links_of by (metis distinct_map inj_onD)
  qed
  moreover have "distinct (links_of pid lb)" using assms by (simp add: library_ok_def links_of_def distinct_map)
  ultimately have "distinct (map (\<lambda>e. cr_key (fst e)) (map ?row (links_of pid lb)))" by (simp add: distinct_map comp_def)
  then show ?thesis unfolding l distinct_map_sort_key .
qed

text \<open>What the importer reads out of the entries of an exported profile.\<close>

lemma as_column_opt_pv [simp]: "as_column (opt_pv x) = Inr x"
  by (cases x) (simp_all add: as_column_def opt_pv_def)

lemma as_dicts_entries: "as_dicts (map profile_entry xs) =
    Inr (map (\<lambda>e. [(''rule_key'', PStr (cr_key (fst e))), (''title'', PStr (cl_title (fst e))), (''severity_override'', opt_pv (snd e))]) xs)"
  by (induction xs) (simp_all add: profile_entry_def as_dict_def)

lemma as_entries_exported: "xs \<noteq> [] \<Longrightarrow> as_entries (PList (map profile_entry xs)) = as_dicts (map profile_entry xs)"
  by (simp add: as_entries_def)

lemma wanted_exported:
  assumes "[] \<notin> (\<lambda>e. cr_key (fst e)) ` set xs"
  shows "wanted_entries (map (\<lambda>e. [(''rule_key'', PStr (cr_key (fst e))), (''title'', PStr (cl_title (fst e))), (''severity_override'', opt_pv (snd e))]) xs)
    = map (\<lambda>e. (cr_key (fst e), opt_pv (snd e))) xs"
  using assms by (induction xs) (auto simp: wanted_entries_def cfg_get_def)

lemma override_exported:
  assumes "distinct (map (\<lambda>e. cr_key (fst e)) xs)" "e \<in> set xs"
  shows "entry_override (map (\<lambda>e. (cr_key (fst e), opt_pv (snd e))) xs) (cr_key (fst e)) = opt_pv (snd e)"
proof -
  have d: "distinct (map fst (rev (map (\<lambda>e. (cr_key (fst e), opt_pv (snd e))) xs)))"
    using assms(1) by (simp add: comp_def flip: rev_map)
  have "map_of (rev (map (\<lambda>e. (cr_key (fst e), opt_pv (snd e))) xs)) (cr_key (fst e)) = Some (opt_pv (snd e))"
    by (rule map_of_is_SomeI [OF d]) (use assms(2) in auto)
  then show ?thesis by (simp add: entry_override_def)
qed

text \<open>The rules of the catalogue that the entries name, in their order.\<close>

definition local_links :: "set_library \<Rightarrow> (catalog_rule \<times> string option) list \<Rightarrow> (uuid \<times> string option) list" where
  "local_links lb xs = List.map_filter (\<lambda>e. map_option (\<lambda>r. (cr_id r, snd e)) (sql_get cr_key (lb_rules lb) (cr_key (fst e)))) xs"

lemma as_links_exported:
  assumes "\<And>e. e \<in> set ys \<Longrightarrow> entry_override ws (cr_key (fst e)) = opt_pv (snd e)"
  shows "as_links lb ws (map (\<lambda>e. cr_key (fst e)) ys) = Inr (local_links lb ys)"
  using assms by (induction ys) (auto simp: local_links_def map_filter_simps split: option.split)

lemma local_links_set:
  assumes "library_ok lb"
  shows "set (local_links lb xs) = {(cr_id r, snd e) | r e. r \<in> set (lb_rules lb) \<and> e \<in> set xs \<and> cr_key (fst e) = cr_key r}"
proof -
  have get: "sql_get cr_key (lb_rules lb) k = Some r \<longleftrightarrow> r \<in> set (lb_rules lb) \<and> cr_key r = k" for k r
    using sql_get_SomeD [of cr_key "lb_rules lb" k r] sql_get_distinct [of cr_key "lb_rules lb" r] assms
    unfolding library_ok_def by blast
  have m: "set (List.map_filter f ys) = {y. \<exists>e \<in> set ys. f e = Some y}" for f :: "catalog_rule \<times> string option \<Rightarrow> (uuid \<times> string option) option" and ys
    by (induction ys) (auto simp: map_filter_simps split: option.split)
  show ?thesis unfolding local_links_def m map_option_eq_Some get
    by (intro set_eqI iffI; unfold mem_Collect_eq) metis+
qed

lemma local_links_distinct:
  assumes "library_ok lb" "distinct (map (\<lambda>e. cr_key (fst e)) xs)"
  shows "distinct (map fst (local_links lb xs))"
  using assms(2)
proof (induction xs)
  case (Cons e xs)
  have "cr_id r \<notin> fst ` set (local_links lb xs)" if "sql_get cr_key (lb_rules lb) (cr_key (fst e)) = Some r" for r
  proof
    assume "cr_id r \<in> fst ` set (local_links lb xs)"
    then obtain r' e' where r': "r' \<in> set (lb_rules lb)" "e' \<in> set xs" "cr_key (fst e') = cr_key r'" "cr_id r' = cr_id r"
      unfolding local_links_set [OF assms(1)] by force
    have "r \<in> set (lb_rules lb)" "cr_key r = cr_key (fst e)" using sql_get_SomeD [OF that] by blast+
    then have "cr_key (fst e) = cr_key (fst e')" using r' assms(1) unfolding library_ok_def by (metis distinct_map inj_onD)
    then show False using Cons.prems r'(2) by (force simp: image_iff)
  qed
  with Cons show ?case by (auto simp: local_links_def map_filter_simps split: option.split)
qed (simp add: local_links_def map_filter_simps)

lemma imported_names:
  assumes "library_ok lb2" "lb_rules lb2 = rules2" "set (links_of pid2 lb') = set (new_links pid2 (local_links lb2 xs))"
    "lb_rules lb' = rules2" "xs = linked_rules pid lb"
  shows "rule_names pid2 lb' = {e \<in> rule_names pid lb. fst e \<in> cr_key ` set rules2}"
proof -
  have same: "r = r'" if "r \<in> set rules2" "r' \<in> set rules2" "cr_id r = cr_id r'" for r r'
    using that assms(1,2) unfolding library_ok_def by (metis distinct_map inj_onD)
  have "rule_names pid2 lb' = {(cr_key r, sev) | r sev. r \<in> set rules2 \<and> (cr_id r, sev) \<in> set (local_links lb2 xs)}"
    unfolding rule_names_def assms(3,4) new_links_set by force
  also have "\<dots> = {(cr_key r, snd e) | r e. r \<in> set rules2 \<and> e \<in> set xs \<and> cr_key (fst e) = cr_key r}"
    unfolding local_links_set [OF assms(1)] assms(2) by (auto dest: same)
  also have "\<dots> = {e \<in> rule_names pid lb. fst e \<in> cr_key ` set rules2}" unfolding rule_names_linked assms(5) by force
  finally show ?thesis .
qed

lemma import_exported:
  assumes ok: "library_ok lb2" and xs: "xs \<noteq> []" "distinct (map (\<lambda>e. cr_key (fst e)) xs)" "[] \<notin> (\<lambda>e. cr_key (fst e)) ` set xs"
    and profile: "cfg_get profile ''rules'' = PList (map profile_entry xs)"
      "cfg_get profile ''policy_set'' = PDict meta" "meta \<noteq> []" "cfg_get meta ''version'' = opt_pv ver"
      "cfg_get meta ''description'' = opt_pv descr"
    and slug: "slug \<noteq> []" "slug \<notin> st_slug ` set (lb_sets lb2)" and fresh: "pid \<notin> st_id ` set (lb_sets lb2)"
  shows "\<exists>lb'. import_profile pid aid profile (Some slug) None lb2 = Inr (lb', missing_keys lb2 (map (\<lambda>e. cr_key (fst e)) xs))
    \<and> lb_sets lb' = lb_sets lb2 @ [draft_set pid (pystr (py_or (cfg_get meta ''name'') (PStr slug))) slug
          (pystr (py_or (cfg_get meta ''framework'') (PStr ''INTERNAL''))) ver descr]
    \<and> lb_links lb' = lb_links lb2 @ new_links pid (local_links lb2 xs) \<and> lb_rules lb' = lb_rules lb2"
proof -
  let ?ws = "map (\<lambda>e. (cr_key (fst e), opt_pv (snd e))) xs"
  define name where "name = pystr (py_or (cfg_get meta ''name'') (PStr slug))"
  define fw where "fw = pystr (py_or (cfg_get meta ''framework'') (PStr ''INTERNAL''))"
  have links: "as_links lb2 ?ws (map (\<lambda>e. cr_key (fst e)) xs) = Inr (local_links lb2 xs)"
    by (rule as_links_exported) (rule override_exported [OF xs(2)])
  have old: "distinct (map link_key (lb_links lb2))" "pid \<notin> sl_set ` set (lb_links lb2)"
    using ok fresh by (auto simp: library_ok_def)
  have "map link_key (new_links pid rs) = map (Pair pid) (map fst rs)" for rs
    by (induction rs) (auto simp: new_links_def link_key_def)
  then have "distinct (map link_key (lb_links lb2 @ new_links pid (local_links lb2 xs)))"
    using local_links_distinct [OF ok xs(2)] old by (auto simp: distinct_map inj_on_def link_key_def simp del: map_map)
  moreover have "fst ` set (local_links lb2 xs) \<subseteq> cr_id ` set (lb_rules lb2)" by (auto simp: local_links_set [OF ok])
  ultimately obtain lb' where lb': "create_draft_with_rules pid aid name slug fw ver descr (local_links lb2 xs) None [] None lb2 = Inr lb'"
    using slug(2) unfolding with_rules_Inr create_draft_Inr insert_links_Inr by auto
  have "import_profile pid aid profile (Some slug) None lb2 = Inr (lb', missing_keys lb2 (map (\<lambda>e. cr_key (fst e)) xs))"
    using xs slug lb' links
    by (simp add: import_profile_def profile as_entries_exported as_dicts_entries wanted_exported [OF xs(3)] comp_def
        as_dict_def py_or_def opt_or_def name_def fw_def)
  with with_rules_step [OF ok fresh lb'] show ?thesis unfolding name_def fw_def by blast
qed

text \<open>C31. A profile exported on one instance and imported on another, under a slug that is free there, gives a draft with the
  name, framework, version and description of the set, and with exactly those of its rules, with their overrides, that
  the other catalogue knows; the keys of the others are reported.\<close>

theorem profile_round_trip:
  assumes "set_step\<^sup>*\<^sup>* (new_library rules) lb" and "distinct (map cr_id rules)" and "distinct (map cr_key rules)"
    and "set_step\<^sup>*\<^sup>* (new_library rules2) lb2" and "distinct (map cr_id rules2)" and "distinct (map cr_key rules2)"
    and "get_set pid lb = Inr p" and "rule_names pid lb \<noteq> {}" and "[] \<notin> cr_key ` set rules"
    and "slug \<noteq> []" and "slug \<notin> st_slug ` set (lb_sets lb2)" and "pid2 \<notin> st_id ` set (lb_sets lb2)"
  shows "\<exists>profile lb' missing. export_profile pid lb = Inr profile
    \<and> import_profile pid2 aid profile (Some slug) None lb2 = Inr (lb', missing)
    \<and> get_set pid2 lb' = Inr (draft_set pid2 (if st_name p = [] then slug else st_name p) slug
          (if st_framework p = [] then ''INTERNAL'' else st_framework p) (st_version p) (st_description p))
    \<and> rule_names pid2 lb' = {e \<in> rule_names pid lb. fst e \<in> cr_key ` set rules2}
    \<and> set missing = fst ` rule_names pid lb - cr_key ` set rules2"
proof -
  have ok: "library_ok lb" "lb_rules lb = rules" using library_reach_ok [OF assms(1-3)] by blast+
  have ok2: "library_ok lb2" "lb_rules lb2 = rules2" using library_reach_ok [OF assms(4-6)] by blast+
  define xs where "xs = linked_rules pid lb"
  define keys where "keys = map (\<lambda>e. cr_key (fst e)) xs"
  have x: "xs \<noteq> []" using assms(8) by (auto simp: rule_names_linked xs_def)
  have k: "[] \<notin> (\<lambda>e. cr_key (fst e)) ` set xs" using assms(9) ok(2) by (auto simp: xs_def linked_rules_set)
  obtain profile where profile: "export_profile pid lb = Inr profile" using assms(7) by (simp add: export_profile_def)
  define meta where "meta = [(''name'', PStr (st_name p)), (''slug'', PStr (st_slug p)), (''framework'', PStr (st_framework p)),
    (''version'', opt_pv (st_version p)), (''description'', opt_pv (st_description p)), (''source_profile'', opt_pv (st_profile p)),
    (''remediation'', if st_remediation p = [] then PNone else PDict (st_remediation p))]"
  have e: "cfg_get profile ''rules'' = PList (map profile_entry xs)" "cfg_get profile ''policy_set'' = PDict meta"
    using profile assms(7) by (auto simp: export_profile_def cfg_get_def xs_def meta_def)
  have m: "meta \<noteq> []" "cfg_get meta ''version'' = opt_pv (st_version p)" "cfg_get meta ''description'' = opt_pv (st_description p)"
    "cfg_get meta ''name'' = PStr (st_name p)" "cfg_get meta ''framework'' = PStr (st_framework p)"
    by (simp_all add: meta_def cfg_get_def)
  have t: "pystr (py_or (PStr a) (PStr b)) = (if a = [] then b else a)" for a b by (simp add: py_or_def)
  obtain lb' where i: "import_profile pid2 aid profile (Some slug) None lb2 = Inr (lb', missing_keys lb2 keys)"
    and lb': "lb_sets lb' = lb_sets lb2 @ [draft_set pid2 (if st_name p = [] then slug else st_name p) slug
        (if st_framework p = [] then ''INTERNAL'' else st_framework p) (st_version p) (st_description p)]"
      "lb_links lb' = lb_links lb2 @ new_links pid2 (local_links lb2 xs)" "lb_rules lb' = rules2"
    using import_exported [OF ok2(1) x linked_keys_distinct [OF ok(1), of pid, folded xs_def] k e m(1-3) assms(10-12), of aid]
    unfolding m(4,5) t keys_def ok2(2) by blast
  have new: "get_set pid2 lb' = Inr (draft_set pid2 (if st_name p = [] then slug else st_name p) slug
      (if st_framework p = [] then ''INTERNAL'' else st_framework p) (st_version p) (st_description p))"
    using assms(12) sql_get_None_iff [of st_id "lb_sets lb2" pid2]
    by (simp add: get_set_Inr lb'(1) sql_get_append sql_get_def [of _ "[_]"] draft_set_def)
  have "pid2 \<notin> sl_set ` set (lb_links lb2)" using ok2(1) assms(12) by (auto simp: library_ok_def)
  then have "set (links_of pid2 lb') = set (new_links pid2 (local_links lb2 xs))" by (auto simp: links_of_def lb'(2) new_links_set)
  then have names: "rule_names pid2 lb' = {e \<in> rule_names pid lb. fst e \<in> cr_key ` set rules2}"
    by (rule imported_names [OF ok2 _ lb'(3) xs_def])
  have "set (missing_keys lb2 keys) = fst ` rule_names pid lb - cr_key ` set rules2"
    by (force simp: missing_keys_def ok2(2) keys_def rule_names_linked xs_def)
  with profile i new names show ?thesis by blast
qed

section \<open>Templates\<close>

lemma show_nat_value: "foldl (\<lambda>a c. 10 * a + (of_char c - 48)) 0 (show_nat n) = n"
proof (induction n rule: show_nat.induct)
  case (1 n)
  then show ?case by (subst show_nat.simps) (simp add: digit_char_def take_bit_eq_mod)
qed

lemma show_nat_inj: "show_nat m = show_nat n \<longleftrightarrow> m = n"
  by (metis show_nat_value)

lemma slug_candidates: "distinct (slug_candidates base)" "length (slug_candidates base) = 99"
  by (auto simp: slug_candidates_def distinct_map inj_on_def show_nat_inj)

lemma unique_slug_free:
  assumes "length (lb_sets lb) < 99"
  shows "unique_slug base suffix lb \<notin> st_slug ` set (lb_sets lb)"
proof -
  have "card (st_slug ` set (lb_sets lb)) < card (set (slug_candidates base))"
    using assms slug_candidates [of base] card_image_le [of "set (lb_sets lb)" st_slug] card_length [of "lb_sets lb"]
    by (simp add: distinct_card)
  then have "\<not> set (slug_candidates base) \<subseteq> st_slug ` set (lb_sets lb)"
    using card_mono [of "st_slug ` set (lb_sets lb)" "set (slug_candidates base)"] by auto
  then obtain c where c: "List.find (\<lambda>c. c \<notin> st_slug ` set (lb_sets lb)) (slug_candidates base) = Some c"
    by (cases "List.find (\<lambda>c. c \<notin> st_slug ` set (lb_sets lb)) (slug_candidates base)") (auto simp: find_None_iff)
  then have "c \<notin> st_slug ` set (lb_sets lb)" unfolding find_Some_iff by (elim exE conjE) simp
  then show ?thesis by (simp add: unique_slug_def c)
qed

lemma draft_of_catalog_rules:
  fixes g :: "catalog_rule \<Rightarrow> string option"
  assumes ok: "library_ok lb" and rs: "set rs \<subseteq> set (lb_rules lb)" "distinct rs"
    and fresh: "pid \<notin> st_id ` set (lb_sets lb)" "slug \<notin> st_slug ` set (lb_sets lb)"
  shows "\<exists>lb'. create_draft_with_rules pid aid name slug fw ver descr (map (\<lambda>r. (cr_id r, g r)) rs) s sel by lb = Inr lb'
    \<and> get_set pid lb' = Inr (draft_set pid name slug fw ver descr) \<and> rule_names pid lb' = (\<lambda>r. (cr_key r, g r)) ` set rs"
proof -
  define ls where "ls = map (\<lambda>r. (cr_id r, g r)) rs"
  have same: "r = r'" if "r \<in> set (lb_rules lb)" "r' \<in> set (lb_rules lb)" "cr_id r = cr_id r'" for r r'
    using that ok unfolding library_ok_def by (metis distinct_map inj_onD)
  have "inj_on (\<lambda>r. (pid, cr_id r)) (set rs)" using rs(1) same by (auto intro!: inj_onI)
  then have d: "distinct (map (\<lambda>r. (pid, cr_id r)) rs)" using rs(2) by (simp add: distinct_map)
  have old: "distinct (map link_key (lb_links lb))" "pid \<notin> sl_set ` set (lb_links lb)"
    using ok fresh by (auto simp: library_ok_def)
  have "map link_key (new_links pid ls) = map (\<lambda>r. (pid, cr_id r)) rs"
    unfolding ls_def by (induction rs) (simp_all add: new_links_def link_key_def)
  then have "distinct (map link_key (lb_links lb @ new_links pid ls))"
    using d old by (auto simp: link_key_def simp del: map_map)
  moreover have "fst ` set ls \<subseteq> cr_id ` set (lb_rules lb)" using rs by (auto simp: ls_def)
  ultimately obtain lb' where c: "create_draft_with_rules pid aid name slug fw ver descr ls s sel by lb = Inr lb'"
    using fresh(2) unfolding with_rules_Inr create_draft_Inr insert_links_Inr by auto
  note lb' = with_rules_step [OF ok fresh(1) c]
  have get: "get_set pid lb' = Inr (draft_set pid name slug fw ver descr)"
    using fresh(1) lb' sql_get_None_iff [of st_id "lb_sets lb" pid]
    by (simp add: get_set_Inr sql_get_append sql_get_def [of _ "[_]"] draft_set_def)
  have l: "set (links_of pid lb') = set (new_links pid ls)" using lb' old(2) by (auto simp: links_of_def new_links_set)
  have "rule_names pid lb' = {(cr_key r, g r') | r r'. r \<in> set (lb_rules lb) \<and> r' \<in> set rs \<and> cr_id r' = cr_id r}"
    unfolding rule_names_def l new_links_set ls_def using lb' by force
  also have "\<dots> = (\<lambda>r. (cr_key r, g r)) ` set rs" using rs(1) same by (auto simp: image_iff)
  finally show ?thesis using c get unfolding ls_def by blast
qed

text \<open>With fewer than 99 sets in the library, a template that selects a rule always gives a draft when no slug is asked
  for, and its rules are exactly those of the catalogue that the template matches, that are not deprecated and, unless
  reference rules are asked for, that can be evaluated; each carries the override of the request or of the template.\<close>

theorem template_gives_a_draft:
  assumes "set_step\<^sup>*\<^sup>* (new_library rules) lb" and "distinct (map cr_id rules)" and "distinct (map cr_key rules)"
    and "get_template (tq_template rq) = Some t" and "resolve_template_rules lb t (tq_unmapped rq) \<noteq> []"
    and "tq_slug rq = None" and "length (lb_sets lb) < 99" and "pid \<notin> st_id ` set (lb_sets lb)"
  shows "\<exists>lb' counts p. create_set_from_template pid aid suffix rq actor lb = Inr (lb', counts)
    \<and> get_set pid lb' = Inr p \<and> st_status p = PS_DRAFT \<and> \<not> st_enabled p
    \<and> rule_names pid lb' = {(cr_key r, override_for rq t r) | r. r \<in> set rules \<and> template_matches t r
        \<and> cr_status r \<noteq> ''DEPRECATED'' \<and> (tq_unmapped rq \<or> cl_check_source r = ''CEL'')}"
proof -
  have ok: "library_ok lb" "lb_rules lb = rules" using library_reach_ok [OF assms(1-3)] by blast+
  define rs where "rs = resolve_template_rules lb t (tq_unmapped rq)"
  define ls where "ls = map (\<lambda>r. (cr_id r, override_for rq t r)) rs"
  define slug where "slug = unique_slug (tp_key t) suffix lb"
  define name descr where "name = opt_or (tq_name rq) (tp_name t)" and "descr = Some (opt_or (tq_description rq) (tp_description t))"
  have rs: "set rs = {r \<in> set rules. template_matches t r \<and> cr_status r \<noteq> ''DEPRECATED'' \<and> (tq_unmapped rq \<or> cl_check_source r = ''CEL'')}"
    by (auto simp: rs_def resolve_template_rules_def candidate_rules_def ok(2))
  have "distinct rs" unfolding rs_def resolve_template_rules_def candidate_rules_def distinct_sort
    using assms(2) ok(2) by (simp add: distinct_map)
  from draft_of_catalog_rules [OF ok(1) _ this assms(8) unique_slug_free [OF assms(7)], where g = "override_for rq t"] obtain lb' where
    c: "create_draft_with_rules pid aid name slug (tp_framework t) (tq_version rq) descr ls (tq_scope rq)
      (tq_selector rq) (safe_user_uuid actor) lb = Inr lb'" "get_set pid lb' = Inr (draft_set pid name slug (tp_framework t) (tq_version rq) descr)"
      "rule_names pid lb' = (\<lambda>r. (cr_key r, override_for rq t r)) ` set rs"
    unfolding ls_def slug_def using rs ok(2) by blast
  have "create_set_from_template pid aid suffix rq actor lb = Inr (lb', severity_breakdown rs)"
    using assms(4-6) c(1) by (simp add: create_set_from_template_def Let_def rs_def ls_def name_def descr_def slug_def opt_or_def)
  moreover have "st_status (draft_set pid name slug (tp_framework t) (tq_version rq) descr) = PS_DRAFT"
    "\<not> st_enabled (draft_set pid name slug (tp_framework t) (tq_version rq) descr)" by (simp_all add: draft_set_def)
  moreover have "rule_names pid lb' = {(cr_key r, override_for rq t r) | r. r \<in> set rules \<and> template_matches t r
        \<and> cr_status r \<noteq> ''DEPRECATED'' \<and> (tq_unmapped rq \<or> cl_check_source r = ''CEL'')}" unfolding c(3) rs by blast
  ultimately show ?thesis using c(2) by (intro exI conjI)
qed

section \<open>A small library\<close>

definition toy_rules :: "catalog_rule list" where
  "toy_rules =
    [\<lparr>cr_id = ''r1'', cr_key = ''SSH-001'', cr_domain = ''sshd'', cr_status = ''ACTIVE'', cl_title = ''Root login'',
       cl_severity = ''HIGH'', cl_check_source = ''CEL'', cl_source = ''lokilinux-curated'', cl_refs = []\<rparr>,
     \<lparr>cr_id = ''r2'', cr_key = ''SSH-002'', cr_domain = ''sshd'', cr_status = ''ACTIVE'', cl_title = ''Protocol'',
       cl_severity = ''LOW'', cl_check_source = ''CEL'', cl_source = ''lokilinux-curated'', cl_refs = []\<rparr>]"

definition toy_set :: set_row where
  "toy_set = (draft_set ''s1'' ''Base'' ''base'' ''CIS'' None None)\<lparr>st_status := PS_PUBLISHED, st_published_at := Some 5,
     st_enabled := True, st_remediation := [(''mode'', PStr ''AUTOMATIC''), (''allowed'', PList []), (''forbidden'', PList [])]\<rparr>"

definition toy_library :: set_library where
  "toy_library = \<lparr>lb_rules = toy_rules, lb_sets = [toy_set],
     lb_links = [\<lparr>sl_set = ''s1'', sl_rule = ''r1'', sl_override = Some ''LOW''\<rparr>], lb_assignments = []\<rparr>"

lemma toy_rules: "distinct (map cr_id toy_rules)" "distinct (map cr_key toy_rules)"
  by (simp_all add: toy_rules_def)

lemma toy_library_reach: "set_step\<^sup>*\<^sup>* (new_library toy_rules) toy_library"
proof -
  define lb1 where "lb1 = (new_library toy_rules)\<lparr>lb_sets := [draft_set ''s1'' ''Base'' ''base'' ''CIS'' None None]\<rparr>"
  define lb2 where "lb2 = lb1\<lparr>lb_links := [\<lparr>sl_set = ''s1'', sl_rule = ''r1'', sl_override = Some ''LOW''\<rparr>]\<rparr>"
  define lb3 where "lb3 = modify_set ''s1'' (\<lambda>p. p\<lparr>st_status := PS_PUBLISHED, st_published_at := Some 5, st_enabled := True\<rparr>) lb2"
  have "create_draft ''s1'' ''Base'' ''base'' ''CIS'' None None (new_library toy_rules) = Inr lb1"
    by (simp add: create_draft_Inr lb1_def new_library_def)
  then have 1: "set_step (new_library toy_rules) lb1" by (rule set_step.create) (simp add: new_library_def)
  have "add_set_rule ''s1'' ''r1'' (Some ''LOW'') lb1 = Inr lb2"
    by (simp add: add_set_rule_def lb1_def lb2_def new_library_def toy_rules_def get_set_def sql_get_def draft_set_def sql_one_def
        insert_links_def new_links_def link_key_def)
  then have 2: "set_step lb1 lb2" by (rule set_step.add)
  have "publish_set 5 ''s1'' lb2 = Inr lb3"
    by (simp add: publish_set_def lb3_def lb2_def lb1_def new_library_def get_set_def sql_get_def draft_set_def links_of_def)
  then have 3: "set_step lb2 lb3" by (rule set_step.publish)
  have "set_remediation_mode ''s1'' ''AUTOMATIC'' [] [] lb3 = Inr toy_library"
    by (simp add: set_remediation_mode_def lb3_def lb2_def lb1_def new_library_def get_set_def sql_get_def draft_set_def modify_set_def
        sql_modify_def sql_update_def toy_library_def toy_set_def)
  then have 4: "set_step lb3 toy_library" by (rule set_step.remedy)
  from 1 2 3 4 show ?thesis by (meson rtranclp.rtrancl_into_rtrancl rtranclp.rtrancl_refl)
qed

lemma toy_get: "get_set ''s1'' toy_library = Inr toy_set"
  by (simp add: toy_library_def get_set_def sql_get_def toy_set_def draft_set_def)

lemma toy_status: "st_status toy_set = PS_PUBLISHED" "toy_set \<in> set (lb_sets toy_library)" "st_id toy_set = ''s1''"
  by (simp_all add: toy_set_def toy_library_def draft_set_def)

theorem live_sets_have_rules_witness: "st_enabled toy_set \<and> linked_rules (st_id toy_set) toy_library \<noteq> []"
  using live_sets_have_rules [OF toy_library_reach toy_rules toy_status(2)] by (simp add: toy_status)


theorem published_set_can_grow_witness: "\<exists>lb'. add_set_rule ''s1'' ''r2'' None toy_library = Inr lb' \<and> get_set ''s1'' lb' = Inr toy_set"
proof -
  have "''r2'' \<in> cr_id ` set toy_rules" "(''s1'', ''r2'') \<notin> link_key ` set (lb_links toy_library)"
    by (simp_all add: toy_rules_def toy_library_def link_key_def)
  from published_set_can_grow [OF toy_library_reach toy_rules toy_get toy_status(1) this] show ?thesis by blast
qed


theorem new_version_forgets_overrides_witness:
  "\<exists>lb'. create_new_set_version ''s2'' ''s1'' toy_library = Inr lb' \<and> map sl_rule (links_of ''s2'' lb') = map sl_rule (links_of ''s1'' toy_library)"
proof -
  have s: "''s2'' \<notin> st_id ` set (lb_sets toy_library)" by (simp add: toy_library_def toy_set_def draft_set_def)
  define lb1 where "lb1 = toy_library\<lparr>lb_sets := [toy_set, clone_set ''s2'' toy_set]\<rparr>"
  have i: "insert_set (clone_set ''s2'' toy_set) toy_library = Inr lb1"
    by (simp add: insert_set_def lb1_def toy_library_def clone_set_def next_version_slug_def toy_set_def draft_set_def)
  have m: "map (\<lambda>l. (sl_rule l, None :: string option)) (links_of ''s1'' lb1) = [(''r1'', None)]" by (simp add: links_of_def lb1_def toy_library_def)
  obtain lb' where l: "insert_links ''s2'' [(''r1'', None)] lb1 = Inr lb'"
    by (simp add: insert_links_def new_links_def lb1_def toy_library_def link_key_def toy_rules_def)
  have c: "create_new_set_version ''s2'' ''s1'' toy_library = Inr lb'"
    unfolding create_new_set_version_def toy_get sum_bind_simps toy_status(1) i m using l by simp
  from new_version_forgets_overrides [OF toy_library_reach toy_rules c s] c show ?thesis by blast
qed

theorem profile_round_trip_witness:
  "\<exists>profile lb' missing. export_profile ''s1'' toy_library = Inr profile
    \<and> import_profile ''s2'' ''a1'' profile (Some ''copy'') None (new_library toy_rules) = Inr (lb', missing)
    \<and> rule_names ''s2'' lb' = {e \<in> rule_names ''s1'' toy_library. fst e \<in> cr_key ` set toy_rules}"
proof -
  have "(''SSH-001'', Some ''LOW'') \<in> rule_names ''s1'' toy_library"
    unfolding rule_names_def by (force simp: toy_library_def toy_rules_def links_of_def)
  then have x: "rule_names ''s1'' toy_library \<noteq> {}" "[] \<notin> cr_key ` set toy_rules" by (auto simp: toy_rules_def)
  have "''copy'' \<noteq> []" "''copy'' \<notin> st_slug ` set (lb_sets (new_library toy_rules))"
    "''s2'' \<notin> st_id ` set (lb_sets (new_library toy_rules))" by (simp_all add: new_library_def)
  from profile_round_trip [OF toy_library_reach toy_rules rtranclp.rtrancl_refl toy_rules toy_get x this, of "''a1''"]
  show ?thesis by (elim exE conjE) (intro exI conjI)
qed

definition toy_request :: template_request where
  "toy_request = \<lparr>tq_template = ''strict'', tq_name = None, tq_slug = None, tq_description = None, tq_version = None,
     tq_unmapped = False, tq_overrides = [], tq_scope = None, tq_selector = []\<rparr>"

theorem template_gives_a_draft_witness:
  "\<exists>lb' counts p. create_set_from_template ''s1'' ''a1'' ''abc'' toy_request None (new_library toy_rules) = Inr (lb', counts)
    \<and> get_set ''s1'' lb' = Inr p \<and> st_status p = PS_DRAFT"
proof -
  obtain t where t: "get_template (tq_template toy_request) = Some t" "tp_ref t = None" "tp_sources t = []" "tp_min t = Some ''HIGH''" "tp_max t = None"
    by (simp add: get_template_def sql_get_def BUILTIN_TEMPLATES_def plain_template_def toy_request_def)
  have "severity_rank ''HIGH'' = 2" by code_simp
  then have "resolve_template_rules (new_library toy_rules) t (tq_unmapped toy_request) \<noteq> []"
    by (simp add: resolve_template_rules_def filter_empty_conv candidate_rules_def new_library_def toy_rules_def template_matches_def t toy_request_def)
  note r = this
  have "tq_slug toy_request = None" "length (lb_sets (new_library toy_rules)) < 99" "''s1'' \<notin> st_id ` set (lb_sets (new_library toy_rules))"
    by (simp_all add: new_library_def toy_request_def)
  from template_gives_a_draft [OF rtranclp.rtrancl_refl toy_rules t(1) r this, of "''a1''" "''abc''" None]
  show ?thesis by (elim exE conjE) (intro exI conjI)
qed

end
