(* ===== verification/FimScopes.thy ===== *)
theory FimScopes
  imports Capability Store Shell
begin

text \<open>
  The scope of file integrity monitoring (\<open>services/fim_scope_service.py\<close>, the write routes of
  \<open>api/v1/routers/compliance/fim_scopes.py\<close>): the validation of path lists with \<open>os.path.normpath\<close>, the global row and
  the overrides of agents, the signed document on a heartbeat, and the check of the agent
  (\<open>agent/internal/compliance/fimconfig.go\<close>). Signing, its verification and the JSON reader of the agent are parameters.
\<close>

section \<open>Paths\<close>

text \<open>\<open>path.split('/')\<close>.\<close>

fun split_slash :: "string \<Rightarrow> string list" where
  "split_slash [] = [[]]"
| "split_slash (c # cs) =
    (if c = CHR ''/'' then [] # split_slash cs
     else (case split_slash cs of [] \<Rightarrow> [[c]] | w # ws \<Rightarrow> (c # w) # ws))"

text \<open>The loop of \<open>posixpath.normpath\<close> over the components, with the kept ones in reverse.\<close>

fun norm_parts :: "bool \<Rightarrow> string list \<Rightarrow> string list \<Rightarrow> string list" where
  "norm_parts absolute acc [] = rev acc"
| "norm_parts absolute acc (c # cs) =
    (if c = [] \<or> c = ''.'' then norm_parts absolute acc cs
     else if c \<noteq> ''..'' \<or> (\<not> absolute \<and> acc = []) \<or> (acc \<noteq> [] \<and> hd acc = ''..'') then norm_parts absolute (c # acc) cs
     else norm_parts absolute (tl acc) cs)"

definition starts :: "string \<Rightarrow> string \<Rightarrow> bool" where
  "starts p s = (take (length p) s = p)"

text \<open>Two leading slashes, but not three, are kept.\<close>

definition initial_slashes :: "string \<Rightarrow> nat" where
  "initial_slashes p = (if \<not> starts ''/'' p then 0 else if starts ''//'' p \<and> \<not> starts ''///'' p then 2 else 1)"

definition normpath :: "string \<Rightarrow> string" where
  "normpath p =
    (if p = [] then ''.''
     else let n = initial_slashes p;
              r = replicate n (CHR ''/'') @ join ''/'' (norm_parts (n \<noteq> 0) [] (split_slash p))
          in if r = [] then ''.'' else r)"

definition MAX_PATHS_PER_LIST :: nat where "MAX_PATHS_PER_LIST = 64"

definition clean_path :: "pv \<Rightarrow> exn + string" where
  "clean_path v =
    (case v of
       PStr s \<Rightarrow>
         if char_of (0::nat) \<in> set s then Inl (ValueError ''invalid entry'')
         else if \<not> starts ''/'' (strip s) then Inl (ValueError ''must be an absolute path'')
         else if normpath (strip s) = ''/'' then Inl (ValueError ''would scan the whole filesystem'')
         else Inr (normpath (strip s))
     | _ \<Rightarrow> Inl (ValueError ''invalid entry''))"

fun clean_paths :: "pv list \<Rightarrow> exn + string list" where
  "clean_paths [] = Inr []"
| "clean_paths (v # vs) = sum_bind (clean_path v) (\<lambda>p. sum_bind (clean_paths vs) (\<lambda>ps. Inr (p # ps)))"

definition validate_paths :: "pv \<Rightarrow> bool \<Rightarrow> exn + string list" where
  "validate_paths v require_nonempty =
    (case v of
       PList xs \<Rightarrow>
         if require_nonempty \<and> xs = [] then Inl (ValueError ''at least one path is required'')
         else if length xs > MAX_PATHS_PER_LIST then Inl (ValueError ''too many entries'')
         else clean_paths xs
     | _ \<Rightarrow> Inl (ValueError ''must be a list of paths''))"

section \<open>The table\<close>

text \<open>A row without an agent is the global one; the partial indexes allow one of these and one for each agent.\<close>

record fim_scope =
  fs_agent :: "uuid option"
  fs_watch :: "string list"
  fs_ignore :: "string list"
  fs_updated :: time
  fs_updated_by :: "uuid option"

definition version_of :: "fim_scope \<Rightarrow> int" where
  "version_of sc = (if fs_updated sc < 0 then - ((- fs_updated sc) div 1000000) else fs_updated sc div 1000000)"

definition get_scope :: "uuid option \<Rightarrow> fim_scope list \<Rightarrow> exn + fim_scope option" where
  "get_scope who rows = sql_one (\<lambda>r. fs_agent r = who) rows"

text \<open>The fallback is dated now.\<close>

definition resolve_for_agent :: "time \<Rightarrow> uuid \<Rightarrow> fim_scope list \<Rightarrow> exn + fim_scope" where
  "resolve_for_agent now aid rows =
    sum_bind (get_scope (Some aid) rows) (\<lambda>own.
      case own of Some r \<Rightarrow> Inr r
      | None \<Rightarrow> sum_bind (get_scope None rows) (\<lambda>g.
          case g of Some r \<Rightarrow> Inr r
          | None \<Rightarrow> Inr \<lparr>fs_agent = None, fs_watch = [''/etc''], fs_ignore = [], fs_updated = now, fs_updated_by = None\<rparr>))"

definition upsert_scope :: "uuid set \<Rightarrow> time \<Rightarrow> uuid option \<Rightarrow> pv \<Rightarrow> pv \<Rightarrow> uuid option \<Rightarrow> fim_scope list \<Rightarrow> exn + fim_scope list" where
  "upsert_scope known now who watch ignore by rows =
    sum_bind (validate_paths watch True) (\<lambda>ws.
    sum_bind (validate_paths ignore False) (\<lambda>is.
    sum_bind (get_scope who rows) (\<lambda>row.
      case row of
        Some _ \<Rightarrow> Inr (sql_update (\<lambda>r. fs_agent r = who)
                    (\<lambda>r. r\<lparr>fs_watch := ws, fs_ignore := is, fs_updated := now, fs_updated_by := by\<rparr>) rows)
      | None \<Rightarrow>
          if (case who of None \<Rightarrow> False | Some a \<Rightarrow> a \<notin> known) then Inl (DatabaseError ''ForeignKeyViolation'')
          else Inr (rows @ [\<lparr>fs_agent = who, fs_watch = ws, fs_ignore = is, fs_updated = now, fs_updated_by = by\<rparr>]))))"

text \<open>The routes: a refused list is a 422, resetting an agent without an override a 404.\<close>

definition as_unprocessable :: "exn + 'a \<Rightarrow> exn + 'a" where
  "as_unprocessable r = (case r of Inl (ValueError m) \<Rightarrow> Inl (HTTPException 422 m) | _ \<Rightarrow> r)"

definition update_fim_scope :: "uuid set \<Rightarrow> time \<Rightarrow> uuid option \<Rightarrow> pv \<Rightarrow> pv \<Rightarrow> uuid option \<Rightarrow> fim_scope list \<Rightarrow> exn + fim_scope list" where
  "update_fim_scope known now who watch ignore by rows = as_unprocessable (upsert_scope known now who watch ignore by rows)"

definition delete_agent_scope :: "uuid \<Rightarrow> fim_scope list \<Rightarrow> exn + fim_scope list" where
  "delete_agent_scope aid rows =
    sum_bind (get_scope (Some aid) rows) (\<lambda>row.
      if row = None then Inl (HTTPException 404 ''no per-agent override for this agent'')
      else Inr (filter (\<lambda>r. fs_agent r \<noteq> Some aid) rows))"

section \<open>The signed document\<close>

definition fim_payload :: "uuid \<Rightarrow> fim_scope \<Rightarrow> pv" where
  "fim_payload aid sc =
    PDict [(''agent_id'', PStr aid), (''watch_paths'', PList (map PStr (fs_watch sc))),
      (''ignore_paths'', PList (map PStr (fs_ignore sc))), (''version'', PInt (version_of sc))]"

record fim_envelope =
  fe_payload :: string
  fe_signature :: string
  fe_key_id :: string

definition FIM_SIGNING_KEY_ID :: string where "FIM_SIGNING_KEY_ID = ''policy-signing-v1''"

definition fim_signed_envelope :: "(string \<Rightarrow> string) \<Rightarrow> uuid \<Rightarrow> fim_scope \<Rightarrow> fim_envelope" where
  "fim_signed_envelope sign aid sc =
    \<lparr>fe_payload = canonical_json (fim_payload aid sc), fe_signature = sign (canonical_json (fim_payload aid sc)),
      fe_key_id = FIM_SIGNING_KEY_ID\<rparr>"

text \<open>What a heartbeat carries: nothing for an agent that is too old, otherwise the document of the row of the agent.\<close>

definition heartbeat_fim_config ::
    "(string \<Rightarrow> string) \<Rightarrow> time \<Rightarrow> agent \<Rightarrow> string option \<Rightarrow> fim_scope list \<Rightarrow> exn + fim_envelope option" where
  "heartbeat_fim_config sign now a agent_version rows =
    (if agent_meets_minimum agent_version MIN_AGENT_VERSION_FIM_SCOPES
     then sum_bind (resolve_for_agent now (a_id a) rows) (\<lambda>sc. Inr (Some (fim_signed_envelope sign (a_id a) sc)))
     else Inr None)"

section \<open>The agent\<close>

record fim_document =
  fd_agent :: string
  fd_watch :: "string list"
  fd_ignore :: "string list"
  fd_version :: int

datatype fim_error = FimUnknownKey | FimBadSignature | FimMalformed | FimForeignAgent | FimDuplicate | FimDowngrade

text \<open>The pinned keys, the signature check of a key and the JSON reader come from outside.\<close>

record fim_trust =
  ft_keys :: "string \<rightharpoonup> string"
  ft_verify :: "string \<Rightarrow> string \<Rightarrow> string \<Rightarrow> bool"
  ft_decode :: "string \<Rightarrow> fim_document option"

definition verify_fim_config :: "fim_trust \<Rightarrow> string \<Rightarrow> int \<Rightarrow> fim_envelope \<Rightarrow> fim_error + fim_document" where
  "verify_fim_config tr self last_version env =
    (case ft_keys tr (fe_key_id env) of
       None \<Rightarrow> Inl FimUnknownKey
     | Some pub \<Rightarrow>
         if \<not> ft_verify tr pub (fe_payload env) (fe_signature env) then Inl FimBadSignature
         else (case ft_decode tr (fe_payload env) of
             None \<Rightarrow> Inl FimMalformed
           | Some d \<Rightarrow>
               if fd_agent d \<noteq> self then Inl FimForeignAgent
               else if fd_version d = last_version then Inl FimDuplicate
               else if fd_version d < last_version then Inl FimDowngrade
               else Inr d))"

end
