(* ===== verification/FimScopeProps.thy ===== *)
theory FimScopeProps
  imports FimScopes
begin

text \<open>
  File integrity scopes: the accepted paths are absolute and in normal form, with one spelling of the root left; the
  document of a heartbeat names the row of the agent and not its identity; going back to the global scope is a downgrade.
\<close>

section \<open>Normal paths\<close>

definition plain_part :: "string \<Rightarrow> bool" where
  "plain_part c = (c \<notin> {[], ''.'', ''..''} \<and> CHR ''/'' \<notin> set c)"

lemma split_slash_parts: "c \<in> set (split_slash p) \<Longrightarrow> CHR ''/'' \<notin> set c \<and> set c \<subseteq> set p"
  by (induction p arbitrary: c rule: split_slash.induct) (fastforce split: if_splits list.splits)+

lemma split_slash_nonempty [simp]: "split_slash p \<noteq> []"
  by (induction p rule: split_slash.induct) (auto split: list.splits)

lemma split_slash_plain: "CHR ''/'' \<notin> set w \<Longrightarrow> split_slash w = [w]"
  by (induction w) auto

lemma split_slash_append: "CHR ''/'' \<notin> set w \<Longrightarrow> split_slash (w @ CHR ''/'' # s) = w # split_slash s"
  by (induction w) auto

lemma split_slash_join: "list_all plain_part ps \<Longrightarrow> ps \<noteq> [] \<Longrightarrow> split_slash (join ''/'' ps) = ps"
proof (induction ps)
  case (Cons w ps)
  then have w: "CHR ''/'' \<notin> set w" by (simp add: plain_part_def)
  show ?case
  proof (cases ps)
    case Nil
    then show ?thesis using w by (simp add: split_slash_plain)
  next
    case (Cons v vs)
    then show ?thesis using Cons.IH Cons.prems split_slash_append [OF w] by simp
  qed
qed simp

lemma norm_parts_plain:
  "\<forall>c \<in> set cs. CHR ''/'' \<notin> set c \<Longrightarrow> list_all plain_part acc \<Longrightarrow> list_all plain_part (norm_parts True acc cs)"
proof (induction cs arbitrary: acc)
  case (Cons c cs)
  have "list_all plain_part (tl acc)" using Cons.prems(2) by (cases acc) simp_all
  moreover have "acc \<noteq> [] \<Longrightarrow> hd acc \<noteq> ''..''" using Cons.prems(2) by (cases acc) (simp_all add: plain_part_def)
  moreover have "plain_part c" if "c \<notin> {[], ''.'', ''..''}" using Cons.prems(1) that by (simp add: plain_part_def)
  ultimately show ?case using Cons.IH [of "c # acc"] Cons.IH [of "tl acc"] Cons.IH [of acc] Cons.prems by auto
qed (simp add: list_all_rev)

lemma norm_parts_id: "list_all plain_part ps \<Longrightarrow> norm_parts True acc ps = rev acc @ ps"
  by (induction ps arbitrary: acc) (auto simp: plain_part_def)

lemma norm_parts_subset: "set (norm_parts absolute acc cs) \<subseteq> set acc \<union> set cs"
proof (induction absolute acc cs rule: norm_parts.induct)
  case (2 absolute acc c cs)
  then show ?case by (cases acc) auto
qed simp

lemma join_head: "list_all plain_part ps \<Longrightarrow> ps \<noteq> [] \<Longrightarrow> \<exists>c cs. join ''/'' ps = c # cs \<and> c \<noteq> CHR ''/''"
proof (cases ps)
  case (Cons w ws)
  assume "list_all plain_part ps"
  then obtain c cs where "w = c # cs" "c \<noteq> CHR ''/''" using Cons by (cases w) (auto simp: plain_part_def)
  then show ?thesis using Cons by (cases ws) simp_all
qed simp

text \<open>A normal path: one or two slashes and plain components.\<close>

definition normal_path :: "nat \<Rightarrow> string list \<Rightarrow> string" where
  "normal_path n ps = replicate n (CHR ''/'') @ join ''/'' ps"

lemma initial_slashes_normal:
  assumes "n \<in> {1, 2}" "list_all plain_part ps"
  shows "initial_slashes (normal_path n ps) = n"
proof (cases "ps = []")
  case True
  then show ?thesis using assms(1) by (auto simp: normal_path_def initial_slashes_def starts_def numeral_2_eq_2)
next
  case False
  from join_head [OF assms(2) this] obtain c cs where "join ''/'' ps = c # cs" "c \<noteq> CHR ''/''" by blast
  then show ?thesis using assms(1) by (auto simp: normal_path_def initial_slashes_def starts_def numeral_2_eq_2)
qed

lemma split_normal:
  assumes "n \<in> {1, 2}" "list_all plain_part ps"
  shows "split_slash (normal_path n ps) = replicate n [] @ (if ps = [] then [[]] else ps)"
  using assms split_slash_join [OF assms(2)] by (auto simp: normal_path_def numeral_2_eq_2)

lemma norm_parts_skip: "norm_parts True acc (replicate n [] @ cs) = norm_parts True acc cs"
  by (induction n) simp_all

lemma normpath_normal:
  assumes "n \<in> {1, 2}" "list_all plain_part ps"
  shows "normpath (normal_path n ps) = normal_path n ps"
proof -
  have "norm_parts True [] (split_slash (normal_path n ps)) = ps"
    unfolding split_normal [OF assms] norm_parts_skip using norm_parts_id [OF assms(2)] by simp
  moreover have "normal_path n ps \<noteq> []" using assms(1) by (auto simp: normal_path_def)
  moreover have "(n \<noteq> 0) = True" using assms(1) by auto
  ultimately show ?thesis using initial_slashes_normal [OF assms]
    unfolding normpath_def Let_def normal_path_def [symmetric] by simp
qed

lemma normpath_absolute:
  assumes "starts ''/'' p"
  shows "\<exists>n ps. n \<in> {1, 2} \<and> list_all plain_part ps \<and> \<Union> (set ` set ps) \<subseteq> set p \<and> normpath p = normal_path n ps"
proof -
  define n ps where "n = initial_slashes p" and "ps = norm_parts True [] (split_slash p)"
  have n: "n \<in> {1, 2}" using assms by (simp add: n_def initial_slashes_def)
  have "list_all plain_part ps" unfolding ps_def by (rule norm_parts_plain) (use split_slash_parts in auto)
  moreover have "\<Union> (set ` set ps) \<subseteq> set p"
    using norm_parts_subset [of True "[]" "split_slash p"] split_slash_parts unfolding ps_def by fastforce
  moreover have "p \<noteq> []" using assms by (auto simp: starts_def)
  then have "normpath p = normal_path n ps" using n by (auto simp: normpath_def normal_path_def n_def ps_def Let_def)
  ultimately show ?thesis using n by blast
qed

text \<open>The names on the way from the root to a path.\<close>

definition path_names :: "string \<Rightarrow> string list" where
  "path_names p = filter (\<lambda>c. c \<noteq> []) (split_slash p)"

lemma path_names_normal:
  "n \<in> {1, 2} \<Longrightarrow> list_all plain_part ps \<Longrightarrow> path_names (normal_path n ps) = ps"
proof -
  assume a: "n \<in> {1, 2}" "list_all plain_part ps"
  have "filter (\<lambda>c. c \<noteq> []) ps = ps" using a(2) by (auto simp: filter_id_conv list_all_iff plain_part_def)
  then show ?thesis using a by (auto simp: path_names_def split_normal)
qed

definition sound_path :: "string \<Rightarrow> bool" where
  "sound_path p = (starts ''/'' p \<and> normpath p = p \<and> p \<noteq> ''/'' \<and> list_all plain_part (path_names p)
     \<and> (\<forall>c \<in> set (path_names p). char_of (0::nat) \<notin> set c) \<and> (path_names p = [] \<longleftrightarrow> p = ''//''))"

lemma set_strip: "set (strip s) \<subseteq> set s"
  unfolding strip_def by (auto dest!: set_dropWhileD)

lemma clean_path_sound:
  assumes "clean_path v = Inr p"
  shows "sound_path p"
proof -
  obtain s where s: "v = PStr s" "char_of (0::nat) \<notin> set s" "starts ''/'' (strip s)" "normpath (strip s) \<noteq> ''/''" "p = normpath (strip s)"
    using assms by (auto simp: clean_path_def split: pv.splits if_splits)
  obtain n ps where n: "n \<in> {1, 2}" "list_all plain_part ps" "\<Union> (set ` set ps) \<subseteq> set (strip s)" "p = normal_path n ps"
    using normpath_absolute [OF s(3)] s(5) by blast
  have "starts ''/'' p" using n(1,4) by (auto simp: starts_def normal_path_def numeral_2_eq_2)
  moreover have "normpath p = p" using normpath_normal [OF n(1,2)] n(4) by simp
  moreover have "path_names p = ps" using path_names_normal [OF n(1,2)] n(4) by simp
  moreover have "ps = [] \<longleftrightarrow> p = ''//''"
  proof
    assume "ps = []"
    with n(1,4) s(4,5) show "p = ''//''" by (auto simp: normal_path_def numeral_2_eq_2)
  next
    assume "p = ''//''"
    then have "path_names p = []" by (simp add: path_names_def)
    with \<open>path_names p = ps\<close> show "ps = []" by simp
  qed
  moreover have "char_of (0::nat) \<notin> set c" if "c \<in> set ps" for c using that n(3) s(2) set_strip by blast
  ultimately show ?thesis using s(4,5) n(2) unfolding sound_path_def by simp
qed

lemma clean_paths_sound: "clean_paths vs = Inr ps \<Longrightarrow> length ps = length vs \<and> (\<forall>p \<in> set ps. sound_path p)"
  by (induction vs arbitrary: ps) (auto simp: sum_bind_Inr_iff dest: clean_path_sound)

text \<open>C39. An accepted list of paths has at most 64 entries, at least one for a watch list, and every entry is absolute, in
  normal form, without dots and null characters; the only way left to name the root is two slashes, and that is accepted.\<close>

theorem accepted_paths_are_normal:
  assumes "validate_paths v require_nonempty = Inr ps"
  shows "length ps \<le> MAX_PATHS_PER_LIST \<and> (require_nonempty \<longrightarrow> ps \<noteq> []) \<and> (\<forall>p \<in> set ps. sound_path p)
    \<and> validate_paths (PList [PStr ''//'']) True = Inr [''//'']"
proof -
  have "validate_paths (PList [PStr ''//'']) True = Inr [''//'']" by code_simp
  moreover obtain xs where xs: "v = PList xs" "\<not> (require_nonempty \<and> xs = [])" "length xs \<le> MAX_PATHS_PER_LIST" "clean_paths xs = Inr ps"
    using assms by (auto simp: validate_paths_def not_less split: pv.splits if_splits)
  ultimately show ?thesis using clean_paths_sound [OF xs(4)] by auto
qed

theorem accepted_paths_are_normal_witness:
  "validate_paths (PList [PStr ''/etc/../var/./log//'', PStr '' /srv '']) True = Inr [''/var/log'', ''/srv''] \<and> sound_path ''/var/log''"
proof -
  have v: "validate_paths (PList [PStr ''/etc/../var/./log//'', PStr '' /srv '']) True = Inr [''/var/log'', ''/srv'']" by code_simp
  from accepted_paths_are_normal [OF v] v show ?thesis by simp
qed

section \<open>The document and the agent\<close>

text \<open>What the agent relies on: the key of the platform is pinned, its signatures verify, and the JSON text of a document
  reads back as its fields.\<close>

definition pinned :: "fim_trust \<Rightarrow> (string \<Rightarrow> string) \<Rightarrow> bool" where
  "pinned tr sign = (case ft_keys tr FIM_SIGNING_KEY_ID of None \<Rightarrow> False | Some pub \<Rightarrow> \<forall>s. ft_verify tr pub s (sign s))"

definition reads_back :: "fim_trust \<Rightarrow> uuid \<Rightarrow> fim_scope \<Rightarrow> bool" where
  "reads_back tr aid sc = (ft_decode tr (canonical_json (fim_payload aid sc)) =
     Some \<lparr>fd_agent = aid, fd_watch = fs_watch sc, fd_ignore = fs_ignore sc, fd_version = version_of sc\<rparr>)"

lemma verify_own:
  assumes "pinned tr sign" "reads_back tr aid sc"
  shows "verify_fim_config tr self lastv (fim_signed_envelope sign aid sc) =
    (if aid \<noteq> self then Inl FimForeignAgent else if version_of sc = lastv then Inl FimDuplicate
     else if version_of sc < lastv then Inl FimDowngrade
     else Inr \<lparr>fd_agent = aid, fd_watch = fs_watch sc, fd_ignore = fs_ignore sc, fd_version = version_of sc\<rparr>)"
proof -
  obtain pub where "ft_keys tr FIM_SIGNING_KEY_ID = Some pub" "\<And>s. ft_verify tr pub s (sign s)"
    using assms(1) by (auto simp: pinned_def split: option.splits)
  with assms(2) show ?thesis unfolding verify_fim_config_def fim_signed_envelope_def reads_back_def by simp
qed

text \<open>The document of a heartbeat is bound to the primary key of the agent, while the agent compares it with the
  identity it enrolled under, which registration draws separately: wherever the two differ the agent refuses every
  document, whatever scope applies and however often it is saved.\<close>

theorem fim_config_is_refused:
  assumes "heartbeat_fim_config sign now a agent_version rows = Inr (Some env)" and "a_id a \<noteq> a_agent_id a"
    and "pinned tr sign" and "resolve_for_agent now (a_id a) rows = Inr sc" and "reads_back tr (a_id a) sc"
  shows "verify_fim_config tr (a_agent_id a) last_version env = Inl FimForeignAgent"
  using assms(1,2,4) verify_own [OF assms(3,5)] by (auto simp: heartbeat_fim_config_def split: if_splits)

lemma filter_sql_update:
  assumes "\<And>r. fs_agent (f r) = fs_agent r"
  shows "filter (\<lambda>r. fs_agent r = oid) (sql_update (\<lambda>r. fs_agent r = who) f rows)
    = (if oid = who then map f (filter (\<lambda>r. fs_agent r = oid) rows) else filter (\<lambda>r. fs_agent r = oid) rows)"
  by (induction rows) (auto simp: assms)

lemma saved_scope:
  assumes "update_fim_scope known now who watch ignore by rows = Inr rows1"
  shows "\<exists>sc. validate_paths watch True = Inr (fs_watch sc) \<and> fs_updated sc = now \<and> get_scope who rows1 = Inr (Some sc)
    \<and> (\<forall>oid. oid \<noteq> who \<longrightarrow> get_scope oid rows1 = get_scope oid rows)"
proof -
  from assms obtain ws ign row where v: "validate_paths watch True = Inr ws" and row: "get_scope who rows = Inr row"
    and rows1: "(case row of
        Some _ \<Rightarrow> Inr (sql_update (\<lambda>r. fs_agent r = who) (\<lambda>r. r\<lparr>fs_watch := ws, fs_ignore := ign, fs_updated := now, fs_updated_by := by\<rparr>) rows)
      | None \<Rightarrow> if (case who of None \<Rightarrow> False | Some a \<Rightarrow> a \<notin> known) then Inl (DatabaseError ''ForeignKeyViolation'')
          else Inr (rows @ [\<lparr>fs_agent = who, fs_watch = ws, fs_ignore = ign, fs_updated = now, fs_updated_by = by\<rparr>])) = Inr rows1"
    unfolding update_fim_scope_def as_unprocessable_def upsert_scope_def
    by (auto simp: sum_bind_def split: sum.splits exn.splits)
  let ?f = "\<lambda>r. r\<lparr>fs_watch := ws, fs_ignore := ign, fs_updated := now, fs_updated_by := by\<rparr>"
  show ?thesis
  proof (cases row)
    case None
    then have "rows1 = rows @ [\<lparr>fs_agent = who, fs_watch = ws, fs_ignore = ign, fs_updated = now, fs_updated_by = by\<rparr>]"
      "filter (\<lambda>r. fs_agent r = who) rows = []"
      using rows1 row by (auto simp: get_scope_def sql_one_None_iff filter_empty_conv split: if_splits)
    then show ?thesis using v by (auto simp: get_scope_def sql_one_def)
  next
    case (Some r)
    then have "rows1 = sql_update (\<lambda>r. fs_agent r = who) ?f rows" "filter (\<lambda>r. fs_agent r = who) rows = [r]"
      using rows1 row by (auto simp: get_scope_def sql_one_def split: list.splits)
    then have "filter (\<lambda>r. fs_agent r = oid) rows1 = (if oid = who then [?f r] else filter (\<lambda>r. fs_agent r = oid) rows)" for oid
      using filter_sql_update [of ?f oid who rows] by simp
    then show ?thesis using v by (auto simp: get_scope_def sql_one_def intro!: exI [of _ "?f r"])
  qed
qed


section \<open>A small instance\<close>

definition toy_fim :: fim_scope where
  "toy_fim = \<lparr>fs_agent = None, fs_watch = [''/etc''], fs_ignore = [], fs_updated = 1000000, fs_updated_by = None\<rparr>"

definition toy_override :: fim_scope where
  "toy_override = \<lparr>fs_agent = Some ''a'', fs_watch = [''/srv''], fs_ignore = [], fs_updated = 5000000, fs_updated_by = None\<rparr>"

text \<open>A reader for the two documents of the instance.\<close>

definition toy_read :: "string \<Rightarrow> fim_document option" where
  "toy_read s =
    (if s = canonical_json (fim_payload ''a'' toy_fim) then Some \<lparr>fd_agent = ''a'', fd_watch = [''/etc''], fd_ignore = [], fd_version = 1\<rparr>
     else if s = canonical_json (fim_payload ''a'' toy_override) then Some \<lparr>fd_agent = ''a'', fd_watch = [''/srv''], fd_ignore = [], fd_version = 5\<rparr>
     else None)"

definition toy_trust :: fim_trust where
  "toy_trust = \<lparr>ft_keys = [FIM_SIGNING_KEY_ID \<mapsto> ''k''], ft_verify = (\<lambda>_ s sig. sig = s), ft_decode = toy_read\<rparr>"

lemma toy_pinned: "pinned toy_trust (\<lambda>s. s)"
  by (simp add: pinned_def toy_trust_def)

lemma toy_reads: "reads_back toy_trust ''a'' toy_fim" "reads_back toy_trust ''a'' toy_override"
proof -
  have "canonical_json (fim_payload ''a'' toy_override) \<noteq> canonical_json (fim_payload ''a'' toy_fim)" by code_simp
  then show "reads_back toy_trust ''a'' toy_fim" "reads_back toy_trust ''a'' toy_override"
    by (simp_all add: reads_back_def toy_trust_def toy_read_def version_of_def toy_fim_def toy_override_def)
qed

theorem fim_config_is_refused_witness:
  "verify_fim_config toy_trust ''w'' 0 (fim_signed_envelope (\<lambda>s. s) ''a'' toy_fim) = Inl FimForeignAgent"
proof -
  define a where "a = toy_agent\<lparr>a_id := ''a'', a_agent_id := ''w''\<rparr>"
  have ids: "a_id a = ''a''" "a_agent_id a = ''w''" by (simp_all add: a_def)
  have r: "resolve_for_agent 7 (a_id a) [toy_fim] = Inr toy_fim"
    by (simp add: resolve_for_agent_def get_scope_def sql_one_def toy_fim_def)
  have "agent_meets_minimum (Some ''0.41.0'') MIN_AGENT_VERSION_FIM_SCOPES" by code_simp
  then have h: "heartbeat_fim_config (\<lambda>s. s) 7 a (Some ''0.41.0'') [toy_fim] = Inr (Some (fim_signed_envelope (\<lambda>s. s) ''a'' toy_fim))"
    by (simp add: heartbeat_fim_config_def r) (simp add: ids)
  have "a_id a \<noteq> a_agent_id a" "reads_back toy_trust (a_id a) toy_fim" by (simp_all add: ids toy_reads)
  from fim_config_is_refused [OF h this(1) toy_pinned r this(2), of 0] show ?thesis by (simp add: ids)
qed


end
