(* ===== verification/Access.thy ===== *)
theory Access
  imports PolicyTemplates
begin

text \<open>
  Who may call a route (\<open>auth/dependencies.py\<close>, \<open>auth/permissions.py\<close>): roles, the table of permissions, and the
  identity a route writes down. The user is the dictionary of the session service. The audit line of a refusal is left
  out.
\<close>

type_synonym user = config

definition user_role :: "user \<Rightarrow> pv" where
  "user_role u = (case map_of u ''role'' of None \<Rightarrow> PStr ''VIEWER'' | Some v \<Rightarrow> v)"

definition user_id :: "user \<Rightarrow> string option" where
  "user_id u = (case cfg_get u ''id'' of PStr s \<Rightarrow> Some s | _ \<Rightarrow> None)"

definition require_role :: "string list \<Rightarrow> user \<Rightarrow> exn + user" where
  "require_role roles u =
    (if user_role u \<noteq> PStr ''ADMIN'' \<and> user_role u \<notin> PStr ` set roles
     then Inl (HTTPException 403 ''Insufficient permissions'') else Inr u)"

definition PERMISSIONS :: "(string \<times> string list) list" where
  "PERMISSIONS =
    [(''compliance.exceptions.create'', [''OPERATOR'']),
     (''compliance.exceptions.approve'', []),
     (''compliance.exceptions.revoke'', [''OPERATOR'']),
     (''compliance.remediation.maintenance_windows.manage'', [''OPERATOR'']),
     (''compliance.remediation.create'', [''OPERATOR'']),
     (''compliance.remediation.execute'', [''OPERATOR'']),
     (''compliance.remediation.approve'', [''OPERATOR'']),
     (''compliance.remediation.rollback'', []),
     (''compliance.findings.acknowledge'', [''OPERATOR'']),
     (''compliance.policies.manage'', [''OPERATOR'']),
     (''compliance.policies.archive'', []),
     (''compliance.policies.import'', []),
     (''storage.upload'', [''OPERATOR'']),
     (''storage.delete'', [''OPERATOR'']),
     (''storage.read'', [''OPERATOR'', ''AUDITOR''])]"

definition permitted_roles :: "string \<Rightarrow> string list" where
  "permitted_roles permission = (case map_of PERMISSIONS permission of None \<Rightarrow> [] | Some rs \<Rightarrow> rs)"

definition has_permission :: "user \<Rightarrow> string \<Rightarrow> bool" where
  "has_permission u permission = (user_role u = PStr ''ADMIN'' \<or> user_role u \<in> PStr ` set (permitted_roles permission))"

definition require_permission :: "string \<Rightarrow> user \<Rightarrow> exn + user" where
  "require_permission permission u =
    (if user_role u \<noteq> PStr ''ADMIN'' \<and> user_role u \<notin> PStr ` set (permitted_roles permission)
     then Inl (HTTPException 403 (''Missing permission: '' @ permission)) else Inr u)"

lemma require_permission_iff: "require_permission permission u = Inr v \<longleftrightarrow> v = u \<and> has_permission u permission"
  by (auto simp: require_permission_def has_permission_def)

lemma require_role_iff: "require_role roles u = Inr v \<longleftrightarrow> v = u \<and> (user_role u = PStr ''ADMIN'' \<or> user_role u \<in> PStr ` set roles)"
  by (auto simp: require_role_def)

text \<open>The permissions nobody but an administrator has.\<close>

lemma administrators_only:
  "permitted_roles ''compliance.exceptions.approve'' = []" "permitted_roles ''compliance.remediation.rollback'' = []"
  "permitted_roles ''compliance.policies.archive'' = []" "permitted_roles ''compliance.policies.import'' = []"
  by code_simp+

end
