(* ===== verification/Waivers.thy ===== *)
theory Waivers
  imports Access RemedyWorkers
begin

text \<open>
  Exceptions to compliance rules (\<open>services/compliance_exception_service.py\<close> behind
  \<open>api/v1/routers/compliance/exceptions.py\<close>) and the life of drift incidents
  (\<open>api/v1/routers/compliance/drift.py\<close>), with what the compliance service does to both tables
  (\<open>services/compliance\<close>, in Go): exceptions expire, incidents are counted and opened, and a failed verdict is waived
  by an exception. Audit log lines are left out; whether a selector covers an agent is a parameter.
\<close>

section \<open>Exceptions\<close>

datatype waiver_status = X_PENDING | X_ACTIVE | X_EXPIRED | X_REVOKED

record waiver =
  wv_id :: uuid
  wv_rule :: uuid
  wv_agent :: "uuid option"
  wv_selector :: config
  wv_reason :: string
  wv_owner :: string
  wv_requested_by :: "uuid option"
  wv_requested_by_actor :: "string option"
  wv_approved_by :: "uuid option"
  wv_approved_at :: "time option"
  wv_status :: waiver_status
  wv_expires_at :: time
  wv_created_at :: time
  wv_updated_at :: time

record waiver_create =
  wc_rule :: uuid
  wc_agent :: "uuid option"
  wc_selector :: config
  wc_reason :: string
  wc_owner :: string
  wc_expires_at :: time

record waiver_state =
  ws_db :: db
  ws_waivers :: "waiver list"

text \<open>The columns of the owner and of the actor hold 255 characters.\<close>

definition too_long :: "string \<Rightarrow> bool" where "too_long s = (length s > 255)"

definition create_exception ::
    "compliance \<Rightarrow> uuid \<Rightarrow> time \<Rightarrow> user \<Rightarrow> waiver_create \<Rightarrow> waiver_state \<Rightarrow> exn + waiver_state" where
  "create_exception cp new_id now u wc ws =
    sum_bind (require_permission ''compliance.exceptions.create'' u) (\<lambda>u.
      if wc_rule wc \<notin> cr_id ` set (cp_rules cp)
         \<or> (case wc_agent wc of None \<Rightarrow> False | Some a \<Rightarrow> a \<notin> a_id ` set (agents (ws_db ws)))
         \<or> too_long (wc_owner wc) \<or> (case user_id u of None \<Rightarrow> False | Some s \<Rightarrow> too_long s)
      then Inl (DatabaseError ''compliance_exceptions'')
      else Inr (ws\<lparr>ws_waivers := ws_waivers ws @
        [\<lparr>wv_id = new_id, wv_rule = wc_rule wc, wv_agent = wc_agent wc, wv_selector = wc_selector wc,
          wv_reason = wc_reason wc, wv_owner = wc_owner wc, wv_requested_by = safe_user_uuid (user_id u),
          wv_requested_by_actor = user_id u, wv_approved_by = None, wv_approved_at = None, wv_status = X_PENDING,
          wv_expires_at = wc_expires_at wc, wv_created_at = now, wv_updated_at = now\<rparr>]\<rparr>))"

definition get_waiver :: "uuid \<Rightarrow> waiver_state \<Rightarrow> exn + waiver" where
  "get_waiver i ws =
    sum_bind (sql_one (\<lambda>x. wv_id x = i) (ws_waivers ws)) (\<lambda>row.
      case row of None \<Rightarrow> Inl (HTTPException 404 ''Exception not found'') | Some x \<Rightarrow> Inr x)"

definition set_waiver :: "uuid \<Rightarrow> (waiver \<Rightarrow> waiver) \<Rightarrow> waiver_state \<Rightarrow> waiver_state" where
  "set_waiver i f ws = ws\<lparr>ws_waivers := sql_update (\<lambda>x. wv_id x = i) f (ws_waivers ws)\<rparr>"

definition requested_by_approver :: "waiver \<Rightarrow> string option \<Rightarrow> bool" where
  "requested_by_approver x raw =
    (case raw of None \<Rightarrow> False
     | Some s \<Rightarrow> s \<noteq> [] \<and> (wv_requested_by_actor x = Some s \<or> wv_requested_by x = Some s))"

text \<open>Which incidents an approved exception closes.\<close>

definition covers_drift :: "waiver \<Rightarrow> string \<Rightarrow> drift_event \<Rightarrow> bool" where
  "covers_drift x domain e =
    (d_domain e = domain \<and> drift_open (d_status e) \<and> (case wv_agent x of None \<Rightarrow> True | Some a \<Rightarrow> d_agent e = a))"

definition close_covered_drift :: "compliance \<Rightarrow> waiver \<Rightarrow> uuid option \<Rightarrow> db \<Rightarrow> db" where
  "close_covered_drift cp x actor_id d =
    (case sql_get cr_id (cp_rules cp) (wv_rule x) of
       None \<Rightarrow> d
     | Some rule \<Rightarrow>
        if wv_agent x = None \<and> wv_selector x \<noteq> [] then d
        else d\<lparr>drifts := sql_update (covers_drift x (cr_domain rule))
          (\<lambda>e. e\<lparr>d_status := D_EXCEPTION, d_suppressed_by := actor_id\<rparr>) (drifts d)\<rparr>)"

definition approve_exception :: "compliance \<Rightarrow> time \<Rightarrow> user \<Rightarrow> uuid \<Rightarrow> waiver_state \<Rightarrow> exn + waiver_state" where
  "approve_exception cp now u i ws =
    sum_bind (require_permission ''compliance.exceptions.approve'' u) (\<lambda>u.
    sum_bind (get_waiver i ws) (\<lambda>x.
      if wv_status x \<noteq> X_PENDING then Inl (HTTPException 409 ''Cannot approve from status'')
      else if wv_expires_at x \<le> now
      then Inl (HTTPException 409 ''Cannot approve an exception whose expiry is already in the past'')
      else if requested_by_approver x (user_id u)
      then Inl (HTTPException 403 ''Requester cannot approve their own exception'')
      else Inr (set_waiver i (\<lambda>x. x\<lparr>wv_status := X_ACTIVE, wv_approved_by := safe_user_uuid (user_id u),
              wv_approved_at := Some now, wv_updated_at := now\<rparr>)
            (ws\<lparr>ws_db := close_covered_drift cp x (safe_user_uuid (user_id u)) (ws_db ws)\<rparr>))))"

definition revoke_exception :: "time \<Rightarrow> user \<Rightarrow> uuid \<Rightarrow> waiver_state \<Rightarrow> exn + waiver_state" where
  "revoke_exception now u i ws =
    sum_bind (require_permission ''compliance.exceptions.revoke'' u) (\<lambda>u.
    sum_bind (get_waiver i ws) (\<lambda>x.
      if wv_status x \<notin> {X_PENDING, X_ACTIVE} then Inl (HTTPException 409 ''Cannot revoke from status'')
      else Inr (set_waiver i (\<lambda>x. x\<lparr>wv_status := X_REVOKED, wv_updated_at := now\<rparr>) ws)))"

text \<open>The expirer of the compliance service.\<close>

definition expire_exceptions :: "time \<Rightarrow> waiver_state \<Rightarrow> waiver_state" where
  "expire_exceptions now ws =
    ws\<lparr>ws_waivers := sql_update (\<lambda>x. wv_status x = X_ACTIVE \<and> wv_expires_at x \<le> now)
      (\<lambda>x. x\<lparr>wv_status := X_EXPIRED, wv_updated_at := now\<rparr>) (ws_waivers ws)\<rparr>"

text \<open>The exception a failed verdict is tagged with, if there is one; the order of the rows is the one the query returns.\<close>

definition match_exception ::
    "(config \<Rightarrow> uuid \<Rightarrow> bool) \<Rightarrow> time \<Rightarrow> uuid \<Rightarrow> uuid \<Rightarrow> waiver_state \<Rightarrow> uuid option" where
  "match_exception scope_matches now rule_id agent_id ws =
    map_option wv_id (sql_first (\<lambda>x. case wv_agent x of Some a \<Rightarrow> a = agent_id | None \<Rightarrow> scope_matches (wv_selector x) agent_id)
      (filter (\<lambda>x. wv_status x = X_ACTIVE \<and> wv_expires_at x > now \<and> wv_rule x = rule_id) (ws_waivers ws)))"

section \<open>Drift incidents\<close>

definition get_drift :: "uuid \<Rightarrow> db \<Rightarrow> exn + drift_event" where
  "get_drift i d =
    sum_bind (sql_one (\<lambda>e. d_id e = i) (drifts d)) (\<lambda>row.
      case row of None \<Rightarrow> Inl (HTTPException 404 ''Drift event not found'') | Some e \<Rightarrow> Inr e)"

definition set_drift :: "uuid \<Rightarrow> (drift_event \<Rightarrow> drift_event) \<Rightarrow> db \<Rightarrow> db" where
  "set_drift i f d = d\<lparr>drifts := sql_update (\<lambda>e. d_id e = i) f (drifts d)\<rparr>"

definition acknowledge_drift_event :: "time \<Rightarrow> user \<Rightarrow> uuid \<Rightarrow> db \<Rightarrow> exn + db" where
  "acknowledge_drift_event now u i d =
    sum_bind (require_role [''ADMIN'', ''OPERATOR''] u) (\<lambda>u.
    sum_bind (get_drift i d) (\<lambda>e.
      if \<not> drift_open (d_status e) then Inl (HTTPException 409 ''Cannot acknowledge from status'')
      else Inr (set_drift i (\<lambda>e. e\<lparr>d_acknowledged_by := safe_user_uuid (user_id u),
          d_acknowledged_by_actor := user_id u, d_acknowledged_at := Some now, d_status := D_ACKNOWLEDGED\<rparr>) d)))"

definition suppress_drift_event :: "user \<Rightarrow> uuid \<Rightarrow> db \<Rightarrow> exn + db" where
  "suppress_drift_event u i d =
    sum_bind (require_role [''ADMIN'', ''OPERATOR''] u) (\<lambda>u.
    sum_bind (get_drift i d) (\<lambda>e.
      if \<not> drift_open (d_status e) then Inl (HTTPException 409 ''Cannot suppress from status'')
      else Inr (set_drift i (\<lambda>e. e\<lparr>d_status := D_SUPPRESSED, d_suppressed_by := safe_user_uuid (user_id u)\<rparr>) d)))"

definition resolve_drift_event :: "time \<Rightarrow> user \<Rightarrow> uuid \<Rightarrow> db \<Rightarrow> exn + db" where
  "resolve_drift_event now u i d =
    sum_bind (require_role [''ADMIN'', ''OPERATOR''] u) (\<lambda>u.
    sum_bind (get_drift i d) (\<lambda>e.
      if \<not> drift_open (d_status e) then Inl (HTTPException 409 ''Cannot resolve from status'')
      else Inr (set_drift i (\<lambda>e. e\<lparr>d_status := D_RESOLVED, d_resolved_at := Some now\<rparr>) d)))"

text \<open>The ingester counts a deviation on the incidents of its correlation key that are open or acknowledged, and opens a new
  one where there is none; the keys belong to it, so the rows with the key are an argument.\<close>

definition record_drift :: "time \<Rightarrow> uuid set \<Rightarrow> drift_event \<Rightarrow> db \<Rightarrow> db" where
  "record_drift now same_key e d =
    (let seen = (\<lambda>x. d_id x \<in> same_key \<and> d_status x \<in> {D_OPEN, D_ACKNOWLEDGED})
     in if list_ex seen (drifts d)
        then d\<lparr>drifts := sql_update seen (\<lambda>x. x\<lparr>d_last_seen := Some now\<rparr>) (drifts d)\<rparr>
        else d\<lparr>drifts := drifts d @ [e\<lparr>d_time := now, d_status := D_OPEN, d_last_seen := Some now, d_resolved_at := None,
           d_acknowledged_by := None, d_acknowledged_by_actor := None, d_acknowledged_at := None, d_suppressed_by := None\<rparr>]\<rparr>)"

end
