(* ===== verification/WaiverLaws.thy ===== *)
theory WaiverLaws
  imports Waivers RemedyLaws
begin

text \<open>
  What happens to the incidents: every operation that touches them, of the routes, the exceptions, the remediation and
  the ingester, keeps a closed incident as it is. \<open>drift_step\<close> is any of these operations; the log holds who asked for and
  who approved an exception.
\<close>

section \<open>Closed incidents\<close>

definition kept :: "drift_event \<Rightarrow> drift_event \<Rightarrow> bool" where
  "kept e e' = (d_id e' = d_id e \<and> d_agent e' = d_agent e \<and> d_domain e' = d_domain e
     \<and> (\<not> drift_open (d_status e) \<longrightarrow> e' = e))"

definition drift_kept :: "drift_event list \<Rightarrow> drift_event list \<Rightarrow> bool" where
  "drift_kept ds ds' = (\<exists>old new. ds' = old @ new \<and> list_all2 kept ds old)"

lemma kept_refl [simp]: "kept e e"
  by (simp add: kept_def)

lemma kept_trans: "kept a b \<Longrightarrow> kept b c \<Longrightarrow> kept a c"
  by (auto simp: kept_def)

lemma drift_kept_refl [simp]: "drift_kept ds ds"
  unfolding drift_kept_def by (rule exI [of _ ds], rule exI [of _ "[]"]) (simp add: list_all2_refl)

lemma drift_kept_trans:
  assumes "drift_kept a b" and "drift_kept b c"
  shows "drift_kept a c"
proof -
  from assms obtain old new old' new' where b: "b = old @ new" "list_all2 kept a old" and c: "c = old' @ new'" "list_all2 kept b old'"
    unfolding drift_kept_def by blast
  from c(2) b(1) obtain x y where xy: "old' = x @ y" "list_all2 kept old x" by (auto simp: list_all2_append1)
  have "list_all2 kept a x" by (rule list_all2_trans [OF _ b(2) xy(2)]) (rule kept_trans)
  then show ?thesis using c(1) xy(1) unfolding drift_kept_def by (metis append.assoc)
qed

lemma drift_kept_append [simp]: "drift_kept ds (ds @ new)"
  unfolding drift_kept_def by (rule exI [of _ ds], rule exI [of _ new]) (simp add: list_all2_refl)

lemma drift_kept_update:
  assumes "\<And>e. p e \<Longrightarrow> kept e (f e)"
  shows "drift_kept ds (sql_update p f ds)"
proof -
  have "list_all2 kept ds (sql_update p f ds)" using assms by (induction ds) auto
  then show ?thesis unfolding drift_kept_def by (metis append_Nil2)
qed

lemma drift_kept_fold:
  assumes "\<And>x ds. drift_kept ds (f x ds)"
  shows "drift_kept ds (fold f xs ds)"
  by (induction xs arbitrary: ds) (simp, metis assms drift_kept_trans fold_simps(2))

lemma drift_kept_nth:
  assumes "drift_kept ds ds'" and "n < length ds"
  shows "n < length ds' \<and> kept (ds ! n) (ds' ! n)"
proof -
  from assms(1) obtain old new where "ds' = old @ new" "list_all2 kept ds old" unfolding drift_kept_def by blast
  with assms(2) show ?thesis by (auto simp: list_all2_conv_all_nth nth_append)
qed

section \<open>The operations on incidents\<close>

lemma set_drift_kept: "get_drift i d = Inr e \<Longrightarrow> drift_open (d_status e) \<Longrightarrow>
    (\<And>x. d_id (f x) = d_id x \<and> d_agent (f x) = d_agent x \<and> d_domain (f x) = d_domain x) \<Longrightarrow>
    drift_kept (drifts d) (drifts (set_drift i f d))"
proof -
  assume g: "get_drift i d = Inr e" "drift_open (d_status e)"
    and f: "\<And>x. d_id (f x) = d_id x \<and> d_agent (f x) = d_agent x \<and> d_domain (f x) = d_domain x"
  from g(1) have one: "filter (\<lambda>e. d_id e = i) (drifts d) = [e]"
    by (auto simp: get_drift_def sql_one_def sum_bind_Inr_iff split: list.splits option.splits)
  then have only: "x \<in> set (drifts d) \<Longrightarrow> d_id x = i \<Longrightarrow> x = e" for x
  proof -
    assume "x \<in> set (drifts d)" "d_id x = i"
    then have "x \<in> set (filter (\<lambda>e. d_id e = i) (drifts d))" by simp
    then show "x = e" by (simp only: one) simp
  qed
  have "list_all2 kept ds (sql_update (\<lambda>e. d_id e = i) f ds)" if "set ds \<subseteq> set (drifts d)" for ds
    using that by (induction ds) (use only g(2) f in \<open>auto simp: kept_def\<close>)
  then show "drift_kept (drifts d) (drifts (set_drift i f d))"
    unfolding drift_kept_def set_drift_def
    by (intro exI [of _ "sql_update (\<lambda>e. d_id e = i) f (drifts d)"] exI [of _ "[]"]) simp
qed

lemma routes_keep_drift:
  "acknowledge_drift_event now u i d = Inr d' \<Longrightarrow> drift_kept (drifts d) (drifts d')"
  "suppress_drift_event u i d = Inr d' \<Longrightarrow> drift_kept (drifts d) (drifts d')"
  "resolve_drift_event now u i d = Inr d' \<Longrightarrow> drift_kept (drifts d) (drifts d')"
  by (auto simp: acknowledge_drift_event_def suppress_drift_event_def resolve_drift_event_def sum_bind_Inr_iff
      split: if_splits intro!: set_drift_kept)

lemma close_covered_kept: "drift_kept (drifts d) (drifts (close_covered_drift cp x who d))"
  by (auto simp: close_covered_drift_def covers_drift_def kept_def intro!: drift_kept_update split: option.splits)

lemma record_drift_kept: "drift_kept (drifts d) (drifts (record_drift now same_key e d))"
  by (auto simp: record_drift_def Let_def kept_def drift_open_def intro!: drift_kept_update)

section \<open>The remediation\<close>

lemma revert_drift_kept: "drift_kept (drifts d) (drifts (revert_drift_to_open now i d))"
  by (auto simp: revert_drift_to_open_def Let_def kept_def drift_open_def intro!: drift_kept_update)

lemma resolve_related_kept: "drift_kept (drifts d) (drifts (resolve_related_drift now cp ps d))"
  by (auto simp: resolve_related_drift_def kept_def intro!: drift_kept_fold drift_kept_update)

lemma set_plan_status_drifts [simp]: "drifts (set_plan_status i s d) = drifts d"
  by (simp add: set_plan_status_def)

lemma start_executing_kept: "drift_kept (drifts d) (drifts (start_executing p acts i d))"
  by (auto simp: start_executing_def Let_def link_job_def kept_def intro!: drift_kept_update)

lemma sync_plan_kept: "sync_remediation_plan now j d = Inr d' \<Longrightarrow> drift_kept (drifts d) (drifts d')"
  using revert_drift_kept [of "set_plan_status i s d" for i s]
  by (auto simp: sync_remediation_plan_def Let_def sum_bind_Inr_iff split: if_splits list.splits)

lemma verify_plan_kept: "drift_kept (drifts d) (drifts (verify_plan cp now p d))"
  using revert_drift_kept [of "set_plan_status i s d" for i s] resolve_related_kept [of "set_plan_status i s d" for i s]
  by (auto simp: verify_plan_def Let_def split: option.splits)

lemma verification_tick_kept: "drift_kept (drifts d) (drifts (verification_tick cp now d))"
proof -
  have "drift_kept (drifts d) (drifts (fold (verify_plan cp now) ps d))" for ps
    by (induction ps arbitrary: d) (simp, metis verify_plan_kept drift_kept_trans fold_simps(2))
  then show ?thesis by (simp add: verification_tick_def)
qed

text \<open>A session whose two databases have kept the incidents.\<close>

definition drift_session :: "drift_event list \<Rightarrow> session \<Rightarrow> bool" where
  "drift_session ds se = (drift_kept ds (drifts (se_db se)) \<and> drift_kept ds (drifts (se_saved se)))"

lemma drift_session_open: "drift_session (drifts d) (open_session d)"
  by (simp add: drift_session_def open_session_def)

lemma drift_session_commit: "drift_kept ds (drifts (se_db se)) \<Longrightarrow> drift_session ds (commit se)"
  by (simp add: drift_session_def commit_def)

lemma drift_session_set_plan: "drift_session ds se \<Longrightarrow> drift_session ds (set_plan i f se)"
  by (simp add: drift_session_def set_plan_def)

lemma drift_session_set_plan_commit: "drift_session ds se \<Longrightarrow> drift_session ds (commit (set_plan i f se))"
  by (simp add: drift_session_def set_plan_def commit_def)

lemma drift_session_raised: "drift_session ds se \<Longrightarrow> create_job_in sha i now args se = Raised e se' \<Longrightarrow> drift_session ds se'"
  by (auto simp: drift_session_def rollback_def dest!: create_job_in_Raised)

lemma drift_session_job:
  "drift_session ds se \<Longrightarrow> create_job_in sha i now args se = Dispatched j se' \<Longrightarrow> drift_kept (drifts (se_db se')) (drifts x) \<Longrightarrow>
     drift_session ds (commit (se'\<lparr>se_db := x\<rparr>))"
  by (auto simp: drift_session_def commit_def dest!: create_job_in_Dispatched intro: drift_kept_trans)

lemma create_plan_kept: "drift_session ds se \<Longrightarrow> create_plan w cp now args acts se = (r, se') \<Longrightarrow> drift_session ds se'"
  by (auto simp: create_plan_def Let_def drift_session_def commit_def split: option.splits if_splits)

lemma submit_plan_kept: "drift_session ds se \<Longrightarrow> submit_plan i se = (r, se') \<Longrightarrow> drift_session ds se'"
  by (auto simp: submit_plan_def drift_session_set_plan_commit split: option.splits if_splits)

lemma dispatch_plan_kept: "drift_session ds se \<Longrightarrow> dispatch_plan w now p role se = (r, se') \<Longrightarrow> drift_session ds se'"
  by (auto simp: dispatch_plan_def Let_def split: dispatch_result.splits
      intro: drift_session_raised intro!: drift_session_job start_executing_kept)

lemma approve_plan_kept: "drift_session ds se \<Longrightarrow> approve_plan w now i actor role se = (r, se') \<Longrightarrow> drift_session ds se'"
  by (auto simp: approve_plan_def Let_def drift_session_set_plan drift_session_set_plan_commit split: option.splits if_splits
      dest: dispatch_plan_kept [OF drift_session_set_plan])

lemma dry_run_plan_kept: "drift_session ds se \<Longrightarrow> dry_run_plan w now i role se = (r, se') \<Longrightarrow> drift_session ds se'"
  by (auto simp: dry_run_plan_def Let_def link_job_def split: option.splits if_splits dispatch_result.splits
      intro: drift_session_raised intro!: drift_session_job)

lemma rollback_plan_kept: "drift_session ds se \<Longrightarrow> rollback_plan w now i role se = (r, se') \<Longrightarrow> drift_session ds se'"
  by (auto simp: rollback_plan_def Let_def link_job_def split: option.splits if_splits dispatch_result.splits
      intro: drift_session_raised intro!: drift_session_job)

lemma logged_kept: "logged x = (r, se') \<Longrightarrow> drift_session ds (snd x) \<Longrightarrow> drift_session ds se'"
  by (cases x) (auto dest: logged_session)

lemma try_dispatch_kept:
  assumes sess: "drift_session ds se" and t: "try_dispatch w cp now p se = (r, se')"
  shows "drift_session ds se'"
proof (cases "se' = se")
  case False
  with t obtain r2 where "logged (dispatch_plan w now p (Some SYSTEM_ROLE) se) = (r2, se')"
    by (auto simp: try_dispatch_def Let_def split: option.splits if_splits sum.splits bool.splits)
  then show ?thesis by (rule logged_kept) (rule dispatch_plan_kept [OF sess surjective_pairing])
qed (simp add: sess)

lemma dispatch_loop_kept: "drift_session ds se \<Longrightarrow> dispatch_loop w cp now ps se = (r, se') \<Longrightarrow> drift_session ds se'"
proof (induction ps arbitrary: se)
  case (Cons p ps)
  obtain r1 se1 where one: "try_dispatch w cp now p se = (r1, se1)" by fastforce
  from try_dispatch_kept [OF Cons.prems(1) one] Cons one show ?case by (auto split: option.splits)
qed simp

lemma submit_and_approve_kept:
  assumes sess: "drift_session ds se" and t: "submit_and_approve w now i se = (r, se')"
  shows "drift_session ds se'"
proof -
  obtain r1 se1 where one: "submit_plan i se = (r1, se1)" by fastforce
  note mid = submit_plan_kept [OF sess one]
  show ?thesis
  proof (cases r1)
    case None
    with t one have "approve_plan w now i None (Some SYSTEM_ROLE) se1 = (r, se')" by (simp add: submit_and_approve_def)
    then show ?thesis by (rule approve_plan_kept [OF mid])
  next
    case (Some e)
    with t one mid show ?thesis by (simp add: submit_and_approve_def)
  qed
qed

lemma resolve_dry_run_kept:
  assumes sess: "drift_session ds se" and t: "resolve_dry_run w now p se = (r, se')"
  shows "drift_session ds se'"
proof (cases "se' = se \<or> se' = fail_automatic_plan (p_id p) se")
  case True
  with sess drift_session_set_plan_commit [OF sess] show ?thesis by (auto simp: fail_automatic_plan_def)
next
  case False
  with t have "logged (submit_and_approve w now (p_id p) se) = (r, se')"
    by (auto simp: resolve_dry_run_def split: option.splits if_splits)
  then show ?thesis by (rule logged_kept) (rule submit_and_approve_kept [OF sess surjective_pairing])
qed

lemma resolve_loop_kept: "drift_session ds se \<Longrightarrow> resolve_loop w now ps se = (r, se') \<Longrightarrow> drift_session ds se'"
proof (induction ps arbitrary: se)
  case (Cons p ps)
  obtain r1 se1 where one: "resolve_dry_run w now p se = (r1, se1)" by fastforce
  from resolve_dry_run_kept [OF Cons.prems(1) one] Cons one show ?case by (auto split: option.splits)
qed simp

lemma create_automatic_plan_kept:
  assumes sess: "drift_session ds se" and cre: "create_automatic_plan w cp now agent_id rule se = (r, se')"
  shows "drift_session ds se'"
proof (cases "se' = se")
  case False
  with cre obtain args acts r1 se1 where one: "create_plan w cp now args acts se = (r1, se1)"
    and rest: "se' = se1 \<or> (\<exists>i. dry_run_plan w now i (Some SYSTEM_ROLE) se1 = (r, se'))"
    by (auto simp: create_automatic_plan_def Let_def split: option.splits sum.splits if_splits prod.splits) blast+
  from rest dry_run_plan_kept [OF create_plan_kept [OF sess one]] create_plan_kept [OF sess one] show ?thesis by blast
qed (simp add: sess)

lemma trigger_loop_kept: "drift_session ds se \<Longrightarrow> trigger_loop w cp now since remaining cs se = (r, se') \<Longrightarrow> drift_session ds se'"
proof (induction cs arbitrary: se remaining)
  case (Cons c cs)
  obtain agent_id rule p where c: "c = (agent_id, rule, p)" by (cases c)
  obtain r1 se1 where one: "create_automatic_plan w cp now agent_id rule se = (r1, se1)" by fastforce
  note mid = create_automatic_plan_kept [OF Cons.prems(1) one]
  from Cons.prems(2) one Cons.IH [OF Cons.prems(1)] Cons.IH [OF mid] Cons.prems(1) mid show ?case
    by (auto simp: c split: if_splits sum.splits option.splits)
qed simp

lemma remediation_tick_kept:
  assumes "remediation_tick w cp enabled cap now d = (r, d')"
  shows "drift_kept (drifts d) (drifts d')"
proof -
  obtain r1 se1 where one: "dispatch_loop w cp now (approved_with_window d) (open_session d) = (r1, se1)" by fastforce
  note s1 = dispatch_loop_kept [OF drift_session_open one]
  have "drift_session (drifts d) x" if t: "tick_automatic w cp enabled cap now se1 = (y, x)" for x y
  proof (cases enabled)
    case False
    with t s1 show ?thesis by (simp add: tick_automatic_def)
  next
    case True
    obtain r2 se2 where two: "resolve_loop w now (pending_automatic (se_db se1)) se1 = (r2, se2)" by fastforce
    from True t two resolve_loop_kept [OF s1 two] trigger_loop_kept [OF resolve_loop_kept [OF s1 two]] show ?thesis
      by (auto simp: tick_automatic_def trigger_new_automatic_plans_def Let_def split: option.splits if_splits)
  qed
  with assms one s1 show ?thesis
    by (auto simp: remediation_tick_def drift_session_def split: option.splits prod.splits)
qed

section \<open>Every event\<close>

datatype entry = Requested uuid user | Approved uuid user time

type_synonym waiver_world = "waiver_state \<times> entry list"

definition with_db :: "waiver_state \<Rightarrow> db \<Rightarrow> waiver_state" where
  "with_db ws d = ws\<lparr>ws_db := d\<rparr>"

text \<open>\<open>elsewhere\<close> is any operation that writes neither table; an exception gets an identifier that is new, and goes with its
  rule or agent.\<close>

inductive drift_step :: "remedy_world \<Rightarrow> compliance \<Rightarrow> waiver_world \<Rightarrow> waiver_world \<Rightarrow> bool" for w cp where
  request: "create_exception cp i now u wc ws = Inr ws' \<Longrightarrow> i \<notin> wv_id ` set (ws_waivers ws) \<Longrightarrow>
     drift_step w cp (ws, L) (ws', Requested i u # L)"
| approve: "approve_exception cp now u i ws = Inr ws' \<Longrightarrow> drift_step w cp (ws, L) (ws', Approved i u now # L)"
| revoke: "revoke_exception now u i ws = Inr ws' \<Longrightarrow> drift_step w cp (ws, L) (ws', L)"
| expire: "drift_step w cp (ws, L) (expire_exceptions now ws, L)"
| cascade: "drift_step w cp (ws, L) (ws\<lparr>ws_waivers := filter keep (ws_waivers ws)\<rparr>, L)"
| acknowledge: "acknowledge_drift_event now u i (ws_db ws) = Inr d \<Longrightarrow> drift_step w cp (ws, L) (with_db ws d, L)"
| suppress: "suppress_drift_event u i (ws_db ws) = Inr d \<Longrightarrow> drift_step w cp (ws, L) (with_db ws d, L)"
| resolve: "resolve_drift_event now u i (ws_db ws) = Inr d \<Longrightarrow> drift_step w cp (ws, L) (with_db ws d, L)"
| observe: "drift_step w cp (ws, L) (with_db ws (record_drift now same_key e (ws_db ws)), L)"
| plan: "create_plan w cp now args acts (open_session (ws_db ws)) = (r, se) \<Longrightarrow> drift_step w cp (ws, L) (with_db ws (se_saved se), L)"
| submit: "submit_plan i (open_session (ws_db ws)) = (r', se) \<Longrightarrow> drift_step w cp (ws, L) (with_db ws (se_saved se), L)"
| apply_plan: "approve_plan w now i actor role (open_session (ws_db ws)) = (r', se) \<Longrightarrow>
     drift_step w cp (ws, L) (with_db ws (se_saved se), L)"
| dry_run: "dry_run_plan w now i role (open_session (ws_db ws)) = (r', se) \<Longrightarrow> drift_step w cp (ws, L) (with_db ws (se_saved se), L)"
| undo: "rollback_plan w now i role (open_session (ws_db ws)) = (r', se) \<Longrightarrow> drift_step w cp (ws, L) (with_db ws (se_saved se), L)"
| tick: "remediation_tick w cp enabled cap now (ws_db ws) = (r', d) \<Longrightarrow> drift_step w cp (ws, L) (with_db ws d, L)"
| verify: "drift_step w cp (ws, L) (with_db ws (verification_tick cp now (ws_db ws)), L)"
| report: "sync_remediation_plan now j (ws_db ws) = Inr d \<Longrightarrow> drift_step w cp (ws, L) (with_db ws d, L)"
| elsewhere: "drifts d = drifts (ws_db ws) \<Longrightarrow> drift_step w cp (ws, L) (with_db ws d, L)"

lemma set_waiver_db [simp]: "ws_db (set_waiver i f ws) = ws_db ws"
  by (simp add: set_waiver_def)

lemma waiver_routes_drift:
  "create_exception cp i now u wc ws = Inr ws' \<Longrightarrow> ws_db ws' = ws_db ws"
  "revoke_exception now u i ws = Inr ws' \<Longrightarrow> ws_db ws' = ws_db ws"
  "approve_exception cp now u i ws = Inr ws' \<Longrightarrow> drift_kept (drifts (ws_db ws)) (drifts (ws_db ws'))"
  by (auto simp: create_exception_def revoke_exception_def approve_exception_def sum_bind_Inr_iff close_covered_kept
      split: if_splits)

lemma drift_step_kept:
  "drift_step w cp x y \<Longrightarrow> drift_kept (drifts (ws_db (fst x))) (drifts (ws_db (fst y)))"
  by (induction rule: drift_step.induct)
    (auto simp: with_db_def waiver_routes_drift expire_exceptions_def routes_keep_drift record_drift_kept
      remediation_tick_kept verification_tick_kept sync_plan_kept
      dest!: create_plan_kept [OF drift_session_open] submit_plan_kept [OF drift_session_open]
        approve_plan_kept [OF drift_session_open] dry_run_plan_kept [OF drift_session_open]
        rollback_plan_kept [OF drift_session_open] simp: drift_session_def)

lemma drift_reach_kept:
  "(drift_step w cp)\<^sup>*\<^sup>* x y \<Longrightarrow> drift_kept (drifts (ws_db (fst x))) (drifts (ws_db (fst y)))"
  by (induction rule: rtranclp_induct) (auto intro: drift_kept_trans drift_step_kept)

section \<open>Exceptions were asked for and approved\<close>

definition other_person :: "string option \<Rightarrow> string option \<Rightarrow> bool" where
  "other_person a b = (case b of None \<Rightarrow> True | Some s \<Rightarrow> s = [] \<or> a \<noteq> Some s)"

definition approved_by_other :: "entry list \<Rightarrow> waiver \<Rightarrow> bool" where
  "approved_by_other L x =
    (\<exists>u t. Approved (wv_id x) u t \<in> set L \<and> t < wv_expires_at x \<and> user_role u = PStr ''ADMIN''
       \<and> other_person (wv_requested_by_actor x) (user_id u))"

definition waiver_ok :: "entry list \<Rightarrow> waiver \<Rightarrow> bool" where
  "waiver_ok L x =
    ((\<exists>u. Requested (wv_id x) u \<in> set L \<and> wv_requested_by_actor x = user_id u)
     \<and> (wv_status x = X_ACTIVE \<longrightarrow> approved_by_other L x))"

lemma waiver_ok_mono: "waiver_ok L x \<Longrightarrow> set L \<subseteq> set L' \<Longrightarrow> waiver_ok L' x"
  unfolding waiver_ok_def approved_by_other_def by blast

lemma waiver_ok_cong:
  "wv_id y = wv_id x \<Longrightarrow> wv_requested_by_actor y = wv_requested_by_actor x \<Longrightarrow> wv_expires_at y = wv_expires_at x \<Longrightarrow>
     waiver_ok L x \<Longrightarrow> wv_status y = X_ACTIVE \<longrightarrow> wv_status x = X_ACTIVE \<or> approved_by_other L y \<Longrightarrow> waiver_ok L y"
  unfolding waiver_ok_def approved_by_other_def by auto

end
