(* ===== verification/WaiverProps.thy ===== *)
theory WaiverProps
  imports WaiverLaws
begin

text \<open>
  The properties of exceptions and incidents: a waived verdict rests on the approval of an administrator other than the
  one who asked, closed incidents stay closed whatever happens, and what an approval closes.
\<close>

section \<open>The invariant\<close>

definition waivers_ok :: "waiver_world \<Rightarrow> bool" where
  "waivers_ok x = (\<forall>r \<in> set (ws_waivers (fst x)). waiver_ok (snd x) r)"

lemma waivers_ok_same:
  "waivers_ok (ws, L) \<Longrightarrow> ws_waivers ws' = ws_waivers ws \<Longrightarrow> set L \<subseteq> set L' \<Longrightarrow> waivers_ok (ws', L')"
  using waiver_ok_mono by (fastforce simp: waivers_ok_def)

lemma waivers_ok_update:
  assumes "waivers_ok (ws, L)" and "\<And>r. p r \<Longrightarrow> r \<in> set (ws_waivers ws) \<Longrightarrow> waiver_ok L r \<Longrightarrow> waiver_ok L' (f r)" and "set L \<subseteq> set L'"
  shows "waivers_ok (ws\<lparr>ws_waivers := sql_update p f (ws_waivers ws)\<rparr>, L')"
proof -
  have "\<forall>r \<in> set (sql_update p f rs). waiver_ok L' r" if "\<forall>r \<in> set rs. r \<in> set (ws_waivers ws) \<and> waiver_ok L r" for rs
    using that assms(2,3) waiver_ok_mono by (induction rs) auto
  from this [of "ws_waivers ws"] assms(1) show ?thesis by (simp add: waivers_ok_def)
qed

lemma get_waiver_only:
  assumes "get_waiver i ws = Inr x"
  shows "x \<in> set (ws_waivers ws) \<and> wv_id x = i" and "r \<in> set (ws_waivers ws) \<Longrightarrow> wv_id r = i \<Longrightarrow> r = x"
proof -
  from assms have one: "filter (\<lambda>r. wv_id r = i) (ws_waivers ws) = [x]"
    by (auto simp: get_waiver_def sql_one_def sum_bind_Inr_iff split: list.splits option.splits)
  then have "set (filter (\<lambda>r. wv_id r = i) (ws_waivers ws)) = {x}" by simp
  then show "x \<in> set (ws_waivers ws) \<and> wv_id x = i" and "r \<in> set (ws_waivers ws) \<Longrightarrow> wv_id r = i \<Longrightarrow> r = x" by auto
qed

lemma approve_exception_cases:
  assumes "approve_exception cp now u i ws = Inr ws'"
  obtains x where "get_waiver i ws = Inr x" "wv_status x = X_PENDING" "now < wv_expires_at x" "user_role u = PStr ''ADMIN''"
    "other_person (wv_requested_by_actor x) (user_id u)"
    "ws' = set_waiver i (\<lambda>x. x\<lparr>wv_status := X_ACTIVE, wv_approved_by := safe_user_uuid (user_id u), wv_approved_at := Some now,
       wv_updated_at := now\<rparr>) (ws\<lparr>ws_db := close_covered_drift cp x (safe_user_uuid (user_id u)) (ws_db ws)\<rparr>)"
proof -
  from assms obtain x where x: "get_waiver i ws = Inr x" "wv_status x = X_PENDING" "\<not> wv_expires_at x \<le> now"
      "\<not> requested_by_approver x (user_id u)" "has_permission u ''compliance.exceptions.approve''"
    and ws': "ws' = set_waiver i (\<lambda>x. x\<lparr>wv_status := X_ACTIVE, wv_approved_by := safe_user_uuid (user_id u), wv_approved_at := Some now,
       wv_updated_at := now\<rparr>) (ws\<lparr>ws_db := close_covered_drift cp x (safe_user_uuid (user_id u)) (ws_db ws)\<rparr>)"
    by (auto simp: approve_exception_def sum_bind_Inr_iff require_permission_iff split: if_splits)
  from x(5) have "user_role u = PStr ''ADMIN''" by (simp add: has_permission_def administrators_only)
  moreover from x(4) have "other_person (wv_requested_by_actor x) (user_id u)"
    by (auto simp: requested_by_approver_def other_person_def split: option.splits)
  ultimately show ?thesis using that x(1-3) ws' by simp
qed

lemma waivers_ok_step:
  assumes "drift_step w cp x y" and "waivers_ok x"
  shows "waivers_ok y"
  using assms
proof (induction rule: drift_step.induct)
  case (request i now u wc ws ws' L)
  then obtain r where r: "ws_waivers ws' = ws_waivers ws @ [r]" "wv_id r = i" "wv_requested_by_actor r = user_id u" "wv_status r = X_PENDING"
    by (auto simp: create_exception_def sum_bind_Inr_iff require_permission_iff split: if_splits)
  then have "waiver_ok (Requested i u # L) r" by (auto simp: waiver_ok_def)
  with request r(1) waiver_ok_mono [OF _ set_subset_Cons] show ?case by (auto simp: waivers_ok_def)
next
  case (approve now u i ws ws' L)
  from approve(1) obtain x where x: "get_waiver i ws = Inr x" "now < wv_expires_at x" "user_role u = PStr ''ADMIN''"
      "other_person (wv_requested_by_actor x) (user_id u)"
    and ws': "ws' = set_waiver i (\<lambda>x. x\<lparr>wv_status := X_ACTIVE, wv_approved_by := safe_user_uuid (user_id u), wv_approved_at := Some now,
       wv_updated_at := now\<rparr>) (ws\<lparr>ws_db := close_covered_drift cp x (safe_user_uuid (user_id u)) (ws_db ws)\<rparr>)"
    by (rule approve_exception_cases)
  let ?f = "\<lambda>x. x\<lparr>wv_status := X_ACTIVE, wv_approved_by := safe_user_uuid (user_id u), wv_approved_at := Some now, wv_updated_at := now\<rparr>"
  have "approved_by_other (Approved i u now # L) (?f x)"
    unfolding approved_by_other_def using x get_waiver_only(1) [OF x(1)] by auto
  then have "waiver_ok (Approved i u now # L) (?f r)" if "wv_id r = i" "r \<in> set (ws_waivers ws)" "waiver_ok L r" for r
    using get_waiver_only(2) [OF x(1) that(2,1)] that(3) by (auto simp: waiver_ok_def)
  then have "waivers_ok (ws\<lparr>ws_waivers := sql_update (\<lambda>r. wv_id r = i) ?f (ws_waivers ws)\<rparr>, Approved i u now # L)"
    by (intro waivers_ok_update [OF approve(2)]) auto
  then show ?case by (simp add: waivers_ok_def ws' set_waiver_def)
next
  case (revoke now u i ws ws' L)
  then have "ws' = set_waiver i (\<lambda>x. x\<lparr>wv_status := X_REVOKED, wv_updated_at := now\<rparr>) ws"
    by (auto simp: revoke_exception_def sum_bind_Inr_iff split: if_splits)
  with revoke(2) show ?case
    unfolding set_waiver_def by (auto intro!: waivers_ok_update simp: waiver_ok_def)
next
  case (expire ws L now)
  then show ?case unfolding expire_exceptions_def by (auto intro!: waivers_ok_update simp: waiver_ok_def)
next
  case (cascade ws L keep)
  then show ?case by (simp add: waivers_ok_def)
qed (auto elim!: waivers_ok_same simp: with_db_def)

lemma waivers_ok_reach: "(drift_step w cp)\<^sup>*\<^sup>* x y \<Longrightarrow> waivers_ok x \<Longrightarrow> waivers_ok y"
  by (induction rule: rtranclp_induct) (auto intro: waivers_ok_step)

section \<open>Properties\<close>

text \<open>C34. A failed verdict is waived only by an exception for that rule and agent that has not expired, that somebody asked
  for, and that an administrator with another identity approved before it expired, whatever else happened in between.\<close>

theorem waived_verdicts_were_approved:
  assumes "(drift_step w cp)\<^sup>*\<^sup>* (ws0, []) (ws, L)" and "ws_waivers ws0 = []"
    and "match_exception scope_matches now rule_id agent_id ws = Some i"
  shows "\<exists>x u0 u t. x \<in> set (ws_waivers ws) \<and> wv_id x = i \<and> wv_rule x = rule_id
    \<and> (case wv_agent x of Some a \<Rightarrow> a = agent_id | None \<Rightarrow> scope_matches (wv_selector x) agent_id)
    \<and> Requested i u0 \<in> set L \<and> Approved i u t \<in> set L \<and> t < wv_expires_at x \<and> now < wv_expires_at x
    \<and> user_role u = PStr ''ADMIN'' \<and> other_person (user_id u0) (user_id u)"
proof -
  from assms(3) obtain x where x: "x \<in> set (ws_waivers ws)" "wv_status x = X_ACTIVE" "now < wv_expires_at x" "wv_rule x = rule_id"
      "wv_id x = i" "case wv_agent x of Some a \<Rightarrow> a = agent_id | None \<Rightarrow> scope_matches (wv_selector x) agent_id"
    by (auto simp: match_exception_def dest!: sql_first_SomeD)
  have "waivers_ok (ws, L)" using waivers_ok_reach [OF assms(1)] assms(2) by (simp add: waivers_ok_def)
  with x(1) have "waiver_ok L x" by (simp add: waivers_ok_def)
  with x(2,5) obtain u0 u t where "Requested i u0 \<in> set L" "wv_requested_by_actor x = user_id u0" "Approved i u t \<in> set L"
      "t < wv_expires_at x" "user_role u = PStr ''ADMIN''" "other_person (wv_requested_by_actor x) (user_id u)"
    by (auto simp: waiver_ok_def approved_by_other_def)
  with x show ?thesis by (intro exI [of _ x] exI [of _ u0] exI [of _ u] exI [of _ t]) simp
qed

text \<open>C35. An incident that is resolved, suppressed or closed by an exception keeps its place and its row: neither a plan that
  fails, nor a verification, nor the ingester that sees the deviation again, nor any route opens it again.\<close>

theorem closed_incidents_stay_closed:
  assumes "(drift_step w cp)\<^sup>*\<^sup>* (ws, L) (ws', L')" and "n < length (drifts (ws_db ws))"
    and "d_status (drifts (ws_db ws) ! n) \<in> {D_RESOLVED, D_SUPPRESSED, D_EXCEPTION}"
  shows "n < length (drifts (ws_db ws')) \<and> drifts (ws_db ws') ! n = drifts (ws_db ws) ! n"
proof -
  from drift_reach_kept [OF assms(1)] have "drift_kept (drifts (ws_db ws)) (drifts (ws_db ws'))" by simp
  from drift_kept_nth [OF this assms(2)] assms(3) show ?thesis by (auto simp: kept_def drift_open_def)
qed

text \<open>C36. An approval makes the exception active and closes, as covered by an exception, every open incident of the domain of
  its rule on the agents it names; all other incidents stay as they are, and an exception with a selector closes none. A
  plan the automatic mode drafts for a covered agent afterwards refers to no incident.\<close>

theorem approval_closes_covered_incidents:
  assumes "approve_exception cp now u i ws = Inr ws'" and "get_waiver i ws = Inr x"
    and "sql_get cr_id (cp_rules cp) (wv_rule x) = Some rule"
  shows "\<exists>y. get_waiver i ws' = Inr y \<and> wv_status y = X_ACTIVE \<and> wv_expires_at y = wv_expires_at x
    \<and> length (drifts (ws_db ws')) = length (drifts (ws_db ws))
    \<and> (\<forall>n. n < length (drifts (ws_db ws)) \<longrightarrow>
         (if covers_drift x (cr_domain rule) (drifts (ws_db ws) ! n) \<and> \<not> (wv_agent x = None \<and> wv_selector x \<noteq> [])
          then d_status (drifts (ws_db ws') ! n) = D_EXCEPTION else drifts (ws_db ws') ! n = drifts (ws_db ws) ! n))
    \<and> (wv_agent x = Some (a_id a) \<or> wv_agent x = None \<and> wv_selector x = [] \<longrightarrow>
         ax_drift (automatic_action a rule tpl (ws_db ws')) = None)"
proof -
  let ?f = "\<lambda>x. x\<lparr>wv_status := X_ACTIVE, wv_approved_by := safe_user_uuid (user_id u), wv_approved_at := Some now, wv_updated_at := now\<rparr>"
  from assms(1,2) have ws': "ws' = set_waiver i ?f (ws\<lparr>ws_db := close_covered_drift cp x (safe_user_uuid (user_id u)) (ws_db ws)\<rparr>)"
    by (auto elim!: approve_exception_cases)
  have one: "filter (\<lambda>r. wv_id r = i) (ws_waivers ws) = [x]"
    using assms(2) by (auto simp: get_waiver_def sql_one_def sum_bind_Inr_iff split: list.splits option.splits)
  have eq: "filter (\<lambda>r. wv_id r = i) (sql_update (\<lambda>r. wv_id r = i) ?f rs) = map ?f (filter (\<lambda>r. wv_id r = i) rs)" for rs
    by (induction rs) auto
  have "get_waiver i ws' = Inr (?f x)" by (simp add: ws' set_waiver_def get_waiver_def sql_one_def eq [of "ws_waivers ws"] one)
  moreover have "open_drift (ws_db ws') (a_id a) (cr_domain rule) = None"
    if "wv_agent x = Some (a_id a) \<or> wv_agent x = None \<and> wv_selector x = []"
  proof -
    have "filter (\<lambda>e. d_agent e = a_id a \<and> d_domain e = cr_domain rule \<and> drift_open (d_status e))
        (sql_update (covers_drift x (cr_domain rule)) (\<lambda>e. e\<lparr>d_status := D_EXCEPTION, d_suppressed_by := s\<rparr>) ds) = []" for s ds
      using that by (induction ds) (auto simp: covers_drift_def drift_open_def)
    then show ?thesis using that assms(3) by (auto simp: open_drift_def ws' close_covered_drift_def)
  qed
  ultimately show ?thesis
    using assms(3) by (auto simp: ws' close_covered_drift_def sql_update_def automatic_action_def)
qed

section \<open>A small instance\<close>

definition toy_scope_rule :: compliance_rule where
  "toy_scope_rule = \<lparr>cr_id = ''r1'', cr_key = ''ssh_root'', cr_domain = ''ssh'', cr_status = ''ACTIVE''\<rparr>"

definition toy_rulebook :: compliance where
  "toy_rulebook = \<lparr>cp_rules = [toy_scope_rule], cp_sets = [], cp_templates = [], cp_evaluations = [], cp_categories = [], cp_projects = []\<rparr>"

definition toy_nowhere :: remedy_world where
  "toy_nowhere = \<lparr>rw_sha256 = (\<lambda>s. s), rw_wall = (\<lambda>_ t. Some t), rw_cron_prev = (\<lambda>_ _. None), rw_new_job = (\<lambda>_. ''j''),
     rw_new_plan = (\<lambda>_. ''p''), rw_new_action = (\<lambda>_ _. ''x'')\<rparr>"

definition toy_operator :: user where "toy_operator = [(''id'', PStr ''ann''), (''role'', PStr ''OPERATOR'')]"
definition toy_admin :: user where "toy_admin = [(''id'', PStr ''bob''), (''role'', PStr ''ADMIN'')]"

definition toy_drift :: drift_event where
  "toy_drift = \<lparr>d_id = ''d1'', d_agent = ''a1'', d_domain = ''ssh'', d_time = 1, d_status = D_IN_REMEDIATION, d_last_seen = Some 1,
     d_resolved_at = None, d_acknowledged_by = None, d_acknowledged_by_actor = None, d_acknowledged_at = None, d_suppressed_by = None\<rparr>"

definition toy_start :: waiver_state where
  "toy_start = \<lparr>ws_db = empty_db\<lparr>agents := [toy_agent\<lparr>a_id := ''a1''\<rparr>], drifts := [toy_drift]\<rparr>, ws_waivers = []\<rparr>"

definition toy_ask :: waiver_create where
  "toy_ask = \<lparr>wc_rule = ''r1'', wc_agent = Some ''a1'', wc_selector = [], wc_reason = ''vendor fix pending'', wc_owner = ''ops'', wc_expires_at = 100\<rparr>"

definition toy_pending :: waiver where
  "toy_pending = \<lparr>wv_id = ''w1'', wv_rule = ''r1'', wv_agent = Some ''a1'', wv_selector = [], wv_reason = ''vendor fix pending'',
     wv_owner = ''ops'', wv_requested_by = None, wv_requested_by_actor = Some ''ann'', wv_approved_by = None, wv_approved_at = None,
     wv_status = X_PENDING, wv_expires_at = 100, wv_created_at = 10, wv_updated_at = 10\<rparr>"

definition toy_asked :: waiver_state where "toy_asked = toy_start\<lparr>ws_waivers := [toy_pending]\<rparr>"

definition toy_waived :: waiver_state where
  "toy_waived = \<lparr>ws_db = (ws_db toy_start)\<lparr>drifts := [toy_drift\<lparr>d_status := D_EXCEPTION\<rparr>]\<rparr>,
     ws_waivers = [toy_pending\<lparr>wv_status := X_ACTIVE, wv_approved_at := Some 20, wv_updated_at := 20\<rparr>]\<rparr>"

lemma toy_request_made: "create_exception toy_rulebook ''w1'' 10 toy_operator toy_ask toy_start = Inr toy_asked"
  by code_simp

lemma toy_request_approved: "approve_exception toy_rulebook 20 toy_admin ''w1'' toy_asked = Inr toy_waived"
  by code_simp

lemma toy_path:
  "(drift_step toy_nowhere toy_rulebook)\<^sup>*\<^sup>* (toy_start, []) (toy_waived, [Approved ''w1'' toy_admin 20, Requested ''w1'' toy_operator])"
proof -
  have "drift_step toy_nowhere toy_rulebook (toy_start, []) (toy_asked, [Requested ''w1'' toy_operator])"
    by (rule drift_step.request [OF toy_request_made]) (simp add: toy_start_def)
  moreover have "drift_step toy_nowhere toy_rulebook (toy_asked, [Requested ''w1'' toy_operator])
      (toy_waived, [Approved ''w1'' toy_admin 20, Requested ''w1'' toy_operator])"
    by (rule drift_step.approve [OF toy_request_approved])
  ultimately show ?thesis by (meson converse_rtranclp_into_rtranclp rtranclp.rtrancl_refl)
qed

theorem waived_verdicts_were_approved_witness:
  "match_exception (\<lambda>_ _. False) 50 ''r1'' ''a1'' toy_waived = Some ''w1'' \<and> (\<exists>u0 u t.
     Requested ''w1'' u0 \<in> set [Approved ''w1'' toy_admin 20, Requested ''w1'' toy_operator] \<and> t < (100 :: int)
     \<and> Approved ''w1'' u t \<in> set [Approved ''w1'' toy_admin 20, Requested ''w1'' toy_operator] \<and> other_person (user_id u0) (user_id u))"
proof -
  have m: "match_exception (\<lambda>_ _. False) 50 ''r1'' ''a1'' toy_waived = Some ''w1''" by code_simp
  have e: "\<forall>x \<in> set (ws_waivers toy_waived). wv_expires_at x = 100" by (simp add: toy_waived_def toy_pending_def)
  from waived_verdicts_were_approved [OF toy_path _ m] e m show ?thesis by (fastforce simp: toy_start_def)
qed

theorem closed_incidents_stay_closed_witness:
  "drifts (record_drift 30 {''d1''} toy_drift (ws_db toy_waived)) ! 0 = toy_drift\<lparr>d_status := D_EXCEPTION\<rparr>
   \<and> length (drifts (record_drift 30 {''d1''} toy_drift (ws_db toy_waived))) = 2"
proof -
  have "(drift_step toy_nowhere toy_rulebook)\<^sup>*\<^sup>* (toy_waived, []) (with_db toy_waived (record_drift 30 {''d1''} toy_drift (ws_db toy_waived)), [])"
    by (rule r_into_rtranclp) (rule drift_step.observe)
  from closed_incidents_stay_closed [OF this, of 0] show ?thesis
    by (simp add: toy_waived_def with_db_def toy_drift_def record_drift_def)
qed

theorem approval_closes_covered_incidents_witness:
  "\<exists>y. get_waiver ''w1'' toy_waived = Inr y \<and> wv_status y = X_ACTIVE \<and> d_status (drifts (ws_db toy_waived) ! 0) = D_EXCEPTION"
proof -
  have "get_waiver ''w1'' toy_asked = Inr toy_pending" "sql_get cr_id (cp_rules toy_rulebook) (wv_rule toy_pending) = Some toy_scope_rule"
    by code_simp+
  moreover have "covers_drift toy_pending (cr_domain toy_scope_rule) (drifts (ws_db toy_asked) ! 0)" by code_simp
  moreover have "wv_agent toy_pending \<noteq> None" "0 < length (drifts (ws_db toy_asked))" by code_simp+
  ultimately show ?thesis
    using approval_closes_covered_incidents [OF toy_request_approved, of toy_pending toy_scope_rule undefined undefined] by fastforce
qed

end
