(* ===== verification/Paging.thy ===== *)
theory Paging
  imports Store "HOL-Library.Product_Lexorder" "HOL-Library.List_Lexorder" "HOL-Library.Char_ord"
begin

text \<open>
  Paged listings (\<open>schemas/common.py\<close>, \<open>api/v1/routers/compliance/_pagination.py\<close>): the cursor text with its base64
  coding, the key in it, and one page of a query that is ordered by time and identifier, newest first. Timestamps are the
  fields of a Python \<open>datetime\<close> in UTC. A decoded text outside ASCII is refused here, and so is any spelling of a time that
  \<open>isoformat\<close> does not write; the routes only hand out cursors of their own.
\<close>

section \<open>Base64\<close>

definition B64 :: string where
  "B64 = ''ABCDEFGHIJKLMNOPQRSTUVWXYZabcdefghijklmnopqrstuvwxyz0123456789-_''"

text \<open>\<open>base64.urlsafe_b64encode\<close> on bytes.\<close>

fun b64_encode :: "nat list \<Rightarrow> string" where
  "b64_encode [] = []"
| "b64_encode [a] = [B64 ! (a div 4), B64 ! (a mod 4 * 16), CHR ''='', CHR ''='']"
| "b64_encode [a, b] = [B64 ! (a div 4), B64 ! (a mod 4 * 16 + b div 16), B64 ! (b mod 16 * 4), CHR ''='']"
| "b64_encode (a # b # c # bs) =
    B64 ! (a div 4) # B64 ! (a mod 4 * 16 + b div 16) # B64 ! (b mod 16 * 4 + c div 64) # B64 ! (c mod 64) # b64_encode bs"

text \<open>The value of a character; both alphabets are read.\<close>

fun find_char :: "char \<Rightarrow> string \<Rightarrow> nat option" where
  "find_char c [] = None"
| "find_char c (x # xs) = (if x = c then Some 0 else map_option Suc (find_char c xs))"

definition b64_value :: "char \<Rightarrow> nat option" where
  "b64_value c = (if c = CHR ''+'' then Some 62 else if c = CHR ''/'' then Some 63 else find_char c B64)"

text \<open>\<open>binascii.a2b_base64\<close>: the position in the group of four, the bits left over and the padding seen; characters outside
  the alphabets are passed over, and a complete padding ends the input.\<close>

fun a2b_base64 :: "nat \<Rightarrow> nat \<Rightarrow> nat \<Rightarrow> string \<Rightarrow> nat list option" where
  "a2b_base64 pos left pads [] = (if pos = 0 then Some [] else None)"
| "a2b_base64 pos left pads (c # cs) =
    (if c = CHR ''='' then
       (if pos \<ge> 2 then (if pos + Suc pads \<ge> 4 then Some [] else a2b_base64 pos left (Suc pads) cs)
        else a2b_base64 pos left pads cs)
     else (case b64_value c of
         None \<Rightarrow> a2b_base64 pos left pads cs
       | Some v \<Rightarrow>
          if pos = 0 then a2b_base64 1 v 0 cs
          else if pos = 1 then map_option (Cons (left * 4 + v div 16)) (a2b_base64 2 (v mod 16) 0 cs)
          else if pos = 2 then map_option (Cons (left * 16 + v div 4)) (a2b_base64 3 (v mod 4) 0 cs)
          else map_option (Cons (left * 64 + v)) (a2b_base64 0 0 0 cs)))"

definition invalid_cursor :: exn where "invalid_cursor = HTTPException 400 ''Invalid cursor''"
definition malformed_cursor :: exn where "malformed_cursor = HTTPException 400 ''Malformed cursor''"

definition encode_cursor :: "string \<Rightarrow> string" where
  "encode_cursor s = b64_encode (map of_char s)"

definition decode_cursor :: "string \<Rightarrow> exn + string" where
  "decode_cursor s =
    (case a2b_base64 0 0 0 s of
       None \<Rightarrow> Inl invalid_cursor
     | Some bs \<Rightarrow> if list_all (\<lambda>b. b < 128) bs then Inr (map char_of bs) else Inl invalid_cursor)"

section \<open>Times as text\<close>

record datetime =
  dt_year :: nat
  dt_month :: nat
  dt_day :: nat
  dt_hour :: nat
  dt_minute :: nat
  dt_second :: nat
  dt_micro :: nat

type_synonym moment = "nat \<times> nat \<times> nat \<times> nat \<times> nat \<times> nat \<times> nat"

definition moment :: "datetime \<Rightarrow> moment" where
  "moment t = (dt_year t, dt_month t, dt_day t, dt_hour t, dt_minute t, dt_second t, dt_micro t)"

definition leap_year :: "nat \<Rightarrow> bool" where
  "leap_year y = (y mod 4 = 0 \<and> (y mod 100 \<noteq> 0 \<or> y mod 400 = 0))"

definition days_in_month :: "nat \<Rightarrow> nat \<Rightarrow> nat" where
  "days_in_month y m = (if m = 2 then (if leap_year y then 29 else 28) else if m \<in> {4, 6, 9, 11} then 30 else 31)"

definition valid_datetime :: "datetime \<Rightarrow> bool" where
  "valid_datetime t = (1 \<le> dt_year t \<and> dt_year t \<le> 9999 \<and> 1 \<le> dt_month t \<and> dt_month t \<le> 12
     \<and> 1 \<le> dt_day t \<and> dt_day t \<le> days_in_month (dt_year t) (dt_month t)
     \<and> dt_hour t \<le> 23 \<and> dt_minute t \<le> 59 \<and> dt_second t \<le> 59 \<and> dt_micro t \<le> 999999)"

fun digits :: "nat \<Rightarrow> nat \<Rightarrow> string" where
  "digits 0 n = []"
| "digits (Suc w) n = digits w (n div 10) @ [char_of (48 + n mod 10)]"

definition isoformat :: "datetime \<Rightarrow> string" where
  "isoformat t =
    digits 4 (dt_year t) @ ''-'' @ digits 2 (dt_month t) @ ''-'' @ digits 2 (dt_day t) @ ''T''
    @ digits 2 (dt_hour t) @ '':'' @ digits 2 (dt_minute t) @ '':'' @ digits 2 (dt_second t)
    @ (if dt_micro t = 0 then [] else ''.'' @ digits 6 (dt_micro t)) @ ''+00:00''"

text \<open>A number of a given width, and a text that must come next.\<close>

fun read_digits :: "nat \<Rightarrow> nat \<Rightarrow> string \<Rightarrow> (nat \<times> string) option" where
  "read_digits 0 n s = Some (n, s)"
| "read_digits (Suc w) n [] = None"
| "read_digits (Suc w) n (c # s) =
    (if 48 \<le> (of_char c :: nat) \<and> (of_char c :: nat) \<le> 57 then read_digits w (n * 10 + (of_char c - 48)) s else None)"

fun expect :: "string \<Rightarrow> string \<Rightarrow> string option" where
  "expect [] s = Some s"
| "expect (x # xs) [] = None"
| "expect (x # xs) (c # s) = (if c = x then expect xs s else None)"

definition number_after :: "string \<Rightarrow> nat \<Rightarrow> string \<Rightarrow> (nat \<times> string) option" where
  "number_after sep w s = Option.bind (expect sep s) (read_digits w 0)"

definition read_micro :: "string \<Rightarrow> (nat \<times> string) option" where
  "read_micro s = (case s of c # _ \<Rightarrow> if c = CHR ''.'' then number_after ''.'' 6 s else Some (0, s) | [] \<Rightarrow> None)"

definition fromisoformat :: "string \<Rightarrow> datetime option" where
  "fromisoformat s =
    Option.bind (number_after '''' 4 s) (\<lambda>(y, s).
    Option.bind (number_after ''-'' 2 s) (\<lambda>(mo, s).
    Option.bind (number_after ''-'' 2 s) (\<lambda>(d, s).
    Option.bind (number_after ''T'' 2 s) (\<lambda>(h, s).
    Option.bind (number_after '':'' 2 s) (\<lambda>(mi, s).
    Option.bind (number_after '':'' 2 s) (\<lambda>(sc, s).
    Option.bind (read_micro s) (\<lambda>(us, s).
      let t = \<lparr>dt_year = y, dt_month = mo, dt_day = d, dt_hour = h, dt_minute = mi, dt_second = sc, dt_micro = us\<rparr>
      in if s = ''+00:00'' \<and> valid_datetime t then Some t else None)))))))"

section \<open>One page\<close>

text \<open>\<open>s.rsplit(sep, 1)\<close>, unpacked into two.\<close>

fun rsplit_once :: "char \<Rightarrow> string \<Rightarrow> (string \<times> string) option" where
  "rsplit_once sep [] = None"
| "rsplit_once sep (c # s) =
    (case rsplit_once sep s of
       Some (a, b) \<Rightarrow> Some (c # a, b)
     | None \<Rightarrow> if c = sep then Some ([], s) else None)"

definition cursor_key :: "string \<Rightarrow> exn + (datetime \<times> uuid)" where
  "cursor_key cursor =
    sum_bind (decode_cursor cursor) (\<lambda>s.
      case rsplit_once (CHR '':'') s of
        None \<Rightarrow> Inl malformed_cursor
      | Some (ts, tail) \<Rightarrow>
          (case (fromisoformat ts, uuid_parse tail) of
             (Some t, Some k) \<Rightarrow> Inr (t, k)
           | _ \<Rightarrow> Inl malformed_cursor))"

definition row_cursor :: "('r \<Rightarrow> datetime) \<Rightarrow> ('r \<Rightarrow> uuid) \<Rightarrow> 'r \<Rightarrow> string" where
  "row_cursor ts tie r = encode_cursor (isoformat (ts r) @ '':'' @ tie r)"

text \<open>The columns compare as the database does: the times in order, identifiers by their text.\<close>

definition row_before :: "('r \<Rightarrow> datetime) \<Rightarrow> ('r \<Rightarrow> uuid) \<Rightarrow> datetime \<times> uuid \<Rightarrow> 'r \<Rightarrow> bool" where
  "row_before ts tie k r =
    (moment (ts r) < moment (fst k) \<or> (moment (ts r) = moment (fst k) \<and> tie r < snd k))"

definition paginate_keyset ::
    "('r \<Rightarrow> datetime) \<Rightarrow> ('r \<Rightarrow> uuid) \<Rightarrow> string option \<Rightarrow> nat \<Rightarrow> 'r list \<Rightarrow> exn + ('r list \<times> string option)" where
  "paginate_keyset ts tie cursor limit rows =
    sum_bind (case cursor of
        None \<Rightarrow> Inr rows
      | Some c \<Rightarrow> if c = [] then Inr rows
          else sum_bind (cursor_key c) (\<lambda>k. Inr (filter (row_before ts tie k) rows)))
      (\<lambda>rows. let found = take (limit + 1) rows; items = take limit found
        in Inr (items, if length found > limit \<and> items \<noteq> [] then Some (row_cursor ts tie (last items)) else None))"

text \<open>A client that follows the cursors, with a bound on the requests it makes.\<close>

fun follow :: "nat \<Rightarrow> ('r \<Rightarrow> datetime) \<Rightarrow> ('r \<Rightarrow> uuid) \<Rightarrow> nat \<Rightarrow> string option \<Rightarrow> 'r list \<Rightarrow> (exn + 'r list) option" where
  "follow 0 ts tie limit cursor rows = None"
| "follow (Suc n) ts tie limit cursor rows =
    (case paginate_keyset ts tie cursor limit rows of
       Inl e \<Rightarrow> Some (Inl e)
     | Inr (items, None) \<Rightarrow> Some (Inr items)
     | Inr (items, Some c) \<Rightarrow>
         (case follow n ts tie limit (Some c) rows of
            None \<Rightarrow> None
          | Some (Inl e) \<Rightarrow> Some (Inl e)
          | Some (Inr rest) \<Rightarrow> Some (Inr (items @ rest))))"

end
