(* ===== verification/PagingProps.thy ===== *)
theory PagingProps
  imports Paging
begin

text \<open>
  What the paged listings give: a cursor is read back as the key it was made from, and a client that follows the cursors
  gets every row of the listing once and in its order, after at most one request more than there are rows.
\<close>

section \<open>Base64\<close>

lemma b64_table: "list_all (\<lambda>n. b64_value (B64 ! n) = Some n \<and> B64 ! n \<noteq> CHR ''='') [0..<64]"
  by code_simp

lemma b64_value_nth [simp]: "n < 64 \<Longrightarrow> b64_value (B64 ! n) = Some n" and b64_nth_pad [simp]: "n < 64 \<Longrightarrow> B64 ! n \<noteq> CHR ''=''"
proof -
  have "\<forall>n \<in> {0..<64}. b64_value (B64 ! n) = Some n \<and> B64 ! n \<noteq> CHR ''=''"
    using b64_table by (simp only: list_all_iff set_upt)
  then show "n < 64 \<Longrightarrow> b64_value (B64 ! n) = Some n" "n < 64 \<Longrightarrow> B64 ! n \<noteq> CHR ''=''" by (metis atLeastLessThan_iff le0)+
qed

lemma sextets:
  fixes a b :: nat
  assumes "a < 256" "b < 256"
  shows "a div 4 < 64" "a mod 4 * 16 + b div 16 < 64" "b mod 16 * 4 + a div 64 < 64" "a mod 64 < 64" "a mod 4 * 16 < 64" "b mod 16 * 4 < 64"
    "a div 4 * 4 + (a mod 4 * 16 + b div 16) div 16 = a" "(a mod 4 * 16 + b div 16) mod 16 = b div 16"
    "b div 16 * 16 + (b mod 16 * 4 + a div 64) div 4 = b" "(b mod 16 * 4 + a div 64) mod 4 = a div 64" "a div 64 * 64 + a mod 64 = a"
    "b div 16 < 16" "a div 64 < 4"
    "a div 4 * 4 + (a mod 4 * 16) div 16 = a" "b div 16 * 16 + (b mod 16 * 4) div 4 = b"
proof -
  have small: "b div 16 < 16" "a div 64 < 4" "a div 4 < 64" using assms by (simp_all add: div_less_iff_less_mult)
  have mods: "a mod 4 < 4" "b mod 16 < 16" "a mod 64 < 64" by simp_all
  show "a div 4 < 64" "b div 16 < 16" "a div 64 < 4" "a mod 64 < 64" by (fact small mods)+
  show "a mod 4 * 16 + b div 16 < 64" "b mod 16 * 4 + a div 64 < 64" "a mod 4 * 16 < 64" "b mod 16 * 4 < 64"
    using small mods by linarith+
  show "(a mod 4 * 16 + b div 16) mod 16 = b div 16" "(b mod 16 * 4 + a div 64) mod 4 = a div 64" using small by simp_all
  show "a div 4 * 4 + (a mod 4 * 16 + b div 16) div 16 = a" "b div 16 * 16 + (b mod 16 * 4 + a div 64) div 4 = b" using small by simp_all
  show "a div 64 * 64 + a mod 64 = a" "a div 4 * 4 + (a mod 4 * 16) div 16 = a" "b div 16 * 16 + (b mod 16 * 4) div 4 = b" by simp_all
qed

lemma a2b_b64_encode: "list_all (\<lambda>b. b < 256) bs \<Longrightarrow> a2b_base64 0 left pads (b64_encode bs) = Some bs"
proof (induction bs arbitrary: left pads rule: b64_encode.induct)
  case (2 a)
  then show ?case by (simp add: sextets [of a a])
next
  case (3 a b)
  then show ?case by (simp add: sextets [of a b] sextets [of b b])
next
  case (4 a b c bs)
  then show ?case by (simp add: sextets [of a b] sextets [of c b])
qed simp

definition ascii :: "string \<Rightarrow> bool" where "ascii s = list_all (\<lambda>c. (of_char c :: nat) < 128) s"

lemma ascii_append [simp]: "ascii (a @ b) = (ascii a \<and> ascii b)"
  by (simp add: ascii_def)

lemma decode_encode_cursor: "ascii s \<Longrightarrow> decode_cursor (encode_cursor s) = Inr s"
  by (simp add: decode_cursor_def encode_cursor_def ascii_def a2b_b64_encode list_all_iff comp_def)

section \<open>Times\<close>

lemma read_digits_add: "read_digits (a + b) n s = Option.bind (read_digits a n s) (\<lambda>(k, s). read_digits b k s)"
  by (induction a n s rule: read_digits.induct) auto

lemma read_digits_digits: "m < 10 ^ w \<Longrightarrow> read_digits w n (digits w m @ s) = Some (n * 10 ^ w + m, s)"
proof (induction w arbitrary: m s)
  case (Suc w)
  have "read_digits (Suc w) n (digits (Suc w) m @ s)
      = Option.bind (read_digits w n (digits w (m div 10) @ char_of (48 + m mod 10) # s)) (\<lambda>(k, s). read_digits 1 k s)"
    using read_digits_add [of w 1 n] by simp
  also have "\<dots> = read_digits 1 (n * 10 ^ w + m div 10) (char_of (48 + m mod 10) # s)"
    using Suc by (simp add: div_less_iff_less_mult mult.commute)
  also have "\<dots> = Some (n * 10 ^ Suc w + m, s)"
    by (simp add: of_char_of algebra_simps)
  finally show ?case .
qed simp

lemma expect_append [simp]: "expect sep (sep @ s) = Some s"
  by (induction sep) auto

lemma number_after_digits: "m < 10 ^ w \<Longrightarrow> number_after sep w (sep @ digits w m @ s) = Some (m, s)"
  by (simp add: number_after_def read_digits_digits)

lemma ascii_digits [simp]: "ascii (digits w n)"
  by (induction w n rule: digits.induct) (auto simp: ascii_def of_char_of)

lemma ascii_Cons [simp]: "ascii (c # s) = ((of_char c :: nat) < 128 \<and> ascii s)" and ascii_Nil [simp]: "ascii []"
  by (simp_all add: ascii_def)

lemma ascii_isoformat: "ascii (isoformat t)"
  by (simp add: isoformat_def)

lemma fromisoformat_isoformat:
  assumes "valid_datetime t"
  shows "fromisoformat (isoformat t) = Some t"
proof -
  have b: "dt_year t < 10 ^ 4" "dt_month t < 10 ^ 2" "dt_day t < 10 ^ 2" "dt_hour t < 10 ^ 2" "dt_minute t < 10 ^ 2"
      "dt_second t < 10 ^ 2" "dt_micro t < 10 ^ 6"
    using assms by (auto simp: valid_datetime_def days_in_month_def split: if_splits)
  have micro: "read_micro ((if dt_micro t = 0 then [] else ''.'' @ digits 6 (dt_micro t)) @ ''+00:00'') = Some (dt_micro t, ''+00:00'')"
    using number_after_digits [OF b(7), of "''.''"] by (simp add: read_micro_def)
  have year: "number_after '''' 4 (digits 4 (dt_year t) @ s) = Some (dt_year t, s)" for s
    using number_after_digits [OF b(1), of "''''"] by simp
  show ?thesis
    unfolding fromisoformat_def isoformat_def
    by (simp only: append_assoc year number_after_digits [OF b(2)] number_after_digits [OF b(3)] number_after_digits [OF b(4)]
        number_after_digits [OF b(5)] number_after_digits [OF b(6)] micro Option.bind.bind_lunit prod.case Let_def)
      (use assms in \<open>cases t; simp\<close>)
qed

section \<open>The key of a cursor\<close>

definition canonical_uuid :: "uuid \<Rightarrow> bool" where "canonical_uuid u = (uuid_parse u = Some u)"

lemma hex_lower: "is_hex c \<Longrightarrow> to_lower c \<noteq> CHR '':'' \<and> (of_char (to_lower c) :: nat) < 128"
proof -
  assume "is_hex c"
  then have "(of_char (to_lower c) :: nat) \<in> {48..57} \<union> {97..102}"
    by (auto simp: is_hex_def is_digit_def to_lower_def is_upper_def of_char_of split: if_splits)
  then show ?thesis by auto
qed

lemma canonical_uuid_chars:
  assumes "canonical_uuid u"
  shows "CHR '':'' \<notin> set u \<and> ascii u"
proof -
  from assms obtain h where h: "list_all is_hex h" and u: "u = take 8 (map to_lower h) @ ''-'' @ take 4 (drop 8 (map to_lower h)) @ ''-''
      @ take 4 (drop 12 (map to_lower h)) @ ''-'' @ take 4 (drop 16 (map to_lower h)) @ ''-'' @ drop 20 (map to_lower h)"
    unfolding canonical_uuid_def uuid_parse_def Let_def by (metis option.distinct(1) option.inject)
  have "set u \<subseteq> insert (CHR ''-'') (set (map to_lower h))"
    unfolding u by (auto dest: in_set_takeD in_set_dropD simp del: set_map)
  with h hex_lower show ?thesis by (fastforce simp: ascii_def list_all_iff)
qed

lemma rsplit_once_append: "sep \<notin> set b \<Longrightarrow> rsplit_once sep b = None \<and> rsplit_once sep (a @ sep # b) = Some (a, b)"
proof -
  assume "sep \<notin> set b"
  then have none: "rsplit_once sep b = None" by (induction b) auto
  moreover have "rsplit_once sep (a @ sep # b) = Some (a, b)" by (induction a) (auto simp: none)
  ultimately show ?thesis by simp
qed

text \<open>C38. The cursor of a row is read back as its time and its identifier, for every valid time and every identifier in the
  form the database returns.\<close>

theorem cursor_round_trip:
  assumes "valid_datetime (ts r)" and "canonical_uuid (tie r)"
  shows "cursor_key (row_cursor ts tie r) = Inr (ts r, tie r)"
proof -
  have "ascii (isoformat (ts r) @ '':'' @ tie r)"
    using canonical_uuid_chars [OF assms(2)] by (simp add: ascii_isoformat)
  then show ?thesis
    using assms canonical_uuid_chars [OF assms(2)] rsplit_once_append [of "CHR '':''" "tie r" "isoformat (ts r)"]
    by (simp add: cursor_key_def row_cursor_def decode_encode_cursor fromisoformat_isoformat canonical_uuid_def)
qed

section \<open>Following the cursors\<close>

definition row_key :: "('r \<Rightarrow> datetime) \<Rightarrow> ('r \<Rightarrow> uuid) \<Rightarrow> 'r \<Rightarrow> moment \<times> uuid" where
  "row_key ts tie r = (moment (ts r), tie r)"

definition newest_first_listing :: "('r \<Rightarrow> datetime) \<Rightarrow> ('r \<Rightarrow> uuid) \<Rightarrow> 'r list \<Rightarrow> bool" where
  "newest_first_listing ts tie rows = sorted_wrt (\<lambda>a b. row_key ts tie b < row_key ts tie a) rows"

lemma row_before_key: "row_before ts tie (ts x, tie x) r = (row_key ts tie r < row_key ts tie x)"
  by (auto simp: row_before_def row_key_def)

lemma filter_after:
  assumes "newest_first_listing ts tie (done @ x # rest)"
  shows "filter (row_before ts tie (ts x, tie x)) (done @ x # rest) = rest"
proof -
  from assms have "\<forall>r \<in> set done. \<not> row_key ts tie r < row_key ts tie x" "\<forall>r \<in> set rest. row_key ts tie r < row_key ts tie x"
    unfolding newest_first_listing_def by (auto simp: sorted_wrt_append)
  then show ?thesis by (simp add: row_before_key filter_empty_conv filter_id_conv)
qed

lemma b64_encode_nonempty: "bs \<noteq> [] \<Longrightarrow> b64_encode bs \<noteq> []"
  by (cases bs rule: b64_encode.cases) auto

lemma row_cursor_nonempty [simp]: "row_cursor ts tie r \<noteq> []"
proof -
  have "isoformat (ts r) \<noteq> []" by (simp add: isoformat_def)
  then show ?thesis by (simp add: row_cursor_def encode_cursor_def b64_encode_nonempty)
qed

lemma follow_rest:
  assumes rows: "newest_first_listing ts tie (done @ x # rest)" and limit: "1 \<le> limit" and fuel: "length rest < n"
    and ok: "\<forall>r \<in> set (x # rest). valid_datetime (ts r) \<and> canonical_uuid (tie r)"
  shows "follow n ts tie limit (Some (row_cursor ts tie x)) (done @ x # rest) = Some (Inr rest)"
  using rows fuel ok
proof (induction n arbitrary: x rest "done")
  case (Suc n)
  from Suc.prems(3) have "cursor_key (row_cursor ts tie x) = Inr (ts x, tie x)" by (intro cursor_round_trip) auto
  then have page: "paginate_keyset ts tie (Some (row_cursor ts tie x)) limit (done @ x # rest)
      = Inr (take limit rest, if length rest > limit then Some (row_cursor ts tie (last (take limit rest))) else None)"
    using limit unfolding paginate_keyset_def
    by (cases "limit < length rest") (auto simp: filter_after [OF Suc.prems(1)] Let_def min_def simp del: filter.simps filter_append)
  show ?case
  proof (cases "length rest > limit")
    case False
    then show ?thesis by (simp add: page)
  next
    case True
    define y where "y = last (take limit rest)"
    have split: "take limit rest = butlast (take limit rest) @ [y]"
      unfolding y_def by (rule append_butlast_last_id [symmetric]) (use True limit in auto)
    have all: "done @ x # rest = (done @ x # butlast (take limit rest)) @ y # drop limit rest"
      using split append_take_drop_id [of limit rest] by (metis append.assoc append_Cons append_Nil)
    have "set (y # drop limit rest) \<subseteq> set rest"
      using split set_take_subset [of limit rest] set_drop_subset [of limit rest] by (metis in_set_conv_decomp insert_subset list.simps(15) subsetD)
    then have "follow n ts tie limit (Some (row_cursor ts tie y)) ((done @ x # butlast (take limit rest)) @ y # drop limit rest) = Some (Inr (drop limit rest))"
    proof (intro Suc.IH)
      show "newest_first_listing ts tie ((done @ x # butlast (take limit rest)) @ y # drop limit rest)"
        unfolding all [symmetric] by (rule Suc.prems(1))
    qed (use Suc.prems True limit in auto)
    then have "follow n ts tie limit (Some (row_cursor ts tie y)) (done @ x # rest) = Some (Inr (drop limit rest))"
      unfolding all [symmetric] .
    then show ?thesis using True by (simp add: page y_def [symmetric])
  qed
qed simp

text \<open>C37. On a listing ordered by time and identifier with no two equal keys, following the cursors ends after at most one
  request more than there are rows and gives exactly the rows, in order; no page is longer than the limit.\<close>

theorem pages_give_the_listing:
  assumes "newest_first_listing ts tie rows" and "1 \<le> limit" and "\<forall>r \<in> set rows. valid_datetime (ts r) \<and> canonical_uuid (tie r)"
  shows "follow (Suc (length rows)) ts tie limit None rows = Some (Inr rows)
    \<and> (\<forall>cursor items nxt. paginate_keyset ts tie cursor limit rows = Inr (items, nxt) \<longrightarrow> length items \<le> limit \<and> set items \<subseteq> set rows)"
proof -
  have pages: "length items \<le> limit \<and> set items \<subseteq> set rows" if "paginate_keyset ts tie cursor limit rows = Inr (items, nxt)"
    for cursor items nxt
    using that by (auto simp: paginate_keyset_def Let_def sum_bind_Inr_iff split: option.splits if_splits dest!: in_set_takeD)
  have "follow (Suc (length rows)) ts tie limit None rows = Some (Inr rows)"
  proof (cases "length rows > limit")
    case False
    then show ?thesis by (simp add: paginate_keyset_def Let_def)
  next
    case True
    define y where "y = last (take limit rows)"
    have split: "take limit rows = butlast (take limit rows) @ [y]"
      unfolding y_def by (rule append_butlast_last_id [symmetric]) (use True assms(2) in auto)
    have all: "rows = butlast (take limit rows) @ y # drop limit rows"
      using split append_take_drop_id [of limit rows] by (metis append.assoc append_Cons append_Nil)
    have page: "paginate_keyset ts tie None limit rows = Inr (take limit rows, Some (row_cursor ts tie y))"
      using True assms(2) by (auto simp: paginate_keyset_def Let_def min_def y_def)
    have "follow (length rows) ts tie limit (Some (row_cursor ts tie y)) (butlast (take limit rows) @ y # drop limit rows) = Some (Inr (drop limit rows))"
    proof (rule follow_rest)
      show "newest_first_listing ts tie (butlast (take limit rows) @ y # drop limit rows)" using assms(1) all by simp
      show "length (drop limit rows) < length rows" using True assms(2) by simp
      have "set (y # drop limit rows) \<subseteq> set rows" by (metis all append_is_Nil_conv set_append Un_upper2)
      then show "\<forall>r \<in> set (y # drop limit rows). valid_datetime (ts r) \<and> canonical_uuid (tie r)" using assms(3) by blast
    qed (rule assms(2))
    then show ?thesis by (simp add: page all [symmetric])
  qed
  with pages show ?thesis by blast
qed

definition toy_moment :: "nat \<Rightarrow> nat \<Rightarrow> datetime" where
  "toy_moment s us = \<lparr>dt_year = 2024, dt_month = 2, dt_day = 29, dt_hour = 23, dt_minute = 59, dt_second = s, dt_micro = us\<rparr>"

definition toy_uuid :: "char \<Rightarrow> uuid" where
  "toy_uuid c = c # ''0000000-0000-0000-0000-000000000000''"

definition toy_listing :: "(datetime \<times> uuid) list" where
  "toy_listing = [(toy_moment 7 0, toy_uuid (CHR ''b'')), (toy_moment 7 0, toy_uuid (CHR ''a'')), (toy_moment 6 999999, toy_uuid (CHR ''c''))]"

lemma toy_moment_ok: "s \<le> 59 \<Longrightarrow> us \<le> 999999 \<Longrightarrow> valid_datetime (toy_moment s us)"
  by (simp add: toy_moment_def valid_datetime_def days_in_month_def leap_year_def)

lemma toy_uuid_ok: "canonical_uuid (toy_uuid (CHR ''a''))" "canonical_uuid (toy_uuid (CHR ''b''))" "canonical_uuid (toy_uuid (CHR ''c''))"
  by (simp_all add: canonical_uuid_def toy_uuid_def uuid_parse_def strip_braces_def is_hex_def is_digit_def to_lower_def is_upper_def)

lemma toy_listing_ok: "\<forall>r \<in> set toy_listing. valid_datetime (fst r) \<and> canonical_uuid (snd r)"
  by (simp add: toy_listing_def toy_moment_ok toy_uuid_ok)

theorem cursor_round_trip_witness:
  "cursor_key (row_cursor fst snd (toy_moment 7 0, toy_uuid (CHR ''b''))) = Inr (toy_moment 7 0, toy_uuid (CHR ''b''))"
  using cursor_round_trip [of fst "(toy_moment 7 0, toy_uuid (CHR ''b''))" snd] by (simp add: toy_moment_ok toy_uuid_ok)

theorem pages_give_the_listing_witness:
  "follow 4 fst snd 2 None toy_listing = Some (Inr toy_listing)"
proof -
  have sorted: "newest_first_listing fst snd toy_listing"
    by (simp add: newest_first_listing_def toy_listing_def row_key_def moment_def toy_moment_def toy_uuid_def less_char_def)
  have "length toy_listing = 3" by (simp add: toy_listing_def)
  with pages_give_the_listing [OF sorted _ toy_listing_ok, of 2] show ?thesis by simp
qed

end
