(* ===== verification/Spec2Isabelle.thy ===== *)
theory Spec2Isabelle
  imports Expr WorkflowSchema WorkflowCompiler Shell StepCompile Capability Store Jobs JobLaws
    UrlGuard Alerts Automation Session WorkflowEngine WorkflowLaws WorkflowProps WorkflowEndings
    Remediation RemedyWorkers RemedyLaws RemedyProps RemedyDaily
    Redis Signals SignalLaws Correlation CorrelationLaws Incidents IncidentLaws IncidentProps
    PolicyDoc PolicyDocLaws AgentPolicies AgentPolicyLaws AgentPolicyProps AgentAuth AgentAuthProps
    VersionTable Baselines BaselineProps WorkflowCatalog WorkflowCatalogLaws WorkflowCatalogProps
    WorkflowTermination PolicySets PolicyTemplates PolicySetLaws PolicySetProps FimScopes FimScopeProps Access Waivers WaiverLaws WaiverProps Paging PagingProps
begin

text \<open>
  A model of the control plane of LokiLinux (\<open>src/backend/lokilinux\<close>): a server that drives agents on Linux
  hosts by jobs. Operators and schedules create jobs directly, through policies and playbooks, through
  workflows, or through remediation plans; agents fetch their jobs with a heartbeat and report results.

  \<^bold>\<open>Parts and theories.\<close>

  \<^item> \<open>Prelude\<close>: JSON values as Python sees them (\<open>pv\<close>, dictionaries in order, truth of a value, \<open>or\<close>), decimal
    text, exceptions (\<open>exn\<close>), tables as lists of rows with the SQL operations the code uses, and three
    interfaces as locales: a keyed table, a status machine, and a status machine with a rank. \<open>Store\<close> holds
    the rows (\<open>models/\<close>) and the database \<open>db\<close>, and interprets the table interface for them.
  \<^item> \<open>Shell\<close> (\<open>utils/shell.py\<close>, \<open>utils/agent_capability.py\<close>): quoting and input patterns, with a reader of POSIX
    words as the reference. \<open>StepCompile\<close>: the native and shell forms of workflow steps in
    \<open>services/workflow_engine.py\<close>, and that what an operator typed stays one word of the command.
  \<^item> \<open>Expr\<close> (\<open>utils/expr.py\<close>): the expression language of workflow conditions. \<open>WorkflowSchema\<close>
    (\<open>schemas/workflow.py\<close>) and \<open>WorkflowCompiler\<close> (\<open>services/workflow_compiler.py\<close>): documents, their
    validation, the graph search for cycles and unreachable steps, the compiled graph.
  \<^item> \<open>Capability\<close> (\<open>utils/capability_rbac.py\<close>, \<open>services/job_envelope.py\<close>, \<open>services/job_signing.py\<close>,
    \<open>services/approval_claims.py\<close>): who may create which job, signed envelopes, approval claims.
  \<^item> \<open>Jobs\<close> and \<open>JobLaws\<close> (\<open>services/job_service.py\<close>, \<open>services/agent_service.py\<close>, \<open>api/grpc/agent_service.py\<close>,
    \<open>workers/job_timeout.py\<close>): creation, approval, dispatch on a heartbeat, reports, aggregation, sweep and
    cancellation. The step relation \<open>engine_step\<close> interleaves them; the laws are its invariant and history.
  \<^item> \<open>Session\<close>: a database session with commit and rollback, and the creation of a job in it.
  \<^item> \<open>Automation\<close> (\<open>services/policy_service.py\<close>, \<open>workers/policy_scheduler.py\<close>, \<open>services/playbook_service.py\<close>),
    \<open>Alerts\<close> (\<open>services/alert_service.py\<close>), \<open>UrlGuard\<close> (\<open>utils/url_guard.py\<close>).
  \<^item> \<open>WorkflowEngine\<close> (\<open>services/workflow_engine.py\<close>, \<open>workers/workflow_runner.py\<close>,
    \<open>workers/workflow_scheduler.py\<close>): runs and their steps; \<open>WorkflowLaws\<close> holds the invariant of the step
    relation \<open>flow_step\<close>, \<open>WorkflowProps\<close> and \<open>WorkflowEndings\<close> the properties.
  \<^item> \<open>Remediation\<close> (\<open>services/remediation_service.py\<close>, \<open>services/auto_remediation.py\<close>) and \<open>RemedyWorkers\<close>
    (\<open>workers/remediation_scheduler.py\<close>, \<open>workers/remediation_verification.py\<close>): plans, their dispatch, preview
    and rollback, the automatic mode and the verification; \<open>RemedyLaws\<close> holds the invariant of the step relation
    \<open>remedy_step\<close>, \<open>RemedyProps\<close> and \<open>RemedyDaily\<close> the properties.
  \<^item> \<open>Redis\<close> (\<open>cache.py\<close>): the cache as its clients see it, with times to live and outages. \<open>Signals\<close>
    (\<open>signals/\<close>, \<open>workers/signal_processor.py\<close>), \<open>Correlation\<close> (\<open>correlation/\<close>, \<open>workers/correlation_worker.py\<close>)
    and \<open>Incidents\<close> (\<open>incidents/\<close>, \<open>workers/incident_worker.py\<close>): from an event to a deduplicated signal, from
    signals in a window to a candidate, from a candidate to an incident and its life cycle. \<open>SignalLaws\<close>,
    \<open>CorrelationLaws\<close>, \<open>IncidentLaws\<close> and \<open>IncidentProps\<close> hold their laws; an incident group is a slot of a map
    that opening claims and a terminal status releases.
  \<^item> \<open>PolicyDoc\<close> (\<open>services/agent_policy_compiler.py\<close>) and \<open>AgentPolicies\<close> (\<open>services/agent_policies.py\<close>,
    \<open>services/agent_policy_service.py\<close>): policy documents of agents, their versions, deployment to agents, delivery
    over the heartbeat and reports. \<open>PolicyDocLaws\<close> gives the type of a validated document, \<open>AgentPolicyLaws\<close> the
    invariant of the step relation \<open>policy_step\<close>, \<open>AgentPolicyProps\<close> the properties.
  \<^item> \<open>AgentAuth\<close> (\<open>services/cert_revocation.py\<close>, \<open>api/grpc/agent_service.py\<close>, \<open>api/v1/routers/agent_install.py\<close>):
    revocation, the identity gate, renewal of certificates, enrollment tokens and registration; \<open>AgentAuthProps\<close>
    holds the properties, over the step relation \<open>enrollment_step\<close> where time passes.
  \<^item> \<open>VersionTable\<close>: the contract of a table of versions of which one per family is live. \<open>Baselines\<close>
    (\<open>services/baseline_service.py\<close>) and \<open>WorkflowCatalog\<close> (\<open>services/workflow_service.py\<close>) keep such tables
    and interpret it; \<open>BaselineProps\<close>, \<open>WorkflowCatalogLaws\<close> and \<open>WorkflowCatalogProps\<close> hold the properties, up
    to the start of a published workflow by the engine. \<open>WorkflowTermination\<close>: a run that waits for nobody ends,
    by a potential that every event of the system can only lower.
  \<^item> \<open>PolicySets\<close> (\<open>services/policy_set_service.py\<close>, \<open>api/v1/routers/compliance/policy_engine.py\<close>) and
    \<open>PolicyTemplates\<close> (\<open>services/policy_templates.py\<close>): compliance policy sets, their versions, profiles and
    templates, and the view the automatic remediation has of them; \<open>PolicySetLaws\<close> holds the invariant of the step
    relation \<open>set_step\<close>, \<open>PolicySetProps\<close> the properties.
  \<^item> \<open>FimScopes\<close> (\<open>services/fim_scope_service.py\<close>): what an agent watches for file integrity, with the check the
    agent makes of the signed document (\<open>agent/internal/compliance/fimconfig.go\<close>); \<open>FimScopeProps\<close> holds the
    properties.
  \<^item> \<open>Access\<close> (\<open>auth/dependencies.py\<close>, \<open>auth/permissions.py\<close>) and \<open>Waivers\<close>
    (\<open>services/compliance_exception_service.py\<close>, \<open>api/v1/routers/compliance/drift.py\<close>): the guards of routes,
    exceptions to rules and the life of drift incidents, with what the compliance service in Go does to both tables.
    \<open>WaiverLaws\<close> has the step relation \<open>drift_step\<close>, which holds the remediation as well, \<open>WaiverProps\<close> the
    properties.
  \<^item> \<open>Paging\<close> (\<open>schemas/common.py\<close>, \<open>api/v1/routers/compliance/_pagination.py\<close>): cursors, with the base64
    coding and the time format they use, and the pages of a listing; \<open>PagingProps\<close> reads cursors back and follows
    them to the end.

  \<^bold>\<open>How the state corresponds.\<close> A table is the list of its rows in order of insertion; a query is a filter, a
  stable sort or a lookup by key. Enumerations are datatypes, JSONB columns are \<open>pv\<close> values, times are
  microseconds. Whatever a call reads from outside is an argument: the clock, new identifiers, SHA-256 and
  signatures, the Python and YAML parsers, DNS, HTTP, the object store, time zones and cron expressions.
  Exceptions are values: a function that may raise returns \<open>exn + 'a\<close>, or an optional exception with the
  session it leaves behind.

  \<^bold>\<open>What the lemmas show.\<close> Safety: a job that needs approval is sent only after it; an approval step is passed,
  and a plan is applied, only with someone else's approval on record; creating a job that runs code needs an
  administrator; a claim binds one job, agent and expiry. Progress: a tick of a run ends it or moves a step, a
  sweep clears every overdue job. Agreement with a reference: the graph checks decide acyclicity and
  reachability, quoted words are read back as they were, address ranges are the listed ones. The properties
  of kind \<open>error\<close> state what the code does where that differs from what it says or should do.

  \<^bold>\<open>Bounds and fuel.\<close> The depth-first search of the compiler takes fuel; the number of steps plus one is enough,
  and the decision property holds without reference to it. The dispatch loop of a heartbeat ends because
  every round adds a job to those seen. Everything else is structurally recursive.

  \<^bold>\<open>Not modelled.\<close> The listing and reporting routes, user accounts and key storage, the storage of
  events and metrics in ClickHouse, topology, CVE matching, report rendering, plugin and storage management: they
  read, format or forward data, or wrap external services. Caches, audit log lines and NATS messages are
  left out of the operations that are modelled, since nothing modelled reads them. Concurrency between two
  database sessions is modelled where the code guards against it (claims of due times, dispatch marks,
  unique indexes), as separate steps on one database.
\<close>

end
